(* ===== verification/Prelude.thy ===== *)
theory Prelude
  imports Main "HOL-Library.Sublist" "HOL-Library.Char_ord" "HOL-Library.List_Lexorder"
begin

text \<open>
  The notions every component of the development shares.

  A Go string is a sequence of bytes, which is what Isabelle's \<open>string\<close> (a list of
  8-bit characters) is; \<open>len(s)\<close> is \<open>length s\<close>, slicing is \<open>take\<close> and \<open>drop\<close>,
  \<open>strings.HasPrefix(s, p)\<close> is \<open>prefix p s\<close> and \<open>s < t\<close> is the lexicographic order of
  \<open>List_Lexorder\<close> over \<open>Char_ord\<close>.

  A Go map that the code only looks up or ranges over is an association list
  (\<open>gomap\<close>): the list order is one of the iteration orders the language allows, so a
  fact that holds for every list with the same entries holds for every iteration order.
\<close>

named_theorems path_simps "rewriting rules of cleaned paths"
named_theorems go_simps "rewriting rules of Go library functions"

type_synonym 'v gomap = "(string \<times> 'v) list"

definition go_map :: "'v gomap \<Rightarrow> bool" where
  "go_map m \<longleftrightarrow> distinct (map fst m)"

subsection \<open>Splitting, joining and trimming strings\<close>

text \<open>\<open>strings.Split(s, c)\<close> for a one-byte separator: never the empty list.\<close>

fun split_char :: "char \<Rightarrow> string \<Rightarrow> string list" where
  "split_char c [] = [[]]"
| "split_char c (x # xs) =
     (if x = c then [] # split_char c xs
      else (case split_char c xs of [] \<Rightarrow> [[x]] | w # ws \<Rightarrow> (x # w) # ws))"

text \<open>\<open>strings.Join(ws, sep)\<close>.\<close>

fun join_with :: "string \<Rightarrow> string list \<Rightarrow> string" where
  "join_with sep [] = []"
| "join_with sep [w] = w"
| "join_with sep (w # v # ws) = w @ sep @ join_with sep (v # ws)"

text \<open>\<open>strings.TrimLeft\<close>, \<open>TrimRight\<close> and \<open>Trim\<close> with a one-byte cutset.\<close>

definition trim_left :: "char \<Rightarrow> string \<Rightarrow> string" where
  "trim_left c s = dropWhile (\<lambda>x. x = c) s"

definition trim_right :: "char \<Rightarrow> string \<Rightarrow> string" where
  "trim_right c s = rev (dropWhile (\<lambda>x. x = c) (rev s))"

definition trim_both :: "char \<Rightarrow> string \<Rightarrow> string" where
  "trim_both c s = trim_right c (trim_left c s)"

lemma split_char_nonempty [simp]: "split_char c s \<noteq> []"
  by (cases s) (auto split: list.splits)

lemma split_char_no_sep: "w \<in> set (split_char c s) \<Longrightarrow> c \<notin> set w"
proof (induction s arbitrary: w)
  case Nil
  then show ?case by simp
next
  case (Cons x s)
  then show ?case
    by (cases "split_char c s") (auto split: if_splits)
qed

lemma split_char_id [go_simps]: "c \<notin> set s \<Longrightarrow> split_char c s = [s]"
  by (induction s) auto

lemma split_char_append [go_simps]:
  "c \<notin> set w \<Longrightarrow> split_char c (w @ c # s) = w # split_char c s"
  by (induction w) auto

lemma join_with_Cons:
  "ws \<noteq> [] \<Longrightarrow> join_with sep (w # ws) = w @ sep @ join_with sep ws"
  by (cases ws) simp_all

lemma join_split [go_simps]: "join_with [c] (split_char c s) = s"
proof (induction s)
  case Nil
  then show ?case by simp
next
  case (Cons x s)
  show ?case
  proof (cases "split_char c s")
    case Nil
    then show ?thesis by simp
  next
    case (Cons w ws)
    with Cons.IH show ?thesis
      by (cases ws) auto
  qed
qed

lemma split_join [go_simps]:
  "ws \<noteq> [] \<Longrightarrow> \<forall>w \<in> set ws. c \<notin> set w \<Longrightarrow> split_char c (join_with [c] ws) = ws"
proof (induction ws)
  case (Cons w ws)
  then show ?case
    by (cases ws) (simp_all add: split_char_id split_char_append)
qed simp

subsection \<open>Association lists as Go maps\<close>

lemma go_map_Nil [simp]: "go_map []"
  by (simp add: go_map_def)

lemma go_map_lookup: "go_map m \<Longrightarrow> (k, v) \<in> set m \<Longrightarrow> map_of m k = Some v"
  by (simp add: go_map_def)

lemma go_map_set_eq: "go_map m \<Longrightarrow> go_map m' \<Longrightarrow> set m = set m' \<Longrightarrow> map_of m = map_of m'"
proof (rule ext)
  fix k
  assume m: "go_map m" and m': "go_map m'" and eq: "set m = set m'"
  show "map_of m k = map_of m' k"
  proof (cases "map_of m k")
    case None
    with eq have "k \<notin> fst ` set m'" by (metis map_of_eq_None_iff)
    then have "map_of m' k = None" by (simp add: map_of_eq_None_iff)
    with None show ?thesis by simp
  next
    case (Some v)
    then have "(k, v) \<in> set m'" using eq map_of_SomeD by fastforce
    with m' Some show ?thesis by (simp add: go_map_lookup)
  qed
qed

subsection \<open>Results\<close>

lemma map_sum_Inr [simp]: "map_sum id f z = Inr x \<longleftrightarrow> (\<exists>y. z = Inr y \<and> x = f y)"
  by (cases z) auto

subsection \<open>Choosing the best element of a list\<close>

text \<open>
  Several loops of the server keep the best candidate seen so far and replace it only by
  a strictly better one. \<open>pick_best\<close> is that loop.
\<close>

fun pick_best :: "('a \<Rightarrow> 'a \<Rightarrow> bool) \<Rightarrow> 'a option \<Rightarrow> 'a list \<Rightarrow> 'a option" where
  "pick_best better b [] = b"
| "pick_best better b (x # xs) =
     pick_best better
       (case b of None \<Rightarrow> Some x | Some y \<Rightarrow> if better x y then Some x else Some y) xs"

locale best_choice =
  fixes better :: "'a \<Rightarrow> 'a \<Rightarrow> bool" and good :: "'a \<Rightarrow> bool"
  assumes better_trans: "better x y \<Longrightarrow> better y z \<Longrightarrow> better x z"
    and better_irrefl: "\<not> better x x"
    and better_neg_trans: "good x \<Longrightarrow> good y \<Longrightarrow> good z \<Longrightarrow> \<not> better x y \<Longrightarrow> \<not> better y z \<Longrightarrow> \<not> better x z"
begin

lemma pick_best_Some_in:
  "pick_best better b xs = Some r \<Longrightarrow> b = Some r \<or> r \<in> set xs"
  by (induction xs arbitrary: b) (fastforce split: option.splits if_splits)+

lemma pick_best_None: "pick_best better b xs = None \<longleftrightarrow> b = None \<and> xs = []"
  by (induction xs arbitrary: b) (auto split: option.splits)

lemma pick_best_max:
  assumes "pick_best better b xs = Some r" "\<forall>x \<in> set xs. good x" "\<forall>y. b = Some y \<longrightarrow> good y"
  shows "(\<forall>x \<in> set xs. \<not> better x r) \<and> (\<forall>y. b = Some y \<longrightarrow> \<not> better y r)"
  using assms
proof (induction xs arbitrary: b)
  case Nil
  then show ?case by (simp add: better_irrefl)
next
  case (Cons x xs)
  let ?b = "case b of None \<Rightarrow> Some x | Some y \<Rightarrow> if better x y then Some x else Some y"
  have IH: "(\<forall>x \<in> set xs. \<not> better x r) \<and> (\<forall>y. ?b = Some y \<longrightarrow> \<not> better y r)"
    using Cons.prems by (intro Cons.IH) (auto split: option.splits if_splits)
  have r_good: "good r"
    using Cons.prems(2,3) pick_best_Some_in [OF Cons.prems(1)] by auto
  show ?case
  proof (cases b)
    case None
    with IH show ?thesis by simp
  next
    case (Some y)
    with Cons.prems IH r_good show ?thesis
      by (cases "better x y") (auto dest: better_trans better_neg_trans)
  qed
qed

lemma pick_best_unique:
  assumes "pick_best better None xs = Some r" "pick_best better None ys = Some r'"
    and "set xs = set ys" "\<forall>x \<in> set xs. good x"
    and strict: "\<And>x y. x \<in> set xs \<Longrightarrow> y \<in> set xs \<Longrightarrow> \<not> better x y \<Longrightarrow> \<not> better y x \<Longrightarrow> x = y"
  shows "r = r'"
proof -
  have "r \<in> set xs" "r' \<in> set xs"
    using pick_best_Some_in [OF assms(1)] pick_best_Some_in [OF assms(2)] assms(3) by auto
  moreover have "\<not> better r' r" "\<not> better r r'"
    using pick_best_max [OF assms(1)] pick_best_max [OF assms(2)] assms(3,4) calculation by auto
  ultimately show ?thesis using strict by blast
qed

end

end
