(* ===== verification/Vfs_Path.thy ===== *)
theory Vfs_Path
  imports Prelude
begin

text \<open>
  Virtual paths: \<open>vfs.CleanPath\<close> (pkg/vfs/vfs.go), \<open>pathWithinRoot\<close>
  (pkg/openlore/server.go) and \<open>replacePathRoot\<close> (pkg/openlore/alias_fs.go), over the
  standard library's \<open>path.Clean\<close>, \<open>path.Dir\<close>, \<open>path.Base\<close> and \<open>path.Join\<close>.
  A cleaned path is the rendering of a list of segments; on cleaned paths the textual
  prefix test of \<open>pathWithinRoot\<close> is the prefix test on segment lists.
\<close>

subsection \<open>The standard library's path functions\<close>

text \<open>
  The loop of \<open>path.Clean\<close> over the segments, with the output segments as a stack:
  empty and \<open>.\<close> segments are dropped, \<open>..\<close> pops, and at the root (or below a leading
  \<open>..\<close> of a relative path) it does not.
\<close>

fun clean_segs :: "bool \<Rightarrow> string list \<Rightarrow> string list \<Rightarrow> string list" where
  "clean_segs rooted stack [] = rev stack"
| "clean_segs rooted stack (s # ss) =
     (if s = '''' \<or> s = ''.'' then clean_segs rooted stack ss
      else if s = ''..'' then
        (case stack of
           [] \<Rightarrow> clean_segs rooted (if rooted then [] else [''..'']) ss
         | t # ts \<Rightarrow> clean_segs rooted (if t = ''..'' then ''..'' # stack else ts) ss)
      else clean_segs rooted (s # stack) ss)"

definition path_clean :: "string \<Rightarrow> string" where
  "path_clean p =
     (if p = '''' then ''.''
      else let rooted = (hd p = CHR ''/'');
               out = join_with ''/'' (clean_segs rooted [] (split_char CHR ''/'' p))
           in if rooted then CHR ''/'' # out else if out = '''' then ''.'' else out)"

definition after_last_slash :: "string \<Rightarrow> string" where
  "after_last_slash p = rev (takeWhile (\<lambda>c. c \<noteq> CHR ''/'') (rev p))"

definition upto_last_slash :: "string \<Rightarrow> string" where
  "upto_last_slash p = rev (dropWhile (\<lambda>c. c \<noteq> CHR ''/'') (rev p))"

definition path_dir :: "string \<Rightarrow> string" where
  "path_dir p = path_clean (upto_last_slash p)"

definition path_base :: "string \<Rightarrow> string" where
  "path_base p =
     (if p = '''' then ''.''
      else let q = after_last_slash (trim_right CHR ''/'' p)
           in if q = '''' then ''/'' else q)"

definition path_join :: "string \<Rightarrow> string \<Rightarrow> string" where
  "path_join a b =
     (let ws = filter (\<lambda>w. w \<noteq> '''') [a, b]
      in if ws = [] then '''' else path_clean (join_with ''/'' ws))"

subsection \<open>CleanPath, pathWithinRoot and replacePathRoot\<close>

definition CleanPath :: "string \<Rightarrow> string" where
  "CleanPath p = (let q = path_clean (CHR ''/'' # p) in if q = ''.'' then ''/'' else q)"

definition pathWithinRoot :: "string \<Rightarrow> string \<Rightarrow> bool" where
  "pathWithinRoot root p \<longleftrightarrow> root = ''/'' \<or> p = root \<or> prefix (root @ ''/'') p"

definition replacePathRoot :: "string \<Rightarrow> string \<Rightarrow> string \<Rightarrow> string" where
  "replacePathRoot p fr to = (if p = fr then to else CleanPath (to @ drop (length fr) p))"

subsection \<open>Segments\<close>

definition valid_seg :: "string \<Rightarrow> bool" where
  "valid_seg s \<longleftrightarrow> s \<noteq> '''' \<and> s \<noteq> ''.'' \<and> s \<noteq> ''..'' \<and> CHR ''/'' \<notin> set s"

definition of_segs :: "string list \<Rightarrow> string" where
  "of_segs ss = CHR ''/'' # join_with ''/'' ss"

definition segs :: "string \<Rightarrow> string list" where
  "segs p = clean_segs True [] (split_char CHR ''/'' p)"

definition cleaned :: "string \<Rightarrow> bool" where
  "cleaned p \<longleftrightarrow> CleanPath p = p"

lemma CleanPath_of_segs: "CleanPath p = of_segs (segs p)"
proof -
  have "clean_segs True [] (split_char CHR ''/'' (CHR ''/'' # p)) = segs p"
    by (simp add: segs_def)
  then show ?thesis
    by (simp add: CleanPath_def path_clean_def of_segs_def Let_def)
qed

lemma clean_segs_valid:
  assumes "\<forall>s \<in> set ss. CHR ''/'' \<notin> set s" "list_all valid_seg stack"
  shows "list_all valid_seg (clean_segs True stack ss)"
  using assms
proof (induction ss arbitrary: stack)
  case Nil
  then show ?case by (simp add: list_all_iff)
next
  case (Cons s ss)
  then show ?case
    by (cases stack) (auto simp: valid_seg_def)
qed

lemma segs_valid: "list_all valid_seg (segs p)"
  unfolding segs_def by (rule clean_segs_valid) (auto dest: split_char_no_sep)

lemma clean_segs_id:
  "list_all valid_seg ss \<Longrightarrow> clean_segs True stack ss = rev stack @ ss"
  by (induction ss arbitrary: stack) (auto simp: valid_seg_def)

lemma valid_segs_no_slash: "list_all valid_seg ss \<Longrightarrow> \<forall>w \<in> set ss. CHR ''/'' \<notin> set w"
  by (auto simp: list_all_iff valid_seg_def)

lemma segs_of_segs [path_simps]: "list_all valid_seg ss \<Longrightarrow> segs (of_segs ss) = ss"
proof (cases ss)
  case Nil
  then show ?thesis by (simp add: segs_def of_segs_def)
next
  case (Cons w ws)
  assume v: "list_all valid_seg ss"
  have "split_char CHR ''/'' (join_with ''/'' ss) = ss"
    using v Cons by (intro split_join) (auto simp: list_all_iff valid_seg_def)
  with v show ?thesis
    by (simp add: segs_def of_segs_def clean_segs_id)
qed

lemma of_segs_inject:
  "list_all valid_seg ss \<Longrightarrow> list_all valid_seg ts \<Longrightarrow> of_segs ss = of_segs ts \<longleftrightarrow> ss = ts"
  by (metis segs_of_segs)

lemma cleaned_of_segs [path_simps]: "list_all valid_seg ss \<Longrightarrow> cleaned (of_segs ss)"
  by (simp add: cleaned_def CleanPath_of_segs path_simps)

lemma cleaned_CleanPath [simp]: "cleaned (CleanPath p)"
  by (simp add: CleanPath_of_segs cleaned_of_segs segs_valid)

lemma CleanPath_idem [simp]: "CleanPath (CleanPath p) = CleanPath p"
  using cleaned_CleanPath [of p] by (simp only: cleaned_def)

lemma cleaned_segs: "cleaned p \<Longrightarrow> p = of_segs (segs p)"
  by (simp add: cleaned_def CleanPath_of_segs)

lemma cleaned_cases:
  assumes "cleaned p"
  obtains ss where "p = of_segs ss" "list_all valid_seg ss" "segs p = ss"
  using assms cleaned_segs segs_valid by blast

lemma cleaned_slash [simp]: "cleaned ''/''"
  by (simp add: cleaned_def CleanPath_def path_clean_def)

lemma segs_slash [simp]: "segs ''/'' = []"
  by (simp add: segs_def)

subsection \<open>The textual prefix test is a segment prefix test\<close>

lemma of_segs_append:
  "ss \<noteq> [] \<Longrightarrow> of_segs (ss @ ts) = of_segs ss @ (if ts = [] then '''' else of_segs ts)"
proof (induction ss)
  case (Cons s ss)
  then show ?case
    by (cases "ss = []") (auto simp: of_segs_def join_with_Cons)
qed simp

lemma of_segs_empty_iff [path_simps]: "list_all valid_seg ss \<Longrightarrow> of_segs ss = ''/'' \<longleftrightarrow> ss = []"
  using of_segs_inject [of ss "[]"] by (simp add: of_segs_def)

lemma prefix_of_segs:
  assumes r: "list_all valid_seg r" and p: "list_all valid_seg p" and ne: "r \<noteq> []"
  shows "prefix (of_segs r @ ''/'') (of_segs p) \<longleftrightarrow> prefix r p \<and> r \<noteq> p"
proof
  assume "prefix (of_segs r @ ''/'') (of_segs p)"
  then obtain z where z: "of_segs p = of_segs r @ CHR ''/'' # z"
    by (auto simp: prefix_def)
  let ?sp = "split_char CHR ''/''"
  have "?sp (join_with ''/'' p) = ?sp (join_with ''/'' r @ CHR ''/'' # z)"
    using z by (simp add: of_segs_def)
  also have "\<dots> = r @ ?sp z"
    using r ne
  proof (induction r)
    case (Cons w ws)
    then show ?case
      by (cases ws) (auto simp: split_char_append valid_seg_def)
  qed simp
  finally have "?sp (join_with ''/'' p) = r @ ?sp z" .
  moreover have "?sp (join_with ''/'' p) = (if p = [] then [[]] else p)"
    using p by (auto intro!: split_join simp: list_all_iff valid_seg_def)
  ultimately have "p = r @ ?sp z"
    using ne r by (cases "p = []") (auto simp: valid_seg_def Cons_eq_append_conv)
  then show "prefix r p \<and> r \<noteq> p" by (auto simp: prefix_def)
next
  assume "prefix r p \<and> r \<noteq> p"
  then obtain ts where "p = r @ ts" "ts \<noteq> []"
    by (auto simp: prefix_def)
  with ne show "prefix (of_segs r @ ''/'') (of_segs p)"
    by (auto simp: of_segs_append) (simp add: of_segs_def)
qed

lemma pathWithinRoot_segs:
  assumes "cleaned root" "cleaned p"
  shows "pathWithinRoot root p \<longleftrightarrow> prefix (segs root) (segs p)"
proof -
  obtain r where r: "root = of_segs r" "list_all valid_seg r" "segs root = r"
    using assms(1) by (rule cleaned_cases)
  obtain q where q: "p = of_segs q" "list_all valid_seg q" "segs p = q"
    using assms(2) by (rule cleaned_cases)
  show ?thesis
  proof (cases "r = []")
    case True
    with r show ?thesis by (simp add: pathWithinRoot_def of_segs_def)
  next
    case False
    with r q show ?thesis
      by (auto simp: pathWithinRoot_def prefix_of_segs of_segs_inject of_segs_empty_iff)
  qed
qed

lemma pathWithinRoot_refl [simp]: "pathWithinRoot p p"
  by (simp add: pathWithinRoot_def)

lemma pathWithinRoot_slash [simp]: "pathWithinRoot ''/'' p"
  by (simp add: pathWithinRoot_def)

lemma pathWithinRoot_trans:
  "cleaned a \<Longrightarrow> cleaned b \<Longrightarrow> cleaned c \<Longrightarrow> pathWithinRoot a b \<Longrightarrow> pathWithinRoot b c \<Longrightarrow> pathWithinRoot a c"
  by (auto simp: pathWithinRoot_segs)

lemma cleaned_prefix_slash: "cleaned p \<Longrightarrow> prefix ''/'' p"
  by (metis cleaned_segs of_segs_def Cons_prefix_Cons Nil_prefix)

lemma pathWithinRoot_prefix:
  "pathWithinRoot root p \<Longrightarrow> cleaned p \<Longrightarrow> prefix root p"
  using cleaned_prefix_slash [of p] by (auto simp: pathWithinRoot_def dest: append_prefixD)

lemma pathWithinRoot_length:
  "pathWithinRoot root p \<Longrightarrow> cleaned p \<Longrightarrow> length root \<le> length p"
  by (rule prefix_length_le) (rule pathWithinRoot_prefix)

text \<open>Two cleaned roots of the same path with the same length are the same root.\<close>

lemma pathWithinRoot_same_length:
  assumes "pathWithinRoot a p" "pathWithinRoot b p" "cleaned p"
    and "length a = length b"
  shows "a = b"
proof -
  have "prefix a p" "prefix b p"
    using assms by (auto intro: pathWithinRoot_prefix)
  with assms(4) show ?thesis
    by (auto simp: prefix_def append_eq_append_conv)
qed

subsection \<open>The parent of a cleaned path\<close>

lemma path_clean_rooted: "prefix ''/'' p \<Longrightarrow> path_clean p = of_segs (segs p)"
  by (cases p) (auto simp: path_clean_def segs_def of_segs_def Let_def)

lemma split_of_segs_slash:
  "list_all valid_seg ss \<Longrightarrow> split_char CHR ''/'' (of_segs ss @ ''/'') = [] # (if ss = [] then [[]] else ss) @ [[]]"
proof (cases ss)
  case Nil
  then show ?thesis by (simp add: of_segs_def)
next
  case (Cons w ws)
  assume v: "list_all valid_seg ss"
  have "ss \<noteq> [] \<Longrightarrow> list_all valid_seg ss \<Longrightarrow> split_char CHR ''/'' (join_with ''/'' ss @ ''/'') = ss @ [[]]" for ss
  proof (induction ss)
    case (Cons a ss)
    then show ?case
      by (cases ss) (auto simp: split_char_append valid_seg_def)
  qed simp
  then show ?thesis using v Cons by (simp add: of_segs_def)
qed

lemma clean_segs_append_empty: "clean_segs r st (ss @ [[]]) = clean_segs r st ss"
  by (induction r st ss rule: clean_segs.induct) (auto split: list.splits)

lemma path_dir_of_segs:
  assumes "list_all valid_seg (ss @ [x])"
  shows "path_dir (of_segs (ss @ [x])) = of_segs ss"
proof -
  have nox: "\<forall>c \<in> set x. c \<noteq> CHR ''/''" and ss: "list_all valid_seg ss"
    using assms by (auto simp: valid_seg_def)
  have e: "of_segs (ss @ [x]) = (if ss = [] then ''/'' else of_segs ss @ ''/'') @ x"
    using of_segs_append [of ss "[x]"] by (cases "ss = []") (simp_all add: of_segs_def)
  have "upto_last_slash (p @ ''/'' @ x) = p @ ''/''" for p
    using nox by (simp add: upto_last_slash_def dropWhile_append)
  then have u: "upto_last_slash (of_segs (ss @ [x])) = (if ss = [] then ''/'' else of_segs ss @ ''/'')"
    unfolding e using nox by (cases "ss = []") (auto simp: upto_last_slash_def dropWhile_append)
  show ?thesis
  proof (cases "ss = []")
    case True
    then show ?thesis using u by (simp add: path_dir_def path_clean_rooted of_segs_def)
  next
    case False
    have "prefix ''/'' (of_segs ss @ ''/'')"
      by (simp add: of_segs_def)
    moreover have "segs (of_segs ss @ ''/'') = ss"
      using False ss by (simp add: segs_def split_of_segs_slash clean_segs_append_empty clean_segs_id)
    ultimately show ?thesis
      using False by (simp add: path_dir_def u path_clean_rooted)
  qed
qed

lemma path_dir_slash [simp]: "path_dir ''/'' = ''/''"
  by (simp add: path_dir_def upto_last_slash_def path_clean_def)

end
