(* ===== verification/Vfs.thy ===== *)
theory Vfs
  imports Vfs_Path "HOL-Library.Word"
begin

unbundle bit_operations_syntax

text \<open>
  The filesystem contract of pkg/vfs/vfs.go: file information, the errors the backends
  return, the read interface \<open>FileSystem\<close> as a record of its three operations,
  \<open>WalkDir\<close>, the write preconditions and snapshots, the write-conflict policy and the
  flags of extended attributes. Byte strings and hashes are \<open>string\<close>.
\<close>

subsection \<open>Files and errors\<close>

record file_info =
  FileName :: string
  FilePath :: string
  Content :: string
  Dir :: bool
  FileModTime :: int
  FileSize :: int
  LinkTarget :: string

text \<open>
  The errors the modelled code tells apart: \<open>fs.ErrNotExist\<close>, the read-only and permission
  sentinels, the \<open>syscall\<close> errno values, the two compare-and-swap failures, a change that a
  middleware has put aside (its target and reference), a document that breaks a rule, and every
  other error as \<open>OtherError\<close> with its message.
\<close>

datatype vfs_error =
    ErrNotExist string
  | ErrReadOnly string
  | ErrPermission string
  | ENOTDIR
  | ENOTSUP
  | ENODATA
  | PreconditionError string string
  | TreeStaleError string string
  | PendingChangeError string string
  | RuleRejection string
  | OtherError string

type_synonym 'a vres = "vfs_error + 'a"

fun is_not_exist :: "vfs_error \<Rightarrow> bool" where
  "is_not_exist (ErrNotExist _) = True"
| "is_not_exist _ = False"

record fs =
  fs_Stat :: "string \<Rightarrow> file_info vres"
  fs_ReadDir :: "string \<Rightarrow> file_info list vres"
  fs_ReadFile :: "string \<Rightarrow> string vres"

definition vfs_Dir :: "string \<Rightarrow> int \<Rightarrow> file_info" where
  "vfs_Dir p t = \<lparr>FileName = path_base p, FilePath = p, Content = '''', Dir = True,
     FileModTime = t, FileSize = 0, LinkTarget = ''''\<rparr>"

definition vfs_File :: "string \<Rightarrow> string \<Rightarrow> string \<Rightarrow> int \<Rightarrow> file_info" where
  "vfs_File nm p content t = \<lparr>FileName = nm, FilePath = p, Content = content, Dir = False,
     FileModTime = t, FileSize = int (length content), LinkTarget = ''''\<rparr>"

subsection \<open>WalkDir\<close>

text \<open>
  \<open>WalkDir\<close> visits a path, then its children in the order \<open>ReadDir\<close> lists them, and stops
  at the first error its callback returns. The recursion is the depth-first traversal
  written over the stack of paths still to visit; the callback's captured variables are
  the state \<open>s\<close>, and its result is an error or the new state. A backend may present an
  endless tree, so the walk is a partial function: \<open>None\<close> is a walk that does not return.
\<close>

type_synonym 's walk_fn =
  "string \<Rightarrow> file_info option \<Rightarrow> vfs_error option \<Rightarrow> 's \<Rightarrow> vfs_error + 's"

partial_function (option) walk_list ::
  "fs \<Rightarrow> 's walk_fn \<Rightarrow> string list \<Rightarrow> 's \<Rightarrow> (vfs_error + 's) option" where
  "walk_list F fn work s =
     (case work of
        [] \<Rightarrow> Some (Inr s)
      | p # rest \<Rightarrow>
          (case fs_Stat F (CleanPath p) of
             Inl e \<Rightarrow>
               (case fn (CleanPath p) None (Some e) s of
                  Inl e' \<Rightarrow> Some (Inl e')
                | Inr s' \<Rightarrow> walk_list F fn rest s')
           | Inr f \<Rightarrow>
               (case fn (CleanPath p) (Some f) None s of
                  Inl e' \<Rightarrow> Some (Inl e')
                | Inr s' \<Rightarrow>
                    if \<not> Dir f then walk_list F fn rest s'
                    else (case fs_ReadDir F (CleanPath p) of
                            Inl e \<Rightarrow>
                              (case fn (CleanPath p) None (Some e) s' of
                                 Inl e' \<Rightarrow> Some (Inl e')
                               | Inr s'' \<Rightarrow> walk_list F fn rest s'')
                          | Inr entries \<Rightarrow>
                              walk_list F fn
                                (map (\<lambda>e. path_join (CleanPath p) (FileName e)) entries @ rest) s'))))"

declare walk_list.simps [code]

definition walk_step ::
  "(fs \<Rightarrow> 's walk_fn \<Rightarrow> string list \<Rightarrow> 's \<Rightarrow> (vfs_error + 's) option) \<Rightarrow>
   fs \<Rightarrow> 's walk_fn \<Rightarrow> string list \<Rightarrow> 's \<Rightarrow> (vfs_error + 's) option" where
  "walk_step walk F fn work s =
     (case work of
        [] \<Rightarrow> Some (Inr s)
      | p # rest \<Rightarrow>
          (case fs_Stat F (CleanPath p) of
             Inl e \<Rightarrow>
               (case fn (CleanPath p) None (Some e) s of
                  Inl e' \<Rightarrow> Some (Inl e')
                | Inr s' \<Rightarrow> walk F fn rest s')
           | Inr f \<Rightarrow>
               (case fn (CleanPath p) (Some f) None s of
                  Inl e' \<Rightarrow> Some (Inl e')
                | Inr s' \<Rightarrow>
                    if \<not> Dir f then walk F fn rest s'
                    else (case fs_ReadDir F (CleanPath p) of
                            Inl e \<Rightarrow>
                              (case fn (CleanPath p) None (Some e) s' of
                                 Inl e' \<Rightarrow> Some (Inl e')
                               | Inr s'' \<Rightarrow> walk F fn rest s'')
                          | Inr entries \<Rightarrow>
                              walk F fn
                                (map (\<lambda>e. path_join (CleanPath p) (FileName e)) entries @ rest) s'))))"

lemma walk_list_induct [consumes 1, case_names step]:
  assumes "walk_list F fn work s = Some r"
    and "\<And>walk F fn work s r.
      (\<And>F fn work s r. walk F fn work s = Some r \<Longrightarrow> P F fn work s r) \<Longrightarrow>
      walk_step walk F fn work s = Some r \<Longrightarrow> P F fn work s r"
  shows "P F fn work s r"
  using assms(1)
  by (rule walk_list.raw_induct [where P = P, rotated]) (rule assms(2), unfold walk_step_def)

definition WalkDir :: "fs \<Rightarrow> string \<Rightarrow> 's walk_fn \<Rightarrow> 's \<Rightarrow> (vfs_error + 's) option" where
  "WalkDir F root fn s = walk_list F fn [root] s"

text \<open>
  The walk returns when the tree below the path is finite: every path has a rank, a child's
  rank being smaller than its directory's.
\<close>

definition walk_ranked :: "fs \<Rightarrow> (string \<Rightarrow> nat) \<Rightarrow> bool" where
  "walk_ranked F rank \<longleftrightarrow>
     (\<forall>p f entries. fs_Stat F (CleanPath p) = Inr f \<longrightarrow> Dir f \<longrightarrow>
        fs_ReadDir F (CleanPath p) = Inr entries \<longrightarrow>
        (\<forall>e \<in> set entries. rank (path_join (CleanPath p) (FileName e)) < rank p))"

lemma walk_list_returns:
  assumes ranked: "walk_ranked F rank"
  shows "\<exists>r. walk_list F fn work s = Some r"
proof -
  have one: "(\<And>s. \<exists>r. walk_list F fn rest s = Some r) \<Longrightarrow> \<exists>r. walk_list F fn (p # rest) s = Some r"
    for p rest s
  proof (induction "rank p" arbitrary: p rest s rule: less_induct)
    case less
    have many: "\<exists>r. walk_list F fn (map (\<lambda>e. path_join (CleanPath p) (FileName e)) es @ rest) s = Some r"
      if "\<forall>e \<in> set es. rank (path_join (CleanPath p) (FileName e)) < rank p" for es s
      using that
    proof (induction es arbitrary: s)
      case Nil
      then show ?case using less.prems by simp
    next
      case (Cons e es)
      then show ?case using less.hyps by simp
    qed
    show ?case
    proof (cases "fs_Stat F (CleanPath p)")
      case (Inl e)
      then show ?thesis
        using less.prems by (subst walk_list.simps) (simp split: sum.split)
    next
      case (Inr f)
      have "\<forall>e \<in> set es. rank (path_join (CleanPath p) (FileName e)) < rank p"
        if "Dir f" "fs_ReadDir F (CleanPath p) = Inr es" for es
        using ranked Inr that by (auto simp: walk_ranked_def)
      then show ?thesis
        using Inr less.prems many
        by (subst walk_list.simps) (auto split: sum.split)
    qed
  qed
  show ?thesis
  proof (induction work arbitrary: s)
    case Nil
    show ?case by (subst walk_list.simps) simp
  next
    case (Cons p work)
    then show ?case by (rule one)
  qed
qed

subsection \<open>Write preconditions, snapshots and policies\<close>

record write_opts =
  IfMatch :: "string option"
  IfNoneMatch :: bool
  ContentPolicyValidated :: bool

definition unconditional :: write_opts where
  "unconditional = \<lparr>IfMatch = None, IfNoneMatch = False, ContentPolicyValidated = False\<rparr>"

record tree_op =
  RelPath :: string
  Kind :: string
  Hash :: string
  Size :: int

record tree_snapshot =
  Root :: string
  Ops :: "tree_op list"

record remove_opts =
  Expected :: "tree_snapshot option"

datatype write_conflict_policy = PolicyHash | PolicyLastWriteWins

definition DefaultWriteConflictPolicy :: write_conflict_policy where
  "DefaultWriteConflictPolicy = PolicyHash"

definition ParseWriteConflictPolicy :: "string \<Rightarrow> write_conflict_policy vres" where
  "ParseWriteConflictPolicy s =
     (if s = '''' then Inr DefaultWriteConflictPolicy
      else if s = ''hash'' then Inr PolicyHash
      else if s = ''last_write_wins'' then Inr PolicyLastWriteWins
      else Inl (OtherError ''invalid write_conflict_policy''))"

text \<open>\<open>XattrFlags\<close> is a 32-bit bit set with the bits \<open>XattrCreate\<close> and \<open>XattrReplace\<close>.\<close>

type_synonym xattr_flags = "32 word"

definition XattrCreate :: xattr_flags where
  "XattrCreate = push_bit 0 1"

definition XattrReplace :: xattr_flags where
  "XattrReplace = push_bit 1 1"

definition xattr_flags_Valid :: "xattr_flags \<Rightarrow> bool" where
  "xattr_flags_Valid f \<longleftrightarrow>
     f AND NOT (XattrCreate OR XattrReplace) = 0 \<and> f \<noteq> (XattrCreate OR XattrReplace)"

record xattr_edit =
  xe_Name :: string
  xe_Value :: string
  xe_Remove :: bool

record xattr_migration =
  NamespacePrefix :: string
  ExpectedEnvelopeSHA256 :: string
  Edits :: "xattr_edit list"

end
