(* ===== verification/Go_Strings.thy ===== *)
theory Go_Strings
  imports Prelude
begin

text \<open>
  Functions of Go's standard library over strings that several components use: the removal of
  white space (\<open>strings.TrimSpace\<close>), decimal numbers (\<open>strconv.Atoi\<close>, the verb \<open>%d\<close>), and the
  UTF-8 encoding of runes.
\<close>

subsection \<open>White space\<close>

text \<open>
  \<open>strings.TrimSpace\<close> removes the code points of \<open>unicode.IsSpace\<close>; over bytes these are
  the UTF-8 encodings below.
\<close>

definition space_encodings :: "string list" where
  "space_encodings =
     map (\<lambda>n. [char_of n]) [9, 10, 11, 12, 13, 32 :: nat]
     @ map (\<lambda>n. [char_of (0xC2 :: nat), char_of n]) [0x85, 0xA0 :: nat]
     @ [map char_of [0xE1, 0x9A, 0x80 :: nat]]
     @ map (\<lambda>n. map char_of [0xE2, 0x80, n]) ([0x80 ..< 0x8B] @ [0xA8, 0xA9, 0xAF :: nat])
     @ [map char_of [0xE2, 0x81, 0x9F :: nat], map char_of [0xE3, 0x80, 0x80 :: nat]]"

lemma space_encodings_nonempty: "e \<in> set space_encodings \<Longrightarrow> e \<noteq> []"
  by (auto simp: space_encodings_def)

function trim_encodings :: "string list \<Rightarrow> string \<Rightarrow> string" where
  "trim_encodings es s =
     (case find (\<lambda>e. e \<noteq> [] \<and> prefix e s) es of
        None \<Rightarrow> s
      | Some e \<Rightarrow> trim_encodings es (drop (length e) s))"
  by pat_completeness auto
termination
  by (relation "measure (\<lambda>(es, s). length s)") (auto simp: find_Some_iff prefix_def)

declare trim_encodings.simps [simp del]

definition TrimSpaceLeft :: "string \<Rightarrow> string" where
  "TrimSpaceLeft s = trim_encodings space_encodings s"

definition TrimSpaceRight :: "string \<Rightarrow> string" where
  "TrimSpaceRight s = rev (trim_encodings (map rev space_encodings) (rev s))"

definition TrimSpace :: "string \<Rightarrow> string" where
  "TrimSpace s = TrimSpaceRight (TrimSpaceLeft s)"

lemma TrimSpace_Nil [simp]: "TrimSpace '''' = ''''"
proof -
  have "trim_encodings es '''' = ''''" for es
    by (subst trim_encodings.simps) (auto split: option.splits simp: find_Some_iff)
  then show ?thesis
    by (simp add: TrimSpace_def TrimSpaceLeft_def TrimSpaceRight_def)
qed

lemma trim_encodings_suffix: "suffix (trim_encodings es s) s"
proof (induction s rule: length_induct)
  case (1 s)
  show ?case
  proof (cases "find (\<lambda>e. e \<noteq> [] \<and> prefix e s) es")
    case (Some e)
    then have "e \<noteq> []" "prefix e s" by (auto simp: find_Some_iff)
    then have "length (drop (length e) s) < length s" by (cases s) auto
    with 1 have "suffix (trim_encodings es (drop (length e) s)) (drop (length e) s)" by blast
    with Some show ?thesis
      by (simp add: trim_encodings.simps [of es s] suffix_order.trans [OF _ suffix_drop])
  qed (simp add: trim_encodings.simps [of es s])
qed

lemma TrimSpace_sublist: "sublist (TrimSpace s) s"
proof -
  have "prefix (TrimSpace s) (TrimSpaceLeft s)"
    using trim_encodings_suffix [of "map rev space_encodings" "rev (TrimSpaceLeft s)"]
    by (simp add: TrimSpace_def TrimSpaceRight_def suffix_to_prefix)
  moreover have "suffix (TrimSpaceLeft s) s"
    by (simp add: TrimSpaceLeft_def trim_encodings_suffix)
  ultimately show ?thesis
    by (meson prefix_imp_sublist suffix_imp_sublist sublist_order.order.trans)
qed

text \<open>What starts and ends with bytes that no white space starts or ends with is left as it is.\<close>

lemma TrimSpace_id:
  assumes "s \<noteq> []" "\<And>e. e \<in> set space_encodings \<Longrightarrow> hd e \<noteq> hd s \<and> last e \<noteq> last s"
  shows "TrimSpace s = s"
proof -
  have same: "prefix u v \<Longrightarrow> u \<noteq> [] \<Longrightarrow> hd u = hd v" for u v :: string
    by (auto simp: prefix_def)
  have "\<not> prefix e s" "\<not> prefix (rev e) (rev s)" if "e \<in> set space_encodings" for e
    using same [of e s] same [of "rev e" "rev s"] assms that space_encodings_nonempty [OF that]
    by (auto simp: hd_rev)
  then have "find (\<lambda>e. e \<noteq> [] \<and> prefix e s) space_encodings = None"
    "find (\<lambda>e. e \<noteq> [] \<and> prefix e (rev s)) (map rev space_encodings) = None"
    by (auto simp: find_None_iff)
  then show ?thesis
    by (simp add: TrimSpace_def TrimSpaceLeft_def TrimSpaceRight_def trim_encodings.simps)
qed

subsection \<open>Numbers\<close>

definition digit_char :: "char \<Rightarrow> bool" where
  "digit_char c \<longleftrightarrow> (let n = of_char c :: nat in 48 \<le> n \<and> n \<le> 57)"

definition digits_value :: "string \<Rightarrow> int" where
  "digits_value ds = foldl (\<lambda>v d. 10 * v + (of_char d - 48)) 0 ds"

text \<open>\<open>strconv.Atoi\<close>: an optional sign and decimal digits, in the range of a 64-bit integer.\<close>

definition Atoi :: "string \<Rightarrow> int option" where
  "Atoi s =
     (let neg = prefix ''-'' s;
          ds = (if neg \<or> prefix ''+'' s then tl s else s);
          v = (if neg then - digits_value ds else digits_value ds)
      in if ds = '''' \<or> \<not> list_all digit_char ds \<or> v < - (2 ^ 63) \<or> v \<ge> 2 ^ 63 then None else Some v)"

text \<open>The verb \<open>%d\<close>.\<close>

fun decimal_nat :: "nat \<Rightarrow> string" where
  "decimal_nat n =
     (if n < 10 then [char_of (48 + n)] else decimal_nat (n div 10) @ [char_of (48 + n mod 10)])"

declare decimal_nat.simps [simp del]

definition decimal :: "int \<Rightarrow> string" where
  "decimal i = (if i < 0 then CHR ''-'' # decimal_nat (nat (- i)) else decimal_nat (nat i))"

subsection \<open>Runes\<close>

text \<open>
  Ranging over a Go string decodes UTF-8: a malformed byte counts as the replacement rune U+FFFD
  of length one. Writing a rune encodes it.
\<close>

definition byte :: "char \<Rightarrow> nat" where
  "byte c = of_char c"

definition cont :: "char \<Rightarrow> bool" where
  "cont c \<longleftrightarrow> 0x80 \<le> byte c \<and> byte c \<le> 0xBF"

definition second_ok :: "nat \<Rightarrow> char \<Rightarrow> bool" where
  "second_ok a c \<longleftrightarrow>
     (if a = 0xE0 then 0xA0 else if a = 0xF0 then 0x90 else 0x80) \<le> byte c
     \<and> byte c \<le> (if a = 0xED then 0x9F else if a = 0xF4 then 0x8F else 0xBF)"

definition byte_at :: "nat \<Rightarrow> string \<Rightarrow> char" where
  "byte_at i s = (if i < length s then s ! i else CHR 0x00)"

text \<open>\<open>utf8.DecodeRuneInString\<close>: the rune and its length.\<close>

definition decodeRune :: "string \<Rightarrow> nat \<times> nat" where
  "decodeRune s =
     (let a = byte (byte_at 0 s); b = byte_at 1 s; c = byte_at 2 s; d = byte_at 3 s; bad = (0xFFFD, 1)
      in if s = [] then (0xFFFD, 0)
         else if a < 0x80 then (a, 1)
         else if 0xC2 \<le> a \<and> a \<le> 0xDF then
           (if 2 \<le> length s \<and> cont b then ((a mod 0x20) * 0x40 + byte b mod 0x40, 2) else bad)
         else if 0xE0 \<le> a \<and> a \<le> 0xEF then
           (if 3 \<le> length s \<and> second_ok a b \<and> cont c then
              ((a mod 0x10) * 0x1000 + (byte b mod 0x40) * 0x40 + byte c mod 0x40, 3) else bad)
         else if 0xF0 \<le> a \<and> a \<le> 0xF4 then
           (if 4 \<le> length s \<and> second_ok a b \<and> cont c \<and> cont d then
              ((a mod 8) * 0x40000 + (byte b mod 0x40) * 0x1000 + (byte c mod 0x40) * 0x40 + byte d mod 0x40, 4)
            else bad)
         else bad)"

function runes :: "string \<Rightarrow> nat list" where
  "runes [] = []"
| "runes (c # s) = fst (decodeRune (c # s)) # runes (drop (snd (decodeRune (c # s)) - 1) s)"
  by pat_completeness auto
termination
  by (relation "measure length") auto

definition encodeRune :: "nat \<Rightarrow> string" where
  "encodeRune r =
     (let cb = (\<lambda>k. char_of (0x80 + (r div k) mod 0x40))
      in if r < 0x80 then [char_of r]
         else if r < 0x800 then [char_of (0xC0 + r div 0x40), cb 1]
         else if r < 0x10000 then [char_of (0xE0 + r div 0x1000), cb 0x40, cb 1]
         else [char_of (0xF0 + r div 0x40000), cb 0x1000, cb 0x40, cb 1])"

end
