(* ===== verification/Config.thy ===== *)
theory Config
  imports Vfs Go_Strings
begin

text \<open>
  The authorization configuration of internal/config/config.go and sources.go, as records
  with the fields the authorization code reads, and the helpers over it: \<open>displayPath\<close> and
  \<open>primaryDisplayPath\<close> (pkg/openlore/authz.go) and \<open>IsDirConfigPath\<close> (pkg/rules/engine.go).
  JSON maps are association lists (\<open>gomap\<close>), their order being one of the orders a Go range may
  take.
\<close>

subsection \<open>Configuration records\<close>

record capability_rules =
  Capabilities :: "string list"

record role_spec =
  rs_Allow :: capability_rules
  rs_Deny :: capability_rules

record docset_access =
  da_Allow :: "string gomap"
  da_Deny :: "string list"

record dir_config_permission =
  Edit :: "string list"

record path_mapping =
  Source :: string
  Display :: string

record projection_spec =
  Store :: string
  Subpath :: string
  Include :: "string list"
  Exclude :: "string list"

text \<open>
  \<open>OKFDocsetConfig\<close>, and \<open>RuleSpec\<close> of pkg/rules. The values under \<open>with\<close> are any JSON; the model
  has the canonical text of the object, and None for a nil map.
\<close>

record okf_config =
  okf_Enforce :: "bool option"
  okf_Patterns :: "string list"

record rule_spec =
  rl_Match :: "string list"
  rl_Exclude :: "string list"
  rl_Use :: string
  rl_With :: "string option"
  rl_Enforce :: "bool option"
  rl_Default :: bool

record docset_spec =
  Paths :: "path_mapping list"
  Projection :: "projection_spec option"
  Access :: docset_access
  ds_Config :: "dir_config_permission option"
  Aliases :: "string list"
  Inbox :: string
  MaxWriteSize :: int
  ds_Readonly :: "bool option"
  ds_WriteConflictPolicy :: string
  OKF :: "okf_config option"
  ds_Rules :: "rule_spec gomap"

record delegate_entry =
  de_Identity :: string
  de_Roles :: "string list option"
  de_DenyDocsets :: "string list"
  de_DenyCapabilities :: "string list"
  de_ClientAuth :: string

record identity_match =
  im_Sub :: string
  im_SubPrefix :: string
  im_Aud :: string
  im_Claims :: "string gomap"
  im_Scope :: string
  im_TTL :: string

record auth_identity =
  ai_Name :: string
  ai_CreatedBy :: string
  ai_PublicKey :: string
  ai_Roles :: "string list"
  ai_Home :: string
  ai_Match :: "identity_match list"
  ai_Delegates :: "delegate_entry list"

record auth_config =
  ac_AllowKeyless :: "bool option"
  ac_UnknownIdentity :: string
  ac_DefaultCwd :: string
  Docsets :: "docset_spec gomap"
  ac_Roles :: "role_spec gomap"
  Identities :: "auth_identity list"

text \<open>\<open>ClientAuthLevel\<close> (pkg/openlore/cimd.go) is a string type; the empty level is \<open>AuthLevelOther\<close> of the empty string.\<close>

datatype client_auth_level =
    AuthPrivateKeyJWTMTLS
  | AuthPrivateKeyJWT
  | AuthCIMD
  | AuthDCRDomain
  | AuthDCRLocal
  | AuthLevelOther string

text \<open>A JSON document with a repeated key keeps the last one, so the maps have distinct keys.\<close>

definition auth_config_maps :: "auth_config \<Rightarrow> bool" where
  "auth_config_maps auth \<longleftrightarrow>
     go_map (Docsets auth) \<and> go_map (ac_Roles auth)
     \<and> (\<forall>(n, ds) \<in> set (Docsets auth). go_map (da_Allow (Access ds)))"

subsection \<open>Display paths\<close>

definition displayPath :: "path_mapping \<Rightarrow> string" where
  "displayPath pm = CleanPath (if Display pm = '''' then Source pm else Display pm)"

definition primaryDisplayPath :: "docset_spec \<Rightarrow> string" where
  "primaryDisplayPath ds = (case Paths ds of [] \<Rightarrow> '''' | pm # _ \<Rightarrow> displayPath pm)"

lemma cleaned_displayPath [simp]: "cleaned (displayPath pm)"
  by (simp add: displayPath_def)

text \<open>The folder-configuration file of a directory: \<open><dir>/.lore/config.yaml\<close>, not nested in another \<open>.lore\<close>.\<close>

definition IsDirConfigPath :: "string \<Rightarrow> bool" where
  "IsDirConfigPath target =
     (let clean = CleanPath target
      in path_base clean = ''config.yaml'' \<and> path_base (path_dir clean) = ''.lore''
         \<and> ''.lore'' \<notin> set (split_char CHR ''/'' (trim_both CHR ''/'' (path_dir (path_dir clean)))))"

end
