(* ===== verification/Changeset.thy ===== *)
theory Changeset
  imports Vfs
begin

text \<open>
  Change sets (pkg/vfs/changeset.go): the one primitive every mutation is turned into, a
  single change or an ordered batch, and its validation. Payload pointers are options; the
  copies the code makes (\<open>cloneXattr\<close> and its kin) have no effect on values. \<open>sha\<close> stands
  for the hexadecimal SHA-256 of the standard library's crypto package.
\<close>

subsection \<open>Data\<close>

datatype change_action =
    ChangeActionWrite
  | ChangeActionMkdir
  | ChangeActionMkdirAll
  | ChangeActionRemove
  | ChangeActionRemoveAll
  | ChangeActionSetXattr
  | ChangeActionRemoveXattr
  | ChangeActionPreserveAndRecreateXattrs
  | ChangeActionMigrateXattrs
  | ChangeActionOther string

text \<open>\<open>ChangeAction\<close> is a string type; \<open>ChangeActionOther s\<close> is any string that is not one of
  the nine constants, the empty string of the zero value among them.\<close>

record write_change =
  wc_Bytes :: string
  wc_Opts :: write_opts
  wc_Generated :: bool

record remove_all_change =
  rc_Opts :: remove_opts

record xattr_change =
  xc_Name :: string
  xc_Value :: string
  xc_Flags :: xattr_flags

record xattr_repair_change =
  xr_Attributes :: "string gomap"

record change =
  Target :: string
  Action :: change_action
  Write :: "write_change option"
  RemoveAll :: "remove_all_change option"
  Xattr :: "xattr_change option"
  XattrRepair :: "xattr_repair_change option"
  XattrMigration :: "xattr_migration option"

record move =
  From :: int
  To :: int

record changeset = change +
  Changes :: "change list"
  Moves :: "move list"

definition Leaves :: "changeset \<Rightarrow> change list" where
  "Leaves cs = (if Changes cs \<noteq> [] then Changes cs else [change.truncate cs])"

subsection \<open>Validation\<close>

datatype change_error =
    MissingTarget
  | WritePayload
  | RemoveAllPayload
  | NoPayload change_action
  | SetXattrPayload
  | RemoveXattrPayload
  | RepairPayload
  | MigrationPayload
  | UnknownAction string

datatype changeset_error =
    BatchWithSingletonFields
  | LeafError nat change_error
  | MoveIndices nat
  | MoveActions nat
  | MoveContent nat
  | MovePairedTwice nat
  | SingletonWithMoves
  | SingletonError change_error

definition payload_count :: "'a change_scheme \<Rightarrow> nat" where
  "payload_count c =
     (if Write c \<noteq> None then 1 else 0) + (if RemoveAll c \<noteq> None then 1 else 0)
     + (if Xattr c \<noteq> None then 1 else 0) + (if XattrRepair c \<noteq> None then 1 else 0)
     + (if XattrMigration c \<noteq> None then 1 else 0)"

fun validateAction :: "change_action \<Rightarrow> 'a change_scheme \<Rightarrow> change_error option" where
  "validateAction ChangeActionWrite c =
     (if Write c = None \<or> payload_count c \<noteq> 1 then Some WritePayload else None)"
| "validateAction ChangeActionRemoveAll c =
     (if RemoveAll c = None \<or> payload_count c \<noteq> 1 then Some RemoveAllPayload else None)"
| "validateAction ChangeActionMkdir c =
     (if payload_count c \<noteq> 0 then Some (NoPayload ChangeActionMkdir) else None)"
| "validateAction ChangeActionMkdirAll c =
     (if payload_count c \<noteq> 0 then Some (NoPayload ChangeActionMkdirAll) else None)"
| "validateAction ChangeActionRemove c =
     (if payload_count c \<noteq> 0 then Some (NoPayload ChangeActionRemove) else None)"
| "validateAction ChangeActionSetXattr c =
     (case Xattr c of
        None \<Rightarrow> Some SetXattrPayload
      | Some x \<Rightarrow>
          if xc_Name x = '''' \<or> \<not> xattr_flags_Valid (xc_Flags x) \<or> payload_count c \<noteq> 1
          then Some SetXattrPayload else None)"
| "validateAction ChangeActionRemoveXattr c =
     (case Xattr c of
        None \<Rightarrow> Some RemoveXattrPayload
      | Some x \<Rightarrow>
          if xc_Name x = '''' \<or> length (xc_Value x) \<noteq> 0 \<or> xc_Flags x \<noteq> 0 \<or> payload_count c \<noteq> 1
          then Some RemoveXattrPayload else None)"
| "validateAction ChangeActionPreserveAndRecreateXattrs c =
     (if XattrRepair c = None \<or> Write c \<noteq> None \<or> RemoveAll c \<noteq> None \<or> Xattr c \<noteq> None
         \<or> XattrMigration c \<noteq> None
      then Some RepairPayload else None)"
| "validateAction ChangeActionMigrateXattrs c =
     (case XattrMigration c of
        None \<Rightarrow> Some MigrationPayload
      | Some m \<Rightarrow>
          if NamespacePrefix m = '''' \<or> length (ExpectedEnvelopeSHA256 m) \<noteq> 32
             \<or> length (Edits m) = 0
             \<or> Write c \<noteq> None \<or> RemoveAll c \<noteq> None \<or> Xattr c \<noteq> None \<or> XattrRepair c \<noteq> None
          then Some MigrationPayload else None)"
| "validateAction (ChangeActionOther s) c = Some (UnknownAction s)"

definition validateChange :: "'a change_scheme \<Rightarrow> change_error option" where
  "validateChange c =
     (if Target c = '''' then Some MissingTarget else validateAction (Action c) c)"

fun snapshotFileHash :: "tree_op list \<Rightarrow> string" where
  "snapshotFileHash [] = ''''"
| "snapshotFileHash (p # ops) =
     (if RelPath p = ''.'' \<and> Kind p = ''file'' then Hash p else snapshotFileHash ops)"

fun validateLeaves :: "nat \<Rightarrow> change list \<Rightarrow> changeset_error option" where
  "validateLeaves i [] = None"
| "validateLeaves i (c # cs) =
     (case validateChange c of
        Some e \<Rightarrow> Some (LeafError i e)
      | None \<Rightarrow> validateLeaves (Suc i) cs)"

definition validateMove ::
  "(string \<Rightarrow> string) \<Rightarrow> change list \<Rightarrow> nat \<Rightarrow> move \<Rightarrow> int list \<Rightarrow> int list \<Rightarrow> changeset_error option"
where
  "validateMove sha changes i m seenFrom seenTo =
     (let n = int (length changes)
      in if From m < 0 \<or> From m \<ge> n \<or> To m < 0 \<or> To m \<ge> n \<or> From m = To m
         then Some (MoveIndices i)
         else let fr = changes ! nat (From m); to = changes ! nat (To m)
              in case (RemoveAll fr, Write to) of
                   (Some r, Some w) \<Rightarrow>
                     if Action fr \<noteq> ChangeActionRemoveAll \<or> Action to \<noteq> ChangeActionWrite
                     then Some (MoveActions i)
                     else (case Expected (rc_Opts r) of
                             None \<Rightarrow> Some (MoveContent i)
                           | Some snap \<Rightarrow>
                               if snapshotFileHash (Ops snap) \<noteq> sha (wc_Bytes w)
                               then Some (MoveContent i)
                               else if From m \<in> set seenFrom \<or> To m \<in> set seenTo
                               then Some (MovePairedTwice i)
                               else None)
                 | _ \<Rightarrow> Some (MoveActions i))"

fun validateMoves ::
  "(string \<Rightarrow> string) \<Rightarrow> change list \<Rightarrow> nat \<Rightarrow> int list \<Rightarrow> int list \<Rightarrow> move list \<Rightarrow> changeset_error option"
where
  "validateMoves sha changes i seenFrom seenTo [] = None"
| "validateMoves sha changes i seenFrom seenTo (m # ms) =
     (case validateMove sha changes i m seenFrom seenTo of
        Some e \<Rightarrow> Some e
      | None \<Rightarrow> validateMoves sha changes (Suc i) (From m # seenFrom) (To m # seenTo) ms)"

definition ValidateChangeSet :: "(string \<Rightarrow> string) \<Rightarrow> changeset \<Rightarrow> changeset_error option" where
  "ValidateChangeSet sha cs =
     (if Changes cs \<noteq> [] then
        (if Target cs \<noteq> '''' \<or> Action cs \<noteq> ChangeActionOther '''' \<or> Write cs \<noteq> None
            \<or> RemoveAll cs \<noteq> None \<or> Xattr cs \<noteq> None \<or> XattrRepair cs \<noteq> None
            \<or> XattrMigration cs \<noteq> None
         then Some BatchWithSingletonFields
         else case validateLeaves 0 (Changes cs) of
                Some e \<Rightarrow> Some e
              | None \<Rightarrow> validateMoves sha (Changes cs) 0 [] [] (Moves cs))
      else if Moves cs \<noteq> [] then Some SingletonWithMoves
      else map_option SingletonError (validateChange (change.truncate cs)))"

subsection \<open>The payload an action requires\<close>

datatype payload_kind = PWrite | PRemoveAll | PXattr | PRepair | PMigration

definition payloads :: "'a change_scheme \<Rightarrow> payload_kind set" where
  "payloads c =
     (if Write c \<noteq> None then {PWrite} else {}) \<union> (if RemoveAll c \<noteq> None then {PRemoveAll} else {})
     \<union> (if Xattr c \<noteq> None then {PXattr} else {}) \<union> (if XattrRepair c \<noteq> None then {PRepair} else {})
     \<union> (if XattrMigration c \<noteq> None then {PMigration} else {})"

fun required_payloads :: "change_action \<Rightarrow> payload_kind set option" where
  "required_payloads ChangeActionWrite = Some {PWrite}"
| "required_payloads ChangeActionRemoveAll = Some {PRemoveAll}"
| "required_payloads ChangeActionMkdir = Some {}"
| "required_payloads ChangeActionMkdirAll = Some {}"
| "required_payloads ChangeActionRemove = Some {}"
| "required_payloads ChangeActionSetXattr = Some {PXattr}"
| "required_payloads ChangeActionRemoveXattr = Some {PXattr}"
| "required_payloads ChangeActionPreserveAndRecreateXattrs = Some {PRepair}"
| "required_payloads ChangeActionMigrateXattrs = Some {PMigration}"
| "required_payloads (ChangeActionOther _) = None"

definition xattr_fields_ok :: "'a change_scheme \<Rightarrow> bool" where
  "xattr_fields_ok c \<longleftrightarrow>
     (\<forall>x. Xattr c = Some x \<longrightarrow>
        xc_Name x \<noteq> ''''
        \<and> (Action c = ChangeActionSetXattr \<longrightarrow> xattr_flags_Valid (xc_Flags x))
        \<and> (Action c = ChangeActionRemoveXattr \<longrightarrow> xc_Value x = [] \<and> xc_Flags x = 0))
     \<and> (\<forall>m. XattrMigration c = Some m \<longrightarrow>
        NamespacePrefix m \<noteq> '''' \<and> length (ExpectedEnvelopeSHA256 m) = 32 \<and> Edits m \<noteq> [])"

text \<open>
  A change is accepted exactly when it names a target, its action is known, the
  payloads it carries are exactly those its action requires, and the fields of an
  attribute payload are in range.
\<close>

theorem validateChange_iff:
  "validateChange c = None \<longleftrightarrow>
     Target c \<noteq> '''' \<and> required_payloads (Action c) = Some (payloads c) \<and> xattr_fields_ok c"
proof (cases "Target c = ''''")
  case True
  then show ?thesis by (simp add: validateChange_def)
next
  case False
  then show ?thesis
    by (cases "Action c"; cases "Write c"; cases "RemoveAll c"; cases "Xattr c";
        cases "XattrRepair c"; cases "XattrMigration c")
      (simp_all add: validateChange_def payload_count_def payloads_def xattr_fields_ok_def)
qed

subsection \<open>Moves of a batch\<close>

definition move_ok :: "(string \<Rightarrow> string) \<Rightarrow> change list \<Rightarrow> move \<Rightarrow> bool" where
  "move_ok sha changes m \<longleftrightarrow>
     0 \<le> From m \<and> From m < int (length changes) \<and> 0 \<le> To m \<and> To m < int (length changes)
     \<and> Action (changes ! nat (From m)) = ChangeActionRemoveAll
     \<and> Action (changes ! nat (To m)) = ChangeActionWrite
     \<and> (\<exists>r w snap. RemoveAll (changes ! nat (From m)) = Some r
          \<and> Write (changes ! nat (To m)) = Some w
          \<and> Expected (rc_Opts r) = Some snap
          \<and> snapshotFileHash (Ops snap) = sha (wc_Bytes w))"

lemma validateMove_iff:
  "validateMove sha changes i m sf st = None \<longleftrightarrow>
     move_ok sha changes m \<and> From m \<notin> set sf \<and> To m \<notin> set st"
proof -
  have "move_ok sha changes m \<Longrightarrow> From m \<noteq> To m"
    by (auto simp: move_ok_def)
  then show ?thesis
    by (auto simp: validateMove_def move_ok_def Let_def split: option.splits)
qed

lemma validateMoves_iff:
  "validateMoves sha changes i sf st ms = None \<longleftrightarrow>
     (\<forall>m \<in> set ms. move_ok sha changes m) \<and> distinct (map From ms) \<and> distinct (map To ms)
     \<and> (\<forall>m \<in> set ms. From m \<notin> set sf \<and> To m \<notin> set st)"
proof (induction ms arbitrary: i sf st)
  case Nil
  then show ?case by simp
next
  case (Cons m ms)
  have "validateMoves sha changes i sf st (m # ms) = None \<longleftrightarrow>
      validateMove sha changes i m sf st = None
      \<and> validateMoves sha changes (Suc i) (From m # sf) (To m # st) ms = None"
    by (simp split: option.splits)
  also have "\<dots> \<longleftrightarrow>
      (move_ok sha changes m \<and> From m \<notin> set sf \<and> To m \<notin> set st)
      \<and> (\<forall>m \<in> set ms. move_ok sha changes m) \<and> distinct (map From ms) \<and> distinct (map To ms)
      \<and> (\<forall>m' \<in> set ms. From m' \<notin> set (From m # sf) \<and> To m' \<notin> set (To m # st))"
    by (simp only: validateMove_iff Cons.IH)
  also have "\<dots> \<longleftrightarrow> (\<forall>m' \<in> set (m # ms). move_ok sha changes m')
      \<and> distinct (map From (m # ms)) \<and> distinct (map To (m # ms))
      \<and> (\<forall>m' \<in> set (m # ms). From m' \<notin> set sf \<and> To m' \<notin> set st)"
    by (auto simp: image_iff)
  finally show ?case .
qed

lemma validateLeaves_iff:
  "validateLeaves i cs = None \<longleftrightarrow> (\<forall>c \<in> set cs. validateChange c = None)"
  by (induction cs arbitrary: i) (auto split: option.splits)

lemma moves_disjoint:
  assumes "\<forall>m \<in> set ms. move_ok sha changes m"
  shows "From ` set ms \<inter> To ` set ms = {}"
proof -
  have "From m \<noteq> To m'" if "m \<in> set ms" "m' \<in> set ms" for m m'
  proof
    assume "From m = To m'"
    moreover have "Action (changes ! nat (From m)) = ChangeActionRemoveAll"
      and "Action (changes ! nat (To m')) = ChangeActionWrite"
      using assms that by (auto simp: move_ok_def)
    ultimately show False by simp
  qed
  then show ?thesis by blast
qed

text \<open>
  A batch is accepted exactly when it carries no singleton field, each of its leaves is
  valid, and its moves pair distinct removal leaves with distinct write leaves that carry
  the snapshot's content, no leaf being both ends; a singleton exactly when it has no moves
  and is a valid change.
\<close>

theorem ValidateChangeSet_iff:
  "ValidateChangeSet sha cs = None \<longleftrightarrow>
     (if Changes cs = [] then Moves cs = [] \<and> validateChange (change.truncate cs) = None
      else Target cs = '''' \<and> Action cs = ChangeActionOther '''' \<and> payloads cs = {}
        \<and> (\<forall>c \<in> set (Changes cs). validateChange c = None)
        \<and> (\<forall>m \<in> set (Moves cs). move_ok sha (Changes cs) m)
        \<and> distinct (map From (Moves cs)) \<and> distinct (map To (Moves cs))
        \<and> From ` set (Moves cs) \<inter> To ` set (Moves cs) = {})"
proof (cases "Changes cs = []")
  case True
  then show ?thesis by (simp add: ValidateChangeSet_def)
next
  case False
  have "ValidateChangeSet sha cs = None \<longleftrightarrow>
      (Target cs = '''' \<and> Action cs = ChangeActionOther '''' \<and> payloads cs = {})
      \<and> validateLeaves 0 (Changes cs) = None
      \<and> validateMoves sha (Changes cs) 0 [] [] (Moves cs) = None"
    using False by (simp add: ValidateChangeSet_def payloads_def split: option.splits)
  with False moves_disjoint [of "Moves cs" sha "Changes cs"] show ?thesis
    by (auto simp: validateMoves_iff validateLeaves_iff)
qed


text \<open>A file moved by a removal and a write of the same content.\<close>

definition sample_rename :: changeset where
  "sample_rename =
     \<lparr>Target = '''', Action = ChangeActionOther '''', Write = None, RemoveAll = None, Xattr = None,
      XattrRepair = None, XattrMigration = None,
      Changes =
        [\<lparr>Target = ''/new'', Action = ChangeActionWrite,
          Write = Some \<lparr>wc_Bytes = ''body'', wc_Opts = unconditional, wc_Generated = False\<rparr>,
          RemoveAll = None, Xattr = None, XattrRepair = None, XattrMigration = None\<rparr>,
         \<lparr>Target = ''/old'', Action = ChangeActionRemoveAll, Write = None,
          RemoveAll = Some \<lparr>rc_Opts = \<lparr>Expected = Some \<lparr>Root = ''/old'',
            Ops = [\<lparr>RelPath = ''.'', Kind = ''file'', Hash = ''body'', Size = 4\<rparr>]\<rparr>\<rparr>\<rparr>,
          Xattr = None, XattrRepair = None, XattrMigration = None\<rparr>],
      Moves = [\<lparr>From = 1, To = 0\<rparr>]\<rparr>"

theorem ValidateChangeSet_iff_witness: "ValidateChangeSet (\<lambda>b. b) sample_rename = None"
  by (subst ValidateChangeSet_iff)
    (simp add: sample_rename_def validateChange_def payload_count_def payloads_def move_ok_def)

end
