(* ===== verification/Grants.thy ===== *)
theory Grants
  imports Config Changeset
begin

text \<open>
  Grant types (pkg/openlore/grants.go) and the inbox plugin's publish grant
  (pkg/openlore/inbox.go). The Go interface \<open>GrantType\<close> is a record of its four methods;
  the registry maps names to grants.
\<close>

record grant_type =
  g_Name :: string
  g_CanRead :: "docset_spec \<Rightarrow> string \<Rightarrow> bool"
  g_AllowsWrite :: bool
  g_CanWrite :: "docset_spec \<Rightarrow> change_action \<Rightarrow> string \<Rightarrow> bool"

type_synonym grant_registry = "string \<rightharpoonup> grant_type"

definition register :: "grant_registry \<Rightarrow> grant_type \<Rightarrow> grant_registry" where
  "register r g = r(g_Name g \<mapsto> g)"

definition get :: "grant_registry \<Rightarrow> string \<Rightarrow> grant_type option" where
  "get r name = r name"

definition roGrant :: grant_type where
  "roGrant = \<lparr>g_Name = ''ro'', g_CanRead = (\<lambda>ds p. True), g_AllowsWrite = False,
     g_CanWrite = (\<lambda>ds action p. False)\<rparr>"

definition rwGrant :: grant_type where
  "rwGrant = \<lparr>g_Name = ''rw'', g_CanRead = (\<lambda>ds p. True), g_AllowsWrite = True,
     g_CanWrite = (\<lambda>ds action p. True)\<rparr>"

definition newGrantRegistry :: grant_registry where
  "newGrantRegistry = register (register Map.empty roGrant) rwGrant"

subsection \<open>The publish grant\<close>

definition inboxPath :: "docset_spec \<Rightarrow> string" where
  "inboxPath ds =
     (if Inbox ds = '''' then ''''
      else if prefix ''/'' (Inbox ds) then CleanPath (Inbox ds)
      else (case Paths ds of
              [] \<Rightarrow> ''''
            | pm # _ \<Rightarrow>
                CleanPath ((if Display pm = '''' then Source pm else Display pm) @ ''/'' @ Inbox ds)))"

definition publish_CanWrite :: "docset_spec \<Rightarrow> change_action \<Rightarrow> string \<Rightarrow> bool" where
  "publish_CanWrite ds action p =
     (if action = ChangeActionRemove \<or> action = ChangeActionRemoveAll then False
      else let inbox = inboxPath ds
           in if inbox = '''' then False
              else let clean = CleanPath p in clean = inbox \<or> prefix (inbox @ ''/'') clean)"

definition publishGrant :: grant_type where
  "publishGrant = \<lparr>g_Name = ''publish'', g_CanRead = (\<lambda>ds p. True), g_AllowsWrite = True,
     g_CanWrite = publish_CanWrite\<rparr>"

text \<open>The registry of a server with the inbox plugin: the plugin's grants are registered after the core's.\<close>

definition pluginGrantRegistry :: grant_registry where
  "pluginGrantRegistry = register newGrantRegistry publishGrant"

subsection \<open>The contract of a grant registry\<close>

text \<open>
  What the authorizer relies on: a registered grant answers to its name, and a grant that
  announces it never permits writes permits none. The shell's coarse gating and the guest
  check of \<open>validateGrants\<close> look only at the announcement.
\<close>

locale grant_registry =
  fixes registry :: "string \<Rightarrow> grant_type option"
  assumes registered_name: "registry n = Some g \<Longrightarrow> g_Name g = n"
    and announced: "registry n = Some g \<Longrightarrow> \<not> g_AllowsWrite g \<Longrightarrow> \<not> g_CanWrite g ds action p"
begin

lemma no_write_without_announcement:
  assumes "\<forall>n \<in> set names. \<forall>g. registry n = Some g \<longrightarrow> \<not> g_AllowsWrite g"
  shows "\<not> list_ex (\<lambda>g. g_CanWrite g ds action p) (List.map_filter registry names)"
  using assms announced by (auto simp: list_ex_iff List.map_filter_def)

lemma no_rw_without_announcement:
  assumes "\<forall>n \<in> set names. \<forall>g. registry n = Some g \<longrightarrow> \<not> g_AllowsWrite g"
    and "registry ''rw'' = Some g" "g_AllowsWrite g"
  shows "\<not> list_ex (\<lambda>g. g_Name g = ''rw'') (List.map_filter registry names)"
  using assms registered_name by (fastforce simp: list_ex_iff List.map_filter_def)

end

lemma get_newGrantRegistry:
  "get newGrantRegistry n =
     (if n = ''rw'' then Some rwGrant else if n = ''ro'' then Some roGrant else None)"
  by (simp add: get_def newGrantRegistry_def register_def roGrant_def rwGrant_def)

lemma get_pluginGrantRegistry:
  "get pluginGrantRegistry n =
     (if n = ''publish'' then Some publishGrant else get newGrantRegistry n)"
  by (simp add: get_def pluginGrantRegistry_def register_def publishGrant_def)

interpretation core: grant_registry "get newGrantRegistry"
  by unfold_locales (auto simp: get_newGrantRegistry roGrant_def rwGrant_def split: if_splits)

interpretation plugin: grant_registry "get pluginGrantRegistry"
  by unfold_locales
    (auto simp: get_pluginGrantRegistry get_newGrantRegistry roGrant_def rwGrant_def publishGrant_def
      split: if_splits)

lemma publish_confined:
  assumes "publish_CanWrite ds action p"
  shows "inboxPath ds \<noteq> '''' \<and> pathWithinRoot (inboxPath ds) (CleanPath p)
    \<and> action \<noteq> ChangeActionRemove \<and> action \<noteq> ChangeActionRemoveAll"
  using assms by (auto simp: publish_CanWrite_def pathWithinRoot_def Let_def split: if_splits)

end
