(* ===== verification/Identity.thy ===== *)
theory Identity
  imports Grants
begin

text \<open>
  Identities and policies (pkg/openlore/identity.go, authorization_store.go and
  identitystore.go): the authenticated principal, the file-backed authorization store with
  its delegates, the resolution of token claims and of external assertions to identities,
  and the token scopes.
\<close>

subsection \<open>Scopes, principals and identities\<close>

definition ScopeFull :: string where "ScopeFull = ''full''"

definition ScopeRead :: string where "ScopeRead = ''read''"

definition scopeGrantsWrite :: "string list \<Rightarrow> bool" where
  "scopeGrantsWrite scopes \<longleftrightarrow> length scopes = 1 \<and> scopes ! 0 = ScopeFull"

definition recognizedScope :: "string \<Rightarrow> bool" where
  "recognizedScope s \<longleftrightarrow> s = ScopeFull \<or> s = ScopeRead"

text \<open>
  A raw claim: a string, an array the JSON decoder built, an array Go code built, an absent
  or null value, and any other value with the text \<open>fmt.Sprintf("%v")\<close> (or its \<open>String\<close>
  method) renders it to.
\<close>

datatype claim =
    ClaimString string
  | ClaimAnys "claim list" string
  | ClaimStrings "string list" string
  | ClaimNil
  | ClaimOther string

type_synonym claims_map = "string \<rightharpoonup> claim"

record principal =
  Subject :: string
  pr_IdentityName :: string
  pr_Source :: string
  Claims :: claims_map
  pr_Scope :: string

record policy =
  po_IdentityName :: string
  po_Roles :: "string list"
  po_HomeDocset :: string
  po_DenyDocsets :: "string list"
  po_DenyCapabilities :: "string list"

record attribution =
  at_Principal :: string
  at_Actor :: string
  at_ClientAuth :: client_auth_level

record identity =
  IdentityName :: string
  Attribution :: attribution
  Principal :: principal
  policySnapshot :: "policy option"
  HomeDir :: string
  HomeDocset :: string
  Scopes :: "string list"

subsection \<open>The file-backed authorization store\<close>

datatype authorization_error =
    ErrUnknownIdentity
  | UnknownRole string
  | StoreUnavailable
  | IdentityMismatch string string
  | InvalidGuestPolicy
  | EmptyIdentity
  | InvalidRole string
  | NonGuestWithGuestRole
  | UnknownAuthorizationRole string
  | UnknownHome string
  | RoleDeniedOnHome string string
  | StoreError string

definition findDelegate :: "auth_identity \<Rightarrow> string \<Rightarrow> delegate_entry option" where
  "findDelegate p actor = find (\<lambda>d. de_Identity d = actor) (ai_Delegates p)"

definition intersectStrings :: "string list \<Rightarrow> string list \<Rightarrow> string list" where
  "intersectStrings a b = filter (\<lambda>v. v \<in> set b) a"

fun unknown_role :: "role_spec gomap \<Rightarrow> string list \<Rightarrow> string option" where
  "unknown_role roles [] = None"
| "unknown_role roles (r # rs) =
     (if r \<noteq> ''guest'' \<and> map_of roles r = None then Some r else unknown_role roles rs)"

definition claim_string :: "claims_map \<Rightarrow> string \<Rightarrow> string" where
  "claim_string m k = (case m k of Some (ClaimString s) \<Rightarrow> s | _ \<Rightarrow> '''')"

definition findAuthIdentity :: "auth_config \<Rightarrow> string \<Rightarrow> auth_identity option" where
  "findAuthIdentity auth name = find (\<lambda>i. ai_Name i = name) (Identities auth)"

definition file_ResolveAuthorization ::
  "auth_config \<Rightarrow> principal \<Rightarrow> authorization_error + policy" where
  "file_ResolveAuthorization auth p =
     (if pr_IdentityName p = ''guest'' \<or> pr_IdentityName p = ''''
      then Inr \<lparr>po_IdentityName = ''guest'', po_Roles = [''guest''], po_HomeDocset = '''',
                po_DenyDocsets = [], po_DenyCapabilities = []\<rparr>
      else case find (\<lambda>i. ai_Name i = pr_IdentityName p) (Identities auth) of
             None \<Rightarrow> Inl ErrUnknownIdentity
           | Some i \<Rightarrow>
               let actor = claim_string (Claims p) ''actor'';
                   finish = (\<lambda>roles denyDocsets denyCapabilities.
                     case unknown_role (ac_Roles auth) roles of
                       Some r \<Rightarrow> Inl (UnknownRole r)
                     | None \<Rightarrow> Inr \<lparr>po_IdentityName = ai_Name i, po_Roles = roles,
                                  po_HomeDocset = ai_Home i, po_DenyDocsets = denyDocsets,
                                  po_DenyCapabilities = denyCapabilities\<rparr>)
               in if actor = '''' then finish (ai_Roles i) [] []
                  else case findDelegate i actor of
                         None \<Rightarrow> Inl ErrUnknownIdentity
                       | Some d \<Rightarrow>
                           finish (case de_Roles d of
                                     None \<Rightarrow> ai_Roles i
                                   | Some rs \<Rightarrow> intersectStrings (ai_Roles i) rs)
                             (de_DenyDocsets d) (de_DenyCapabilities d))"

subsection \<open>Identities of a server\<close>

definition anonymousIdentity :: "bool \<Rightarrow> identity" where
  "anonymousIdentity authEnforced =
     (if authEnforced then
        \<lparr>IdentityName = ''guest'',
         Attribution = \<lparr>at_Principal = ''guest'', at_Actor = '''', at_ClientAuth = AuthLevelOther ''''\<rparr>,
         Principal = \<lparr>Subject = ''guest'', pr_IdentityName = ''guest'', pr_Source = ''guest'',
                      Claims = Map.empty, pr_Scope = ''''\<rparr>,
         policySnapshot = None, HomeDir = '''', HomeDocset = '''', Scopes = [ScopeFull]\<rparr>
      else
        \<lparr>IdentityName = '''',
         Attribution = \<lparr>at_Principal = '''', at_Actor = '''', at_ClientAuth = AuthLevelOther ''''\<rparr>,
         Principal = \<lparr>Subject = '''', pr_IdentityName = '''', pr_Source = '''',
                      Claims = Map.empty, pr_Scope = ''''\<rparr>,
         policySnapshot = None, HomeDir = '''', HomeDocset = '''', Scopes = [ScopeFull]\<rparr>)"

definition resolveHomeDir :: "auth_config \<Rightarrow> string \<Rightarrow> string" where
  "resolveHomeDir auth homeDocset =
     (if homeDocset = '''' then ''''
      else case map_of (Docsets auth) homeDocset of
             None \<Rightarrow> ''''
           | Some ds \<Rightarrow>
               (case Paths ds of
                  [] \<Rightarrow> ''''
                | pm # _ \<Rightarrow> CleanPath (if Display pm = '''' then Source pm else Display pm)))"

definition identityFromAuth :: "auth_config \<Rightarrow> auth_identity \<Rightarrow> identity" where
  "identityFromAuth auth i =
     \<lparr>IdentityName = ai_Name i,
      Attribution = \<lparr>at_Principal = ai_Name i, at_Actor = '''', at_ClientAuth = AuthLevelOther ''''\<rparr>,
      Principal = \<lparr>Subject = ai_Name i, pr_IdentityName = ai_Name i, pr_Source = ''local'',
                   Claims = Map.empty, pr_Scope = ''''\<rparr>,
      policySnapshot = None, HomeDir = resolveHomeDir auth (ai_Home i), HomeDocset = ai_Home i,
      Scopes = [ScopeFull]\<rparr>"

definition identityForName :: "auth_config \<Rightarrow> string \<Rightarrow> identity option" where
  "identityForName auth name = map_option (identityFromAuth auth) (findAuthIdentity auth name)"

subsection \<open>Resolving token claims\<close>

record token_claims =
  tc_Subject :: string
  tc_Audience :: string
  tc_Scope :: string
  tc_Actor :: string
  tc_ClientAuth :: client_auth_level
  tc_Raw :: claims_map

definition anonymousSubject :: string where "anonymousSubject = ''anonymous''"

definition matchRule :: "auth_config \<Rightarrow> string \<Rightarrow> string option" where
  "matchRule auth sub =
     map_option ai_Name
       (find (\<lambda>i. \<exists>m \<in> set (ai_Match i). im_Sub m \<noteq> '''' \<and> im_Sub m = sub) (Identities auth))"

definition guest_token_identity :: "bool \<Rightarrow> token_claims \<Rightarrow> identity" where
  "guest_token_identity authEnforced claims =
     (anonymousIdentity authEnforced)
       \<lparr>Scopes := [tc_Scope claims],
        Principal := \<lparr>Subject = tc_Subject claims, pr_IdentityName = ''guest'',
                      pr_Source = ''token'', Claims = tc_Raw claims, pr_Scope = tc_Scope claims\<rparr>\<rparr>"

definition resolve_name :: "auth_config \<Rightarrow> string \<Rightarrow> string option" where
  "resolve_name auth sub =
     (case matchRule auth sub of
        Some n \<Rightarrow> Some n
      | None \<Rightarrow> if findAuthIdentity auth sub \<noteq> None then Some sub else None)"

definition resolveClaims ::
  "bool \<Rightarrow> string \<Rightarrow> auth_config \<Rightarrow> token_claims \<Rightarrow> authorization_error + identity" where
  "resolveClaims authEnforced unknownIdentity auth claims =
     (let sub = tc_Subject claims
      in if sub = '''' \<or> sub = anonymousSubject
         then Inr (guest_token_identity authEnforced claims)
         else case resolve_name auth sub of
                None \<Rightarrow>
                  if unknownIdentity = ''deny'' then Inl ErrUnknownIdentity
                  else Inr (guest_token_identity authEnforced claims)
              | Some name \<Rightarrow>
                  (case identityForName auth name of
                     None \<Rightarrow> Inl ErrUnknownIdentity
                   | Some ident \<Rightarrow>
                       let finish = (\<lambda>raw. Inr (ident
                             \<lparr>Scopes := [tc_Scope claims],
                              Attribution := \<lparr>at_Principal = name, at_Actor = tc_Actor claims,
                                at_ClientAuth = tc_ClientAuth claims\<rparr>,
                              Principal := \<lparr>Subject = sub, pr_IdentityName = name,
                                pr_Source = ''token'', Claims = raw, pr_Scope = tc_Scope claims\<rparr>\<rparr>))
                       in if tc_Actor claims = '''' then finish (tc_Raw claims)
                          else if findAuthIdentity auth (tc_Actor claims) = None
                          then Inl ErrUnknownIdentity
                          else (case findAuthIdentity auth name of
                                  None \<Rightarrow> Inl ErrUnknownIdentity
                                | Some pr \<Rightarrow>
                                    if findDelegate pr (tc_Actor claims) = None
                                    then Inl ErrUnknownIdentity
                                    else finish ((tc_Raw claims)
                                           (''actor'' \<mapsto> ClaimString (tc_Actor claims))))))"

subsection \<open>Workload identity federation\<close>

definition wifRuleIsSpecific :: "identity_match \<Rightarrow> bool" where
  "wifRuleIsSpecific m \<longleftrightarrow> im_SubPrefix m \<noteq> '''' \<or> im_Aud m \<noteq> '''' \<or> im_Claims m \<noteq> []"

definition audienceContains :: "token_claims \<Rightarrow> string \<Rightarrow> bool" where
  "audienceContains claims want \<longleftrightarrow>
     tc_Audience claims = want
     \<or> (case tc_Raw claims ''aud'' of
          Some (ClaimString a) \<Rightarrow> a = want
        | Some (ClaimAnys items _) \<Rightarrow> ClaimString want \<in> set items
        | Some (ClaimStrings items _) \<Rightarrow> want \<in> set items
        | _ \<Rightarrow> False)"

fun claimEquals :: "claim option \<Rightarrow> string \<Rightarrow> bool" where
  "claimEquals None want = False"
| "claimEquals (Some (ClaimString v)) want = (v = want)"
| "claimEquals (Some ClaimNil) want = False"
| "claimEquals (Some (ClaimAnys _ rendered)) want = (rendered = want)"
| "claimEquals (Some (ClaimStrings _ rendered)) want = (rendered = want)"
| "claimEquals (Some (ClaimOther rendered)) want = (rendered = want)"

definition wifPredicatesMatch :: "identity_match \<Rightarrow> token_claims \<Rightarrow> bool" where
  "wifPredicatesMatch m claims \<longleftrightarrow>
     (im_SubPrefix m \<noteq> '''' \<longrightarrow> prefix (im_SubPrefix m) (tc_Subject claims))
     \<and> (im_Aud m \<noteq> '''' \<longrightarrow> audienceContains claims (im_Aud m))
     \<and> (\<forall>(k, v) \<in> set (im_Claims m). claimEquals (tc_Raw claims k) v)"

fun first_match ::
  "(identity_match \<Rightarrow> bool) \<Rightarrow> auth_identity list \<Rightarrow> (string \<times> identity_match) option" where
  "first_match P [] = None"
| "first_match P (i # is) =
     (case find P (ai_Match i) of
        Some m \<Rightarrow> Some (ai_Name i, m)
      | None \<Rightarrow> first_match P is)"

definition matchWIFClaims ::
  "auth_config \<Rightarrow> token_claims \<Rightarrow> (string \<times> identity_match) option" where
  "matchWIFClaims auth claims =
     (case first_match (\<lambda>m. im_Sub m \<noteq> '''' \<and> im_Sub m = tc_Subject claims
                            \<and> wifPredicatesMatch m claims) (Identities auth) of
        Some r \<Rightarrow> Some r
      | None \<Rightarrow>
          first_match (\<lambda>m. im_Sub m = '''' \<and> wifRuleIsSpecific m \<and> wifPredicatesMatch m claims)
            (Identities auth))"

text \<open>
  The lifetime of a brokered token, in nanoseconds: \<open>until\<close> is \<open>time.Until\<close> of the assertion's
  expiry (\<open>None\<close> when it has none), doubled in 64-bit arithmetic, and \<open>parse\<close> is
  \<open>time.ParseDuration\<close>.
\<close>

definition second :: int where "second = 1000000000"

definition wifTTL :: "(string \<Rightarrow> int option) \<Rightarrow> int \<Rightarrow> string \<Rightarrow> int option \<Rightarrow> int" where
  "wifTTL parse accessTTL ruleTTL until =
     (let ttl0 = (case parse ruleTTL of
                    Some d \<Rightarrow> if 0 < d \<and> d < accessTTL then d else accessTTL
                  | None \<Rightarrow> accessTTL);
          ttl1 = (case until of
                    None \<Rightarrow> ttl0
                  | Some u \<Rightarrow>
                      let remaining = signed_take_bit 63 (2 * u)
                      in if 0 < remaining \<and> remaining < ttl0 then remaining else ttl0)
      in if ttl1 < 60 * second then 60 * second else ttl1)"

datatype exchange_error =
    WIFDisabled
  | AssertionRejected string
  | ExchangeUnknownIdentity
  | InvalidScope

text \<open>
  The exchange of an external assertion. The verifier is a parameter: \<open>None\<close> when no issuer
  is configured, otherwise the claims of an assertion it accepts; \<open>until\<close> reads the time left on
  the claims' expiry. The result is the subject, scope and lifetime of the token to mint.
\<close>

definition ExchangeAssertion ::
  "auth_config \<Rightarrow> (string \<Rightarrow> int option) \<Rightarrow> int \<Rightarrow> (token_claims \<Rightarrow> int option)
    \<Rightarrow> (string \<Rightarrow> string + token_claims) option \<Rightarrow> string
    \<Rightarrow> exchange_error + (string \<times> string \<times> int)" where
  "ExchangeAssertion auth parse accessTTL until oidc assertion =
     (case oidc of
        None \<Rightarrow> Inl WIFDisabled
      | Some verify \<Rightarrow>
          (case verify assertion of
             Inl e \<Rightarrow> Inl (AssertionRejected e)
           | Inr claims \<Rightarrow>
               (case matchWIFClaims auth claims of
                  None \<Rightarrow> Inl ExchangeUnknownIdentity
                | Some (name, m) \<Rightarrow>
                    if findAuthIdentity auth name = None then Inl ExchangeUnknownIdentity
                    else if \<not> recognizedScope (im_Scope m) then Inl InvalidScope
                    else Inr (name, im_Scope m, wifTTL parse accessTTL (im_TTL m) (until claims)))))"

text \<open>
  Delegation: an agent's own token is exchanged for authority to act for a principal that
  lists it. The token verifier of the server is a parameter; the result is the attribution
  and the scope of the token to mint.
\<close>

definition ExchangeDelegation ::
  "auth_config \<Rightarrow> (string \<Rightarrow> string + token_claims) \<Rightarrow> string \<Rightarrow> string
    \<Rightarrow> exchange_error + (attribution \<times> string)" where
  "ExchangeDelegation auth verify actorToken principalName =
     (case verify actorToken of
        Inl e \<Rightarrow> Inl ExchangeUnknownIdentity
      | Inr claims \<Rightarrow>
          if tc_Actor claims \<noteq> '''' \<or> tc_Subject claims = '''' \<or> tc_Subject claims = anonymousSubject
          then Inl ExchangeUnknownIdentity
          else (case findAuthIdentity auth principalName of
                  None \<Rightarrow> Inl ExchangeUnknownIdentity
                | Some pr \<Rightarrow>
                    if findAuthIdentity auth (tc_Subject claims) = None
                    then Inl ExchangeUnknownIdentity
                    else if findDelegate pr (tc_Subject claims) = None
                    then Inl ExchangeUnknownIdentity
                    else if \<not> recognizedScope (tc_Scope claims) then Inl InvalidScope
                    else Inr (\<lparr>at_Principal = principalName, at_Actor = tc_Subject claims,
                               at_ClientAuth = tc_ClientAuth claims\<rparr>, tc_Scope claims)))"

end
