(* ===== verification/Authz.thy ===== *)
theory Authz
  imports Identity
begin

text \<open>
  The authorizer of pkg/openlore/authz.go: validation of the configuration's grants, roots
  and aliases, the policy in force for an identity, the grants it holds on a docset, the
  docset that governs a path, and the per-operation write authorization. The server's state
  is a record of the fields these functions read; \<open>currentAuth()\<close> is its field \<open>sv_auth\<close>
  and the merged filesystem is given by its read interface and its mount paths.
\<close>

subsection \<open>The server\<close>

datatype authorization_store =
    NoStore
  | FileStore
  | CustomStore "principal \<Rightarrow> authorization_error + policy"

record server =
  sv_auth :: auth_config
  authEnforced :: bool
  cfg_Readonly :: bool
  cfg_WriteConflictPolicy :: string
  grants :: grant_registry
  merge :: fs
  mountPaths :: "string list"
  SystemMountPaths :: "string list"
  store :: authorization_store

subsection \<open>Validation of the configuration\<close>

datatype grants_error =
    UnregisteredGrant string string string
  | GuestWritable string string
  | SharedRoot string string string
  | AliasWithoutPath string
  | AliasNotAbsolute string string
  | AliasNotNormalized string string
  | AliasOverlaps string string string string

fun check_allow :: "grant_registry \<Rightarrow> string \<Rightarrow> string gomap \<Rightarrow> grants_error option" where
  "check_allow reg docset [] = None"
| "check_allow reg docset ((role, grant) # rest) =
     (case get reg grant of
        None \<Rightarrow> Some (UnregisteredGrant docset role grant)
      | Some g \<Rightarrow>
          if role = ''guest'' \<and> g_AllowsWrite g then Some (GuestWritable grant docset)
          else check_allow reg docset rest)"

fun check_allows :: "grant_registry \<Rightarrow> docset_spec gomap \<Rightarrow> grants_error option" where
  "check_allows reg [] = None"
| "check_allows reg ((docset, ds) # rest) =
     (case check_allow reg docset (da_Allow (Access ds)) of
        Some e \<Rightarrow> Some e
      | None \<Rightarrow> check_allows reg rest)"

definition docset_roots :: "docset_spec gomap \<Rightarrow> (string \<times> string) list" where
  "docset_roots m = concat (map (\<lambda>(n, ds). map (\<lambda>pm. (displayPath pm, n)) (Paths ds)) m)"

fun check_roots :: "(string \<rightharpoonup> string) \<Rightarrow> (string \<times> string) list \<Rightarrow> grants_error option" where
  "check_roots owner [] = None"
| "check_roots owner ((root, name) # rest) =
     (case owner root of
        Some other \<Rightarrow> Some (SharedRoot other name root)
      | None \<Rightarrow> check_roots (owner(root \<mapsto> name)) rest)"

record root_spec =
  ro_docset :: string
  ro_path :: string
  ro_alias :: bool
  ro_mount :: bool

fun alias_specs :: "string \<Rightarrow> string list \<Rightarrow> grants_error + root_spec list" where
  "alias_specs name [] = Inr []"
| "alias_specs name (raw # rest) =
     (if \<not> prefix ''/'' raw then Inl (AliasNotAbsolute name raw)
      else if CleanPath raw \<noteq> raw then Inl (AliasNotNormalized name raw)
      else (case alias_specs name rest of
              Inl e \<Rightarrow> Inl e
            | Inr rs \<Rightarrow>
                Inr (\<lparr>ro_docset = name, ro_path = CleanPath raw, ro_alias = True, ro_mount = False\<rparr> # rs)))"

fun root_specs :: "docset_spec gomap \<Rightarrow> grants_error + root_spec list" where
  "root_specs [] = Inr []"
| "root_specs ((name, ds) # rest) =
     (if Aliases ds \<noteq> [] \<and> Paths ds = [] then Inl (AliasWithoutPath name)
      else (case alias_specs name (Aliases ds) of
              Inl e \<Rightarrow> Inl e
            | Inr as \<Rightarrow>
                (case root_specs rest of
                   Inl e \<Rightarrow> Inl e
                 | Inr rs \<Rightarrow>
                     Inr (map (\<lambda>pm. \<lparr>ro_docset = name, ro_path = displayPath pm,
                                     ro_alias = False, ro_mount = False\<rparr>) (Paths ds) @ as @ rs))))"

definition overlap_conflict :: "root_spec \<Rightarrow> root_spec \<Rightarrow> bool" where
  "overlap_conflict candidate other \<longleftrightarrow>
     (let overlaps = pathWithinRoot (ro_path candidate) (ro_path other)
                     \<or> pathWithinRoot (ro_path other) (ro_path candidate);
          strictCanonicalAncestor = (\<not> ro_alias other \<and> \<not> ro_mount other
            \<and> ro_path other \<noteq> ro_path candidate \<and> pathWithinRoot (ro_path other) (ro_path candidate))
      in overlaps \<and> \<not> strictCanonicalAncestor)"

fun check_against :: "root_spec \<Rightarrow> nat \<Rightarrow> nat \<Rightarrow> root_spec list \<Rightarrow> grants_error option" where
  "check_against candidate i j [] = None"
| "check_against candidate i j (other # rest) =
     (if i \<noteq> j \<and> overlap_conflict candidate other
      then Some (AliasOverlaps (ro_docset candidate) (ro_path candidate) (ro_docset other) (ro_path other))
      else check_against candidate i (Suc j) rest)"

fun check_overlaps :: "root_spec list \<Rightarrow> nat \<Rightarrow> root_spec list \<Rightarrow> grants_error option" where
  "check_overlaps roots i [] = None"
| "check_overlaps roots i (candidate # rest) =
     (if \<not> ro_alias candidate then check_overlaps roots (Suc i) rest
      else (case check_against candidate i 0 roots of
              Some e \<Rightarrow> Some e
            | None \<Rightarrow> check_overlaps roots (Suc i) rest))"

definition validateGrantsFor :: "server \<Rightarrow> auth_config \<Rightarrow> grants_error option" where
  "validateGrantsFor s auth =
     (if \<not> authEnforced s then None
      else case check_allows (grants s) (Docsets auth) of
             Some e \<Rightarrow> Some e
           | None \<Rightarrow>
               (case check_roots Map.empty (docset_roots (Docsets auth)) of
                  Some e \<Rightarrow> Some e
                | None \<Rightarrow>
                    (case root_specs (Docsets auth) of
                       Inl e \<Rightarrow> Some e
                     | Inr rs \<Rightarrow>
                         let roots = rs @ map (\<lambda>m. \<lparr>ro_docset = ''<mount>'', ro_path = m,
                                                   ro_alias = False, ro_mount = True\<rparr>) (mountPaths s)
                         in check_overlaps roots 0 roots)))"

definition validateGrants :: "server \<Rightarrow> grants_error option" where
  "validateGrants s = validateGrantsFor s (sv_auth s)"

subsection \<open>The policy in force\<close>

fun check_policy_roles ::
  "auth_config \<Rightarrow> bool \<Rightarrow> string list \<Rightarrow> string list \<Rightarrow> authorization_error option" where
  "check_policy_roles auth guest seen [] = None"
| "check_policy_roles auth guest seen (role # rest) =
     (if role = '''' \<or> TrimSpace role \<noteq> role \<or> role \<in> set seen then Some (InvalidRole role)
      else if role = ''guest'' \<and> \<not> guest then Some NonGuestWithGuestRole
      else if role \<noteq> ''guest'' \<and> map_of (ac_Roles auth) role = None
      then Some (UnknownAuthorizationRole role)
      else check_policy_roles auth guest (role # seen) rest)"

definition check_home :: "auth_config \<Rightarrow> policy \<Rightarrow> authorization_error option" where
  "check_home auth po =
     (if po_HomeDocset po = '''' then None
      else case map_of (Docsets auth) (po_HomeDocset po) of
             None \<Rightarrow> Some (UnknownHome (po_HomeDocset po))
           | Some home \<Rightarrow>
               map_option (\<lambda>r. RoleDeniedOnHome r (po_HomeDocset po))
                 (find (\<lambda>d. d \<in> set (po_Roles po)) (da_Deny (Access home))))"

definition ResolveAuthorization :: "server \<Rightarrow> principal \<Rightarrow> authorization_error + policy" where
  "ResolveAuthorization s p =
     (case store s of
        NoStore \<Rightarrow> Inl StoreUnavailable
      | FileStore \<Rightarrow> file_ResolveAuthorization (sv_auth s) p
      | CustomStore f \<Rightarrow> f p)"

definition currentPolicy :: "server \<Rightarrow> identity \<Rightarrow> authorization_error + policy" where
  "currentPolicy s i =
     (let p0 = Principal i;
          p = (if pr_IdentityName p0 = '''' then p0\<lparr>pr_IdentityName := IdentityName i\<rparr> else p0)
      in case ResolveAuthorization s p of
           Inl e \<Rightarrow> Inl e
         | Inr po \<Rightarrow>
             let guest = (pr_IdentityName p = ''guest'')
             in if po_IdentityName po \<noteq> pr_IdentityName p
                then Inl (IdentityMismatch (po_IdentityName po) (pr_IdentityName p))
                else if guest \<and> (po_Roles po \<noteq> [''guest''] \<or> po_HomeDocset po \<noteq> '''')
                then Inl InvalidGuestPolicy
                else if \<not> guest \<and> po_IdentityName po = '''' then Inl EmptyIdentity
                else (case check_policy_roles (sv_auth s) guest [] (po_Roles po) of
                        Some e \<Rightarrow> Inl e
                      | None \<Rightarrow>
                          (case check_home (sv_auth s) po of
                             Some e \<Rightarrow> Inl e
                           | None \<Rightarrow> Inr po)))"

subsection \<open>Grants on a docset\<close>

definition policy_denied :: "policy \<Rightarrow> string \<Rightarrow> docset_spec \<Rightarrow> bool" where
  "policy_denied po name ds \<longleftrightarrow>
     name \<in> set (po_DenyDocsets po) \<or> (\<exists>d \<in> set (da_Deny (Access ds)). d \<in> set (po_Roles po))"

definition role_grants :: "policy \<Rightarrow> docset_spec \<Rightarrow> string list" where
  "role_grants po ds =
     filter (\<lambda>g. g \<noteq> '''') (List.map_filter (map_of (da_Allow (Access ds))) (po_Roles po))"

definition projection_under_home :: "auth_config \<Rightarrow> policy \<Rightarrow> docset_spec \<Rightarrow> bool" where
  "projection_under_home auth po ds \<longleftrightarrow>
     Projection ds \<noteq> None \<and> po_IdentityName po \<noteq> ''guest'' \<and> po_HomeDocset po \<noteq> ''''
     \<and> (case map_of (Docsets auth) (po_HomeDocset po) of
          None \<Rightarrow> False
        | Some home \<Rightarrow>
            let homeRoot = primaryDisplayPath home; root = primaryDisplayPath ds
            in homeRoot \<noteq> '''' \<and> root \<noteq> '''' \<and> root \<noteq> homeRoot \<and> pathWithinRoot homeRoot root)"

definition policy_grants :: "auth_config \<Rightarrow> policy \<Rightarrow> string \<Rightarrow> docset_spec \<Rightarrow> string list" where
  "policy_grants auth po name ds =
     (if policy_denied po name ds then []
      else sort (remdups
        (role_grants po ds
         @ (if po_IdentityName po \<noteq> ''guest'' \<and> po_HomeDocset po = name then [''rw''] else [])
         @ (if projection_under_home auth po ds then [''ro''] else []))))"

definition effectiveGrantNames :: "server \<Rightarrow> identity \<Rightarrow> string \<Rightarrow> string list option" where
  "effectiveGrantNames s i name =
     (if \<not> authEnforced s then (if name = ''public'' then Some [''rw''] else None)
      else case (case policySnapshot i of Some po \<Rightarrow> Inr po | None \<Rightarrow> currentPolicy s i) of
             Inl _ \<Rightarrow> None
           | Inr po \<Rightarrow>
               (case map_of (Docsets (sv_auth s)) name of
                  None \<Rightarrow> None
                | Some ds \<Rightarrow>
                    let out = policy_grants (sv_auth s) po name ds
                    in if out = [] then None else Some out))"

subsection \<open>Capabilities\<close>

datatype capability_denial =
    DelegateDenies string
  | RoleUndefined string
  | RoleDenies string string
  | NoRoleGrants string string
  | RolesLack "string list" string

fun capability_roles ::
  "role_spec gomap \<Rightarrow> string \<Rightarrow> string list \<Rightarrow> bool \<Rightarrow> string list
    \<Rightarrow> capability_denial + (bool \<times> string list)" where
  "capability_roles roles cap [] allowed names = Inr (allowed, rev names)"
| "capability_roles roles cap (r # rs) allowed names =
     (case map_of roles r of
        None \<Rightarrow>
          if r = ''guest'' then capability_roles roles cap rs allowed names
          else Inl (RoleUndefined r)
      | Some role \<Rightarrow>
          if cap \<in> set (Capabilities (rs_Deny role)) then Inl (RoleDenies r cap)
          else capability_roles roles cap rs
                 (allowed \<or> cap \<in> set (Capabilities (rs_Allow role))) (r # names))"

definition capabilityDenial :: "server \<Rightarrow> policy \<Rightarrow> string \<Rightarrow> capability_denial option" where
  "capabilityDenial s po cap =
     (if cap \<in> set (po_DenyCapabilities po) then Some (DelegateDenies cap)
      else case capability_roles (ac_Roles (sv_auth s)) cap (po_Roles po) False [] of
             Inl d \<Rightarrow> Some d
           | Inr (allowed, names) \<Rightarrow>
               if allowed then None
               else if names = [] then Some (NoRoleGrants (po_IdentityName po) cap)
               else Some (RolesLack names cap))"

definition hasCapabilityForPolicy :: "server \<Rightarrow> policy \<Rightarrow> string \<Rightarrow> bool" where
  "hasCapabilityForPolicy s po cap \<longleftrightarrow> capabilityDenial s po cap = None"

definition hasCurrentCapability :: "server \<Rightarrow> identity \<Rightarrow> string \<Rightarrow> bool" where
  "hasCurrentCapability s i cap \<longleftrightarrow>
     (case currentPolicy s (i\<lparr>policySnapshot := None\<rparr>) of
        Inl _ \<Rightarrow> False
      | Inr po \<Rightarrow> hasCapabilityForPolicy s po cap)"

subsection \<open>What a validated configuration guarantees\<close>

definition canonical_specs :: "docset_spec gomap \<Rightarrow> root_spec list" where
  "canonical_specs m = concat (map (\<lambda>(name, ds).
     map (\<lambda>pm. \<lparr>ro_docset = name, ro_path = displayPath pm, ro_alias = False, ro_mount = False\<rparr>) (Paths ds)
     @ map (\<lambda>a. \<lparr>ro_docset = name, ro_path = CleanPath a, ro_alias = True, ro_mount = False\<rparr>) (Aliases ds)) m)"

definition mount_specs :: "server \<Rightarrow> root_spec list" where
  "mount_specs s =
     map (\<lambda>m. \<lparr>ro_docset = ''<mount>'', ro_path = m, ro_alias = False, ro_mount = True\<rparr>) (mountPaths s)"

definition aliases_ok :: "docset_spec \<Rightarrow> bool" where
  "aliases_ok ds \<longleftrightarrow>
     (Aliases ds \<noteq> [] \<longrightarrow> Paths ds \<noteq> []) \<and> (\<forall>a \<in> set (Aliases ds). prefix ''/'' a \<and> cleaned a)"

definition aliases_separate :: "root_spec list \<Rightarrow> bool" where
  "aliases_separate roots \<longleftrightarrow>
     (\<forall>i \<in> set [0 ..< length roots]. \<forall>j \<in> set [0 ..< length roots].
        ro_alias (roots ! i) \<longrightarrow> i \<noteq> j \<longrightarrow> \<not> overlap_conflict (roots ! i) (roots ! j))"

definition allow_entry_ok :: "grant_registry \<Rightarrow> string \<times> string \<Rightarrow> bool" where
  "allow_entry_ok reg e =
     (case get reg (snd e) of None \<Rightarrow> False | Some g \<Rightarrow> fst e = ''guest'' \<longrightarrow> \<not> g_AllowsWrite g)"

lemma check_allow_iff: "check_allow reg n m = None \<longleftrightarrow> list_all (allow_entry_ok reg) m"
  by (induction reg n m rule: check_allow.induct) (auto simp: allow_entry_ok_def split: option.splits)

lemma check_allows_iff:
  "check_allows reg m = None \<longleftrightarrow>
     (\<forall>(n, ds) \<in> set m. list_all (allow_entry_ok reg) (da_Allow (Access ds)))"
proof (induction m)
  case (Cons x m)
  obtain n ds where x: "x = (n, ds)" by (cases x)
  have "check_allows reg (x # m) = None \<longleftrightarrow>
      check_allow reg n (da_Allow (Access ds)) = None \<and> check_allows reg m = None"
    by (simp add: x split: option.splits)
  then show ?case by (simp add: Cons.IH check_allow_iff x)
qed simp

lemma check_roots_iff:
  "check_roots owner rs = None \<longleftrightarrow>
     distinct (map fst rs) \<and> (\<forall>r \<in> set (map fst rs). owner r = None)"
proof (induction rs arbitrary: owner)
  case (Cons r rs)
  obtain root name where r: "r = (root, name)" by (cases r)
  have "check_roots owner (r # rs) = None \<longleftrightarrow>
      owner root = None \<and> check_roots (owner(root \<mapsto> name)) rs = None"
    by (simp add: r split: option.splits)
  also have "\<dots> \<longleftrightarrow> distinct (map fst (r # rs)) \<and> (\<forall>x \<in> set (map fst (r # rs)). owner x = None)"
    unfolding Cons.IH by (auto simp: r)
  finally show ?case .
qed simp

lemma alias_specs_iff:
  "alias_specs n as = Inr rs \<longleftrightarrow>
     (\<forall>a \<in> set as. prefix ''/'' a \<and> cleaned a)
     \<and> rs = map (\<lambda>a. \<lparr>ro_docset = n, ro_path = CleanPath a, ro_alias = True, ro_mount = False\<rparr>) as"
proof (induction as arbitrary: rs)
  case (Cons a as)
  show ?case
  proof (cases "alias_specs n as")
    case (Inl e)
    then have "\<not> (\<forall>a \<in> set as. prefix ''/'' a \<and> cleaned a)"
      using Cons.IH by auto
    with Inl show ?thesis by auto
  next
    case (Inr as')
    with Cons.IH [of as'] show ?thesis by (auto simp: cleaned_def)
  qed
qed auto

lemma root_specs_iff:
  "root_specs m = Inr rs \<longleftrightarrow> (\<forall>(n, ds) \<in> set m. aliases_ok ds) \<and> rs = canonical_specs m"
proof (induction m arbitrary: rs)
  case Nil
  then show ?case by (auto simp: canonical_specs_def)
next
  case (Cons x m)
  obtain n ds where x: "x = (n, ds)" by (cases x)
  show ?case
  proof (cases "aliases_ok ds")
    case False
    then show ?thesis
      by (auto simp: x aliases_ok_def alias_specs_iff split: sum.splits)
  next
    case True
    then have a: "alias_specs n (Aliases ds)
        = Inr (map (\<lambda>a. \<lparr>ro_docset = n, ro_path = CleanPath a, ro_alias = True, ro_mount = False\<rparr>) (Aliases ds))"
      by (simp add: alias_specs_iff aliases_ok_def)
    show ?thesis
    proof (cases "root_specs m")
      case (Inl e)
      then have "\<not> (\<forall>(n, ds) \<in> set m. aliases_ok ds)"
        using Cons.IH [of "canonical_specs m"] by auto
      with Inl a True show ?thesis by (auto simp: x)
    next
      case (Inr rs')
      with Cons.IH [of rs'] a True show ?thesis
        by (auto simp: x canonical_specs_def aliases_ok_def)
    qed
  qed
qed

lemma check_against_iff:
  "check_against c i j rest = None \<longleftrightarrow>
     (\<forall>k < length rest. i \<noteq> j + k \<longrightarrow> \<not> overlap_conflict c (rest ! k))"
proof (induction rest arbitrary: j)
  case (Cons r rest)
  have "check_against c i j (r # rest) = None \<longleftrightarrow>
      \<not> (i \<noteq> j \<and> overlap_conflict c r) \<and> check_against c i (Suc j) rest = None"
    by simp
  also have "\<dots> \<longleftrightarrow> (\<forall>k < length (r # rest). i \<noteq> j + k \<longrightarrow> \<not> overlap_conflict c ((r # rest) ! k))"
    unfolding Cons.IH by (auto simp: All_less_Suc2)
  finally show ?case .
qed simp

lemma check_overlaps_iff:
  "check_overlaps roots i rest = None \<longleftrightarrow>
     (\<forall>k < length rest. ro_alias (rest ! k) \<longrightarrow> check_against (rest ! k) (i + k) 0 roots = None)"
proof (induction rest arbitrary: i)
  case (Cons r rest)
  have "check_overlaps roots i (r # rest) = None \<longleftrightarrow>
      (ro_alias r \<longrightarrow> check_against r i 0 roots = None) \<and> check_overlaps roots (Suc i) rest = None"
    by (simp split: option.splits)
  then show ?case unfolding Cons.IH by (simp add: All_less_Suc2)
qed simp

lemma aliases_separate_check: "check_overlaps roots 0 roots = None \<longleftrightarrow> aliases_separate roots"
  by (auto simp: check_overlaps_iff check_against_iff aliases_separate_def)

definition boot_ok :: "server \<Rightarrow> auth_config \<Rightarrow> bool" where
  "boot_ok s auth \<longleftrightarrow>
     (authEnforced s \<longrightarrow>
        (\<forall>(n, ds) \<in> set (Docsets auth). list_all (allow_entry_ok (grants s)) (da_Allow (Access ds)))
        \<and> distinct (map fst (docset_roots (Docsets auth)))
        \<and> (\<forall>(n, ds) \<in> set (Docsets auth). aliases_ok ds)
        \<and> aliases_separate (canonical_specs (Docsets auth) @ mount_specs s))"

lemma validateGrantsFor_boot_ok: "validateGrantsFor s auth = None \<longleftrightarrow> boot_ok s auth"
proof (cases "root_specs (Docsets auth)")
  case (Inl e)
  then have "\<not> (\<forall>(n, ds) \<in> set (Docsets auth). aliases_ok ds)"
    using root_specs_iff [of "Docsets auth" "canonical_specs (Docsets auth)"] by auto
  then show ?thesis
    by (simp add: validateGrantsFor_def boot_ok_def Inl split: option.splits)
next
  case (Inr rs)
  then have rs: "\<forall>(n, ds) \<in> set (Docsets auth). aliases_ok ds" "rs = canonical_specs (Docsets auth)"
    by (simp_all add: root_specs_iff)
  have "validateGrantsFor s auth = None \<longleftrightarrow>
      (authEnforced s \<longrightarrow> check_allows (grants s) (Docsets auth) = None
        \<and> check_roots Map.empty (docset_roots (Docsets auth)) = None
        \<and> check_overlaps (rs @ mount_specs s) 0 (rs @ mount_specs s) = None)"
    by (simp add: validateGrantsFor_def Inr mount_specs_def Let_def split: option.splits)
  with rs show ?thesis
    by (simp add: boot_ok_def check_allows_iff check_roots_iff aliases_separate_check)
qed

text \<open>
  The server boots with an enforced configuration exactly when every grant an access
  list names is registered, no guest entry is writable, no two path mappings share a display
  root, aliases are absolute, cleaned and belong to a docset with a path, and no alias
  overlaps another root of the namespace other than a canonical root strictly above it.
\<close>

theorem validateGrantsFor_iff:
  "validateGrantsFor s auth = None \<longleftrightarrow>
     (authEnforced s \<longrightarrow>
        (\<forall>(n, ds) \<in> set (Docsets auth). list_all (allow_entry_ok (grants s)) (da_Allow (Access ds)))
        \<and> distinct (map fst (docset_roots (Docsets auth)))
        \<and> (\<forall>(n, ds) \<in> set (Docsets auth). aliases_ok ds)
        \<and> aliases_separate (canonical_specs (Docsets auth) @ mount_specs s))"
  by (rule validateGrantsFor_boot_ok [unfolded boot_ok_def])

subsection \<open>Policies, grants and capabilities\<close>

lemma check_policy_roles_iff:
  "check_policy_roles auth guest seen rs = None \<longleftrightarrow>
     distinct rs \<and> set rs \<inter> set seen = {}
     \<and> (\<forall>r \<in> set rs. r \<noteq> '''' \<and> TrimSpace r = r
          \<and> (if r = ''guest'' then guest else map_of (ac_Roles auth) r \<noteq> None))"
proof (induction rs arbitrary: seen)
  case (Cons r rs)
  have "check_policy_roles auth guest seen (r # rs) = None \<longleftrightarrow>
      (r \<noteq> '''' \<and> TrimSpace r = r \<and> (if r = ''guest'' then guest else map_of (ac_Roles auth) r \<noteq> None))
      \<and> r \<notin> set seen \<and> check_policy_roles auth guest (r # seen) rs = None"
    by (auto split: if_splits)
  then show ?case unfolding Cons.IH by auto
qed simp

lemma check_home_iff:
  "check_home auth po = None \<longleftrightarrow>
     (po_HomeDocset po = '''' \<or>
      (\<exists>home. map_of (Docsets auth) (po_HomeDocset po) = Some home
         \<and> set (da_Deny (Access home)) \<inter> set (po_Roles po) = {}))"
  by (auto simp: check_home_def find_None_iff split: option.splits)

definition policy_name :: "identity \<Rightarrow> string" where
  "policy_name i = (if pr_IdentityName (Principal i) = '''' then IdentityName i else pr_IdentityName (Principal i))"

definition policy_principal :: "identity \<Rightarrow> principal" where
  "policy_principal i = (Principal i)\<lparr>pr_IdentityName := policy_name i\<rparr>"

definition policy_ok :: "server \<Rightarrow> identity \<Rightarrow> policy \<Rightarrow> bool" where
  "policy_ok s i po \<longleftrightarrow>
     ResolveAuthorization s (policy_principal i) = Inr po
     \<and> po_IdentityName po = policy_name i \<and> policy_name i \<noteq> ''''
     \<and> distinct (po_Roles po)
     \<and> (if policy_name i = ''guest'' then po_Roles po = [''guest''] \<and> po_HomeDocset po = ''''
        else ''guest'' \<notin> set (po_Roles po)
          \<and> (\<forall>r \<in> set (po_Roles po).
               r \<noteq> '''' \<and> TrimSpace r = r \<and> map_of (ac_Roles (sv_auth s)) r \<noteq> None)
          \<and> (po_HomeDocset po = '''' \<or>
             (\<exists>home. map_of (Docsets (sv_auth s)) (po_HomeDocset po) = Some home
                \<and> set (da_Deny (Access home)) \<inter> set (po_Roles po) = {})))"

lemma currentPolicy_ok: "currentPolicy s i = Inr po \<longleftrightarrow> policy_ok s i po"
proof -
  have p: "(if pr_IdentityName (Principal i) = '''' then (Principal i)\<lparr>pr_IdentityName := IdentityName i\<rparr>
      else Principal i) = policy_principal i"
    by (cases "Principal i") (simp add: policy_principal_def policy_name_def)
  have n: "pr_IdentityName (policy_principal i) = policy_name i"
    by (simp add: policy_principal_def)
  have "TrimSpace ''guest'' = ''guest''"
    by code_simp
  moreover have "currentPolicy s i = Inr po \<longleftrightarrow>
      ResolveAuthorization s (policy_principal i) = Inr po
      \<and> po_IdentityName po = policy_name i
      \<and> (policy_name i = ''guest'' \<longrightarrow> po_Roles po = [''guest''] \<and> po_HomeDocset po = '''')
      \<and> (policy_name i \<noteq> ''guest'' \<longrightarrow> policy_name i \<noteq> '''')
      \<and> check_policy_roles (sv_auth s) (policy_name i = ''guest'') [] (po_Roles po) = None
      \<and> check_home (sv_auth s) po = None"
    unfolding currentPolicy_def Let_def p n
    by (cases "ResolveAuthorization s (policy_principal i)") (auto split: option.splits)
  ultimately show ?thesis
    by (cases "policy_name i = ''guest''") (auto simp: policy_ok_def check_policy_roles_iff check_home_iff)
qed

text \<open>
  The policy in force for an identity is the one its store resolves, and only when it
  names the authenticated identity, is exactly the guest policy for the guest, gives nobody
  else the guest role, has distinct defined roles, and owns a home docset that denies none
  of them.
\<close>

theorem currentPolicy_iff:
  "currentPolicy s i = Inr po \<longleftrightarrow>
     ResolveAuthorization s (policy_principal i) = Inr po
     \<and> po_IdentityName po = policy_name i \<and> policy_name i \<noteq> ''''
     \<and> distinct (po_Roles po)
     \<and> (if policy_name i = ''guest'' then po_Roles po = [''guest''] \<and> po_HomeDocset po = ''''
        else ''guest'' \<notin> set (po_Roles po)
          \<and> (\<forall>r \<in> set (po_Roles po).
               r \<noteq> '''' \<and> TrimSpace r = r \<and> map_of (ac_Roles (sv_auth s)) r \<noteq> None)
          \<and> (po_HomeDocset po = '''' \<or>
             (\<exists>home. map_of (Docsets (sv_auth s)) (po_HomeDocset po) = Some home
                \<and> set (da_Deny (Access home)) \<inter> set (po_Roles po) = {})))"
  by (rule currentPolicy_ok [unfolded policy_ok_def])

lemma role_grants_iff:
  "g \<in> set (role_grants po ds) \<longleftrightarrow>
     g \<noteq> '''' \<and> (\<exists>r \<in> set (po_Roles po). map_of (da_Allow (Access ds)) r = Some g)"
  by (force simp: role_grants_def List.map_filter_def)

lemma policy_grants_iff:
  "g \<in> set (policy_grants auth po name ds) \<longleftrightarrow>
     \<not> policy_denied po name ds
     \<and> (g \<in> set (role_grants po ds)
        \<or> g = ''rw'' \<and> po_IdentityName po \<noteq> ''guest'' \<and> po_HomeDocset po = name
        \<or> g = ''ro'' \<and> projection_under_home auth po ds)"
  by (auto simp: policy_grants_def)

definition role_denies :: "auth_config \<Rightarrow> string \<Rightarrow> string \<Rightarrow> bool" where
  "role_denies auth cap r \<longleftrightarrow>
     (\<exists>role. map_of (ac_Roles auth) r = Some role \<and> cap \<in> set (Capabilities (rs_Deny role)))"

definition role_allows :: "auth_config \<Rightarrow> string \<Rightarrow> string \<Rightarrow> bool" where
  "role_allows auth cap r \<longleftrightarrow>
     (\<exists>role. map_of (ac_Roles auth) r = Some role \<and> cap \<in> set (Capabilities (rs_Allow role)))"

lemma capability_roles_iff:
  "(\<exists>names. capability_roles (ac_Roles auth) cap rs allowed acc = Inr (a, names)) \<longleftrightarrow>
     (\<forall>r \<in> set rs. r = ''guest'' \<or> map_of (ac_Roles auth) r \<noteq> None)
     \<and> (\<forall>r \<in> set rs. \<not> role_denies auth cap r)
     \<and> a = (allowed \<or> (\<exists>r \<in> set rs. role_allows auth cap r))"
  by (induction rs arbitrary: allowed acc)
    (auto simp: role_denies_def role_allows_def split: option.splits)

text \<open>
  A capability is granted exactly when the delegate entry does not deny it, every role
  of the policy is defined (the guest role needs no definition), none of them denies it and
  one of them allows it.
\<close>

theorem hasCapability_iff:
  "hasCapabilityForPolicy s po cap \<longleftrightarrow>
     cap \<notin> set (po_DenyCapabilities po)
     \<and> (\<forall>r \<in> set (po_Roles po). r = ''guest'' \<or> map_of (ac_Roles (sv_auth s)) r \<noteq> None)
     \<and> (\<forall>r \<in> set (po_Roles po). \<not> role_denies (sv_auth s) cap r)
     \<and> (\<exists>r \<in> set (po_Roles po). role_allows (sv_auth s) cap r)"
proof -
  have "hasCapabilityForPolicy s po cap \<longleftrightarrow>
      cap \<notin> set (po_DenyCapabilities po)
      \<and> (\<exists>names. capability_roles (ac_Roles (sv_auth s)) cap (po_Roles po) False [] = Inr (True, names))"
    by (auto simp: hasCapabilityForPolicy_def capabilityDenial_def split: sum.splits prod.splits if_splits)
  then show ?thesis by (simp add: capability_roles_iff)
qed

subsection \<open>A sample configuration\<close>

text \<open>
  A configuration with nested docsets, used to apply the theorems to concrete servers: a
  library at \<open>/docs\<close> that guests and readers read and editors write, and a team docset
  nested in it with an inbox to publish to; \<open>bot\<close> may act for \<open>ann\<close> with the reader role.
\<close>

definition no_rules :: capability_rules where "no_rules = \<lparr>Capabilities = []\<rparr>"

definition sample_docset :: "string \<Rightarrow> string gomap \<Rightarrow> string list \<Rightarrow> docset_spec" where
  "sample_docset root allow deny =
     \<lparr>Paths = [\<lparr>Source = root, Display = ''''\<rparr>], Projection = None,
      Access = \<lparr>da_Allow = allow, da_Deny = deny\<rparr>, ds_Config = Some \<lparr>Edit = [''editor'']\<rparr>, Aliases = [],
      Inbox = ''in'', MaxWriteSize = 0, ds_Readonly = None, ds_WriteConflictPolicy = '''', OKF = None, ds_Rules = []\<rparr>"

definition sample_identity :: "string \<Rightarrow> string list \<Rightarrow> delegate_entry list \<Rightarrow> auth_identity" where
  "sample_identity name roles delegates =
     \<lparr>ai_Name = name, ai_CreatedBy = '''', ai_PublicKey = '''', ai_Roles = roles, ai_Home = '''', ai_Match = [],
      ai_Delegates = delegates\<rparr>"

definition sample_team :: docset_spec where
  "sample_team = (sample_docset ''/d/t'' [(''reader'', ''publish'')] [''editor''])\<lparr>Aliases := [''/t'']\<rparr>"

definition sample_auth :: auth_config where
  "sample_auth =
     \<lparr>ac_AllowKeyless = None, ac_UnknownIdentity = ''deny'', ac_DefaultCwd = '''',
      Docsets =
        [(''docs'', sample_docset ''/d'' [(''guest'', ''ro''), (''reader'', ''ro''), (''editor'', ''rw'')] []),
         (''team'', sample_team)],
      ac_Roles = [(''reader'', \<lparr>rs_Allow = no_rules, rs_Deny = no_rules\<rparr>),
                  (''editor'', \<lparr>rs_Allow = \<lparr>Capabilities = [''approve'']\<rparr>, rs_Deny = no_rules\<rparr>)],
      Identities =
        [sample_identity ''ann'' [''reader'', ''editor'']
           [\<lparr>de_Identity = ''bot'', de_Roles = Some [''reader''], de_DenyDocsets = [],
             de_DenyCapabilities = [], de_ClientAuth = ''''\<rparr>],
         sample_identity ''bot'' [''reader''] []]\<rparr>"

definition empty_fs :: fs where
  "empty_fs = \<lparr>fs_Stat = (\<lambda>p. Inl (ErrNotExist p)), fs_ReadDir = (\<lambda>p. Inl (ErrNotExist p)),
     fs_ReadFile = (\<lambda>p. Inl (ErrNotExist p))\<rparr>"

definition sample_server :: server where
  "sample_server =
     \<lparr>sv_auth = sample_auth, authEnforced = True, cfg_Readonly = False, cfg_WriteConflictPolicy = '''',
      grants = pluginGrantRegistry, merge = empty_fs, mountPaths = [''/jobs''],
      SystemMountPaths = [''/jobs''], store = FileStore\<rparr>"

definition sample_caller :: "string \<Rightarrow> identity" where
  "sample_caller name = (if name = ''guest'' then anonymousIdentity True
     else case identityForName sample_auth name of Some i \<Rightarrow> i | None \<Rightarrow> anonymousIdentity True)"

theorem validateGrantsFor_iff_witness: "validateGrantsFor sample_server sample_auth = None"
  unfolding validateGrantsFor_iff by code_simp


definition ann_policy :: policy where
  "ann_policy = \<lparr>po_IdentityName = ''ann'', po_Roles = [''reader'', ''editor''], po_HomeDocset = '''',
     po_DenyDocsets = [], po_DenyCapabilities = []\<rparr>"

lemma ann_authorization:
  "ResolveAuthorization sample_server (policy_principal (sample_caller ''ann'')) = Inr ann_policy
   \<and> policy_name (sample_caller ''ann'') = ''ann''"
  by code_simp

lemma TrimSpace_sample: "TrimSpace ''reader'' = ''reader'' \<and> TrimSpace ''editor'' = ''editor''"
  by code_simp

theorem currentPolicy_iff_witness:
  "currentPolicy sample_server (sample_caller ''ann'') = Inr ann_policy"
  by (subst currentPolicy_iff)
    (simp add: ann_authorization, simp add: ann_policy_def sample_server_def sample_auth_def TrimSpace_sample)

theorem hasCapability_iff_witness:
  "\<exists>po. hasCapabilityForPolicy sample_server (po\<lparr>po_Roles := [''reader'', ''editor''], po_DenyCapabilities := []\<rparr>) ''approve''"
  unfolding hasCapability_iff by (simp add: sample_server_def sample_auth_def role_denies_def role_allows_def no_rules_def)

end
