(* ===== verification/Governance.thy ===== *)
theory Governance
  imports Authz
begin

text \<open>
  Which docset governs a path (pkg/openlore/authz.go): alias resolution, the most specific
  docset and the grants it gives an identity; the write-conflict policy of a path
  (pkg/openlore/server.go). The loops that keep the longest root seen so far are
  \<open>pick_best\<close>.
\<close>

subsection \<open>Alias resolution\<close>

record path_alias =
  pa_Alias :: string
  pa_Target :: string

definition alias_candidates :: "docset_spec gomap \<Rightarrow> string \<Rightarrow> (string \<times> string) list" where
  "alias_candidates m clean =
     filter (\<lambda>(alias, target). pathWithinRoot alias clean)
       (concat (map (\<lambda>(n, ds). map (\<lambda>raw. (CleanPath raw, primaryDisplayPath ds)) (Aliases ds)) m))"

definition longer_alias :: "string \<times> string \<Rightarrow> string \<times> string \<Rightarrow> bool" where
  "longer_alias a b \<longleftrightarrow> length (fst a) > length (fst b)"

definition canonicalPath :: "server \<Rightarrow> string \<Rightarrow> string" where
  "canonicalPath s p =
     (let clean = CleanPath p
      in case pick_best longer_alias None (alias_candidates (Docsets (sv_auth s)) clean) of
           None \<Rightarrow> clean
         | Some (alias, target) \<Rightarrow> replacePathRoot clean alias target)"

subsection \<open>The most specific docset\<close>

type_synonym root_candidate = "string \<times> string \<times> docset_spec"

definition root_candidates :: "docset_spec gomap \<Rightarrow> string \<Rightarrow> root_candidate list" where
  "root_candidates m clean =
     filter (\<lambda>(root, n, ds). pathWithinRoot root clean)
       (concat (map (\<lambda>(n, ds). map (\<lambda>pm. (displayPath pm, n, ds)) (Paths ds)) m))"

definition more_specific :: "root_candidate \<Rightarrow> root_candidate \<Rightarrow> bool" where
  "more_specific a b \<longleftrightarrow>
     length (fst a) > length (fst b)
     \<or> length (fst a) = length (fst b) \<and> fst (snd a) < fst (snd b)"

definition mostSpecificDocset :: "server \<Rightarrow> string \<Rightarrow> (string \<times> docset_spec) option" where
  "mostSpecificDocset s p =
     map_option snd
       (pick_best more_specific None (root_candidates (Docsets (sv_auth s)) (canonicalPath s p)))"

definition grantsForPath :: "server \<Rightarrow> identity \<Rightarrow> string \<Rightarrow> (docset_spec \<times> grant_type list) option" where
  "grantsForPath s i p =
     (case mostSpecificDocset s p of
        None \<Rightarrow> None
      | Some (name, ds) \<Rightarrow>
          (case effectiveGrantNames s i name of
             None \<Rightarrow> None
           | Some names \<Rightarrow>
               let gs = List.map_filter (get (grants s)) names
               in if gs = [] then None else Some (ds, gs)))"

definition allDocsetRoots :: "server \<Rightarrow> string list" where
  "allDocsetRoots s = map fst (docset_roots (Docsets (sv_auth s)))"

definition grants_read :: "server \<Rightarrow> string list \<Rightarrow> docset_spec \<Rightarrow> string \<Rightarrow> bool" where
  "grants_read s names ds p \<longleftrightarrow>
     (\<exists>n \<in> set names. case get (grants s) n of None \<Rightarrow> False | Some g \<Rightarrow> g_CanRead g ds p)"

definition aliasesForIdentity :: "server \<Rightarrow> identity \<Rightarrow> path_alias list" where
  "aliasesForIdentity s i =
     concat (map (\<lambda>(name, ds).
       case effectiveGrantNames s i name of
         None \<Rightarrow> []
       | Some names \<Rightarrow>
           let target = primaryDisplayPath ds
           in if target = '''' \<or> \<not> grants_read s names ds target then []
              else map (\<lambda>a. \<lparr>pa_Alias = a, pa_Target = target\<rparr>) (Aliases ds)) (Docsets (sv_auth s)))"

definition readableRoots :: "server \<Rightarrow> identity \<Rightarrow> string list" where
  "readableRoots s i =
     concat (map (\<lambda>(name, ds).
       case effectiveGrantNames s i name of
         None \<Rightarrow> []
       | Some names \<Rightarrow> filter (grants_read s names ds) (map displayPath (Paths ds)))
       (Docsets (sv_auth s)))
     @ SystemMountPaths s"

subsection \<open>The write-conflict policy of a path\<close>

text \<open>
  \<open>config.WriteConflictPolicy\<close> is a string type the server reads as one of the two policies;
  the loop returns at the first docset, in map order, that overrides it and covers the path.
\<close>

definition writeConflictPolicy :: "server \<Rightarrow> string \<Rightarrow> string" where
  "writeConflictPolicy s p =
     (let global = (if cfg_WriteConflictPolicy s = '''' then ''hash'' else cfg_WriteConflictPolicy s);
          clean = canonicalPath s p;
          covers = (\<lambda>ds. ds_WriteConflictPolicy ds \<noteq> ''''
                         \<and> (\<exists>pm \<in> set (Paths ds). pathWithinRoot (displayPath pm) clean))
      in case find (\<lambda>(n, ds). covers ds) (Docsets (sv_auth s)) of
           None \<Rightarrow> global
         | Some (n, ds) \<Rightarrow>
             (case ParseWriteConflictPolicy (ds_WriteConflictPolicy ds) of
                Inr _ \<Rightarrow> ds_WriteConflictPolicy ds
              | Inl _ \<Rightarrow> global))"

subsection \<open>The choices are maxima\<close>

interpretation longest: best_choice longer_alias "\<lambda>a. True"
  by unfold_locales (auto simp: longer_alias_def)

interpretation specific: best_choice more_specific "\<lambda>a. True"
  by unfold_locales (auto simp: more_specific_def)

lemma root_candidates_iff:
  "(root, n, ds) \<in> set (root_candidates m p) \<longleftrightarrow>
     (n, ds) \<in> set m \<and> (\<exists>pm \<in> set (Paths ds). root = displayPath pm) \<and> pathWithinRoot root p"
  by (auto simp: root_candidates_def)

lemma alias_candidates_iff:
  "(a, t) \<in> set (alias_candidates m p) \<longleftrightarrow>
     (\<exists>n ds. (n, ds) \<in> set m \<and> t = primaryDisplayPath ds \<and> a \<in> CleanPath ` set (Aliases ds))
     \<and> pathWithinRoot a p"
  by (auto simp: alias_candidates_def)

text \<open>Two candidate roots of a cleaned path, neither more specific, are one root of one docset.\<close>

lemma root_candidates_strict:
  assumes "x \<in> set (root_candidates m p)" "y \<in> set (root_candidates m p)"
    and "go_map m" "cleaned p" "\<not> more_specific x y" "\<not> more_specific y x"
  shows "x = y"
proof -
  obtain a n d where x: "x = (a, n, d)" by (cases x)
  obtain b n' d' where y: "y = (b, n', d')" by (cases y)
  have "length a = length b" "n = n'"
    using assms(5,6) by (auto simp: x y more_specific_def not_less intro: order_antisym)
  moreover have "a = b"
    using assms(1,2,4) calculation by (auto simp: x y root_candidates_iff intro: pathWithinRoot_same_length)
  moreover have "d = d'"
    using assms(1-3) \<open>n = n'\<close> by (auto simp: x y root_candidates_iff go_map_def dest: eq_key_imp_eq_value)
  ultimately show ?thesis by (simp add: x y)
qed

lemma mostSpecificDocset_cases:
  assumes "mostSpecificDocset s p = Some (n, ds)"
  obtains root where
    "(root, n, ds) \<in> set (root_candidates (Docsets (sv_auth s)) (canonicalPath s p))"
    "\<And>x. x \<in> set (root_candidates (Docsets (sv_auth s)) (canonicalPath s p)) \<Longrightarrow>
       \<not> more_specific x (root, n, ds)"
proof -
  obtain root where
    b: "pick_best more_specific None (root_candidates (Docsets (sv_auth s)) (canonicalPath s p))
      = Some (root, n, ds)"
    using assms by (auto simp: mostSpecificDocset_def)
  show ?thesis
  proof (rule that)
    show "(root, n, ds) \<in> set (root_candidates (Docsets (sv_auth s)) (canonicalPath s p))"
      using specific.pick_best_Some_in [OF b] by simp
    show "\<not> more_specific x (root, n, ds)"
      if "x \<in> set (root_candidates (Docsets (sv_auth s)) (canonicalPath s p))" for x
      using specific.pick_best_max [OF b] that by simp
  qed
qed

lemma mostSpecificDocset_None:
  "mostSpecificDocset s p = None \<longleftrightarrow>
     root_candidates (Docsets (sv_auth s)) (canonicalPath s p) = []"
  by (simp add: mostSpecificDocset_def specific.pick_best_None)

text \<open>The choice of the governing docset does not depend on the order of the map.\<close>

lemma pick_specific_order:
  assumes "set m = set m'" "go_map m" "go_map m'" "cleaned p"
  shows "pick_best more_specific None (root_candidates m p)
       = pick_best more_specific None (root_candidates m' p)"
proof -
  have eq: "set (root_candidates m p) = set (root_candidates m' p)"
    using assms(1) by (auto simp: root_candidates_def)
  show ?thesis
  proof (cases "pick_best more_specific None (root_candidates m p)")
    case None
    then have "set (root_candidates m' p) = {}"
      using eq by (simp add: specific.pick_best_None)
    with None show ?thesis by simp
  next
    case (Some r)
    then have "root_candidates m' p \<noteq> []"
      using eq specific.pick_best_Some_in [OF Some] by auto
    then obtain r' where r': "pick_best more_specific None (root_candidates m' p) = Some r'"
      by (metis specific.pick_best_None not_None_eq)
    have "r = r'"
      using Some r' eq
    proof (rule specific.pick_best_unique)
      show "x = y" if "x \<in> set (root_candidates m p)" "y \<in> set (root_candidates m p)"
        "\<not> more_specific x y" "\<not> more_specific y x" for x y
        using root_candidates_strict [OF that(1,2) assms(2,4) that(3,4)] .
    qed simp
    with Some r' show ?thesis by simp
  qed
qed

subsection \<open>Aliases of a validated configuration\<close>

lemma aliases_separateD:
  assumes "aliases_separate roots" "u \<in> set roots" "v \<in> set roots" "u \<noteq> v" "ro_alias u"
  shows "\<not> overlap_conflict u v"
proof -
  obtain i j where "i < length roots" "u = roots ! i" "j < length roots" "v = roots ! j"
    using assms(2,3) by (metis in_set_conv_nth)
  with assms show ?thesis unfolding aliases_separate_def by fastforce
qed

lemma roots_of_same_path_overlap:
  assumes "pathWithinRoot a p" "pathWithinRoot b p" "cleaned a" "cleaned b" "cleaned p"
  shows "pathWithinRoot a b \<or> pathWithinRoot b a"
  using assms by (auto simp: pathWithinRoot_segs dest: prefix_same_cases)

lemma alias_candidateE:
  assumes "x \<in> set (alias_candidates m p)"
  obtains n ds a where "(n, ds) \<in> set m" "a \<in> set (Aliases ds)"
    "x = (CleanPath a, primaryDisplayPath ds)" "pathWithinRoot (CleanPath a) p"
  using assms by (auto simp: alias_candidates_def)

lemma canonical_specs_alias:
  assumes "(n, ds) \<in> set m" "a \<in> set (Aliases ds)"
  shows "\<lparr>ro_docset = n, ro_path = CleanPath a, ro_alias = True, ro_mount = False\<rparr>
    \<in> set (canonical_specs m)"
  unfolding canonical_specs_def set_concat set_map
  by (rule UN_I [OF imageI [OF assms(1)]]) (use assms(2) in auto)

lemma alias_unique:
  assumes sep: "aliases_separate (canonical_specs m @ rest)" and m: "go_map m" and p: "cleaned p"
    and x: "x \<in> set (alias_candidates m p)" and y: "y \<in> set (alias_candidates m p)"
  shows "x = y"
proof -
  obtain n ds a where x': "(n, ds) \<in> set m" "a \<in> set (Aliases ds)"
      "x = (CleanPath a, primaryDisplayPath ds)" "pathWithinRoot (CleanPath a) p"
    using x by (rule alias_candidateE)
  obtain n' ds' a' where y': "(n', ds') \<in> set m" "a' \<in> set (Aliases ds')"
      "y = (CleanPath a', primaryDisplayPath ds')" "pathWithinRoot (CleanPath a') p"
    using y by (rule alias_candidateE)
  let ?u = "\<lparr>ro_docset = n, ro_path = CleanPath a, ro_alias = True, ro_mount = False\<rparr>"
  let ?v = "\<lparr>ro_docset = n', ro_path = CleanPath a', ro_alias = True, ro_mount = False\<rparr>"
  have in_roots: "?u \<in> set (canonical_specs m @ rest)" "?v \<in> set (canonical_specs m @ rest)"
    using canonical_specs_alias x'(1,2) y'(1,2) by auto
  have "overlap_conflict ?u ?v"
    using roots_of_same_path_overlap [OF x'(4) y'(4) cleaned_CleanPath cleaned_CleanPath p]
    by (simp add: overlap_conflict_def)
  then have "?u = ?v"
    using aliases_separateD [OF sep in_roots] by auto
  moreover from this have "ds = ds'"
    using m x'(1) y'(1) by (auto simp: go_map_def dest: eq_key_imp_eq_value)
  ultimately show ?thesis using x'(3) y'(3) by simp
qed

definition reorder :: "server \<Rightarrow> docset_spec gomap \<Rightarrow> server" where
  "reorder s m = s\<lparr>sv_auth := (sv_auth s)\<lparr>Docsets := m\<rparr>\<rparr>"

lemma pick_best_const: "\<forall>x \<in> set xs. x = r \<Longrightarrow> xs \<noteq> [] \<Longrightarrow> pick_best longer_alias None xs = Some r"
  by (metis longest.pick_best_None longest.pick_best_Some_in not_None_eq)

lemma canonicalPath_order:
  assumes v: "validateGrants s = None" "authEnforced s" and m: "go_map (Docsets (sv_auth s))" "go_map m"
    and eq: "set m = set (Docsets (sv_auth s))"
  shows "canonicalPath (reorder s m) p = canonicalPath s p"
proof -
  let ?c = "alias_candidates (Docsets (sv_auth s)) (CleanPath p)" and ?c' = "alias_candidates m (CleanPath p)"
  have set_eq: "set ?c' = set ?c"
    using eq by (auto simp: alias_candidates_def)
  have "aliases_separate (canonical_specs (Docsets (sv_auth s)) @ mount_specs s)"
    using v by (simp add: validateGrants_def validateGrantsFor_boot_ok boot_ok_def)
  then have unique: "x = y" if "x \<in> set ?c" "y \<in> set ?c" for x y
    using alias_unique m(1) cleaned_CleanPath that by blast
  have "pick_best longer_alias None ?c' = pick_best longer_alias None ?c"
  proof (cases ?c)
    case Nil
    with set_eq show ?thesis by simp
  next
    case (Cons r rs)
    then have "\<forall>x \<in> set ?c. x = r" "\<forall>x \<in> set ?c'. x = r" "?c' \<noteq> []"
      using unique set_eq by auto
    then show ?thesis using Cons pick_best_const by (metis list.distinct(1))
  qed
  then show ?thesis by (simp add: canonicalPath_def reorder_def)
qed

lemma cleaned_canonicalPath:
  assumes "validateGrants s = None" "authEnforced s"
  shows "cleaned (canonicalPath s p)"
proof (cases "pick_best longer_alias None (alias_candidates (Docsets (sv_auth s)) (CleanPath p))")
  case None
  then show ?thesis by (simp add: canonicalPath_def)
next
  case (Some at)
  obtain a t where at: "at = (a, t)" by (cases at)
  then have "(a, t) \<in> set (alias_candidates (Docsets (sv_auth s)) (CleanPath p))"
    using longest.pick_best_Some_in [OF Some] by simp
  then obtain n ds where ds: "(n, ds) \<in> set (Docsets (sv_auth s))" "Aliases ds \<noteq> []" "t = primaryDisplayPath ds"
    by (rule alias_candidateE) (metis empty_iff list.set(1) prod.inject)
  moreover have "\<forall>(n, ds) \<in> set (Docsets (sv_auth s)). aliases_ok ds"
    using assms by (simp add: validateGrants_def validateGrantsFor_boot_ok boot_ok_def)
  ultimately have "cleaned t"
    by (auto simp: aliases_ok_def primaryDisplayPath_def split: list.splits)
  then show ?thesis
    by (simp add: canonicalPath_def Some at replacePathRoot_def Let_def)
qed

text \<open>
  Under a configuration the server accepts, the canonical path of a request and the
  docset that governs it do not depend on the order in which the configuration's maps are
  ranged over.
\<close>

theorem governing_docset_order_independent:
  assumes "validateGrants s = None" "authEnforced s"
    and "go_map (Docsets (sv_auth s))" "go_map m" "set m = set (Docsets (sv_auth s))"
  shows "canonicalPath (reorder s m) p = canonicalPath s p
    \<and> mostSpecificDocset (reorder s m) p = mostSpecificDocset s p"
proof -
  have c: "canonicalPath (reorder s m) p = canonicalPath s p"
    by (rule canonicalPath_order [OF assms])
  moreover have "pick_best more_specific None (root_candidates m (canonicalPath s p))
      = pick_best more_specific None (root_candidates (Docsets (sv_auth s)) (canonicalPath s p))"
    by (rule pick_specific_order)
      (use assms cleaned_canonicalPath in \<open>simp_all\<close>)
  ultimately show ?thesis
    by (simp add: mostSpecificDocset_def c) (simp add: reorder_def)
qed

theorem governing_docset_order_independent_witness:
  "mostSpecificDocset (reorder sample_server (rev (Docsets sample_auth))) ''/t/x''
     = mostSpecificDocset sample_server ''/t/x''"
proof -
  have "validateGrants sample_server = None"
    by code_simp
  moreover have "go_map (Docsets (sv_auth sample_server))" "go_map (rev (Docsets sample_auth))"
    by (simp_all add: go_map_def sample_server_def sample_auth_def)
  moreover have "set (rev (Docsets sample_auth)) = set (Docsets (sv_auth sample_server))"
    "authEnforced sample_server"
    by (simp_all add: sample_server_def)
  ultimately show ?thesis
    using governing_docset_order_independent by blast
qed

text \<open>
  The governing docset is the one whose display root covers the canonical path and is
  longer than every other root that covers it, ties going to the smaller name.
\<close>

theorem mostSpecificDocset_iff:
  assumes "go_map (Docsets (sv_auth s))" "cleaned (canonicalPath s p)"
  shows "mostSpecificDocset s p = Some (n, ds) \<longleftrightarrow>
     (\<exists>root. (root, n, ds) \<in> set (root_candidates (Docsets (sv_auth s)) (canonicalPath s p))
        \<and> (\<forall>(root', n', ds') \<in> set (root_candidates (Docsets (sv_auth s)) (canonicalPath s p)).
             length root' < length root \<or> length root' = length root \<and> n \<le> n'))"
proof -
  let ?c = "root_candidates (Docsets (sv_auth s)) (canonicalPath s p)"
  have best: "(\<forall>(root', n', ds') \<in> set ?c. length root' < length root \<or> length root' = length root \<and> n \<le> n')
      \<longleftrightarrow> (\<forall>x \<in> set ?c. \<not> more_specific x (root, n, ds))" for root
    by (auto simp: more_specific_def not_less order_le_less)
  have "mostSpecificDocset s p = Some (n, ds) \<longleftrightarrow>
      (\<exists>root. (root, n, ds) \<in> set ?c \<and> (\<forall>x \<in> set ?c. \<not> more_specific x (root, n, ds)))"
  proof
    assume "mostSpecificDocset s p = Some (n, ds)"
    then show "\<exists>root. (root, n, ds) \<in> set ?c \<and> (\<forall>x \<in> set ?c. \<not> more_specific x (root, n, ds))"
      by (rule mostSpecificDocset_cases) blast
  next
    assume "\<exists>root. (root, n, ds) \<in> set ?c \<and> (\<forall>x \<in> set ?c. \<not> more_specific x (root, n, ds))"
    then obtain root where r: "(root, n, ds) \<in> set ?c" "\<forall>x \<in> set ?c. \<not> more_specific x (root, n, ds)"
      by blast
    then obtain b where b: "pick_best more_specific None ?c = Some b"
      by (metis specific.pick_best_None empty_iff empty_set not_None_eq)
    then have "b \<in> set ?c" "\<not> more_specific (root, n, ds) b"
      using specific.pick_best_Some_in [OF b] specific.pick_best_max [OF b] r(1) by auto
    then have "b = (root, n, ds)"
      using root_candidates_strict [OF _ r(1) assms] r(2) by blast
    with b show "mostSpecificDocset s p = Some (n, ds)"
      by (simp add: mostSpecificDocset_def)
  qed
  then show ?thesis by (simp only: best)
qed

theorem mostSpecificDocset_iff_witness:
  "mostSpecificDocset sample_server ''/t/x''
     = Some (''team'', sample_team)"
proof -
  have "go_map (Docsets (sv_auth sample_server))"
    by (simp add: go_map_def sample_server_def sample_auth_def)
  moreover have p: "canonicalPath sample_server ''/t/x'' = ''/d/t/x''"
    by code_simp
  moreover have "cleaned ''/d/t/x''"
    by code_simp
  moreover have "root_candidates (Docsets (sv_auth sample_server)) ''/d/t/x'' =
      [(''/d'', ''docs'', sample_docset ''/d'' [(''guest'', ''ro''), (''reader'', ''ro''), (''editor'', ''rw'')] []),
       (''/d/t'', ''team'', sample_team)]"
    by code_simp
  ultimately show ?thesis
    by (subst mostSpecificDocset_iff) (simp_all add: p)
qed

end
