(* ===== verification/Write_Authz.thy ===== *)
theory Write_Authz
  imports Governance
begin

text \<open>
  The per-operation write authorizer of pkg/openlore/authz.go (\<open>identityWriteError\<close> and the
  folder-configuration checks it makes) and the session filesystem layer that consults it
  (pkg/openlore/scoped_write_fs.go). A check that walks the tree may not return when the
  backend presents an endless one: the authorizer is an option, \<open>None\<close> when it does not.
\<close>

subsection \<open>Folder configurations\<close>

definition identityHasDirConfigRole :: "server \<Rightarrow> identity \<Rightarrow> string \<Rightarrow> bool" where
  "identityHasDirConfigRole s i target =
     (case mostSpecificDocset s (path_dir (path_dir target)) of
        None \<Rightarrow> False
      | Some (n, ds) \<Rightarrow>
          (case ds_Config ds of
             None \<Rightarrow> False
           | Some perm \<Rightarrow>
               (case currentPolicy s i of
                  Inl _ \<Rightarrow> False
                | Inr po \<Rightarrow> \<exists>a \<in> set (Edit perm). a \<in> set (po_Roles po))))"

definition dir_config_walk :: "(string \<Rightarrow> bool) \<Rightarrow> bool walk_fn" where
  "dir_config_walk may candidate info walkErr allowed =
     (case walkErr of
        Some e \<Rightarrow> Inl e
      | None \<Rightarrow> Inr (if IsDirConfigPath candidate \<and> \<not> may candidate then False else allowed))"

definition canEditDirConfigsInTree :: "server \<Rightarrow> identity \<Rightarrow> string \<Rightarrow> bool option" where
  "canEditDirConfigsInTree s i target =
     (case WalkDir (merge s) target (dir_config_walk (identityHasDirConfigRole s i)) True of
        None \<Rightarrow> None
      | Some (Inl e) \<Rightarrow> Some (is_not_exist e)
      | Some (Inr allowed) \<Rightarrow> Some allowed)"

definition contains_walk :: "bool walk_fn" where
  "contains_walk candidate info walkErr found =
     Inr (if walkErr = None \<and> IsDirConfigPath candidate then True else found)"

definition treeContainsDirConfig :: "fs \<Rightarrow> string \<Rightarrow> bool option" where
  "treeContainsDirConfig F target =
     (case WalkDir F target contains_walk False of
        None \<Rightarrow> None
      | Some (Inl _) \<Rightarrow> Some False
      | Some (Inr found) \<Rightarrow> Some found)"

subsection \<open>The write authorizer\<close>

datatype write_error =
    ServerReadOnly
  | ScopeReadOnly
  | DirConfigDenied string
  | TreeConfigDenied string
  | AcrossBoundary string
  | NoGrant change_action string
  | NeedsConfigAuthority string
  | SourceReadOnly string
  | DocsetReadOnly string
  | NeedsRw change_action string
  | GrantsDoNotPermit "string list" change_action string

datatype verdict = Allow | Deny write_error

definition mutationDeniedError :: "fs \<Rightarrow> change_action \<Rightarrow> string \<Rightarrow> write_error option" where
  "mutationDeniedError F action target =
     (if IsDirConfigPath target then Some (NeedsConfigAuthority target)
      else if action = ChangeActionRemoveAll
      then (case treeContainsDirConfig F target of
              None \<Rightarrow> None
            | Some True \<Rightarrow> Some (TreeConfigDenied target)
            | Some False \<Rightarrow> Some (NoGrant action target))
      else Some (NoGrant action target))"

definition crosses_boundary :: "server \<Rightarrow> string \<Rightarrow> bool" where
  "crosses_boundary s p \<longleftrightarrow>
     (\<exists>(root, n) \<in> set (docset_roots (Docsets (sv_auth s))). p \<noteq> root \<and> pathWithinRoot p root)"

definition needs_rw :: "change_action \<Rightarrow> bool" where
  "needs_rw action \<longleftrightarrow>
     action = ChangeActionSetXattr \<or> action = ChangeActionRemoveXattr
     \<or> action = ChangeActionPreserveAndRecreateXattrs"

text \<open>The gates after the lock, the scope and the folder configurations: the governing docset and its grants.\<close>

definition grant_verdict :: "server \<Rightarrow> identity \<Rightarrow> change_action \<Rightarrow> string \<Rightarrow> verdict option" where
  "grant_verdict s i action p =
     (case grantsForPath s i p of
        None \<Rightarrow> map_option Deny (mutationDeniedError (merge s) action p)
      | Some (ds, gs) \<Rightarrow>
          Some (case Projection ds of
                  Some pr \<Rightarrow> Deny (SourceReadOnly (Store pr))
                | None \<Rightarrow>
                    if ds_Readonly ds = Some True then Deny (DocsetReadOnly p)
                    else if needs_rw action then
                      (if \<exists>g \<in> set gs. g_Name g = ''rw'' then Allow else Deny (NeedsRw action p))
                    else if \<exists>g \<in> set gs. g_CanWrite g ds action p then Allow
                    else Deny (GrantsDoNotPermit (map g_Name gs) action p)))"

definition identityWriteError :: "server \<Rightarrow> identity \<Rightarrow> change_action \<Rightarrow> string \<Rightarrow> verdict option" where
  "identityWriteError s i0 action p0 =
     (let i = i0\<lparr>policySnapshot := None\<rparr>
      in if cfg_Readonly s then Some (Deny ServerReadOnly)
         else if \<not> scopeGrantsWrite (Scopes i) then Some (Deny ScopeReadOnly)
         else let p = canonicalPath s p0
              in if IsDirConfigPath p \<and> \<not> identityHasDirConfigRole s i p
                 then Some (Deny (DirConfigDenied p))
                 else if action = ChangeActionRemoveAll then
                   (case canEditDirConfigsInTree s i p of
                      None \<Rightarrow> None
                    | Some False \<Rightarrow> Some (Deny (TreeConfigDenied p))
                    | Some True \<Rightarrow>
                        if crosses_boundary s p then Some (Deny (AcrossBoundary p))
                        else grant_verdict s i action p)
                 else grant_verdict s i action p)"

definition identityCanWrite :: "server \<Rightarrow> identity \<Rightarrow> change_action \<Rightarrow> string \<Rightarrow> bool" where
  "identityCanWrite s i action p \<longleftrightarrow> identityWriteError s i action p = Some Allow"

subsection \<open>Gates\<close>

definition live :: "identity \<Rightarrow> identity" where
  "live i = i\<lparr>policySnapshot := None\<rparr>"

definition holds_grant :: "server \<Rightarrow> identity \<Rightarrow> string \<Rightarrow> grant_type \<Rightarrow> bool" where
  "holds_grant s i name g \<longleftrightarrow>
     (\<exists>names gn. effectiveGrantNames s i name = Some names \<and> gn \<in> set names \<and> get (grants s) gn = Some g)"

lemma grantsForPath_iff:
  "(\<exists>gs. grantsForPath s i p = Some (ds, gs) \<and> (\<exists>g \<in> set gs. P g)) \<longleftrightarrow>
     (\<exists>name g. mostSpecificDocset s p = Some (name, ds) \<and> holds_grant s i name g \<and> P g)"
proof (cases "mostSpecificDocset s p")
  case None
  then show ?thesis by (simp add: grantsForPath_def)
next
  case (Some nd)
  obtain name ds' where nd: "nd = (name, ds')" by (cases nd)
  show ?thesis
  proof (cases "effectiveGrantNames s i name")
    case None
    with Some nd show ?thesis by (simp add: grantsForPath_def holds_grant_def)
  next
    case names: (Some names)
    let ?gs = "List.map_filter (get (grants s)) names"
    have "(\<exists>g \<in> set ?gs. P g) \<longleftrightarrow> (\<exists>g. holds_grant s i name g \<and> P g)"
      by (auto simp: holds_grant_def names List.map_filter_def)
    moreover have "(\<exists>gs. grantsForPath s i p = Some (ds, gs) \<and> (\<exists>g \<in> set gs. P g)) \<longleftrightarrow>
        ds = ds' \<and> (\<exists>g \<in> set ?gs. P g)"
      by (auto simp: grantsForPath_def Some nd names Let_def split: if_splits)
    ultimately show ?thesis using Some nd by auto
  qed
qed

definition permits :: "grant_type \<Rightarrow> docset_spec \<Rightarrow> change_action \<Rightarrow> string \<Rightarrow> bool" where
  "permits g ds action p \<longleftrightarrow>
     (if needs_rw action then g_Name g = ''rw'' else g_CanWrite g ds action p)"

lemma grant_verdict_Allow:
  "grant_verdict s i action p = Some Allow \<longleftrightarrow>
     (\<exists>name ds g. mostSpecificDocset s p = Some (name, ds) \<and> holds_grant s i name g
        \<and> permits g ds action p \<and> Projection ds = None \<and> ds_Readonly ds \<noteq> Some True)"
proof -
  have "grant_verdict s i action p = Some Allow \<longleftrightarrow>
      (\<exists>ds gs. grantsForPath s i p = Some (ds, gs) \<and> (\<exists>g \<in> set gs. permits g ds action p)
        \<and> Projection ds = None \<and> ds_Readonly ds \<noteq> Some True)"
    by (cases "grantsForPath s i p")
      (auto simp: grant_verdict_def permits_def split: option.splits if_split if_split_asm)
  then show ?thesis
    using grantsForPath_iff [of s i p _ "\<lambda>g. permits g _ action p"] by metis
qed

definition write_gates :: "server \<Rightarrow> identity \<Rightarrow> change_action \<Rightarrow> string \<Rightarrow> bool" where
  "write_gates s i action p0 \<longleftrightarrow>
     (let p = canonicalPath s p0 in
        \<not> cfg_Readonly s \<and> Scopes i = [ScopeFull]
        \<and> (IsDirConfigPath p \<longrightarrow> identityHasDirConfigRole s (live i) p)
        \<and> (action = ChangeActionRemoveAll \<longrightarrow>
             canEditDirConfigsInTree s (live i) p = Some True \<and> \<not> crosses_boundary s p)
        \<and> (\<exists>name ds g. mostSpecificDocset s p = Some (name, ds) \<and> holds_grant s (live i) name g
             \<and> permits g ds action p \<and> Projection ds = None \<and> ds_Readonly ds \<noteq> Some True))"

lemma identityCanWrite_gates: "identityCanWrite s i action p0 \<longleftrightarrow> write_gates s i action p0"
proof -
  have "scopeGrantsWrite (Scopes i) \<longleftrightarrow> Scopes i = [ScopeFull]"
    by (cases "Scopes i") (auto simp: scopeGrantsWrite_def)
  then have "identityCanWrite s i action p0 \<longleftrightarrow>
      (let p = canonicalPath s p0 in
        \<not> cfg_Readonly s \<and> Scopes i = [ScopeFull]
        \<and> (IsDirConfigPath p \<longrightarrow> identityHasDirConfigRole s (live i) p)
        \<and> (action = ChangeActionRemoveAll \<longrightarrow>
             canEditDirConfigsInTree s (live i) p = Some True \<and> \<not> crosses_boundary s p)
        \<and> grant_verdict s (live i) action p = Some Allow)"
    by (auto simp: identityCanWrite_def identityWriteError_def live_def Let_def
        split: option.splits bool.splits)
  then show ?thesis by (simp only: write_gates_def grant_verdict_Allow)
qed

text \<open>
  C2. A mutation is authorized exactly when the server is writable, the token scope is full,
  a folder configuration is touched only by a holder of its edit role, a tree is deleted
  only when its folder configurations may be edited and no docset is nested below it, and
  the docset that governs the path is writable, is not a projection, and gives the caller's
  current policy a grant that permits the action there.
\<close>

theorem identityCanWrite_iff:
  "identityCanWrite s i action p0 \<longleftrightarrow>
     (let p = canonicalPath s p0 in
        \<not> cfg_Readonly s \<and> Scopes i = [ScopeFull]
        \<and> (IsDirConfigPath p \<longrightarrow> identityHasDirConfigRole s (live i) p)
        \<and> (action = ChangeActionRemoveAll \<longrightarrow>
             canEditDirConfigsInTree s (live i) p = Some True \<and> \<not> crosses_boundary s p)
        \<and> (\<exists>name ds g. mostSpecificDocset s p = Some (name, ds) \<and> holds_grant s (live i) name g
             \<and> permits g ds action p \<and> Projection ds = None \<and> ds_Readonly ds \<noteq> Some True))"
  by (rule identityCanWrite_gates [unfolded write_gates_def])

lemma sample_publish:
  "canonicalPath sample_server ''/t/in/x'' = ''/d/t/in/x''"
  "mostSpecificDocset sample_server ''/d/t/in/x'' = Some (''team'', sample_team)"
  "holds_grant sample_server (live (sample_caller ''bot'')) ''team'' publishGrant"
  "publish_CanWrite sample_team ChangeActionWrite ''/d/t/in/x''"
proof -
  have "effectiveGrantNames sample_server (live (sample_caller ''bot'')) ''team'' = Some [''publish'']"
    by code_simp
  then show "holds_grant sample_server (live (sample_caller ''bot'')) ''team'' publishGrant"
    by (simp add: holds_grant_def sample_server_def get_pluginGrantRegistry)
  show "canonicalPath sample_server ''/t/in/x'' = ''/d/t/in/x''"
    by code_simp
  show "mostSpecificDocset sample_server ''/d/t/in/x'' = Some (''team'', sample_team)"
    by code_simp
  show "publish_CanWrite sample_team ChangeActionWrite ''/d/t/in/x''"
    by code_simp
qed

theorem identityCanWrite_iff_witness:
  "identityCanWrite sample_server (sample_caller ''bot'') ChangeActionWrite ''/t/in/x''"
proof -
  have "\<not> IsDirConfigPath ''/d/t/in/x''" "\<not> cfg_Readonly sample_server"
    "Scopes (sample_caller ''bot'') = [ScopeFull]"
    "Projection sample_team = None"
    "ds_Readonly sample_team \<noteq> Some True"
    by code_simp+
  moreover have "permits publishGrant sample_team ChangeActionWrite ''/d/t/in/x''"
    by (simp add: permits_def needs_rw_def publishGrant_def sample_publish)
  ultimately show ?thesis
    unfolding identityCanWrite_iff Let_def sample_publish using sample_publish(2,3) by blast
qed

subsection \<open>Guests never write\<close>

lemma effectiveGrantNames_live:
  assumes "authEnforced s" "effectiveGrantNames s (live i) name = Some names" "gn \<in> set names"
  obtains po ds where "policy_ok s i po" "map_of (Docsets (sv_auth s)) name = Some ds"
    "gn \<in> set (policy_grants (sv_auth s) po name ds)"
proof -
  have "currentPolicy s (live i) = Inr po \<longleftrightarrow> policy_ok s i po" for po
    by (simp add: currentPolicy_ok policy_ok_def policy_name_def policy_principal_def live_def)
  then show ?thesis
    using assms that
    by (auto simp: effectiveGrantNames_def live_def Let_def split: sum.splits option.splits if_splits)
qed

lemma guest_grants_unwritable:
  assumes boot: "validateGrants s = None" "authEnforced s" and guest: "policy_name i = ''guest''"
    and held: "effectiveGrantNames s (live i) name = Some names" "gn \<in> set names"
  shows "\<exists>g. get (grants s) gn = Some g \<and> \<not> g_AllowsWrite g"
proof -
  obtain po ds where po: "policy_ok s i po" and ds: "map_of (Docsets (sv_auth s)) name = Some ds"
    and gn: "gn \<in> set (policy_grants (sv_auth s) po name ds)"
    using effectiveGrantNames_live [OF boot(2) held] .
  have "po_Roles po = [''guest'']" "po_IdentityName po = ''guest''"
    using po guest by (simp_all add: policy_ok_def)
  then have "map_of (da_Allow (Access ds)) ''guest'' = Some gn"
    using gn by (auto simp: policy_grants_def role_grants_iff projection_under_home_def split: if_splits)
  then have "(''guest'', gn) \<in> set (da_Allow (Access ds))"
    by (rule map_of_SomeD)
  moreover have "list_all (allow_entry_ok (grants s)) (da_Allow (Access ds))"
    using boot map_of_SomeD [OF ds] by (auto simp: validateGrants_def validateGrantsFor_boot_ok boot_ok_def)
  ultimately show ?thesis
    by (auto simp: list_all_iff allow_entry_ok_def split: option.splits)
qed

context grant_registry
begin

lemma guest_no_write:
  assumes "get (grants s) = registry" and "\<exists>g. registry ''rw'' = Some g \<and> g_AllowsWrite g"
    and "validateGrants s = None" "authEnforced s" "policy_name i = ''guest''"
  shows "\<not> identityCanWrite s i action p"
proof
  assume "identityCanWrite s i action p"
  then obtain name ds g where held: "holds_grant s (live i) name g"
    and permits: "permits g ds action (canonicalPath s p)"
    by (auto simp: identityCanWrite_gates write_gates_def Let_def)
  then obtain names gn where gn: "effectiveGrantNames s (live i) name = Some names" "gn \<in> set names"
      "registry gn = Some g"
    using assms(1) by (auto simp: holds_grant_def)
  then have closed: "\<not> g_AllowsWrite g"
    using guest_grants_unwritable [OF assms(3-5) gn(1,2)] assms(1) by simp
  show False
  proof (cases "needs_rw action")
    case True
    then have "gn = ''rw''"
      using permits registered_name [OF gn(3)] by (simp add: permits_def)
    then show False using assms(2) gn(3) closed by simp
  next
    case False
    then show False using permits announced [OF gn(3) closed] by (simp add: permits_def)
  qed
qed

end

text \<open>
  C3. Under a configuration the server accepts, with the core grants or those and the inbox
  plugin's, no mutation by the guest is ever authorized, whatever the store resolves and
  whatever docset the path lies in.
\<close>

theorem guest_never_writes:
  assumes "grants s = newGrantRegistry \<or> grants s = pluginGrantRegistry"
    and "validateGrants s = None" "authEnforced s" "policy_name i = ''guest''"
  shows "\<not> identityCanWrite s i action p"
  using assms(1)
proof
  assume "grants s = newGrantRegistry"
  then show ?thesis
    using assms by (intro core.guest_no_write) (auto simp: get_newGrantRegistry rwGrant_def)
next
  assume "grants s = pluginGrantRegistry"
  then show ?thesis
    using assms
    by (intro plugin.guest_no_write) (auto simp: get_pluginGrantRegistry get_newGrantRegistry rwGrant_def)
qed

theorem guest_never_writes_witness:
  "\<not> identityCanWrite sample_server (sample_caller ''guest'') ChangeActionWrite ''/d/x''"
proof (rule guest_never_writes)
  show "validateGrants sample_server = None" by code_simp
  show "policy_name (sample_caller ''guest'') = ''guest''" by code_simp
qed (simp_all add: sample_server_def)

subsection \<open>The authorizer returns\<close>

lemma grant_verdict_returns: "action \<noteq> ChangeActionRemoveAll \<Longrightarrow> \<exists>v. grant_verdict s i action p = Some v"
  by (auto simp: grant_verdict_def mutationDeniedError_def split: option.split)



end
