(* ===== verification/Scoped_Read.thy ===== *)
theory Scoped_Read
  imports Write_Authz
begin

text \<open>
  Read confinement: \<open>scopedReadFS\<close> of pkg/openlore/authz.go, the filesystem that shows a
  session only the roots it may read and the directories leading to them, and
  \<open>liveReadFS\<close> of pkg/openlore/live_config.go, which builds one from the current policy for
  every operation.
\<close>

subsection \<open>The confined filesystem\<close>

record scoped_read_fs =
  sr_base :: fs
  sr_roots :: "string list"
  sr_boundaries :: "string list"

definition newScopedReadFS :: "fs \<Rightarrow> string list \<Rightarrow> string list \<Rightarrow> scoped_read_fs" where
  "newScopedReadFS base roots boundaries =
     \<lparr>sr_base = base, sr_roots = map CleanPath roots, sr_boundaries = map CleanPath boundaries\<rparr>"

definition longer :: "string \<Rightarrow> string \<Rightarrow> bool" where
  "longer a b \<longleftrightarrow> length a > length b"

definition best_root :: "string list \<Rightarrow> string \<Rightarrow> string option" where
  "best_root roots clean = pick_best longer None (filter (\<lambda>r. pathWithinRoot r clean) roots)"

definition exposes_container :: "string list \<Rightarrow> string \<Rightarrow> bool" where
  "exposes_container boundaries clean \<longleftrightarrow>
     (\<exists>b \<in> set boundaries. b \<noteq> clean \<and> (clean = ''/'' \<or> prefix (clean @ ''/'') b))"

definition within :: "scoped_read_fs \<Rightarrow> string \<Rightarrow> bool" where
  "within s p =
     (let clean = CleanPath p
      in case best_root (sr_roots s) clean of
           None \<Rightarrow> False
         | Some r \<Rightarrow>
             if r = ''/'' \<and> exposes_container (sr_boundaries s) clean then False
             else (case best_root (sr_boundaries s) clean of
                     None \<Rightarrow> True
                   | Some b \<Rightarrow> \<not> length b > length r))"

definition ancestor :: "scoped_read_fs \<Rightarrow> string \<Rightarrow> bool" where
  "ancestor s p =
     (let clean = CleanPath p
      in clean = ''/'' \<or> (\<exists>r \<in> set (sr_roots s). prefix (clean @ ''/'') r))"

definition readable :: "scoped_read_fs \<Rightarrow> string \<Rightarrow> bool" where
  "readable s p \<longleftrightarrow> within s p \<or> ancestor s p"

definition sr_Stat :: "scoped_read_fs \<Rightarrow> string \<Rightarrow> file_info vres" where
  "sr_Stat s p = (if \<not> readable s p then Inl (ErrNotExist p) else fs_Stat (sr_base s) p)"

definition sr_ReadFile :: "scoped_read_fs \<Rightarrow> string \<Rightarrow> string vres" where
  "sr_ReadFile s p = (if \<not> within s p then Inl (ErrNotExist p) else fs_ReadFile (sr_base s) p)"

definition child_path :: "string \<Rightarrow> string \<Rightarrow> string" where
  "child_path clean name = (if clean = ''/'' then ''/'' @ name else clean @ ''/'' @ name)"

definition sr_ReadDir :: "scoped_read_fs \<Rightarrow> string \<Rightarrow> file_info list vres" where
  "sr_ReadDir s p =
     (if \<not> readable s p then Inl (ErrNotExist p)
      else case fs_ReadDir (sr_base s) p of
             Inl e \<Rightarrow> Inl e
           | Inr entries \<Rightarrow>
               Inr (filter (\<lambda>e. readable s (child_path (CleanPath p) (FileName e))) entries))"

definition scoped_fs :: "scoped_read_fs \<Rightarrow> fs" where
  "scoped_fs s = \<lparr>fs_Stat = sr_Stat s, fs_ReadDir = sr_ReadDir s, fs_ReadFile = sr_ReadFile s\<rparr>"

subsection \<open>The session's live view\<close>

definition no_policy :: policy where
  "no_policy = \<lparr>po_IdentityName = '''', po_Roles = [], po_HomeDocset = '''', po_DenyDocsets = [],
     po_DenyCapabilities = []\<rparr>"

definition resolveSessionIdentity :: "server \<Rightarrow> identity \<Rightarrow> identity" where
  "resolveSessionIdentity s i =
     (if authEnforced s \<and> policySnapshot i = None then
        (case currentPolicy s i of
           Inr po \<Rightarrow> i\<lparr>policySnapshot := Some po, HomeDocset := po_HomeDocset po,
                       HomeDir := resolveHomeDir (sv_auth s) (po_HomeDocset po)\<rparr>
         | Inl _ \<Rightarrow> i\<lparr>policySnapshot := Some no_policy\<rparr>)
      else i)"

definition liveReadIdentity :: "server \<Rightarrow> identity \<Rightarrow> identity" where
  "liveReadIdentity s i =
     resolveSessionIdentity s (case store s of FileStore \<Rightarrow> i\<lparr>policySnapshot := None\<rparr> | _ \<Rightarrow> i)"

definition live_view :: "server \<Rightarrow> identity \<Rightarrow> scoped_read_fs" where
  "live_view s i =
     newScopedReadFS (merge s) (readableRoots s (liveReadIdentity s i)) (allDocsetRoots s)"

subsection \<open>Governing roots\<close>

interpretation root_choice: best_choice longer "\<lambda>a. True"
  by unfold_locales (auto simp: longer_def)

lemma best_root_Some:
  "best_root roots p = Some r \<Longrightarrow>
     r \<in> set roots \<and> pathWithinRoot r p
     \<and> (\<forall>r' \<in> set roots. pathWithinRoot r' p \<longrightarrow> length r' \<le> length r)"
  using root_choice.pick_best_Some_in [of None "filter (\<lambda>r. pathWithinRoot r p) roots" r]
    root_choice.pick_best_max [of None "filter (\<lambda>r. pathWithinRoot r p) roots" r]
  by (auto simp: best_root_def longer_def not_less)

lemma best_root_None: "best_root roots p = None \<longleftrightarrow> (\<forall>r \<in> set roots. \<not> pathWithinRoot r p)"
  by (simp add: best_root_def root_choice.pick_best_None filter_empty_conv)

definition governed_by :: "scoped_read_fs \<Rightarrow> string \<Rightarrow> string \<Rightarrow> bool" where
  "governed_by s r p \<longleftrightarrow>
     r \<in> set (sr_roots s) \<and> pathWithinRoot r p
     \<and> (\<forall>r' \<in> set (sr_roots s) \<union> set (sr_boundaries s). pathWithinRoot r' p \<longrightarrow> length r' \<le> length r)"

lemma within_governed:
  "within s p \<longleftrightarrow>
     (\<exists>r. governed_by s r (CleanPath p)
        \<and> \<not> (r = ''/'' \<and> exposes_container (sr_boundaries s) (CleanPath p)))"
proof (cases "best_root (sr_roots s) (CleanPath p)")
  case None
  then show ?thesis
    using best_root_None [of "sr_roots s" "CleanPath p"]
    by (simp add: within_def governed_by_def) blast
next
  case (Some r)
  note r = best_root_Some [OF Some]
  have "governed_by s r' (CleanPath p) \<Longrightarrow> r' = r" for r'
    using r unfolding governed_by_def
    by (metis Un_iff cleaned_CleanPath le_antisym pathWithinRoot_same_length)
  moreover have "governed_by s r (CleanPath p) \<longleftrightarrow>
      (case best_root (sr_boundaries s) (CleanPath p) of None \<Rightarrow> True | Some b \<Rightarrow> length b \<le> length r)"
  proof (cases "best_root (sr_boundaries s) (CleanPath p)")
    case None
    then have "\<forall>b \<in> set (sr_boundaries s). \<not> pathWithinRoot b (CleanPath p)"
      by (simp only: best_root_None)
    with r None show ?thesis by (auto simp: governed_by_def)
  next
    case b: (Some b)
    from best_root_Some [OF b] r show ?thesis
      by (auto simp: governed_by_def b)
  qed
  moreover have "within s p \<longleftrightarrow>
      \<not> (r = ''/'' \<and> exposes_container (sr_boundaries s) (CleanPath p))
      \<and> (case best_root (sr_boundaries s) (CleanPath p) of None \<Rightarrow> True | Some b \<Rightarrow> length b \<le> length r)"
    by (simp add: within_def Let_def Some not_less split: option.split)
  ultimately show ?thesis by metis
qed

text \<open>
  A file is readable exactly when the longest root that covers its path, among the
  session's readable roots and every docset's, is a readable one; a grant on the root docset
  alone does not open a path that merely leads to other docsets.
\<close>

theorem within_iff:
  "within s p \<longleftrightarrow>
     (\<exists>r \<in> set (sr_roots s). pathWithinRoot r (CleanPath p)
        \<and> (\<forall>r' \<in> set (sr_roots s) \<union> set (sr_boundaries s).
             pathWithinRoot r' (CleanPath p) \<longrightarrow> length r' \<le> length r)
        \<and> \<not> (r = ''/'' \<and> exposes_container (sr_boundaries s) (CleanPath p)))"
  using within_governed [of s p] by (auto simp: governed_by_def)

theorem within_iff_witness:
  "within (newScopedReadFS empty_fs [''/d''] [''/d'', ''/d/t'']) ''/d/x''"
proof -
  have "CleanPath ''/d/x'' = ''/d/x''" "CleanPath ''/d'' = ''/d''" "CleanPath ''/d/t'' = ''/d/t''"
    by code_simp+
  then show ?thesis
    by (auto simp: within_iff newScopedReadFS_def pathWithinRoot_def)
qed

subsection \<open>What a session reads\<close>

lemma grants_read_holds:
  "effectiveGrantNames s i name = Some names \<Longrightarrow> grants_read s names ds p \<longleftrightarrow>
     (\<exists>g. holds_grant s i name g \<and> g_CanRead g ds p)"
  by (auto simp: grants_read_def holds_grant_def split: option.splits)

lemma readableRoots_iff:
  "r \<in> set (readableRoots s i) \<longleftrightarrow>
     (\<exists>name ds g. (name, ds) \<in> set (Docsets (sv_auth s)) \<and> r \<in> displayPath ` set (Paths ds)
        \<and> holds_grant s i name g \<and> g_CanRead g ds r)
     \<or> r \<in> set (SystemMountPaths s)"
proof -
  have "r \<in> set (case effectiveGrantNames s i name of None \<Rightarrow> []
        | Some names \<Rightarrow> filter (grants_read s names ds) (map displayPath (Paths ds))) \<longleftrightarrow>
      r \<in> displayPath ` set (Paths ds) \<and> (\<exists>g. holds_grant s i name g \<and> g_CanRead g ds r)" for name ds
    by (cases "effectiveGrantNames s i name")
      (auto simp: grants_read_holds, auto simp: holds_grant_def)
  then show ?thesis
    by (fastforce simp: readableRoots_def)
qed

lemma allDocsetRoots_iff:
  "r \<in> set (allDocsetRoots s) \<longleftrightarrow>
     (\<exists>(n, ds) \<in> set (Docsets (sv_auth s)). r \<in> displayPath ` set (Paths ds))"
  by (force simp: allDocsetRoots_def docset_roots_def)

lemma CleanPath_displayPath [simp]: "CleanPath (displayPath pm) = displayPath pm"
  by (simp add: displayPath_def)

lemma allDocsetRoots_clean: "r \<in> set (allDocsetRoots s) \<Longrightarrow> CleanPath r = r"
  by (auto simp: allDocsetRoots_iff)

definition one_file_fs :: "string \<Rightarrow> fs" where
  "one_file_fs content = \<lparr>fs_Stat = (\<lambda>p. Inr (vfs_File (path_base p) p content 0)),
     fs_ReadDir = (\<lambda>p. Inl ENOTDIR), fs_ReadFile = (\<lambda>p. Inr content)\<rparr>"


text \<open>
  Listing a directory and looking at its children agree: an entry is listed exactly when
  the base lists it and its own path may be looked at, and nothing is listed of a directory
  that may not.
\<close>

theorem sr_ReadDir_lists_readable:
  "e \<in> (case sr_ReadDir s p of Inl _ \<Rightarrow> {} | Inr es \<Rightarrow> set es) \<longleftrightarrow>
     readable s p \<and> e \<in> (case fs_ReadDir (sr_base s) p of Inl _ \<Rightarrow> {} | Inr es \<Rightarrow> set es)
     \<and> readable s (child_path (CleanPath p) (FileName e))"
  by (auto simp: sr_ReadDir_def split: sum.splits)

text \<open>A readable root lies below readable directories: every ancestor of a root can be listed.\<close>

lemma ancestor_of_root:
  assumes "r \<in> set (sr_roots s)" "cleaned p" "cleaned r" "pathWithinRoot p r" "p \<noteq> r"
  shows "ancestor s p"
  using assms by (auto simp: ancestor_def Let_def cleaned_def pathWithinRoot_def)

end
