(* ===== verification/Writable_Fs.thy ===== *)
theory Writable_Fs
  imports Changeset
begin

text \<open>
  The interface \<open>WritableFS\<close> of pkg/vfs/vfs.go and the optional interfaces a backend may
  implement beside it (\<open>XattrReader\<close>, \<open>XattrWriter\<close>, \<open>XattrMaintenance\<close>,
  \<open>ChangeSetAdmitter\<close>, \<open>ChangePreflighter\<close>): a record of operations over the backend's
  state \<open>'s\<close>, a type assertion being a test of an option field. Each operation returns its
  result and the new state.
\<close>

type_synonym 's op = "'s \<Rightarrow> vfs_error option \<times> 's"

record 's xattr_reader =
  x_GetXattr :: "string \<Rightarrow> string \<Rightarrow> 's \<Rightarrow> string vres"
  x_ListXattrs :: "string \<Rightarrow> 's \<Rightarrow> string list vres"

record 's xattr_writer =
  x_SetXattr :: "string \<Rightarrow> string \<Rightarrow> string \<Rightarrow> xattr_flags \<Rightarrow> 's op"
  x_RemoveXattr :: "string \<Rightarrow> string \<Rightarrow> 's op"

record 's xattr_maintenance =
  x_PreserveAndRecreateXattrs :: "string \<Rightarrow> string gomap \<Rightarrow> 's op"
  x_MigrateXattrs :: "string \<Rightarrow> xattr_migration \<Rightarrow> 's op"

record 's wfs =
  w_fs :: "'s \<Rightarrow> fs"
  w_WriteFileAtomic :: "string \<Rightarrow> string \<Rightarrow> write_opts \<Rightarrow> 's \<Rightarrow> string vres \<times> 's"
  w_Mkdir :: "string \<Rightarrow> 's op"
  w_MkdirAll :: "string \<Rightarrow> 's op"
  w_Remove :: "string \<Rightarrow> 's op"
  w_RemoveAll :: "string \<Rightarrow> remove_opts \<Rightarrow> 's op"
  w_xattr_reader :: "'s xattr_reader option"
  w_xattr_writer :: "'s xattr_writer option"
  w_xattr_maintenance :: "'s xattr_maintenance option"
  w_admitter :: "(changeset \<Rightarrow> 's op) option"
  w_preflight :: "(change \<Rightarrow> 's \<Rightarrow> vfs_error option) option"

subsection \<open>Mutations as data\<close>

text \<open>
  A mutation is one call of a mutating method; \<open>mutate\<close> is the call. The hash a write
  returns is the first component's value, and empty for the others.
\<close>

datatype mutation =
    MWrite string string write_opts
  | MMkdir string
  | MMkdirAll string
  | MRemove string
  | MRemoveAll string remove_opts
  | MSetXattr string string string xattr_flags
  | MRemoveXattr string string
  | MPreserve string "string gomap"
  | MMigrate string xattr_migration

fun m_action :: "mutation \<Rightarrow> change_action" where
  "m_action (MWrite _ _ _) = ChangeActionWrite"
| "m_action (MMkdir _) = ChangeActionMkdir"
| "m_action (MMkdirAll _) = ChangeActionMkdirAll"
| "m_action (MRemove _) = ChangeActionRemove"
| "m_action (MRemoveAll _ _) = ChangeActionRemoveAll"
| "m_action (MSetXattr _ _ _ _) = ChangeActionSetXattr"
| "m_action (MRemoveXattr _ _) = ChangeActionRemoveXattr"
| "m_action (MPreserve _ _) = ChangeActionPreserveAndRecreateXattrs"
| "m_action (MMigrate _ _) = ChangeActionMigrateXattrs"

fun m_target :: "mutation \<Rightarrow> string" where
  "m_target (MWrite p _ _) = p"
| "m_target (MMkdir p) = p"
| "m_target (MMkdirAll p) = p"
| "m_target (MRemove p) = p"
| "m_target (MRemoveAll p _) = p"
| "m_target (MSetXattr p _ _ _) = p"
| "m_target (MRemoveXattr p _) = p"
| "m_target (MPreserve p _) = p"
| "m_target (MMigrate p _) = p"

definition no_hash :: "vfs_error option \<times> 's \<Rightarrow> string vres \<times> 's" where
  "no_hash r = ((case fst r of None \<Rightarrow> Inr '''' | Some e \<Rightarrow> Inl e), snd r)"

definition unsupported :: "'s op" where
  "unsupported s = (Some ENOTSUP, s)"

fun mutate :: "'s wfs \<Rightarrow> mutation \<Rightarrow> 's \<Rightarrow> string vres \<times> 's" where
  "mutate w (MWrite p b opts) s = w_WriteFileAtomic w p b opts s"
| "mutate w (MMkdir p) s = no_hash (w_Mkdir w p s)"
| "mutate w (MMkdirAll p) s = no_hash (w_MkdirAll w p s)"
| "mutate w (MRemove p) s = no_hash (w_Remove w p s)"
| "mutate w (MRemoveAll p opts) s = no_hash (w_RemoveAll w p opts s)"
| "mutate w (MSetXattr p n v f) s =
     no_hash (case w_xattr_writer w of None \<Rightarrow> unsupported s | Some x \<Rightarrow> x_SetXattr x p n v f s)"
| "mutate w (MRemoveXattr p n) s =
     no_hash (case w_xattr_writer w of None \<Rightarrow> unsupported s | Some x \<Rightarrow> x_RemoveXattr x p n s)"
| "mutate w (MPreserve p a) s =
     no_hash (case w_xattr_maintenance w of None \<Rightarrow> unsupported s
              | Some x \<Rightarrow> x_PreserveAndRecreateXattrs x p a s)"
| "mutate w (MMigrate p m) s =
     no_hash (case w_xattr_maintenance w of None \<Rightarrow> unsupported s | Some x \<Rightarrow> x_MigrateXattrs x p m s)"

text \<open>The change set of a mutation, as the session's write sink builds it.\<close>

definition empty_change :: changeset where
  "empty_change = \<lparr>Target = '''', Action = ChangeActionOther '''', Write = None, RemoveAll = None,
     Xattr = None, XattrRepair = None, XattrMigration = None, Changes = [], Moves = []\<rparr>"

definition change_of :: "mutation \<Rightarrow> changeset" where
  "change_of m = (case m of
       MWrite p b opts \<Rightarrow> empty_change\<lparr>Target := p, Action := ChangeActionWrite,
         Write := Some \<lparr>wc_Bytes = b, wc_Opts = opts, wc_Generated = False\<rparr>\<rparr>
     | MMkdir p \<Rightarrow> empty_change\<lparr>Target := p, Action := ChangeActionMkdir\<rparr>
     | MMkdirAll p \<Rightarrow> empty_change\<lparr>Target := p, Action := ChangeActionMkdirAll\<rparr>
     | MRemove p \<Rightarrow> empty_change\<lparr>Target := p, Action := ChangeActionRemove\<rparr>
     | MRemoveAll p opts \<Rightarrow> empty_change\<lparr>Target := p, Action := ChangeActionRemoveAll,
         RemoveAll := Some \<lparr>rc_Opts = opts\<rparr>\<rparr>
     | MSetXattr p n v f \<Rightarrow> empty_change\<lparr>Target := p, Action := ChangeActionSetXattr,
         Xattr := Some \<lparr>xc_Name = n, xc_Value = v, xc_Flags = f\<rparr>\<rparr>
     | MRemoveXattr p n \<Rightarrow> empty_change\<lparr>Target := p, Action := ChangeActionRemoveXattr,
         Xattr := Some \<lparr>xc_Name = n, xc_Value = '''', xc_Flags = 0\<rparr>\<rparr>
     | MPreserve p a \<Rightarrow> empty_change\<lparr>Target := p, Action := ChangeActionPreserveAndRecreateXattrs,
         XattrRepair := Some \<lparr>xr_Attributes = a\<rparr>\<rparr>
     | MMigrate p mig \<Rightarrow> empty_change\<lparr>Target := p, Action := ChangeActionMigrateXattrs,
         XattrMigration := Some mig\<rparr>)"

lemma change_of_leaf:
  "Leaves (change_of m) = [change.truncate (change_of m)]"
  "Action (change_of m) = m_action m" "Target (change_of m) = m_target m"
  by (cases m; simp add: change_of_def empty_change_def Leaves_def)+

end
