(* ===== verification/Session_Fs.thy ===== *)
theory Session_Fs
  imports Scoped_Read Writable_Fs
begin

text \<open>
  The layers of a session's filesystem: the write sink that turns every mutation into a change
  set (pkg/openlore/middleware_fs.go), the layer that authorizes each mutation
  (scoped_write_fs.go), and the outermost layer that resolves path aliases (alias_fs.go);
  the authorizer a session is given (server.go, \<open>buildCanonicalRawSessionFS\<close>).
\<close>

subsection \<open>The write sink\<close>

text \<open>\<open>admit\<close> is the admission chain with the write log behind it; it returns the committed hash.\<close>

type_synonym 's admit = "changeset \<Rightarrow> 's \<Rightarrow> string vres \<times> 's"

definition drop_hash :: "string vres \<times> 's \<Rightarrow> vfs_error option \<times> 's" where
  "drop_hash r = ((case fst r of Inl e \<Rightarrow> Some e | Inr _ \<Rightarrow> None), snd r)"

definition newMiddlewareFS :: "'s wfs \<Rightarrow> 's admit \<Rightarrow> 's wfs" where
  "newMiddlewareFS view admit = \<lparr>
     w_fs = w_fs view,
     w_WriteFileAtomic = (\<lambda>p data opts. admit (change_of (MWrite p data opts))),
     w_Mkdir = (\<lambda>p s. drop_hash (admit (change_of (MMkdir p)) s)),
     w_MkdirAll = (\<lambda>p s. drop_hash (admit (change_of (MMkdirAll p)) s)),
     w_Remove = (\<lambda>p s. drop_hash (admit (change_of (MRemove p)) s)),
     w_RemoveAll = (\<lambda>p opts s. drop_hash (admit (change_of (MRemoveAll p opts)) s)),
     w_xattr_reader = Some (case w_xattr_reader view of
         Some x \<Rightarrow> x
       | None \<Rightarrow> \<lparr>x_GetXattr = (\<lambda>p n s. Inl ENOTSUP), x_ListXattrs = (\<lambda>p s. Inl ENOTSUP)\<rparr>),
     w_xattr_writer = Some
       \<lparr>x_SetXattr = (\<lambda>p n v f s. drop_hash (admit (change_of (MSetXattr p n v f)) s)),
        x_RemoveXattr = (\<lambda>p n s. drop_hash (admit (change_of (MRemoveXattr p n)) s))\<rparr>,
     w_xattr_maintenance = Some
       \<lparr>x_PreserveAndRecreateXattrs = (\<lambda>p a s. drop_hash (admit (change_of (MPreserve p a)) s)),
        x_MigrateXattrs = (\<lambda>p m s. drop_hash (admit (change_of (MMigrate p m)) s))\<rparr>,
     w_admitter = Some (\<lambda>cs s. drop_hash (admit cs s)),
     w_preflight = None\<rparr>"

subsection \<open>Authorized writes\<close>

type_synonym authorizer = "change_action \<Rightarrow> string \<Rightarrow> vfs_error option"

definition EPERM :: vfs_error where
  "EPERM = ErrPermission ''operation not permitted''"

definition guarded :: "'s wfs option \<Rightarrow> authorizer \<Rightarrow> change_action \<Rightarrow> string \<Rightarrow> ('s wfs \<Rightarrow> 's op) \<Rightarrow> 's op" where
  "guarded inner authz action p f s =
     (case inner of
        None \<Rightarrow> (Some (ErrReadOnly p), s)
      | Some w \<Rightarrow> (case authz action p of Some e \<Rightarrow> (Some e, s) | None \<Rightarrow> f w s))"

definition guarded_x :: "'s wfs option \<Rightarrow> authorizer \<Rightarrow> change_action \<Rightarrow> string \<Rightarrow> ('s wfs \<Rightarrow> 's op) \<Rightarrow> 's op" where
  "guarded_x inner authz action p f s =
     (case inner of
        None \<Rightarrow> (Some EPERM, s)
      | Some w \<Rightarrow> if authz action p \<noteq> None then (Some EPERM, s) else f w s)"

fun admit_leaves :: "authorizer \<Rightarrow> change list \<Rightarrow> vfs_error option" where
  "admit_leaves authz [] = None"
| "admit_leaves authz (c # cs) =
     (case authz (Action c) (Target c) of
        Some e \<Rightarrow> Some (ErrPermission (Target c))
      | None \<Rightarrow> admit_leaves authz cs)"

definition scoped_AdmitChangeSet ::
  "(string \<Rightarrow> string) \<Rightarrow> 's wfs option \<Rightarrow> authorizer \<Rightarrow> changeset \<Rightarrow> 's op" where
  "scoped_AdmitChangeSet sha inner authz cs s =
     (if ValidateChangeSet sha cs \<noteq> None then (Some (OtherError ''invalid changeset''), s)
      else case inner of
             None \<Rightarrow> (Some (ErrReadOnly ''''), s)
           | Some w \<Rightarrow>
               (case admit_leaves authz (Leaves cs) of
                  Some e \<Rightarrow> (Some e, s)
                | None \<Rightarrow> (case w_admitter w of None \<Rightarrow> (Some ENOTSUP, s) | Some a \<Rightarrow> a cs s)))"

definition scoped_CanWrite :: "'s wfs option \<Rightarrow> authorizer \<Rightarrow> string \<Rightarrow> bool" where
  "scoped_CanWrite inner authz p \<longleftrightarrow>
     \<not> Option.is_none inner \<and> authz ChangeActionWrite p = None"

text \<open>\<open>view\<close> is the wrapped filesystem, \<open>inner\<close> the same filesystem when it is writable.\<close>

definition newScopedWriteFS ::
  "(string \<Rightarrow> string) \<Rightarrow> 's wfs \<Rightarrow> 's wfs option \<Rightarrow> authorizer \<Rightarrow> 's wfs" where
  "newScopedWriteFS sha view inner authz = \<lparr>
     w_fs = w_fs view,
     w_WriteFileAtomic = (\<lambda>p data opts s.
       (case inner of
          None \<Rightarrow> (Inl (ErrReadOnly p), s)
        | Some w \<Rightarrow> (case authz ChangeActionWrite p of
                       Some e \<Rightarrow> (Inl e, s) | None \<Rightarrow> w_WriteFileAtomic w p data opts s))),
     w_Mkdir = (\<lambda>p. guarded inner authz ChangeActionMkdir p (\<lambda>w. w_Mkdir w p)),
     w_MkdirAll = (\<lambda>p. guarded inner authz ChangeActionMkdirAll p (\<lambda>w. w_MkdirAll w p)),
     w_Remove = (\<lambda>p. guarded inner authz ChangeActionRemove p (\<lambda>w. w_Remove w p)),
     w_RemoveAll = (\<lambda>p opts. guarded inner authz ChangeActionRemoveAll p (\<lambda>w. w_RemoveAll w p opts)),
     w_xattr_reader = Some (case w_xattr_reader view of
         Some x \<Rightarrow> x
       | None \<Rightarrow> \<lparr>x_GetXattr = (\<lambda>p n s. Inl ENOTSUP), x_ListXattrs = (\<lambda>p s. Inl ENOTSUP)\<rparr>),
     w_xattr_writer = Some
       \<lparr>x_SetXattr = (\<lambda>p n v f. guarded_x inner authz ChangeActionSetXattr p
          (\<lambda>w s. case w_xattr_writer w of None \<Rightarrow> unsupported s | Some x \<Rightarrow> x_SetXattr x p n v f s)),
        x_RemoveXattr = (\<lambda>p n. guarded_x inner authz ChangeActionRemoveXattr p
          (\<lambda>w s. case w_xattr_writer w of None \<Rightarrow> unsupported s | Some x \<Rightarrow> x_RemoveXattr x p n s))\<rparr>,
     w_xattr_maintenance = Some
       \<lparr>x_PreserveAndRecreateXattrs = (\<lambda>p a. guarded_x inner authz ChangeActionPreserveAndRecreateXattrs p
          (\<lambda>w s. case w_xattr_maintenance w of None \<Rightarrow> unsupported s
                 | Some x \<Rightarrow> x_PreserveAndRecreateXattrs x p a s)),
        x_MigrateXattrs = (\<lambda>p m. guarded_x inner authz ChangeActionMigrateXattrs p
          (\<lambda>w s. case w_xattr_maintenance w of None \<Rightarrow> unsupported s | Some x \<Rightarrow> x_MigrateXattrs x p m s))\<rparr>,
     w_admitter = Some (scoped_AdmitChangeSet sha inner authz),
     w_preflight = None\<rparr>"

subsection \<open>The session's authorizer\<close>

text \<open>
  The verdicts of \<open>identityWriteError\<close> as errors. A check that does not return authorizes
  nothing and changes nothing; it is the last case.
\<close>

fun verdict_error :: "verdict option \<Rightarrow> vfs_error option" where
  "verdict_error (Some Allow) = None"
| "verdict_error (Some (Deny (DirConfigDenied p))) = Some (ErrPermission p)"
| "verdict_error (Some (Deny (TreeConfigDenied p))) = Some (ErrPermission p)"
| "verdict_error (Some (Deny (NeedsConfigAuthority p))) = Some (ErrPermission p)"
| "verdict_error (Some (Deny _)) = Some (ErrReadOnly '''')"
| "verdict_error None = Some (OtherError ''not returned'')"

definition session_authorizer :: "server \<Rightarrow> identity \<Rightarrow> authorizer" where
  "session_authorizer s i action p =
     (let canWrite = authEnforced s \<and> IdentityName i \<noteq> '''' \<and> IdentityName i \<noteq> ''guest''
                     \<and> scopeGrantsWrite (Scopes i)
      in if canWrite \<or> cfg_Readonly s \<or> \<not> scopeGrantsWrite (Scopes i)
         then verdict_error (identityWriteError s i action p)
         else verdict_error (map_option Deny (mutationDeniedError (merge s) action p)))"

subsection \<open>Aliases\<close>

definition currentAliases :: "path_alias list \<Rightarrow> path_alias list" where
  "currentAliases as = sort_key (\<lambda>a. - int (length (pa_Alias a))) as"

definition alias_canonical :: "path_alias list \<Rightarrow> string \<Rightarrow> string \<times> path_alias option" where
  "alias_canonical as p =
     (let clean = CleanPath p
      in case find (\<lambda>a. pathWithinRoot (pa_Alias a) clean) as of
           None \<Rightarrow> (clean, None)
         | Some a \<Rightarrow> (replacePathRoot clean (pa_Alias a) (pa_Target a), Some a))"

definition hasAliasDescendant :: "path_alias list \<Rightarrow> string \<Rightarrow> bool" where
  "hasAliasDescendant as parent0 =
     (let parent = CleanPath parent0
      in \<exists>a \<in> set as. parent = ''/'' \<or> pathWithinRoot parent (pa_Alias a) \<and> parent \<noteq> pa_Alias a)"

definition firstPathSegment :: "string \<Rightarrow> string" where
  "firstPathSegment p = takeWhile (\<lambda>c. c \<noteq> CHR ''/'') p"

definition aliasChildren :: "path_alias list \<Rightarrow> string \<Rightarrow> string list" where
  "aliasChildren as parent0 =
     (let parent = CleanPath parent0;
          rels = List.map_filter (\<lambda>a.
            if pa_Alias a = parent \<or> parent \<noteq> ''/'' \<and> \<not> pathWithinRoot parent (pa_Alias a) then None
            else let rel = (if parent \<noteq> ''/'' then drop (length parent + 1) (pa_Alias a)
                            else drop 1 (pa_Alias a))
                 in if rel = '''' then None else Some (path_base (''/'' @ firstPathSegment rel))) as
      in sort (remdups rels))"

definition exactAliasTarget :: "path_alias list \<Rightarrow> string \<Rightarrow> string option" where
  "exactAliasTarget as p = map_option pa_Target (find (\<lambda>a. pa_Alias a = CleanPath p) as)"

text \<open>The alias root as a link: \<open>None\<close> when its target does not exist.\<close>

definition aliasRootEntry :: "fs \<Rightarrow> string \<Rightarrow> string \<Rightarrow> file_info option vres" where
  "aliasRootEntry F aliasPath target =
     (case fs_Stat F target of
        Inl e \<Rightarrow> if is_not_exist e then Inr None else Inl e
      | Inr info \<Rightarrow> Inr (Some (info\<lparr>FileName := path_base aliasPath, FilePath := aliasPath,
                                  LinkTarget := target\<rparr>)))"

definition alias_Stat :: "path_alias list \<Rightarrow> fs \<Rightarrow> string \<Rightarrow> file_info vres" where
  "alias_Stat as F p =
     (let requested = CleanPath p
      in case alias_canonical as p of
           (canonical, Some a) \<Rightarrow>
             (case fs_Stat F canonical of
                Inl e \<Rightarrow> Inl e
              | Inr info \<Rightarrow>
                  let copy = info\<lparr>FileName := path_base requested, FilePath := requested\<rparr>
                  in Inr (if requested = pa_Alias a then copy\<lparr>LinkTarget := pa_Target a\<rparr> else copy))
         | (canonical, None) \<Rightarrow>
             (case fs_Stat F canonical of
                Inr info \<Rightarrow> Inr info
              | Inl e \<Rightarrow>
                  if is_not_exist e \<and> hasAliasDescendant as canonical
                  then Inr \<lparr>FileName = path_base canonical, FilePath = canonical, Content = '''',
                            Dir = True, FileModTime = 0, FileSize = 0, LinkTarget = ''''\<rparr>
                  else Inl e))"

fun alias_entries :: "path_alias list \<Rightarrow> fs \<Rightarrow> string \<Rightarrow> file_info list \<Rightarrow> file_info list vres" where
  "alias_entries as F clean [] = Inr []"
| "alias_entries as F clean (e # es) =
     (let childPath = path_join clean (FileName e)
      in case exactAliasTarget as childPath of
           None \<Rightarrow> map_sum id ((#) e) (alias_entries as F clean es)
         | Some target \<Rightarrow>
             (case aliasRootEntry F childPath target of
                Inl err \<Rightarrow> Inl err
              | Inr None \<Rightarrow> alias_entries as F clean es
              | Inr (Some link) \<Rightarrow> map_sum id ((#) link) (alias_entries as F clean es)))"

definition child_dir :: "string \<Rightarrow> string \<Rightarrow> file_info" where
  "child_dir clean child = \<lparr>FileName = child, FilePath = path_join clean child, Content = '''',
     Dir = True, FileModTime = 0, FileSize = 0, LinkTarget = ''''\<rparr>"

definition alias_ReadDir :: "path_alias list \<Rightarrow> fs \<Rightarrow> string \<Rightarrow> file_info list vres" where
  "alias_ReadDir as F p =
     (let clean = CleanPath p
      in case alias_canonical as clean of
           (canonical, Some a) \<Rightarrow>
             (case fs_ReadDir F canonical of
                Inl e \<Rightarrow> Inl e
              | Inr entries \<Rightarrow> Inr (map (\<lambda>e. e\<lparr>FilePath := path_join clean (FileName e)\<rparr>) entries))
         | (_, None) \<Rightarrow>
             let children = aliasChildren as clean;
                 combine = (\<lambda>entries.
                   case alias_entries as F clean entries of
                     Inl e \<Rightarrow> Inl e
                   | Inr out \<Rightarrow>
                       map_sum id ((@) out)
                         (alias_entries as F clean
                           (map (child_dir clean)
                             (filter (\<lambda>c. c \<notin> FileName ` set entries) children))))
             in case fs_ReadDir F clean of
                  Inr entries \<Rightarrow> combine entries
                | Inl e \<Rightarrow>
                    if children = [] \<or> \<not> is_not_exist e \<or> \<not> hasAliasDescendant as clean then Inl e
                    else combine [])"

definition alias_fs :: "path_alias list \<Rightarrow> fs \<Rightarrow> fs" where
  "alias_fs as F = \<lparr>fs_Stat = alias_Stat as F, fs_ReadDir = alias_ReadDir as F,
     fs_ReadFile = (\<lambda>p. fs_ReadFile F (fst (alias_canonical as p)))\<rparr>"

subsection \<open>Aliased writes\<close>

definition copyCanonicalSnapshot :: "(string \<Rightarrow> string) \<Rightarrow> tree_snapshot \<Rightarrow> tree_snapshot" where
  "copyCanonicalSnapshot canonical snap = snap\<lparr>Root := canonical (Root snap)\<rparr>"

definition canonicalRemoveOpts :: "(string \<Rightarrow> string) \<Rightarrow> remove_opts \<Rightarrow> remove_opts" where
  "canonicalRemoveOpts canonical opts =
     opts\<lparr>Expected := map_option (copyCanonicalSnapshot canonical) (Expected opts)\<rparr>"

definition canonicalRemove :: "(string \<Rightarrow> string) \<Rightarrow> remove_all_change option \<Rightarrow> remove_all_change option" where
  "canonicalRemove canonical r =
     map_option (\<lambda>x. x\<lparr>rc_Opts := canonicalRemoveOpts canonical (rc_Opts x)\<rparr>) r"

definition canonicalLeaf :: "(string \<Rightarrow> string) \<Rightarrow> change \<Rightarrow> change" where
  "canonicalLeaf canonical c =
     c\<lparr>Target := canonical (Target c), RemoveAll := canonicalRemove canonical (RemoveAll c)\<rparr>"

definition alias_change_set :: "path_alias list \<Rightarrow> changeset \<Rightarrow> changeset" where
  "alias_change_set as cs =
     (let canonical = \<lambda>p. fst (alias_canonical as p)
      in cs\<lparr>Changes := map (canonicalLeaf canonical) (Changes cs),
            Target := (if Target cs \<noteq> '''' then canonical (Target cs) else Target cs),
            RemoveAll := canonicalRemove canonical (RemoveAll cs)\<rparr>)"

text \<open>The server's own canonical form of a change set (server.go, \<open>canonicalChangeSet\<close>).\<close>

definition canonicalChangeSet :: "server \<Rightarrow> changeset \<Rightarrow> changeset" where
  "canonicalChangeSet s cs =
     (if Changes cs = [] then
        cs\<lparr>Target := canonicalPath s (Target cs),
           RemoveAll := canonicalRemove (canonicalPath s) (RemoveAll cs)\<rparr>
      else cs\<lparr>Changes := map (canonicalLeaf (canonicalPath s)) (Changes cs)\<rparr>)"

definition alias_wfs :: "path_alias list \<Rightarrow> 's wfs \<Rightarrow> 's wfs" where
  "alias_wfs as w =
     (let canon = \<lambda>p. fst (alias_canonical as p)
      in \<lparr>
       w_fs = (\<lambda>s. alias_fs as (w_fs w s)),
       w_WriteFileAtomic = (\<lambda>p. w_WriteFileAtomic w (canon p)),
       w_Mkdir = (\<lambda>p. w_Mkdir w (canon p)),
       w_MkdirAll = (\<lambda>p. w_MkdirAll w (canon p)),
       w_Remove = (\<lambda>p. w_Remove w (canon p)),
       w_RemoveAll = (\<lambda>p opts. w_RemoveAll w (canon p) (canonicalRemoveOpts canon opts)),
       w_xattr_reader = Some (case w_xattr_reader w of
           Some x \<Rightarrow> \<lparr>x_GetXattr = (\<lambda>p. x_GetXattr x (canon p)), x_ListXattrs = (\<lambda>p. x_ListXattrs x (canon p))\<rparr>
         | None \<Rightarrow> \<lparr>x_GetXattr = (\<lambda>p n s. Inl ENOTSUP), x_ListXattrs = (\<lambda>p s. Inl ENOTSUP)\<rparr>),
       w_xattr_writer = Some (case w_xattr_writer w of
           Some x \<Rightarrow> \<lparr>x_SetXattr = (\<lambda>p. x_SetXattr x (canon p)), x_RemoveXattr = (\<lambda>p. x_RemoveXattr x (canon p))\<rparr>
         | None \<Rightarrow> \<lparr>x_SetXattr = (\<lambda>p n v f. unsupported), x_RemoveXattr = (\<lambda>p n. unsupported)\<rparr>),
       w_xattr_maintenance = Some (case w_xattr_maintenance w of
           Some x \<Rightarrow> \<lparr>x_PreserveAndRecreateXattrs = (\<lambda>p. x_PreserveAndRecreateXattrs x (canon p)),
                      x_MigrateXattrs = (\<lambda>p. x_MigrateXattrs x (canon p))\<rparr>
         | None \<Rightarrow> \<lparr>x_PreserveAndRecreateXattrs = (\<lambda>p a. unsupported), x_MigrateXattrs = (\<lambda>p m. unsupported)\<rparr>),
       w_admitter = Some (case w_admitter w of
           Some a \<Rightarrow> (\<lambda>cs. a (alias_change_set as cs)) | None \<Rightarrow> (\<lambda>cs. unsupported)),
       w_preflight = None\<rparr>)"

subsection \<open>Every layer forwards one mutation or refuses it\<close>

fun xattr_mutation :: "mutation \<Rightarrow> bool" where
  "xattr_mutation (MSetXattr _ _ _ _) = True"
| "xattr_mutation (MRemoveXattr _ _) = True"
| "xattr_mutation (MPreserve _ _) = True"
| "xattr_mutation (MMigrate _ _) = True"
| "xattr_mutation _ = False"

definition refusal :: "mutation \<Rightarrow> vfs_error \<Rightarrow> vfs_error" where
  "refusal m e = (if xattr_mutation m then EPERM else e)"

lemma scoped_mutate:
  "mutate (newScopedWriteFS sha view inner authz) m s =
     (case inner of
        None \<Rightarrow> (Inl (refusal m (ErrReadOnly (m_target m))), s)
      | Some w \<Rightarrow>
          (case authz (m_action m) (m_target m) of
             Some e \<Rightarrow> (Inl (refusal m e), s)
           | None \<Rightarrow> mutate w m s))"
  by (cases m)
    (auto simp: newScopedWriteFS_def guarded_def guarded_x_def no_hash_def refusal_def split: option.splits)

text \<open>
  The authorizing layer hands a mutation to the filesystem it wraps exactly when its
  authorizer allows that action on that path, and then hands it on unchanged; otherwise the
  state is the same and the error is the authorizer's (for attributes, that the operation is
  not permitted).
\<close>

theorem scoped_write_mutate:
  "mutate (newScopedWriteFS sha view inner authz) m s =
     (case inner of
        None \<Rightarrow> (Inl (refusal m (ErrReadOnly (m_target m))), s)
      | Some w \<Rightarrow>
          (case authz (m_action m) (m_target m) of
             Some e \<Rightarrow> (Inl (refusal m e), s)
           | None \<Rightarrow> mutate w m s))"
  by (rule scoped_mutate)

lemma admit_leaves_None:
  "admit_leaves authz cs = None \<longleftrightarrow> (\<forall>c \<in> set cs. authz (Action c) (Target c) = None)"
  by (induction cs) (auto split: option.splits)

text \<open>
  C6. A batch reaches the inner filesystem only when it is valid and every one of its leaves is
  authorized; otherwise it is refused as a whole and nothing changes.
\<close>

theorem scoped_batch_all_or_nothing:
  "scoped_AdmitChangeSet sha (Some w) authz cs s =
     (if ValidateChangeSet sha cs = None \<and> (\<forall>c \<in> set (Leaves cs). authz (Action c) (Target c) = None)
      then (case w_admitter w of None \<Rightarrow> (Some ENOTSUP, s) | Some a \<Rightarrow> a cs s)
      else (fst (scoped_AdmitChangeSet sha (Some w) authz cs s), s))
   \<and> (ValidateChangeSet sha cs \<noteq> None \<or> (\<exists>c \<in> set (Leaves cs). authz (Action c) (Target c) \<noteq> None)
      \<longrightarrow> fst (scoped_AdmitChangeSet sha (Some w) authz cs s) \<noteq> None)"
proof (cases "ValidateChangeSet sha cs = None \<and> (\<forall>c \<in> set (Leaves cs). authz (Action c) (Target c) = None)")
  case True
  then have "admit_leaves authz (Leaves cs) = None"
    by (simp add: admit_leaves_None)
  with True show ?thesis
    by (simp add: scoped_AdmitChangeSet_def)
next
  case False
  then have "ValidateChangeSet sha cs \<noteq> None \<or> (\<exists>e. admit_leaves authz (Leaves cs) = Some e)"
    using admit_leaves_None [of authz "Leaves cs"] by auto
  with False show ?thesis
    by (auto simp: scoped_AdmitChangeSet_def)
qed

theorem scoped_batch_all_or_nothing_witness:
  "snd (scoped_AdmitChangeSet id (Some (newMiddlewareFS undefined (\<lambda>cs s. (Inr '''', Suc s))))
       (\<lambda>a p. if p = ''/b'' then Some EPERM else None)
       (empty_change\<lparr>Changes := map (\<lambda>m. change.truncate (change_of m)) [MMkdir ''/a'', MMkdir ''/b'']\<rparr>) 0) = 0"
proof -
  let ?cs = "empty_change\<lparr>Changes := map (\<lambda>m. change.truncate (change_of m)) [MMkdir ''/a'', MMkdir ''/b'']\<rparr>"
  let ?authz = "\<lambda>a p. if p = ''/b'' then Some EPERM else None"
  have "change.truncate (change_of (MMkdir ''/b'')) \<in> set (Leaves ?cs)"
    by (simp add: Leaves_def)
  moreover have "?authz (Action (change.truncate (change_of (MMkdir ''/b''))))
      (Target (change.truncate (change_of (MMkdir ''/b'')))) \<noteq> None"
    by (simp add: change_of_def empty_change_def change.truncate_def)
  ultimately have "\<not> (\<forall>c \<in> set (Leaves ?cs). ?authz (Action c) (Target c) = None)"
    by (intro notI) (drule (1) bspec, simp)
  then show ?thesis
    by (subst conjunct1 [OF scoped_batch_all_or_nothing]) auto
qed

lemma sink_mutate:
  "mutate (newMiddlewareFS view admit) m s =
     (case m of MWrite _ _ _ \<Rightarrow> admit (change_of m) s | _ \<Rightarrow> no_hash (drop_hash (admit (change_of m) s)))"
  by (cases m) (simp_all add: newMiddlewareFS_def)

subsection \<open>The session's filesystem as a whole\<close>

fun m_resolve :: "(string \<Rightarrow> string) \<Rightarrow> mutation \<Rightarrow> mutation" where
  "m_resolve f (MWrite p b opts) = MWrite (f p) b opts"
| "m_resolve f (MMkdir p) = MMkdir (f p)"
| "m_resolve f (MMkdirAll p) = MMkdirAll (f p)"
| "m_resolve f (MRemove p) = MRemove (f p)"
| "m_resolve f (MRemoveAll p opts) = MRemoveAll (f p) (canonicalRemoveOpts f opts)"
| "m_resolve f (MSetXattr p n v fl) = MSetXattr (f p) n v fl"
| "m_resolve f (MRemoveXattr p n) = MRemoveXattr (f p) n"
| "m_resolve f (MPreserve p a) = MPreserve (f p) a"
| "m_resolve f (MMigrate p mig) = MMigrate (f p) mig"

lemma m_resolve_simps [simp]:
  "m_action (m_resolve f m) = m_action m" "m_target (m_resolve f m) = f (m_target m)"
  by (cases m; simp)+

lemma alias_mutate:
  "mutate (alias_wfs as w) m s = mutate w (m_resolve (\<lambda>p. fst (alias_canonical as p)) m) s"
  by (cases m)
    (auto simp: alias_wfs_def Let_def no_hash_def unsupported_def canonicalRemoveOpts_def
      split: option.splits)

definition session_fs ::
  "(string \<Rightarrow> string) \<Rightarrow> server \<Rightarrow> identity \<Rightarrow> 's wfs \<Rightarrow> 's admit \<Rightarrow> 's wfs" where
  "session_fs sha s i view admit =
     (let sink = newMiddlewareFS view admit
      in alias_wfs (currentAliases (aliasesForIdentity s i))
           (newScopedWriteFS sha sink (Some sink) (session_authorizer s i)))"


subsection \<open>Aliases of a session\<close>

lemma currentAliases_set [simp]: "set (currentAliases as) = set as"
  by (simp add: currentAliases_def)

lemma aliasesForIdentity_sub:
  assumes "a \<in> set (aliasesForIdentity s i)"
  shows "\<exists>n ds. (n, ds) \<in> set (Docsets (sv_auth s)) \<and> pa_Alias a \<in> set (Aliases ds)
    \<and> pa_Target a = primaryDisplayPath ds"
  using assms by (force simp: aliasesForIdentity_def Let_def split: option.splits if_splits)

text \<open>
  Under a configuration the server accepts, a session resolves a path as the server does
  when one of the session's own aliases covers it, and leaves it alone otherwise.
\<close>

theorem session_alias_resolution:
  assumes "validateGrants s = None" "authEnforced s" "go_map (Docsets (sv_auth s))"
  shows "fst (alias_canonical (currentAliases (aliasesForIdentity s i)) p) =
    (if \<exists>a \<in> set (aliasesForIdentity s i). pathWithinRoot (pa_Alias a) (CleanPath p)
     then canonicalPath s p else CleanPath p)"
proof (cases "find (\<lambda>a. pathWithinRoot (pa_Alias a) (CleanPath p)) (currentAliases (aliasesForIdentity s i))")
  case None
  then have "\<not> (\<exists>a \<in> set (aliasesForIdentity s i). pathWithinRoot (pa_Alias a) (CleanPath p))"
    by (auto simp: find_None_iff)
  with None show ?thesis
    by (simp add: alias_canonical_def)
next
  case (Some a)
  then have a: "a \<in> set (aliasesForIdentity s i)" "pathWithinRoot (pa_Alias a) (CleanPath p)"
    by (auto simp: find_Some_iff dest: nth_mem)
  then obtain n ds where ds: "(n, ds) \<in> set (Docsets (sv_auth s))" "pa_Alias a \<in> set (Aliases ds)"
    "pa_Target a = primaryDisplayPath ds"
    using aliasesForIdentity_sub by blast
  have boot: "boot_ok s (sv_auth s)"
    using assms(1) by (simp add: validateGrants_def validateGrantsFor_boot_ok)
  then have "CleanPath (pa_Alias a) = pa_Alias a"
    using assms(2) ds by (auto simp: boot_ok_def aliases_ok_def cleaned_def)
  then have cand: "(pa_Alias a, pa_Target a) \<in> set (alias_candidates (Docsets (sv_auth s)) (CleanPath p))"
    using ds a(2) by (force simp: alias_candidates_iff)
  have sep: "aliases_separate (canonical_specs (Docsets (sv_auth s)) @ mount_specs s)"
    using boot assms(2) by (simp add: boot_ok_def)
  have "pick_best longer_alias None (alias_candidates (Docsets (sv_auth s)) (CleanPath p))
      = Some (pa_Alias a, pa_Target a)"
  proof (rule pick_best_const)
    show "\<forall>x \<in> set (alias_candidates (Docsets (sv_auth s)) (CleanPath p)). x = (pa_Alias a, pa_Target a)"
      using alias_unique [OF sep assms(3) cleaned_CleanPath _ cand] by blast
    show "alias_candidates (Docsets (sv_auth s)) (CleanPath p) \<noteq> []"
      using cand by auto
  qed
  then show ?thesis
    using Some a by (auto simp: alias_canonical_def canonicalPath_def Let_def)
qed

theorem session_alias_resolution_witness:
  "fst (alias_canonical (currentAliases (aliasesForIdentity sample_server (sample_caller ''bot''))) ''/t/x'')
     = canonicalPath sample_server ''/t/x''"
proof -
  have "validateGrants sample_server = None"
    by code_simp
  moreover have "go_map (Docsets (sv_auth sample_server))" "authEnforced sample_server"
    by (simp_all add: go_map_def sample_server_def sample_auth_def)
  moreover have "\<exists>a \<in> set (aliasesForIdentity sample_server (sample_caller ''bot'')).
      pathWithinRoot (pa_Alias a) (CleanPath ''/t/x'')"
    by code_simp
  ultimately show ?thesis
    by (subst session_alias_resolution) simp_all
qed

subsection \<open>A write outside the granted docset\<close>

text \<open>
  The authorizer resolves every alias of the configuration, a session only its own. A path
  under an alias the session lacks is authorized where the alias leads and written where it
  stands: here \<open>cal\<close> holds a grant on the nested docset \<open>/a/c\<close> only, and is authorized to
  write \<open>/x/c/f\<close>, a path of the root docset, on which she holds none.
\<close>

definition escape_server :: server where
  "escape_server = sample_server\<lparr>sv_auth := sample_auth\<lparr>
     Docsets :=
       [(''root'', sample_docset ''/'' [] []),
        (''a'', (sample_docset ''/a'' [] [])\<lparr>Aliases := [''/x'']\<rparr>),
        (''c'', sample_docset ''/a/c'' [(''editor'', ''rw'')] [])],
     Identities := [sample_identity ''cal'' [''editor''] []]\<rparr>\<rparr>"

definition cal :: identity where
  "cal = identityFromAuth (sv_auth escape_server) (sample_identity ''cal'' [''editor''] [])"

lemma alias_write_escapes:
  "validateGrants escape_server = None"
  "fst (alias_canonical (currentAliases (aliasesForIdentity escape_server cal)) ''/x/c/f'') = ''/x/c/f''"
  "session_authorizer escape_server cal ChangeActionWrite ''/x/c/f'' = None"
  "map (\<lambda>(r, n, ds). n) (root_candidates (Docsets (sv_auth escape_server)) ''/x/c/f'') = [''root'']"
  "effectiveGrantNames escape_server cal ''root'' = None"
  by code_simp+

end
