(* ===== verification/Tree_Delete.thy ===== *)
theory Tree_Delete
  imports Write_Authz
begin

text \<open>
  What the authorization of a tree removal has checked: the paths a walk visits, the folder
  configurations among them, and the cases in which the walk is cut short.
\<close>

inductive in_tree :: "fs \<Rightarrow> string \<Rightarrow> string \<Rightarrow> bool" for F :: fs where
  in_tree_root: "in_tree F p (CleanPath p)"
| in_tree_child:
    "fs_Stat F (CleanPath p) = Inr f \<Longrightarrow> Dir f \<Longrightarrow> fs_ReadDir F (CleanPath p) = Inr es \<Longrightarrow> e \<in> set es \<Longrightarrow>
     in_tree F (path_join (CleanPath p) (FileName e)) q \<Longrightarrow> in_tree F p q"

inductive_simps in_tree_simps: "in_tree F p q"

lemma in_tree_file:
  "fs_Stat F (CleanPath p) = Inr f \<Longrightarrow> \<not> Dir f \<Longrightarrow> in_tree F p q \<longleftrightarrow> q = CleanPath p"
  by (subst in_tree_simps) auto

lemma in_tree_dir:
  "fs_Stat F (CleanPath p) = Inr f \<Longrightarrow> Dir f \<Longrightarrow> fs_ReadDir F (CleanPath p) = Inr es \<Longrightarrow>
   in_tree F p q \<longleftrightarrow>
     q = CleanPath p \<or> (\<exists>e \<in> set es. in_tree F (path_join (CleanPath p) (FileName e)) q)"
  by (subst in_tree_simps) auto

definition vanished :: "fs \<Rightarrow> string \<Rightarrow> bool" where
  "vanished F q \<longleftrightarrow>
     (\<exists>e. is_not_exist e \<and> (fs_Stat F q = Inl e \<or> fs_ReadDir F q = Inl e))"

lemma dir_config_walk_sound:
  assumes "walk_list F fn work st = Some r" "fn = dir_config_walk may" "r = Inr True"
  shows "st \<and> (\<forall>p \<in> set work. \<forall>q. in_tree F p q \<longrightarrow> IsDirConfigPath q \<longrightarrow> may q)"
  using assms
proof (induction F fn work st r rule: walk_list_induct)
  case (step walk F fn work st r)
  note prems = step.prems step.hyps [unfolded walk_step_def]
  show ?case
  proof (cases work)
    case Nil
    with prems show ?thesis by simp
  next
    case (Cons p rest)
    note IH = step.IH [of F fn _ _ r, OF _ step.prems]
    have step: "st \<and> (IsDirConfigPath (CleanPath p) \<longrightarrow> may (CleanPath p))"
      if "(if IsDirConfigPath (CleanPath p) \<and> \<not> may (CleanPath p) then False else st)"
      using that by (auto split: if_splits)
    obtain f where f: "fs_Stat F (CleanPath p) = Inr f"
      using prems Cons by (cases "fs_Stat F (CleanPath p)") (auto simp: dir_config_walk_def)
    show ?thesis
    proof (cases "Dir f")
      case False
      then have "walk F fn rest (if IsDirConfigPath (CleanPath p) \<and> \<not> may (CleanPath p) then False else st) = Some r"
        using prems Cons f by (simp add: dir_config_walk_def)
      from IH [OF this] step in_tree_file [OF f False] show ?thesis
        by (auto simp: Cons)
    next
      case True
      obtain es where es: "fs_ReadDir F (CleanPath p) = Inr es"
        using prems Cons f True by (cases "fs_ReadDir F (CleanPath p)") (auto simp: dir_config_walk_def)
      have "walk F fn (map (\<lambda>e. path_join (CleanPath p) (FileName e)) es @ rest)
          (if IsDirConfigPath (CleanPath p) \<and> \<not> may (CleanPath p) then False else st) = Some r"
        using prems Cons f True es by (simp add: dir_config_walk_def)
      from IH [OF this] step in_tree_dir [OF f True es] show ?thesis
        by (auto simp: Cons)
    qed
  qed
qed

lemma dir_config_walk_error:
  assumes "walk_list F fn work st = Some r" "fn = dir_config_walk may" "r = Inl e" "is_not_exist e"
  shows "\<exists>p \<in> set work. \<exists>q. in_tree F p q \<and> vanished F q"
  using assms
proof (induction F fn work st r rule: walk_list_induct)
  case (step walk F fn work st r)
  note prems = step.prems step.hyps [unfolded walk_step_def]
  show ?case
  proof (cases work)
    case Nil
    with prems show ?thesis by simp
  next
    case (Cons p rest)
    note IH = step.IH [of F fn _ _ r, OF _ step.prems]
    show ?thesis
    proof (cases "fs_Stat F (CleanPath p)")
      case (Inl e')
      then have "e' = e" using prems Cons by (simp add: dir_config_walk_def)
      with Inl step.prems(3) Cons show ?thesis
        by (auto simp: vanished_def intro: in_tree_root)
    next
      case f: (Inr f)
      show ?thesis
      proof (cases "Dir f")
        case False
        then have "\<exists>st'. walk F fn rest st' = Some r"
          using prems Cons f by (auto simp: dir_config_walk_def)
        with IH Cons show ?thesis by auto
      next
        case True
        show ?thesis
        proof (cases "fs_ReadDir F (CleanPath p)")
          case (Inl e')
          then have "e' = e" using prems Cons f True by (simp add: dir_config_walk_def)
          with Inl step.prems(3) Cons show ?thesis
            by (auto simp: vanished_def intro: in_tree_root)
        next
          case (Inr es)
          then have "\<exists>st'. walk F fn (map (\<lambda>e. path_join (CleanPath p) (FileName e)) es @ rest) st' = Some r"
            using prems Cons f True by (auto simp: dir_config_walk_def)
          with IH have "\<exists>x \<in> set (map (\<lambda>e. path_join (CleanPath p) (FileName e)) es @ rest).
              \<exists>q. in_tree F x q \<and> vanished F q" by blast
          with f True Inr Cons show ?thesis by (auto intro: in_tree_child)
        qed
      qed
    qed
  qed
qed

lemma canEditDirConfigsInTree_sound:
  assumes "canEditDirConfigsInTree s i p = Some True"
  shows "(\<forall>q. in_tree (merge s) p q \<longrightarrow> IsDirConfigPath q \<longrightarrow> identityHasDirConfigRole s i q)
    \<or> (\<exists>q. in_tree (merge s) p q \<and> vanished (merge s) q)"
proof -
  let ?walk = "WalkDir (merge s) p (dir_config_walk (identityHasDirConfigRole s i)) True"
  have "?walk = Some (Inr True) \<or> (\<exists>e. is_not_exist e \<and> ?walk = Some (Inl e))"
    using assms by (auto simp: canEditDirConfigsInTree_def split: option.splits sum.splits)
  then show ?thesis
  proof (elim disjE exE conjE)
    assume "?walk = Some (Inr True)"
    from dir_config_walk_sound [OF this [unfolded WalkDir_def] refl refl] show ?thesis by simp
  next
    fix e assume "is_not_exist e" "?walk = Some (Inl e)"
    then show ?thesis
      using dir_config_walk_error [OF _ refl refl] by (fastforce simp: WalkDir_def)
  qed
qed

text \<open>
  A tree removal the authorizer allows spares every nested docset, and the caller holds the
  edit role of every folder configuration the tree shows, unless some path of the tree could
  not be found again while it was walked.
\<close>

theorem tree_removal_checked:
  assumes "identityCanWrite s i ChangeActionRemoveAll p"
  shows "(\<forall>r \<in> set (allDocsetRoots s). pathWithinRoot (canonicalPath s p) r \<longrightarrow> r = canonicalPath s p)
    \<and> ((\<forall>q. in_tree (merge s) (canonicalPath s p) q \<longrightarrow> IsDirConfigPath q \<longrightarrow>
           identityHasDirConfigRole s (live i) q)
       \<or> (\<exists>q. in_tree (merge s) (canonicalPath s p) q \<and> vanished (merge s) q))"
proof -
  have g: "canEditDirConfigsInTree s (live i) (canonicalPath s p) = Some True"
    "\<not> crosses_boundary s (canonicalPath s p)"
    using assms by (simp_all add: identityCanWrite_gates write_gates_def Let_def)
  then have "\<forall>r \<in> set (allDocsetRoots s). pathWithinRoot (canonicalPath s p) r \<longrightarrow> r = canonicalPath s p"
    by (force simp: crosses_boundary_def allDocsetRoots_def)
  then show ?thesis
    using canEditDirConfigsInTree_sound [OF g(1)] by blast
qed

subsection \<open>A configuration the walk passes over\<close>

text \<open>
  A directory \<open>/d\<close> with a folder configuration and an entry that is listed but cannot be found
  (a link to nowhere, or a file removed meanwhile).
\<close>

definition tree_file :: "string \<Rightarrow> bool \<Rightarrow> file_info" where
  "tree_file name dir = (vfs_File name name '''' 0)\<lparr>Dir := dir\<rparr>"

definition dir_fs :: "string list \<Rightarrow> fs" where
  "dir_fs names = \<lparr>
     fs_Stat = (\<lambda>p. if p = ''/d'' \<or> p = ''/d/.lore'' then Inr (tree_file (path_base p) True)
                    else if p = ''/d/.lore/config.yaml'' then Inr (tree_file ''config.yaml'' False)
                    else Inl (ErrNotExist p)),
     fs_ReadDir = (\<lambda>p. if p = ''/d'' then Inr (map (\<lambda>n. tree_file n True) names)
                       else if p = ''/d/.lore'' then Inr [tree_file ''config.yaml'' False]
                       else Inl ENOTDIR),
     fs_ReadFile = (\<lambda>p. Inl (ErrNotExist p))\<rparr>"

definition walk_server :: "string list \<Rightarrow> server" where
  "walk_server names = sample_server\<lparr>merge := dir_fs names\<rparr>"

theorem tree_removal_checked_witness:
  "\<exists>i. identityCanWrite (sample_server\<lparr>sv_auth := sample_auth\<lparr>Docsets := [hd (Docsets sample_auth)]\<rparr>,
       merge := dir_fs [''.lore'']\<rparr>) i ChangeActionRemoveAll ''/d''
     \<and> (\<forall>r \<in> set [''/d'']. pathWithinRoot ''/d'' r \<longrightarrow> r = ''/d'')"
proof -
  let ?s = "sample_server\<lparr>sv_auth := sample_auth\<lparr>Docsets := [hd (Docsets sample_auth)]\<rparr>,
       merge := dir_fs [''.lore'']\<rparr>"
  let ?i = "sample_caller ''ann''"
  have "identityWriteError ?s ?i ChangeActionRemoveAll ''/d'' = Some Allow"
    by code_simp
  then have c: "identityCanWrite ?s ?i ChangeActionRemoveAll ''/d''"
    by (simp add: identityCanWrite_def)
  moreover have "allDocsetRoots ?s = [''/d'']" "canonicalPath ?s ''/d'' = ''/d''"
    by code_simp+
  ultimately show ?thesis
    using tree_removal_checked [OF c] by auto
qed

text \<open>
  The check fails open: \<open>bot\<close> holds no edit role on the docset of \<open>/d\<close>, and the removal of the
  tree passes the folder-configuration check as soon as a listed entry has vanished.
\<close>

lemma vanished_entry_hides_config:
  "canEditDirConfigsInTree (walk_server [''.lore'']) (sample_caller ''bot'') ''/d'' = Some False"
  "canEditDirConfigsInTree (walk_server [''.lore'', ''ghost'']) (sample_caller ''bot'') ''/d'' = Some True"
  by code_simp+

end
