(* ===== verification/Delegation.thy ===== *)
theory Delegation
  imports Governance
begin

text \<open>
  Delegated and federated authority: what a delegate entry leaves of its principal's
  policy, what a token's claims resolve to and what an external assertion is exchanged for
  (pkg/openlore/authorization_store.go and identitystore.go, modelled in Identity).
\<close>

subsection \<open>Delegates\<close>

definition acting :: "principal \<Rightarrow> string \<Rightarrow> principal" where
  "acting p actor = p\<lparr>Claims := (Claims p)(''actor'' \<mapsto> ClaimString actor)\<rparr>"

lemma file_policy_own:
  assumes "file_ResolveAuthorization auth p = Inr po" "claim_string (Claims p) ''actor'' = ''''"
    and "pr_IdentityName p \<noteq> ''guest''" "pr_IdentityName p \<noteq> ''''"
  obtains i where "find (\<lambda>i. ai_Name i = pr_IdentityName p) (Identities auth) = Some i"
    "po_IdentityName po = ai_Name i" "po_Roles po = ai_Roles i" "po_HomeDocset po = ai_Home i"
    "po_DenyDocsets po = []" "po_DenyCapabilities po = []"
  using assms
  by (auto simp: file_ResolveAuthorization_def Let_def split: if_splits option.splits)

lemma file_policy_delegate:
  assumes "file_ResolveAuthorization auth (acting p actor) = Inr po" "actor \<noteq> ''''"
    and "pr_IdentityName p \<noteq> ''guest''" "pr_IdentityName p \<noteq> ''''"
  obtains i d where "find (\<lambda>i. ai_Name i = pr_IdentityName p) (Identities auth) = Some i"
    "findDelegate i actor = Some d" "po_IdentityName po = ai_Name i" "po_HomeDocset po = ai_Home i"
    "po_Roles po = (case de_Roles d of None \<Rightarrow> ai_Roles i | Some rs \<Rightarrow> intersectStrings (ai_Roles i) rs)"
    "po_DenyDocsets po = de_DenyDocsets d" "po_DenyCapabilities po = de_DenyCapabilities d"
  using assms
  by (auto simp: file_ResolveAuthorization_def acting_def claim_string_def Let_def
      split: if_splits option.splits)

lemma file_policy_guest:
  assumes "pr_IdentityName p = ''guest'' \<or> pr_IdentityName p = ''''"
  shows "file_ResolveAuthorization auth (acting p actor) = file_ResolveAuthorization auth p"
  using assms by (auto simp: file_ResolveAuthorization_def acting_def)

definition kept_denials :: "policy \<Rightarrow> policy \<Rightarrow> docset_spec \<Rightarrow> bool" where
  "kept_denials po po' ds \<longleftrightarrow>
     set (da_Deny (Access ds)) \<inter> set (po_Roles po) \<subseteq> set (po_Roles po')"

lemma policy_grants_mono:
  assumes "set (po_Roles po') \<subseteq> set (po_Roles po)" "po_HomeDocset po' = po_HomeDocset po"
    and "po_IdentityName po' = po_IdentityName po" "po_DenyDocsets po = []" "kept_denials po po' ds"
  shows "set (policy_grants auth po' name ds) \<subseteq> set (policy_grants auth po name ds)"
proof -
  have "projection_under_home auth po' ds = projection_under_home auth po ds"
    using assms by (simp add: projection_under_home_def)
  moreover have "set (role_grants po' ds) \<subseteq> set (role_grants po ds)"
    using assms(1) by (fastforce simp: role_grants_iff)
  moreover have "policy_denied po name ds \<Longrightarrow> policy_denied po' name ds"
    using assms(4,5) by (auto simp: policy_denied_def kept_denials_def)
  ultimately show ?thesis
    using assms by (auto simp: policy_grants_def)
qed

lemma capability_mono:
  assumes "hasCapabilityForPolicy s po' cap"
    and "set (po_Roles po') \<subseteq> set (po_Roles po)" "po_DenyCapabilities po = []"
    and "\<forall>r \<in> set (po_Roles po). map_of (ac_Roles (sv_auth s)) r \<noteq> None"
    and "\<forall>r \<in> set (po_Roles po) - set (po_Roles po'). \<not> role_denies (sv_auth s) cap r"
  shows "hasCapabilityForPolicy s po cap"
proof -
  have "\<exists>names. capability_roles (ac_Roles (sv_auth s)) cap (po_Roles po') False [] = Inr (True, names)"
    using assms(1)
    by (auto simp: hasCapabilityForPolicy_def capabilityDenial_def split: sum.splits prod.splits if_splits)
  then have "\<forall>r \<in> set (po_Roles po'). \<not> role_denies (sv_auth s) cap r"
    "\<exists>r \<in> set (po_Roles po'). role_allows (sv_auth s) cap r"
    by (simp_all add: capability_roles_iff)
  then have "\<exists>names. capability_roles (ac_Roles (sv_auth s)) cap (po_Roles po) False [] = Inr (True, names)"
    using assms(2,4,5) unfolding capability_roles_iff by blast
  then show ?thesis
    using assms(3) by (auto simp: hasCapabilityForPolicy_def capabilityDenial_def)
qed


definition ann :: principal where
  "ann = \<lparr>Subject = ''ann'', pr_IdentityName = ''ann'', pr_Source = ''token'', Claims = Map.empty, pr_Scope = ''full''\<rparr>"

definition ann_policy :: policy where
  "ann_policy = \<lparr>po_IdentityName = ''ann'', po_Roles = [''reader'', ''editor''], po_HomeDocset = '''',
     po_DenyDocsets = [], po_DenyCapabilities = []\<rparr>"

lemma ann_policies:
  "file_ResolveAuthorization sample_auth ann = Inr ann_policy"
  "file_ResolveAuthorization sample_auth (acting ann ''bot'') = Inr (ann_policy\<lparr>po_Roles := [''reader'']\<rparr>)"
  by code_simp+


text \<open>
  Without the restriction it is false: a docset that denies one of the principal's roles is
  open to a delegate that was not given that role. Here \<open>ann\<close> has no grant on the team docset
  and \<open>bot\<close>, acting for her with fewer roles, may publish to it.
\<close>

lemma delegate_escapes_deny:
  "policy_grants sample_auth ann_policy ''team'' sample_team = []"
  "policy_grants sample_auth (ann_policy\<lparr>po_Roles := [''reader'']\<rparr>) ''team'' sample_team = [''publish'']"
  by code_simp+

subsection \<open>Claims and assertions\<close>

lemma find_ai_name: "findAuthIdentity auth n = Some i \<Longrightarrow> ai_Name i = n \<and> i \<in> set (Identities auth)"
  by (auto simp: findAuthIdentity_def find_Some_iff)



lemma first_match_Some:
  "first_match P is = Some (n, m) \<Longrightarrow> \<exists>i \<in> set is. ai_Name i = n \<and> m \<in> set (ai_Match i) \<and> P m"
  by (induction P "is" rule: first_match.induct) (auto simp: find_Some_iff split: option.splits)

lemma first_match_None: "first_match P is = None \<longleftrightarrow> (\<forall>i \<in> set is. \<forall>m \<in> set (ai_Match i). \<not> P m)"
  by (induction P "is" rule: first_match.induct) (auto simp: find_None_iff find_Some_iff split: option.splits)

lemma wifTTL_bounds:
  "60 * second \<le> wifTTL parse accessTTL rule until \<and> wifTTL parse accessTTL rule until \<le> max accessTTL (60 * second)"
  by (auto simp: wifTTL_def Let_def split: option.splits)

text \<open>
  C13. An external assertion is exchanged only when the verifier accepts it and a rule of a
  configured identity matches all its predicates; a rule without a subject must constrain
  something and is used only when no rule names the subject. The token's scope is a
  recognized one, and its lifetime is at least a minute and at most the access lifetime (or
  a minute).
\<close>

theorem ExchangeAssertion_sound:
  assumes "ExchangeAssertion auth parse accessTTL until oidc assertion = Inr (sub, scope, ttl)"
  shows "\<exists>verify claims i m. oidc = Some verify \<and> verify assertion = Inr claims
    \<and> i \<in> set (Identities auth) \<and> ai_Name i = sub \<and> m \<in> set (ai_Match i)
    \<and> wifPredicatesMatch m claims \<and> scope = im_Scope m \<and> recognizedScope scope
    \<and> (im_Sub m = tc_Subject claims \<and> im_Sub m \<noteq> ''''
       \<or> im_Sub m = '''' \<and> wifRuleIsSpecific m
         \<and> (\<forall>j \<in> set (Identities auth). \<forall>m' \<in> set (ai_Match j).
              im_Sub m' \<noteq> '''' \<longrightarrow> im_Sub m' = tc_Subject claims \<longrightarrow> \<not> wifPredicatesMatch m' claims))
    \<and> 60 * second \<le> ttl \<and> ttl \<le> max accessTTL (60 * second)"
proof -
  obtain verify claims m where v: "oidc = Some verify" "verify assertion = Inr claims"
    "matchWIFClaims auth claims = Some (sub, m)" "recognizedScope (im_Scope m)" "scope = im_Scope m"
    "ttl = wifTTL parse accessTTL (im_TTL m) (until claims)"
    using assms by (auto simp: ExchangeAssertion_def split: option.splits sum.splits if_splits)
  let ?exact = "\<lambda>m. im_Sub m \<noteq> '''' \<and> im_Sub m = tc_Subject claims \<and> wifPredicatesMatch m claims"
  let ?rule = "\<lambda>m. im_Sub m = '''' \<and> wifRuleIsSpecific m \<and> wifPredicatesMatch m claims"
  have m: "first_match ?exact (Identities auth) = Some (sub, m)
      \<or> first_match ?exact (Identities auth) = None \<and> first_match ?rule (Identities auth) = Some (sub, m)"
    using v(3) by (simp add: matchWIFClaims_def split: option.splits)
  then obtain i where i: "i \<in> set (Identities auth)" "ai_Name i = sub" "m \<in> set (ai_Match i)"
    and P: "?exact m \<or> ?rule m \<and> first_match ?exact (Identities auth) = None"
    by (auto dest!: first_match_Some)
  have "?exact m \<or> ?rule m \<and> (\<forall>j \<in> set (Identities auth). \<forall>m' \<in> set (ai_Match j). \<not> ?exact m')"
    using P by (simp only: first_match_None)
  then show ?thesis
    using v i wifTTL_bounds [of parse accessTTL "im_TTL m" "until claims"] by blast
qed

definition ci_match :: identity_match where
  "ci_match = \<lparr>im_Sub = '''', im_SubPrefix = ''repo:'', im_Aud = '''', im_Claims = [], im_Scope = ''read'', im_TTL = ''''\<rparr>"

theorem ExchangeAssertion_sound_witness:
  "\<exists>auth sub scope ttl. ExchangeAssertion auth (\<lambda>_. None) (3600 * second) (\<lambda>_. Some (900 * second))
     (Some (\<lambda>_. Inr \<lparr>tc_Subject = ''repo:x'', tc_Audience = '''', tc_Scope = '''', tc_Actor = '''',
        tc_ClientAuth = AuthLevelOther '''', tc_Raw = Map.empty\<rparr>)) ''jwt'' = Inr (sub, scope, ttl)
     \<and> recognizedScope scope \<and> ttl = 1800 * second"
proof -
  let ?auth = "sample_auth\<lparr>Identities := [(sample_identity ''ci'' [] [])\<lparr>ai_Match := [ci_match]\<rparr>]\<rparr>"
  let ?oidc = "Some (\<lambda>_. Inr \<lparr>tc_Subject = ''repo:x'', tc_Audience = '''', tc_Scope = '''', tc_Actor = '''',
        tc_ClientAuth = AuthLevelOther '''', tc_Raw = Map.empty\<rparr>)"
  have e: "ExchangeAssertion ?auth (\<lambda>_. None) (3600 * second) (\<lambda>_. Some (900 * second)) ?oidc ''jwt''
      = Inr (''ci'', ''read'', 1800 * second)"
    by code_simp
  then show ?thesis using ExchangeAssertion_sound [OF e] by blast
qed

end
