(* ===== verification/Oauth_Clients.thy ===== *)
theory Oauth_Clients
  imports Identity
begin

text \<open>
  OAuth clients: the redirect-URI rules and the client store (pkg/openlore/clientstore.go,
  file_clientstore.go), dynamic registration (registration.go), client metadata documents
  and their cache (cimd.go), and the authentication of clients by signed assertions
  (client_auth.go). \<open>url.Parse\<close> and \<open>strings.EqualFold\<close> of the standard library, the HTTP
  fetch, the JSON decoder, the public-suffix list and the JWT validator are parameters.
\<close>

subsection \<open>Redirect URIs\<close>

text \<open>A parsed URL, with the fields and accessors of \<open>*url.URL\<close> the code reads.\<close>

record url =
  u_Scheme :: string
  u_Opaque :: string
  u_HasUser :: bool
  u_Host :: string
  u_Hostname :: string
  u_EscapedPath :: string
  u_RawQuery :: string
  u_Fragment :: string

record net =
  n_Parse :: "string \<Rightarrow> url option"
  n_EqualFold :: "string \<Rightarrow> string \<Rightarrow> bool"

record cimd_client =
  cc_ClientID :: string
  cc_Origin :: string
  cc_ClientName :: string
  cc_RedirectURIs :: "string list"
  cc_AuthMethods :: "string list"
  cc_JWKSURI :: string
  cc_FetchedAt :: int
  cc_ExpiresAt :: int

record oauth_client =
  oc_ClientID :: string
  oc_ClientName :: string
  oc_RedirectURIs :: "string list"
  oc_TokenEndpointAuthMethod :: string
  oc_GrantTypes :: "string list"
  oc_ResponseTypes :: "string list"
  oc_Scope :: string
  oc_ClientIDIssuedAt :: int
  oc_LastDelegate :: string
  oc_CIMD :: "cimd_client option"

definition loopback_host :: "string \<Rightarrow> bool" where
  "loopback_host h \<longleftrightarrow> h = ''127.0.0.1'' \<or> h = ''localhost'' \<or> h = ''::1''"

definition parseRedirectURI :: "net \<Rightarrow> string \<Rightarrow> url option" where
  "parseRedirectURI N raw =
     (if raw = '''' then None
      else case n_Parse N raw of
             None \<Rightarrow> None
           | Some u \<Rightarrow> if u_Scheme u = '''' \<or> u_Fragment u \<noteq> '''' then None else Some u)"

definition validNativeRedirectURI :: "net \<Rightarrow> string \<Rightarrow> bool" where
  "validNativeRedirectURI N raw =
     (case parseRedirectURI N raw of
        None \<Rightarrow> False
      | Some u \<Rightarrow>
          if u_Scheme u = ''http'' \<or> u_Scheme u = ''https'' then loopback_host (u_Hostname u) else True)"

definition validRegisteredRedirectURI :: "net \<Rightarrow> string \<Rightarrow> bool" where
  "validRegisteredRedirectURI N raw =
     (case parseRedirectURI N raw of
        None \<Rightarrow> False
      | Some u \<Rightarrow>
          if u_Scheme u = ''https'' then u_Host u \<noteq> ''''
          else if u_Scheme u = ''http'' then loopback_host (u_Hostname u)
          else False)"

definition sameLoopbackRedirect :: "net \<Rightarrow> string \<Rightarrow> string \<Rightarrow> bool" where
  "sameLoopbackRedirect N registered requested =
     (case (parseRedirectURI N registered, parseRedirectURI N requested) of
        (Some a, Some b) \<Rightarrow>
          (u_Scheme a = ''http'' \<or> u_Scheme a = ''https'') \<and> u_Scheme a = u_Scheme b
          \<and> loopback_host (u_Hostname a) \<and> n_EqualFold N (u_Hostname a) (u_Hostname b)
          \<and> u_EscapedPath a = u_EscapedPath b \<and> u_RawQuery a = u_RawQuery b
      | _ \<Rightarrow> False)"

definition AllowsRedirect :: "net \<Rightarrow> oauth_client \<Rightarrow> string \<Rightarrow> bool" where
  "AllowsRedirect N c uri \<longleftrightarrow>
     list_ex (\<lambda>r. r = uri \<or> oc_CIMD c \<noteq> None \<and> sameLoopbackRedirect N r uri) (oc_RedirectURIs c)"

definition remote_redirect :: "net \<Rightarrow> string \<Rightarrow> bool" where
  "remote_redirect N redirect =
     (case parseRedirectURI N redirect of
        None \<Rightarrow> False
      | Some u \<Rightarrow> u_Scheme u = ''https'' \<and> u_Host u \<noteq> '''' \<and> \<not> loopback_host (u_Hostname u))"

definition baselineClientAuth :: "net \<Rightarrow> oauth_client \<Rightarrow> client_auth_level" where
  "baselineClientAuth N c =
     (if oc_ClientID c = '''' \<and> oc_RedirectURIs c = [] then AuthLevelOther ''''
      else if oc_CIMD c \<noteq> None then AuthCIMD
      else if list_ex (remote_redirect N) (oc_RedirectURIs c) then AuthDCRDomain
      else AuthDCRLocal)"

text \<open>Resource indicators (authorize.go): two spellings of an origin are the same resource.\<close>

definition origin_url :: "net \<Rightarrow> string \<Rightarrow> url option" where
  "origin_url N s =
     (case n_Parse N s of
        None \<Rightarrow> None
      | Some u \<Rightarrow>
          if u_Scheme u = '''' \<or> u_Host u = '''' \<or> u_Opaque u \<noteq> '''' \<or> u_HasUser u then None else Some u)"

definition root_path :: "string \<Rightarrow> string" where
  "root_path p = (if p = '''' then ''/'' else p)"

definition sameResourceIdentifier :: "net \<Rightarrow> string \<Rightarrow> string \<Rightarrow> bool" where
  "sameResourceIdentifier N a b =
     (if a = b then True
      else case origin_url N a of
             None \<Rightarrow> False
           | Some au \<Rightarrow>
               (case origin_url N b of
                  None \<Rightarrow> False
                | Some bu \<Rightarrow>
                    if u_Scheme au \<noteq> u_Scheme bu \<or> u_Host au \<noteq> u_Host bu
                       \<or> u_RawQuery au \<noteq> u_RawQuery bu \<or> u_Fragment au \<noteq> u_Fragment bu
                    then False
                    else root_path (u_EscapedPath au) = root_path (u_EscapedPath bu)))"

definition sameOrigin :: "net \<Rightarrow> url \<Rightarrow> url \<Rightarrow> bool" where
  "sameOrigin N a b \<longleftrightarrow> n_EqualFold N (u_Scheme a) (u_Scheme b) \<and> n_EqualFold N (u_Host a) (u_Host b)"

subsection \<open>The client store and registration\<close>

type_synonym clients = "string \<rightharpoonup> oauth_client"

text \<open>\<open>persist\<close> writes the file; its error is returned after the map has changed.\<close>

definition client_Save ::
  "(clients \<Rightarrow> string option) \<Rightarrow> oauth_client \<Rightarrow> clients \<Rightarrow> string option \<times> clients" where
  "client_Save persist c m = (let m' = m(oc_ClientID c \<mapsto> c) in (persist m', m'))"

definition client_Lookup :: "string \<Rightarrow> clients \<Rightarrow> oauth_client option" where
  "client_Lookup clientID m = m clientID"

record registration_request =
  rr_ClientName :: string
  rr_RedirectURIs :: "string list"
  rr_TokenEndpointAuthMethod :: string
  rr_GrantTypes :: "string list"
  rr_ResponseTypes :: "string list"
  rr_Scope :: string

datatype registration_response =
    RegistrationError nat string
  | Registered oauth_client

definition default_list :: "'a list \<Rightarrow> 'a list \<Rightarrow> 'a list" where
  "default_list d xs = (if xs = [] then d else xs)"

text \<open>\<open>body\<close> is the decoded request, absent when it is not JSON; \<open>rand\<close> the random token.\<close>

definition registrationHandler ::
  "net \<Rightarrow> (clients \<Rightarrow> string option) \<Rightarrow> int \<Rightarrow> string \<Rightarrow> registration_request option \<Rightarrow> clients
   \<Rightarrow> registration_response \<times> clients" where
  "registrationHandler N persist now rand body m =
     (case body of
        None \<Rightarrow> (RegistrationError 400 ''invalid_request'', m)
      | Some req \<Rightarrow>
          if rr_RedirectURIs req = [] then (RegistrationError 400 ''invalid_redirect_uri'', m)
          else if \<not> list_all (validRegisteredRedirectURI N) (rr_RedirectURIs req)
          then (RegistrationError 400 ''invalid_redirect_uri'', m)
          else if rr_TokenEndpointAuthMethod req \<noteq> '''' \<and> rr_TokenEndpointAuthMethod req \<noteq> ''none''
          then (RegistrationError 400 ''invalid_client_metadata'', m)
          else let grantTypes = default_list [''authorization_code'', ''refresh_token''] (rr_GrantTypes req);
                   responseTypes = default_list [''code''] (rr_ResponseTypes req)
               in if list_ex (\<lambda>g. g \<noteq> ''authorization_code'' \<and> g \<noteq> ''refresh_token'') grantTypes
                  then (RegistrationError 400 ''invalid_client_metadata'', m)
                  else if list_ex (\<lambda>rt. rt \<noteq> ''code'') responseTypes
                  then (RegistrationError 400 ''invalid_client_metadata'', m)
                  else let client =
                         \<lparr>oc_ClientID = ''olc_'' @ rand, oc_ClientName = rr_ClientName req,
                          oc_RedirectURIs = rr_RedirectURIs req, oc_TokenEndpointAuthMethod = ''none'',
                          oc_GrantTypes = grantTypes, oc_ResponseTypes = responseTypes,
                          oc_Scope = (if rr_Scope req = '''' then ScopeFull else rr_Scope req),
                          oc_ClientIDIssuedAt = now, oc_LastDelegate = '''', oc_CIMD = None\<rparr>
                       in (case client_Save persist client m of
                             (Some _, m') \<Rightarrow> (RegistrationError 500 ''server_error'', m')
                           | (None, m') \<Rightarrow> (Registered client, m')))"

definition oauthClientFromCIMD :: "cimd_client \<Rightarrow> oauth_client" where
  "oauthClientFromCIMD cc =
     \<lparr>oc_ClientID = cc_ClientID cc, oc_ClientName = cc_ClientName cc,
      oc_RedirectURIs = cc_RedirectURIs cc, oc_TokenEndpointAuthMethod = ''none'',
      oc_GrantTypes = [''authorization_code'', ''refresh_token''], oc_ResponseTypes = [''code''],
      oc_Scope = ScopeFull, oc_ClientIDIssuedAt = 0, oc_LastDelegate = '''', oc_CIMD = Some cc\<rparr>"

text \<open>\<open>store\<close> and \<open>resolver\<close> are the lookups of the client store and the metadata resolver, when configured.\<close>

definition resolveOAuthClient ::
  "(string \<Rightarrow> oauth_client option) option \<Rightarrow> (string \<Rightarrow> cimd_client option) option \<Rightarrow> string \<Rightarrow> oauth_client option" where
  "resolveOAuthClient store resolver clientID =
     (case (if clientID \<noteq> '''' then (case store of None \<Rightarrow> None | Some lookup \<Rightarrow> lookup clientID) else None) of
        Some c \<Rightarrow> Some c
      | None \<Rightarrow>
          (if prefix ''https://'' clientID
           then (case resolver of
                   None \<Rightarrow> None
                 | Some resolve \<Rightarrow> map_option oauthClientFromCIMD (resolve clientID))
           else None))"


subsection \<open>Client metadata\<close>

definition Offers :: "cimd_client \<Rightarrow> string \<Rightarrow> bool" where
  "Offers c m \<longleftrightarrow> m \<in> set (cc_AuthMethods c)"

definition ascii_lower :: "char \<Rightarrow> char" where
  "ascii_lower c = (let n = of_char c :: nat in if 65 \<le> n \<and> n \<le> 90 then char_of (n + 32) else c)"

definition maxAgeDirective :: "string \<Rightarrow> int option" where
  "maxAgeDirective directive =
     (let t = TrimSpace directive; name = takeWhile (\<lambda>c. c \<noteq> CHR ''='') t
      in if CHR ''='' \<in> set t \<and> map ascii_lower name = ''max-age''
         then (case Atoi (trim_both (CHR 0x22) (drop (Suc (length name)) t)) of
                 None \<Rightarrow> None
               | Some seconds \<Rightarrow>
                   if seconds > 0 then Some ((if seconds > 86400 then 86400 else seconds) * second) else None)
         else None)"

fun first_directive :: "string list \<Rightarrow> int" where
  "first_directive [] = 15 * 60 * second"
| "first_directive (d # ds) = (case maxAgeDirective d of Some t \<Rightarrow> t | None \<Rightarrow> first_directive ds)"

definition cacheMaxAge :: "string \<Rightarrow> int" where
  "cacheMaxAge value = first_directive (split_char (CHR '','') value)"

text \<open>
  The metadata document of a client. \<open>d_fetch\<close> is the HTTP exchange, with the status, the first
  64 KiB + 1 bytes of the body and the Cache-Control header; \<open>d_decode\<close> the JSON decoder, which
  sets the name, redirects, methods and key URL; \<open>d_site\<close> the registrable domain of
  a host in lower case.
\<close>

record cimd_env =
  d_net :: net
  d_fetch :: "string \<Rightarrow> (nat \<times> string \<times> string) option"
  d_decode :: "string \<Rightarrow> cimd_client option"
  d_site :: "string \<Rightarrow> string option"

datatype cimd_error =
    CimdURL
  | CimdFetch
  | CimdStatus nat
  | CimdTooLarge
  | CimdParse
  | CimdNoRedirects
  | CimdRedirect
  | CimdMethod
  | CimdKeys
  | CimdSite

type_synonym cimd_cache = "string \<rightharpoonup> cimd_client"

definition maxCIMDBytes :: nat where "maxCIMDBytes = 65536"

definition cimd_url :: "net \<Rightarrow> string \<Rightarrow> url option" where
  "cimd_url N clientID =
     (case n_Parse N clientID of
        None \<Rightarrow> None
      | Some u \<Rightarrow>
          if u_Scheme u \<noteq> ''https'' \<or> u_Host u = '''' \<or> u_HasUser u \<or> u_Fragment u \<noteq> '''' then None else Some u)"

text \<open>The checks of a fetched document; \<open>fetched\<close> is the second reading of the clock.\<close>

definition cimd_document :: "cimd_env \<Rightarrow> int \<Rightarrow> string \<Rightarrow> url \<Rightarrow> cimd_error + cimd_client" where
  "cimd_document D fetched clientID u =
     (case d_fetch D clientID of
        None \<Rightarrow> Inl CimdFetch
      | Some (status, body, control) \<Rightarrow>
          if status \<noteq> 200 then Inl (CimdStatus status)
          else if length body > maxCIMDBytes then Inl CimdTooLarge
          else case d_decode D body of
                 None \<Rightarrow> Inl CimdParse
               | Some doc \<Rightarrow>
                   if cc_RedirectURIs doc = [] then Inl CimdNoRedirects
                   else if \<not> list_all (validRegisteredRedirectURI (d_net D)) (cc_RedirectURIs doc)
                   then Inl CimdRedirect
                   else let methods = default_list [''none''] (cc_AuthMethods doc)
                        in if list_ex (\<lambda>m. m \<noteq> ''none'' \<and> m \<noteq> ''private_key_jwt'') methods
                           then Inl CimdMethod
                           else if ''private_key_jwt'' \<in> set methods \<and>
                             (case n_Parse (d_net D) (cc_JWKSURI doc) of
                                None \<Rightarrow> True
                              | Some j \<Rightarrow> u_Scheme j \<noteq> ''https'' \<or> \<not> sameOrigin (d_net D) u j)
                           then Inl CimdKeys
                           else case d_site D (u_Hostname u) of
                                  None \<Rightarrow> Inl CimdSite
                                | Some origin \<Rightarrow>
                                    Inr (doc\<lparr>cc_ClientID := clientID, cc_Origin := origin,
                                             cc_AuthMethods := methods, cc_FetchedAt := fetched,
                                             cc_ExpiresAt := fetched + cacheMaxAge control\<rparr>))"

definition Resolve ::
  "cimd_env \<Rightarrow> int \<Rightarrow> int \<Rightarrow> string \<Rightarrow> cimd_cache \<Rightarrow> (cimd_error + cimd_client) \<times> cimd_cache" where
  "Resolve D now fetched clientID m =
     (case cimd_url (d_net D) clientID of
        None \<Rightarrow> (Inl CimdURL, m)
      | Some u \<Rightarrow>
          (case (case m clientID of Some c \<Rightarrow> if now < cc_ExpiresAt c then Some c else None | None \<Rightarrow> None) of
             Some c \<Rightarrow> (Inr c, m)
           | None \<Rightarrow>
               (case cimd_document D fetched clientID u of
                  Inl e \<Rightarrow> (Inl e, m)
                | Inr c \<Rightarrow> (Inr c, m(clientID \<mapsto> c)))))"

definition Invalidate :: "string \<Rightarrow> cimd_cache \<Rightarrow> cimd_cache" where
  "Invalidate clientID m = m(clientID := None)"

subsection \<open>Signed assertions\<close>

text \<open>
  The claims of an assertion; \<open>None\<close> for a date claim that is missing or malformed. \<open>a_validate\<close>
  is the JWT validator built for a client, which reports whether a failure concerns the key.
\<close>

record assertion_claims =
  cl_iss :: string
  cl_sub :: string
  cl_jti :: string
  cl_iat :: "int option"
  cl_exp :: "int option"

datatype assertion_error =
    KeyFailure
  | ValidationFailure
  | ClaimsUnparsable
  | ClaimsMissing
  | NotFresh
  | JtiReused

record assertion_env =
  a_validate :: "cimd_client \<Rightarrow> string \<Rightarrow> assertion_error option"
  a_claims :: "string \<Rightarrow> assertion_claims option"

type_synonym used_jti = "string \<rightharpoonup> int"

definition jti_key :: "string \<Rightarrow> string \<Rightarrow> string" where
  "jti_key clientID jti = clientID @ CHR 0x00 # jti"

definition prune_jti :: "int \<Rightarrow> used_jti \<Rightarrow> used_jti" where
  "prune_jti now m = (\<lambda>k. case m k of Some e \<Rightarrow> if e < now then None else Some e | None \<Rightarrow> None)"

definition minute :: int where "minute = 60 * second"

definition assertion_times :: "assertion_claims \<Rightarrow> (int \<times> int) option" where
  "assertion_times c =
     (case (cl_iat c, cl_exp c) of (Some iat, Some exp) \<Rightarrow> Some (iat, exp) | _ \<Rightarrow> None)"

definition verifyAssertion ::
  "assertion_env \<Rightarrow> int \<Rightarrow> cimd_client \<Rightarrow> string \<Rightarrow> used_jti \<Rightarrow> assertion_error option \<times> used_jti" where
  "verifyAssertion A now client assertion m =
     (case a_validate A client assertion of
        Some e \<Rightarrow> (Some e, m)
      | None \<Rightarrow>
          (case a_claims A assertion of
             None \<Rightarrow> (Some ClaimsUnparsable, m)
           | Some c \<Rightarrow>
               if cl_iss c \<noteq> cc_ClientID client \<or> cl_sub c \<noteq> cc_ClientID client \<or> cl_jti c = ''''
               then (Some ClaimsMissing, m)
               else case assertion_times c of
                      None \<Rightarrow> (Some ClaimsMissing, m)
                    | Some (iat, exp) \<Rightarrow>
                        if iat > now + minute \<or> iat < now - 5 * minute \<or> exp < now \<or> exp > iat + 5 * minute
                        then (Some NotFresh, m)
                        else let m' = prune_jti now m; key = jti_key (cc_ClientID client) (cl_jti c)
                             in if m' key \<noteq> None then (Some JtiReused, m')
                                else (None, m'(key \<mapsto> exp))))"

definition clientAssertionType :: string where
  "clientAssertionType = ''urn:ietf:params:oauth:client-assertion-type:jwt-bearer''"

text \<open>
  \<open>Authenticate\<close>: \<open>mtls\<close> says the connection carries a verified certificate. On a key failure the
  metadata is fetched again and the assertion verified with the fresh keys (\<open>A'\<close>).
\<close>

record auth_state =
  au_cache :: cimd_cache
  au_jti :: used_jti

definition Authenticate ::
  "cimd_env \<Rightarrow> assertion_env \<Rightarrow> assertion_env \<Rightarrow> int \<Rightarrow> int \<Rightarrow> bool \<Rightarrow> (string \<Rightarrow> string) \<Rightarrow> cimd_client \<Rightarrow> auth_state
   \<Rightarrow> (string + client_auth_level) \<times> auth_state" where
  "Authenticate D A A' now fetched mtls f client st =
     (let assertion = f ''client_assertion'';
          level = (if mtls then AuthPrivateKeyJWTMTLS else AuthPrivateKeyJWT)
      in if \<not> Offers client ''private_key_jwt'' then
           (if assertion \<noteq> '''' then (Inl ''client does not offer private_key_jwt'', st) else (Inr AuthCIMD, st))
         else if f ''client_assertion_type'' \<noteq> clientAssertionType \<or> assertion = ''''
         then (Inl ''private_key_jwt is required for this client'', st)
         else (case verifyAssertion A now client assertion (au_jti st) of
                 (None, j) \<Rightarrow> (Inr level, st\<lparr>au_jti := j\<rparr>)
               | (Some e, j) \<Rightarrow>
                   if e \<noteq> KeyFailure then (Inl ''invalid client assertion'', st\<lparr>au_jti := j\<rparr>)
                   else (case Resolve D now fetched (cc_ClientID client) (Invalidate (cc_ClientID client) (au_cache st)) of
                           (Inl _, m) \<Rightarrow> (Inl ''invalid client assertion'', \<lparr>au_cache = m, au_jti = j\<rparr>)
                         | (Inr fresh, m) \<Rightarrow>
                             (case verifyAssertion A' now fresh assertion j of
                                (Some _, j') \<Rightarrow> (Inl ''invalid client assertion'', \<lparr>au_cache = m, au_jti = j'\<rparr>)
                              | (None, j') \<Rightarrow> (Inr level, \<lparr>au_cache = m, au_jti = j'\<rparr>)))))"


subsection \<open>What a resolved client satisfies\<close>

definition cimd_valid :: "net \<Rightarrow> string \<Rightarrow> cimd_client \<Rightarrow> bool" where
  "cimd_valid N clientID c \<longleftrightarrow>
     cc_ClientID c = clientID
     \<and> cc_RedirectURIs c \<noteq> [] \<and> list_all (validRegisteredRedirectURI N) (cc_RedirectURIs c)
     \<and> cc_AuthMethods c \<noteq> [] \<and> list_all (\<lambda>m. m = ''none'' \<or> m = ''private_key_jwt'') (cc_AuthMethods c)
     \<and> (''private_key_jwt'' \<in> set (cc_AuthMethods c) \<longrightarrow>
          (\<exists>u j. n_Parse N clientID = Some u \<and> n_Parse N (cc_JWKSURI c) = Some j
             \<and> u_Scheme j = ''https'' \<and> sameOrigin N u j))
     \<and> cc_FetchedAt c + second \<le> cc_ExpiresAt c \<and> cc_ExpiresAt c \<le> cc_FetchedAt c + 86400 * second"

lemma first_directive_bounds: "second \<le> first_directive ds \<and> first_directive ds \<le> 86400 * second"
  by (induction ds) (auto simp: second_def maxAgeDirective_def Let_def split: option.splits if_splits)

lemma cacheMaxAge_bounds: "second \<le> cacheMaxAge v" "cacheMaxAge v \<le> 86400 * second"
  using first_directive_bounds by (simp_all add: cacheMaxAge_def)

lemma known_methods_iff:
  "\<not> list_ex (\<lambda>m. m \<noteq> a \<and> m \<noteq> b) ms \<longleftrightarrow> list_all (\<lambda>m. m = a \<or> m = b) ms"
  by (auto simp: list_ex_iff list_all_iff)

lemma cimd_document_valid:
  assumes "cimd_url (d_net D) clientID = Some u" "cimd_document D fetched clientID u = Inr c"
  shows "cimd_valid (d_net D) clientID c \<and> cc_FetchedAt c = fetched"
proof -
  have u: "n_Parse (d_net D) clientID = Some u"
    using assms(1) by (auto simp: cimd_url_def split: option.splits if_splits)
  show ?thesis
    using assms(2) u
    by (auto simp: cimd_document_def Let_def cimd_valid_def cacheMaxAge_bounds default_list_def
        known_methods_iff split: option.splits if_splits)
qed

definition cimd_cache_ok :: "net \<Rightarrow> cimd_cache \<Rightarrow> bool" where
  "cimd_cache_ok N m \<longleftrightarrow> (\<forall>i c. m i = Some c \<longrightarrow> cimd_valid N i c)"

lemma Resolve_cache_ok:
  assumes "cimd_cache_ok (d_net D) m"
  shows "cimd_cache_ok (d_net D) (snd (Resolve D now fetched i m))"
  using assms cimd_document_valid
  by (auto simp: Resolve_def cimd_cache_ok_def split: option.splits sum.splits if_splits)

lemma Resolve_valid:
  assumes "cimd_cache_ok (d_net D) m" "Resolve D now fetched i m = (Inr c, m')"
  shows "cimd_valid (d_net D) i c \<and> (now < cc_ExpiresAt c \<or> cc_FetchedAt c = fetched) \<and> m' i = Some c"
  using assms cimd_document_valid
  by (fastforce simp: Resolve_def cimd_cache_ok_def split: option.splits sum.splits if_splits)

text \<open>The caches a server can reach, resolving and invalidating from the empty one.\<close>

inductive cimd_reach :: "net \<Rightarrow> cimd_cache \<Rightarrow> bool" for N where
  start: "cimd_reach N (\<lambda>i. None)"
| resolve: "cimd_reach N m \<Longrightarrow> d_net D = N \<Longrightarrow> cimd_reach N (snd (Resolve D now fetched i m))"
| invalidate: "cimd_reach N m \<Longrightarrow> cimd_reach N (Invalidate i m)"

lemma cimd_reach_ok: "cimd_reach N m \<Longrightarrow> cimd_cache_ok N m"
proof (induction rule: cimd_reach.induct)
  case (resolve m D now fetched i)
  then show ?case using Resolve_cache_ok [of D m] by blast
qed (simp_all add: cimd_cache_ok_def Invalidate_def)

subsection \<open>Assertions are used once\<close>

lemma verifyAssertion_keeps:
  assumes "m k = Some e" "\<not> e < t"
  shows "snd (verifyAssertion A t client assertion m) k = Some e"
proof -
  have "prune_jti t m k = Some e"
    using assms by (simp add: prune_jti_def)
  then show ?thesis
    using assms(1) by (auto simp: verifyAssertion_def Let_def split: option.split)
qed

lemma verifyAssertion_accepts:
  assumes "verifyAssertion A now client assertion m = (None, m')"
  shows "\<exists>c iat exp. a_claims A assertion = Some c \<and> cl_iss c = cc_ClientID client
    \<and> assertion_times c = Some (iat, exp) \<and> now \<le> exp
    \<and> iat \<le> now + minute \<and> now - 5 * minute \<le> iat \<and> exp \<le> iat + 5 * minute
    \<and> prune_jti now m (jti_key (cl_iss c) (cl_jti c)) = None
    \<and> m' (jti_key (cl_iss c) (cl_jti c)) = Some exp"
  using assms by (auto simp: verifyAssertion_def Let_def split: option.splits if_splits)

type_synonym verification = "assertion_env \<times> int \<times> cimd_client \<times> string"

fun verify_all :: "verification list \<Rightarrow> used_jti \<Rightarrow> used_jti" where
  "verify_all [] m = m"
| "verify_all ((A, t, client, assertion) # vs) m = verify_all vs (snd (verifyAssertion A t client assertion m))"

lemma verify_all_keeps:
  assumes "m k = Some e" "\<forall>(A, t, client, assertion) \<in> set vs. t \<le> e"
  shows "verify_all vs m k = Some e"
  using assms by (induction vs m rule: verify_all.induct) (auto simp: verifyAssertion_keeps)


text \<open>
  A client resolved by the metadata resolver, from whatever sequence of resolutions and
  invalidations, has the id it was resolved by, only valid redirect URIs, only known
  authentication methods, a same-origin HTTPS key URL when it signs assertions, and a lifetime
  between a second and a day; and the copy served was not past its lifetime.
\<close>

theorem resolved_client_valid:
  assumes "cimd_reach (d_net D) m" "Resolve D now fetched i m = (Inr c, m')"
  shows "cimd_valid (d_net D) i c \<and> (now < cc_ExpiresAt c \<or> cc_FetchedAt c = fetched)"
  using Resolve_valid [OF cimd_reach_ok [OF assms(1)] assms(2)] by blast

definition sample_net :: net where
  "sample_net = \<lparr>n_Parse = (\<lambda>s. Some \<lparr>u_Scheme = ''https'', u_Opaque = '''', u_HasUser = False, u_Host = ''app'',
     u_Hostname = ''app'', u_EscapedPath = ''/cb'', u_RawQuery = '''', u_Fragment = ''''\<rparr>), n_EqualFold = (=)\<rparr>"

definition sample_document :: cimd_client where
  "sample_document = \<lparr>cc_ClientID = '''', cc_Origin = '''', cc_ClientName = ''App'',
     cc_RedirectURIs = [''https://app/cb''], cc_AuthMethods = [''private_key_jwt''],
     cc_JWKSURI = ''https://app/keys'', cc_FetchedAt = 0, cc_ExpiresAt = 0\<rparr>"

definition sample_cimd :: cimd_env where
  "sample_cimd = \<lparr>d_net = sample_net, d_fetch = (\<lambda>i. Some (200, ''{}'', ''public, max-age=60'')),
     d_decode = (\<lambda>b. Some sample_document), d_site = (\<lambda>h. Some h)\<rparr>"

lemma sample_resolve: "\<exists>c m. Resolve sample_cimd 5 7 ''https://app/id'' (\<lambda>i. None) = (Inr c, m)"
  by (simp add: Resolve_def cimd_url_def cimd_document_def sample_cimd_def sample_net_def sample_document_def
      maxCIMDBytes_def default_list_def sameOrigin_def validRegisteredRedirectURI_def parseRedirectURI_def Let_def)

theorem resolved_client_valid_witness:
  "\<exists>c m. Resolve sample_cimd 5 7 ''https://app/id'' (\<lambda>i. None) = (Inr c, m)
     \<and> cimd_valid sample_net ''https://app/id'' c"
proof -
  obtain c m where r: "Resolve sample_cimd 5 7 ''https://app/id'' (\<lambda>i. None) = (Inr c, m)"
    using sample_resolve by blast
  have "cimd_reach (d_net sample_cimd) (\<lambda>i. None)"
    by (rule cimd_reach.start)
  from resolved_client_valid [OF this r] r show ?thesis
    by (auto simp: sample_cimd_def)
qed


definition sample_assertions :: assertion_env where
  "sample_assertions = \<lparr>a_validate = (\<lambda>c a. None),
     a_claims = (\<lambda>a. Some \<lparr>cl_iss = ''id'', cl_sub = ''id'', cl_jti = a, cl_iat = Some 0, cl_exp = Some minute\<rparr>)\<rparr>"



subsection \<open>Registered clients\<close>

text \<open>
  The client stores a server can reach: registrations, and the consent page's update of the
  delegate a client last used.
\<close>

inductive clients_reach :: "net \<Rightarrow> clients \<Rightarrow> bool" for N where
  start: "clients_reach N (\<lambda>i. None)"
| register: "clients_reach N m \<Longrightarrow> clients_reach N (snd (registrationHandler N persist now rand body m))"
| consent: "clients_reach N m \<Longrightarrow> client_Lookup i m = Some c \<Longrightarrow>
    clients_reach N (snd (client_Save persist (c\<lparr>oc_LastDelegate := d\<rparr>) m))"

definition public_client :: "net \<Rightarrow> oauth_client \<Rightarrow> bool" where
  "public_client N c \<longleftrightarrow> oc_CIMD c = None \<and> oc_RedirectURIs c \<noteq> []
     \<and> list_all (validRegisteredRedirectURI N) (oc_RedirectURIs c)
     \<and> oc_TokenEndpointAuthMethod c = ''none'' \<and> set (oc_ResponseTypes c) = {''code''}"

lemma registration_keeps:
  assumes "\<forall>i c. m i = Some c \<longrightarrow> public_client N c"
  shows "\<forall>i c. snd (registrationHandler N persist now rand body m) i = Some c \<longrightarrow> public_client N c"
proof -
  have codes: "\<not> list_ex (\<lambda>rt. rt \<noteq> ''code'') (default_list [''code''] rs) \<Longrightarrow>
      set (default_list [''code''] rs) = {''code''}" for rs
    by (auto simp: default_list_def list_ex_iff split: if_splits) (cases rs; force)
  show ?thesis
    using assms codes
    by (auto simp: registrationHandler_def client_Save_def Let_def public_client_def split: option.splits if_splits)
qed

lemma clients_reach_public: "clients_reach N m \<Longrightarrow> m i = Some c \<Longrightarrow> public_client N c"
proof (induction arbitrary: i c rule: clients_reach.induct)
  case (register m persist now rand body)
  then show ?case using registration_keeps [of m N] by blast
next
  case (consent m i' c' persist d)
  then show ?case
    by (auto simp: client_Save_def client_Lookup_def public_client_def Let_def split: if_splits)
qed simp

text \<open>
  Whatever is registered, a client of the store may redirect exactly to the URIs it
  registered, each of them remote HTTPS or loopback HTTP without a fragment; no
  normalization applies to it.
\<close>

theorem registered_redirects_exact:
  assumes "clients_reach N m" "client_Lookup i m = Some c"
  shows "(AllowsRedirect N c uri \<longleftrightarrow> uri \<in> set (oc_RedirectURIs c))
    \<and> (AllowsRedirect N c uri \<longrightarrow> validRegisteredRedirectURI N uri)"
  using clients_reach_public [OF assms(1), of i c] assms(2)
  by (auto simp: client_Lookup_def AllowsRedirect_def public_client_def list_ex_iff list_all_iff)

definition sample_registration :: registration_request where
  "sample_registration = \<lparr>rr_ClientName = ''App'', rr_RedirectURIs = [''https://app/cb''],
     rr_TokenEndpointAuthMethod = '''', rr_GrantTypes = [], rr_ResponseTypes = [], rr_Scope = ''''\<rparr>"

theorem registered_redirects_exact_witness:
  "\<exists>c m. registrationHandler sample_net (\<lambda>m. None) 0 ''r'' (Some sample_registration) (\<lambda>i. None) = (Registered c, m)
     \<and> AllowsRedirect sample_net c ''https://app/cb'' \<and> \<not> AllowsRedirect sample_net c ''https://app/other''"
proof -
  have valid: "validRegisteredRedirectURI sample_net ''https://app/cb''"
    by (simp add: validRegisteredRedirectURI_def parseRedirectURI_def sample_net_def)
  then obtain c m where r:
    "registrationHandler sample_net (\<lambda>m. None) 0 ''r'' (Some sample_registration) (\<lambda>i. None) = (Registered c, m)"
    "client_Lookup ''olc_r'' m = Some c" "oc_RedirectURIs c = [''https://app/cb'']"
    by (auto simp: registrationHandler_def sample_registration_def client_Save_def client_Lookup_def
        default_list_def Let_def)
  have "clients_reach sample_net m"
    using clients_reach.register [OF clients_reach.start, of sample_net "\<lambda>m. None" 0 "''r''" "Some sample_registration"] r(1)
    by simp
  from registered_redirects_exact [OF this r(2)] r show ?thesis
    by auto
qed

end
