(* ===== verification/Refresh_Store.thy ===== *)
theory Refresh_Store
  imports Config "HOL-Library.AList"
begin

text \<open>
  The refresh-token store of pkg/openlore/refreshstore.go: rotation, reuse detection,
  idempotent retries and the revocation of chains. The map of tokens is an association
  list; times are nanoseconds and the zero time is \<open>None\<close>; \<open>time.Now()\<close> is read once per
  operation; \<open>persist\<close> is the write of the map to disk, whose error is returned after the map
  in memory has changed.
\<close>

subsection \<open>Tokens\<close>

record refresh_token =
  rt_Token :: string
  rt_Subject :: string
  rt_Actor :: string
  rt_ClientID :: string
  rt_ClientAuth :: client_auth_level
  rt_Scope :: string
  rt_ChainID :: string
  rt_ExpiresAt :: "int option"
  rt_Used :: bool
  rt_RotatedAt :: int
  rt_ReplacedBy :: string

datatype refresh_error =
    ErrRefreshReuse
  | ErrRefreshInvalid
  | ErrRefreshStaleRetry
  | RefreshPersist string

type_synonym tokens = "refresh_token gomap"
type_synonym persist = "tokens \<Rightarrow> string option"

definition refreshRetryGrace :: int where
  "refreshRetryGrace = 2 * 60 * 1000000000"

record refresh_rotation =
  rr_Token :: refresh_token
  rr_Retried :: bool

subsection \<open>Operations\<close>

definition persisted :: "persist \<Rightarrow> tokens \<Rightarrow> 'a \<Rightarrow> (refresh_error + 'a) \<times> tokens" where
  "persisted persist m r = ((case persist m of Some e \<Rightarrow> Inl (RefreshPersist e) | None \<Rightarrow> Inr r), m)"

definition Save :: "persist \<Rightarrow> refresh_token \<Rightarrow> tokens \<Rightarrow> (refresh_error + unit) \<times> tokens" where
  "Save persist rt m = persisted persist (AList.update (rt_Token rt) rt m) ()"

definition Lookup :: "string \<Rightarrow> tokens \<Rightarrow> refresh_token option" where
  "Lookup token m = map_of m token"

definition revokeChainLocked :: "string \<Rightarrow> tokens \<Rightarrow> tokens" where
  "revokeChainLocked chain m = filter (\<lambda>(tok, rt). rt_ChainID rt \<noteq> chain) m"

definition expired :: "int \<Rightarrow> refresh_token \<Rightarrow> bool" where
  "expired now rt = (case rt_ExpiresAt rt of None \<Rightarrow> False | Some t \<Rightarrow> t < now)"

definition retry_successor :: "int \<Rightarrow> refresh_token \<Rightarrow> tokens \<Rightarrow> refresh_token option" where
  "retry_successor now old m =
     (let elapsed = now - rt_RotatedAt old
      in if 0 \<le> elapsed \<and> elapsed \<le> refreshRetryGrace
         then (case map_of m (rt_ReplacedBy old) of
                 Some succ \<Rightarrow> if \<not> rt_Used succ \<and> \<not> expired now succ then Some succ else None
               | None \<Rightarrow> None)
         else None)"

definition Rotate ::
  "persist \<Rightarrow> int \<Rightarrow> string \<Rightarrow> refresh_token \<Rightarrow> tokens \<Rightarrow> (refresh_error + refresh_rotation) \<times> tokens" where
  "Rotate persist now oldToken newToken m =
     (case map_of m oldToken of
        None \<Rightarrow> (Inl ErrRefreshInvalid, m)
      | Some old \<Rightarrow>
          if rt_Used old then
            (case retry_successor now old m of
               Some succ \<Rightarrow> (Inr \<lparr>rr_Token = succ, rr_Retried = True\<rparr>, m)
             | None \<Rightarrow>
                 if rt_ClientAuth newToken = AuthPrivateKeyJWT \<or> rt_ClientAuth newToken = AuthPrivateKeyJWTMTLS
                 then (Inl ErrRefreshStaleRetry, m)
                 else let m' = revokeChainLocked (rt_ChainID old) m
                      in (case persist m' of
                            Some e \<Rightarrow> (Inl (RefreshPersist e), m')
                          | None \<Rightarrow> (Inl ErrRefreshReuse, m')))
          else if expired now old then
            (let m' = AList.delete oldToken m
             in (case persist m' of
                   Some e \<Rightarrow> (Inl (RefreshPersist e), m')
                 | None \<Rightarrow> (Inl ErrRefreshInvalid, m')))
          else
            (let old' = old\<lparr>rt_Used := True, rt_RotatedAt := now, rt_ReplacedBy := rt_Token newToken\<rparr>;
                 m' = AList.update (rt_Token newToken) newToken (AList.update oldToken old' m)
             in persisted persist m' \<lparr>rr_Token = newToken, rr_Retried = False\<rparr>))"

definition RevokeChain :: "persist \<Rightarrow> string \<Rightarrow> tokens \<Rightarrow> (refresh_error + unit) \<times> tokens" where
  "RevokeChain persist chain m = persisted persist (revokeChainLocked chain m) ()"

definition delegation_chains :: "string \<Rightarrow> string \<Rightarrow> tokens \<Rightarrow> string list" where
  "delegation_chains subject actor m =
     remdups (map (\<lambda>(t, rt). rt_ChainID rt)
       (filter (\<lambda>(t, rt). rt_Subject rt = subject \<and> rt_Actor rt = actor) m))"

definition RevokeDelegation ::
  "persist \<Rightarrow> string \<Rightarrow> string \<Rightarrow> tokens \<Rightarrow> (refresh_error + nat) \<times> tokens" where
  "RevokeDelegation persist subject actor m =
     (let chains = delegation_chains subject actor m
      in persisted persist (fold revokeChainLocked chains m) (length chains))"

subsection \<open>What the operations do to the map\<close>

lemma map_of_filter:
  "distinct (map fst m) \<Longrightarrow>
   map_of (filter (\<lambda>(k, v). P v) m) k = (case map_of m k of Some v \<Rightarrow> if P v then Some v else None | None \<Rightarrow> None)"
  by (induction m) (auto split: option.split simp: map_of_eq_None_iff rev_image_eqI)

lemma map_of_revoke:
  "go_map m \<Longrightarrow> map_of (revokeChainLocked c m) t =
     (case map_of m t of Some rt \<Rightarrow> if rt_ChainID rt \<noteq> c then Some rt else None | None \<Rightarrow> None)"
  by (simp add: revokeChainLocked_def go_map_def map_of_filter)

lemma go_map_filter: "go_map m \<Longrightarrow> go_map (filter P m)"
  by (simp add: go_map_def distinct_map_filter)

lemma go_map_revoke [simp]: "go_map m \<Longrightarrow> go_map (revokeChainLocked c m)"
  by (simp add: revokeChainLocked_def go_map_filter)

lemma go_map_update [simp]: "go_map m \<Longrightarrow> go_map (AList.update k v m)"
  by (simp add: go_map_def distinct_update)

lemma go_map_delete [simp]: "go_map m \<Longrightarrow> go_map (AList.delete k m)"
  by (simp add: go_map_def distinct_delete)

lemma go_map_fold_revoke [simp]: "go_map m \<Longrightarrow> go_map (fold revokeChainLocked cs m)"
  by (induction cs arbitrary: m) simp_all

lemma map_of_fold_revoke:
  "go_map m \<Longrightarrow> map_of (fold revokeChainLocked cs m) t =
     (case map_of m t of Some rt \<Rightarrow> if rt_ChainID rt \<notin> set cs then Some rt else None | None \<Rightarrow> None)"
  by (induction cs arbitrary: m) (auto simp: map_of_revoke split: option.split)

subsection \<open>The contract of a refresh-token store\<close>

text \<open>
  What the token endpoint relies on of the \<open>RefreshTokenStore\<close> interface, over an abstract
  state whose tokens \<open>find\<close> looks up: saving and rotating add the given token, a rotation
  consumes the old one, and revoking a chain leaves none of its tokens.
\<close>

locale refresh_token_store =
  fixes find :: "'s \<Rightarrow> string \<Rightarrow> refresh_token option"
    and save :: "refresh_token \<Rightarrow> 's \<Rightarrow> 's"
    and rotate :: "int \<Rightarrow> string \<Rightarrow> refresh_token \<Rightarrow> 's \<Rightarrow> (refresh_error + refresh_rotation) \<times> 's"
    and revoke :: "string \<Rightarrow> 's \<Rightarrow> 's"
    and ok :: "'s \<Rightarrow> bool"
  assumes save_find: "ok s \<Longrightarrow> find (save rt s) t = (if t = rt_Token rt then Some rt else find s t)"
    and revoke_find: "ok s \<Longrightarrow> find (revoke c s) t =
      (case find s t of Some rt \<Rightarrow> if rt_ChainID rt = c then None else Some rt | None \<Rightarrow> None)"
    and rotate_fresh: "ok s \<Longrightarrow> rotate now t nt s = (Inr r, s') \<Longrightarrow> \<not> rr_Retried r \<Longrightarrow>
      \<exists>old. find s t = Some old \<and> \<not> rt_Used old \<and> \<not> expired now old \<and> rr_Token r = nt
        \<and> (\<forall>u. find s' u = (if u = rt_Token nt then Some nt
              else if u = t then Some (old\<lparr>rt_Used := True, rt_RotatedAt := now, rt_ReplacedBy := rt_Token nt\<rparr>)
              else find s u))"
    and rotate_retry: "ok s \<Longrightarrow> rotate now t nt s = (Inr r, s') \<Longrightarrow> rr_Retried r \<Longrightarrow>
      s' = s \<and> (\<exists>old. find s t = Some old \<and> rt_Used old \<and> find s (rt_ReplacedBy old) = Some (rr_Token r)
        \<and> \<not> rt_Used (rr_Token r) \<and> \<not> expired now (rr_Token r))"
    and rotate_shrinks: "ok s \<Longrightarrow> rotate now t nt s = (Inl e, s') \<Longrightarrow> (\<forall>x. e \<noteq> RefreshPersist x) \<Longrightarrow>
      find s' u = find s u \<or> find s' u = None"
    and ok_steps: "ok s \<Longrightarrow> ok (save rt s) \<and> ok (revoke c s) \<and> ok (snd (rotate now t nt s))"
begin

definition live :: "'s \<Rightarrow> string \<Rightarrow> string \<Rightarrow> bool" where
  "live s c t \<longleftrightarrow> (\<exists>rt. find s t = Some rt \<and> rt_ChainID rt = c \<and> \<not> rt_Used rt)"

text \<open>At most one token of a chain is unused.\<close>

definition single_live :: "'s \<Rightarrow> bool" where
  "single_live s \<longleftrightarrow> (\<forall>c t u. live s c t \<longrightarrow> live s c u \<longrightarrow> t = u)"

lemma revoke_single_live: "ok s \<Longrightarrow> single_live s \<Longrightarrow> single_live (revoke c s)"
  by (fastforce simp: single_live_def live_def revoke_find split: option.splits if_splits)

lemma save_single_live:
  assumes "ok s" "single_live s" "\<forall>t old. find s t = Some old \<longrightarrow> rt_ChainID old \<noteq> rt_ChainID rt"
  shows "single_live (save rt s)"
  using assms by (fastforce simp: single_live_def live_def save_find split: if_splits)

lemma rotate_single_live:
  assumes "ok s" "single_live s" "rotate now t nt s = (Inr r, s')"
    and chain: "\<And>old. find s t = Some old \<Longrightarrow> rt_ChainID nt = rt_ChainID old"
    and fresh: "find s (rt_Token nt) = None"
  shows "single_live s'"
proof (cases "rr_Retried r")
  case True
  then show ?thesis using rotate_retry [OF assms(1,3)] assms(2) by simp
next
  case False
  then obtain old where old: "find s t = Some old" "\<not> rt_Used old"
    and s': "\<And>u. find s' u = (if u = rt_Token nt then Some nt
      else if u = t then Some (old\<lparr>rt_Used := True, rt_RotatedAt := now, rt_ReplacedBy := rt_Token nt\<rparr>)
      else find s u)"
    using rotate_fresh [OF assms(1,3)] by blast
  have in_old: "u = rt_Token nt \<or> u \<noteq> t \<and> live s c u" if "live s' c u" for c u
    using that by (auto simp: live_def s' split: if_splits)
  have at_new: "c = rt_ChainID old" if "live s' c (rt_Token nt)" for c
    using that chain [OF old(1)] by (auto simp: live_def s')
  have "live s (rt_ChainID old) t"
    using old by (simp add: live_def)
  then show ?thesis
    using in_old at_new assms(2) unfolding single_live_def by metis
qed

lemma rotate_failed_single_live:
  assumes "ok s" "single_live s" "rotate now t nt s = (Inl e, s')" "\<forall>x. e \<noteq> RefreshPersist x"
  shows "single_live s'"
proof -
  have "live s c u" if "live s' c u" for c u
    using rotate_shrinks [OF assms(1,3,4), of u] that by (auto simp: live_def)
  then show ?thesis using assms(2) unfolding single_live_def by blast
qed

end

text \<open>The file-backed store, when its writes succeed, is such a store.\<close>

definition no_persist_error :: persist where
  "no_persist_error m = None"

interpretation file_store: refresh_token_store
  "\<lambda>m t. Lookup t m" "\<lambda>rt m. snd (Save no_persist_error rt m)"
  "Rotate no_persist_error" "\<lambda>c m. snd (RevokeChain no_persist_error c m)" go_map
proof (unfold_locales, goal_cases)
  case (1 s rt t)
  then show ?case by (simp add: Lookup_def Save_def persisted_def update_conv')
next
  case (2 s c t)
  then show ?case
    by (auto simp: Lookup_def RevokeChain_def persisted_def map_of_revoke split: option.split)
next
  case (3 s now t nt r s')
  then show ?case
    by (auto simp: Lookup_def Rotate_def persisted_def no_persist_error_def update_conv' Let_def
        split: option.splits if_splits)
next
  case (4 s now t nt r s')
  then show ?case
    by (auto simp: Lookup_def Rotate_def persisted_def no_persist_error_def retry_successor_def Let_def
        split: option.splits if_splits)
next
  case (5 s now t nt e s' u)
  then show ?case
    by (auto simp: Lookup_def Rotate_def persisted_def no_persist_error_def map_of_revoke delete_conv' Let_def
        split: option.splits if_splits)
next
  case (6 s rt c now t nt)
  then show ?case
    by (auto simp: Save_def RevokeChain_def Rotate_def persisted_def no_persist_error_def Let_def
        split: option.split)
qed

subsection \<open>Rotation, retry and reuse\<close>

definition authenticated_client :: "refresh_token \<Rightarrow> bool" where
  "authenticated_client rt \<longleftrightarrow>
     rt_ClientAuth rt = AuthPrivateKeyJWT \<or> rt_ClientAuth rt = AuthPrivateKeyJWTMTLS"

text \<open>
  C19. A rotated token is spent: presenting it again within two minutes, while its successor is
  unused and unexpired, returns that same successor and changes nothing; after that an
  authenticated client is refused without effect, and for a public client the whole chain is
  revoked.
\<close>

theorem rotated_token_is_spent:
  assumes "go_map m" "Rotate persist now t nt m = (Inr r, m')" "\<not> rr_Retried r"
    and "rt_Token nt \<noteq> t" "\<not> rt_Used nt" "map_of m t = Some old"
  shows "Rotate persist now' t nt' m' =
    (if 0 \<le> now' - now \<and> now' - now \<le> refreshRetryGrace \<and> \<not> expired now' nt
     then (Inr \<lparr>rr_Token = nt, rr_Retried = True\<rparr>, m')
     else if authenticated_client nt' then (Inl ErrRefreshStaleRetry, m')
     else (Inl (case persist (revokeChainLocked (rt_ChainID old) m') of
                  Some e \<Rightarrow> RefreshPersist e | None \<Rightarrow> ErrRefreshReuse),
           revokeChainLocked (rt_ChainID old) m'))"
proof -
  have m': "m' = AList.update (rt_Token nt) nt
      (AList.update t (old\<lparr>rt_Used := True, rt_RotatedAt := now, rt_ReplacedBy := rt_Token nt\<rparr>) m)"
    using assms by (auto simp: Rotate_def persisted_def Let_def split: option.splits if_splits)
  have t: "map_of m' t = Some (old\<lparr>rt_Used := True, rt_RotatedAt := now, rt_ReplacedBy := rt_Token nt\<rparr>)"
    and succ: "map_of m' (rt_Token nt) = Some nt"
    using assms(4) by (simp_all add: m' update_conv')
  show ?thesis
    using assms(5)
    by (auto simp: Rotate_def t succ retry_successor_def authenticated_client_def Let_def split: option.split)
qed

definition sample_token :: "string \<Rightarrow> refresh_token" where
  "sample_token t = \<lparr>rt_Token = t, rt_Subject = ''ann'', rt_Actor = '''', rt_ClientID = '''',
     rt_ClientAuth = AuthDCRLocal, rt_Scope = ''full'', rt_ChainID = ''chain'', rt_ExpiresAt = None,
     rt_Used = False, rt_RotatedAt = 0, rt_ReplacedBy = ''''\<rparr>"

theorem rotated_token_is_spent_witness:
  "\<exists>r m'. Rotate no_persist_error 0 ''a'' (sample_token ''b'') [(''a'', sample_token ''a'')] = (Inr r, m')
     \<and> snd (Rotate no_persist_error (3 * refreshRetryGrace) ''a'' (sample_token ''c'') m') = []"
proof -
  have c: "\<exists>r m'. Rotate no_persist_error 0 ''a'' (sample_token ''b'') [(''a'', sample_token ''a'')] = (Inr r, m')
      \<and> \<not> rr_Retried r \<and> revokeChainLocked ''chain'' m' = []"
    by (simp add: Rotate_def expired_def sample_token_def persisted_def no_persist_error_def
        revokeChainLocked_def Let_def)
  then obtain r m' where r: "Rotate no_persist_error 0 ''a'' (sample_token ''b'') [(''a'', sample_token ''a'')] = (Inr r, m')"
    "\<not> rr_Retried r" "revokeChainLocked ''chain'' m' = []"
    by blast
  have "Rotate no_persist_error (3 * refreshRetryGrace) ''a'' (sample_token ''c'') m'
      = (Inl ErrRefreshReuse, [])"
    using rotated_token_is_spent [OF _ r(1,2), of "sample_token ''a''" "3 * refreshRetryGrace" "sample_token ''c''"] r(3)
    by (simp add: go_map_def sample_token_def authenticated_client_def refreshRetryGrace_def no_persist_error_def)
  with r(1) show ?thesis by auto
qed

text \<open>
  Revoking a delegation deletes every token of every chain in which the actor held one for the
  subject, keeps all others, and reports how many chains that was.
\<close>

theorem RevokeDelegation_spec:
  assumes "go_map m"
  shows "map_of (snd (RevokeDelegation persist subject actor m)) t =
      (case map_of m t of
         None \<Rightarrow> None
       | Some rt \<Rightarrow>
           if \<exists>(u, d) \<in> set m. rt_Subject d = subject \<and> rt_Actor d = actor \<and> rt_ChainID d = rt_ChainID rt
           then None else Some rt)
    \<and> (\<forall>n. fst (RevokeDelegation persist subject actor m) = Inr n \<longrightarrow>
         n = card {rt_ChainID d | u d. (u, d) \<in> set m \<and> rt_Subject d = subject \<and> rt_Actor d = actor})"
proof -
  have chains: "set (delegation_chains subject actor m)
      = {rt_ChainID d | u d. (u, d) \<in> set m \<and> rt_Subject d = subject \<and> rt_Actor d = actor}"
    by (force simp: delegation_chains_def)
  have "length (delegation_chains subject actor m) = card (set (delegation_chains subject actor m))"
    by (simp add: delegation_chains_def length_remdups_card_conv)
  moreover have member: "(\<exists>(u, d) \<in> set m. rt_Subject d = subject \<and> rt_Actor d = actor \<and> rt_ChainID d = rt_ChainID rt)
      \<longleftrightarrow> rt_ChainID rt \<in> set (delegation_chains subject actor m)" for rt
    unfolding chains by force
  ultimately show ?thesis
    using assms unfolding member
    by (simp add: RevokeDelegation_def persisted_def Let_def map_of_fold_revoke chains [symmetric] split: option.split)
qed

theorem RevokeDelegation_spec_witness:
  "map_of (snd (RevokeDelegation no_persist_error ''ann'' '''' [(''a'', sample_token ''a'')])) ''a'' = None"
proof -
  have "go_map [(''a'', sample_token ''a'')]"
    by (simp add: go_map_def)
  then show ?thesis
    by (subst conjunct1 [OF RevokeDelegation_spec]) (simp_all add: sample_token_def)
qed

end
