(* ===== verification/Oauth.thy ===== *)
theory Oauth
  imports Oauth_Clients Refresh_Store
begin

text \<open>
  The OAuth token endpoint (pkg/openlore/tokenendpoint.go) and the stores of the
  authorization flow (authorize.go): pending requests, consents, single-use codes bound to
  their client, redirect and PKCE challenge, and the grants that mint tokens. The issuer's
  signing, the client authenticator, the metadata resolver and the SHA-256 of PKCE are fields
  of an environment record; random tokens are arguments. A lookup in the token store does not
  fail, as the file-backed store's does not.
\<close>

subsection \<open>Codes\<close>

record auth_code =
  ac_Subject :: string
  ac_Actor :: string
  ac_Scope :: string
  ac_Expires :: int
  ac_ClientID :: string
  ac_Client :: oauth_client
  ac_Resource :: string
  ac_RedirectURI :: string
  ac_CodeChallenge :: string
  ac_CodeChallengeMethod :: string

type_synonym codes = "string \<rightharpoonup> auth_code"

definition code_ttl :: int where "code_ttl = 60 * second"

definition Issue :: "int \<Rightarrow> string \<Rightarrow> auth_code \<Rightarrow> codes \<Rightarrow> codes" where
  "Issue now code c m = m(code \<mapsto> c\<lparr>ac_Expires := now + code_ttl\<rparr>)"

definition Consume :: "int \<Rightarrow> string \<Rightarrow> codes \<Rightarrow> auth_code option \<times> codes" where
  "Consume now code m =
     (case m code of
        None \<Rightarrow> (None, m)
      | Some c \<Rightarrow> (if ac_Expires c < now then None else Some c, m(code := None)))"

subsection \<open>Pending requests and consents\<close>

record authorize_request =
  ar_ClientID :: string
  ar_Client :: oauth_client
  ar_RedirectURI :: string
  ar_State :: string
  ar_Scope :: string
  ar_Resource :: string
  ar_CodeChallenge :: string
  ar_CodeChallengeMethod :: string
  ar_Expires :: int

type_synonym requests = "string \<rightharpoonup> authorize_request"

definition request_ttl :: int where "request_ttl = 10 * 60 * second"

definition req_put :: "int \<Rightarrow> string \<Rightarrow> authorize_request \<Rightarrow> requests \<Rightarrow> requests" where
  "req_put now i req m = m(i \<mapsto> req\<lparr>ar_Expires := now + request_ttl\<rparr>)"

definition req_get :: "int \<Rightarrow> string \<Rightarrow> requests \<Rightarrow> authorize_request option \<times> requests" where
  "req_get now i m =
     (case m i of
        None \<Rightarrow> (None, m(i := None))
      | Some req \<Rightarrow> if ar_Expires req < now then (None, m(i := None)) else (Some req, m))"

definition req_take :: "int \<Rightarrow> string \<Rightarrow> requests \<Rightarrow> authorize_request option \<times> requests" where
  "req_take now i m =
     (case m i of
        None \<Rightarrow> (None, m)
      | Some req \<Rightarrow> (if ar_Expires req < now then None else Some req, m(i := None)))"

record consent_request =
  cr_AuthorizeID :: string
  cr_Principal :: string
  cr_Expires :: int

type_synonym consents = "string \<rightharpoonup> consent_request"

definition consent_put :: "int \<Rightarrow> string \<Rightarrow> consent_request \<Rightarrow> consents \<Rightarrow> consents" where
  "consent_put now i req m = m(i \<mapsto> req\<lparr>cr_Expires := now + request_ttl\<rparr>)"

definition consent_get :: "int \<Rightarrow> string \<Rightarrow> bool \<Rightarrow> consents \<Rightarrow> consent_request option \<times> consents" where
  "consent_get now i consume m =
     (case m i of
        None \<Rightarrow> (None, m(i := None))
      | Some req \<Rightarrow>
          if cr_Expires req < now then (None, m(i := None))
          else (Some req, if consume then m(i := None) else m))"

subsection \<open>The environment and the endpoint's state\<close>

type_synonym form = "string \<Rightarrow> string"

record env =
  e_net :: net
  e_s256 :: "string \<Rightarrow> string"
  e_mint :: "attribution \<Rightarrow> string \<Rightarrow> int \<Rightarrow> string option"
  e_authenticate :: "(form \<Rightarrow> cimd_client \<Rightarrow> string + client_auth_level) option"
  e_resolve :: "(string \<Rightarrow> cimd_client option) option"
  e_wif :: "(string \<Rightarrow> exchange_error + (string \<times> string \<times> int)) option"
  e_delegation :: "(string \<Rightarrow> string \<Rightarrow> exchange_error + (attribution \<times> string \<times> int)) option"
  e_persist :: persist
  e_records_delegates :: bool
  e_accessTTL :: int
  e_refreshTTL :: int

record endpoint =
  es_requests :: requests
  es_consents :: consents
  es_codes :: codes
  es_refresh :: tokens
  es_recorded :: "(string \<times> string \<times> client_auth_level) list"

datatype response =
    OauthError nat string
  | Tokens string string string

definition verifyPKCE :: "env \<Rightarrow> string \<Rightarrow> string \<Rightarrow> string \<Rightarrow> bool" where
  "verifyPKCE E method verifier challenge =
     (if method = '''' \<or> method = ''S256'' then e_s256 E verifier = challenge
      else if method = ''plain'' then verifier = challenge
      else False)"

definition or_full :: "string \<Rightarrow> string" where
  "or_full scope = (if scope = '''' then ScopeFull else scope)"

definition issueAccessOnly :: "env \<Rightarrow> attribution \<Rightarrow> string \<Rightarrow> int \<Rightarrow> response" where
  "issueAccessOnly E at scope ttl =
     (case e_mint E at (or_full scope) ttl of
        None \<Rightarrow> OauthError 500 ''server_error''
      | Some access \<Rightarrow> Tokens access '''' (or_full scope))"

text \<open>A fresh login: an access token and the first refresh token of a new chain.\<close>

definition issue ::
  "env \<Rightarrow> int \<Rightarrow> string \<Rightarrow> attribution \<Rightarrow> string \<Rightarrow> string \<Rightarrow> string \<Rightarrow> endpoint \<Rightarrow> response \<times> endpoint" where
  "issue E now rand at scope chainID clientID st =
     (case e_mint E at (or_full scope) (e_accessTTL E) of
        None \<Rightarrow> (OauthError 500 ''server_error'', st)
      | Some access \<Rightarrow>
          let rt = \<lparr>rt_Token = rand, rt_Subject = at_Principal at, rt_Actor = at_Actor at,
                    rt_ClientID = clientID, rt_ClientAuth = at_ClientAuth at, rt_Scope = or_full scope,
                    rt_ChainID = chainID, rt_ExpiresAt = Some (now + e_refreshTTL E), rt_Used = False,
                    rt_RotatedAt = 0, rt_ReplacedBy = ''''\<rparr>
          in (case Save (e_persist E) rt (es_refresh st) of
                (Inl _, m) \<Rightarrow> (OauthError 500 ''server_error'', st\<lparr>es_refresh := m\<rparr>)
              | (Inr _, m) \<Rightarrow> (Tokens access rand (or_full scope), st\<lparr>es_refresh := m\<rparr>)))"

text \<open>The checks a consumed code's request must pass, in order; then the client's authentication level.\<close>

definition code_client_auth :: "env \<Rightarrow> form \<Rightarrow> auth_code \<Rightarrow> response + client_auth_level" where
  "code_client_auth E f c =
     (case oc_CIMD (ac_Client c) of
        None \<Rightarrow> Inr (baselineClientAuth (e_net E) (ac_Client c))
      | Some cimd \<Rightarrow>
          (case e_authenticate E of
             None \<Rightarrow> Inl (OauthError 401 ''invalid_client'')
           | Some auth \<Rightarrow>
               (case auth f cimd of
                  Inl _ \<Rightarrow> Inl (OauthError 401 ''invalid_client'')
                | Inr level \<Rightarrow> Inr level)))"

definition code_binding_error :: "env \<Rightarrow> form \<Rightarrow> auth_code \<Rightarrow> response option" where
  "code_binding_error E f c =
     (if f ''resource'' \<noteq> '''' \<and> ac_Resource c \<noteq> '''' \<and> \<not> sameResourceIdentifier (e_net E) (f ''resource'') (ac_Resource c)
      then Some (OauthError 400 ''invalid_target'')
      else if ac_CodeChallenge c \<noteq> '''' then
        (if f ''redirect_uri'' \<noteq> ac_RedirectURI c then Some (OauthError 400 ''invalid_grant'')
         else if f ''code_verifier'' = '''' then Some (OauthError 400 ''invalid_request'')
         else if \<not> verifyPKCE E (ac_CodeChallengeMethod c) (f ''code_verifier'') (ac_CodeChallenge c)
         then Some (OauthError 400 ''invalid_grant'')
         else None)
      else None)"

definition handleAuthorizationCode ::
  "env \<Rightarrow> int \<Rightarrow> string \<Rightarrow> string \<Rightarrow> form \<Rightarrow> endpoint \<Rightarrow> response \<times> endpoint" where
  "handleAuthorizationCode E now chain rand f st =
     (if f ''code'' = '''' then (OauthError 400 ''invalid_request'', st)
      else case Consume now (f ''code'') (es_codes st) of
             (None, codes) \<Rightarrow> (OauthError 400 ''invalid_grant'', st\<lparr>es_codes := codes\<rparr>)
           | (Some c, codes) \<Rightarrow>
               let st1 = st\<lparr>es_codes := codes\<rparr>
               in if ac_ClientID c \<noteq> '''' \<and> f ''client_id'' \<noteq> ac_ClientID c
                  then (OauthError 400 ''invalid_grant'', st1)
                  else (case code_client_auth E f c of
                          Inl r \<Rightarrow> (r, st1)
                        | Inr level \<Rightarrow>
                            (case code_binding_error E f c of
                               Some r \<Rightarrow> (r, st1)
                             | None \<Rightarrow>
                                 let st2 = (if ac_Actor c \<noteq> '''' \<and> e_records_delegates E
                                            then st1\<lparr>es_recorded := es_recorded st1 @ [(ac_Subject c, ac_Actor c, level)]\<rparr>
                                            else st1)
                                 in issue E now rand
                                      \<lparr>at_Principal = ac_Subject c, at_Actor = ac_Actor c, at_ClientAuth = level\<rparr>
                                      (ac_Scope c) chain (ac_ClientID c) st2)))"

definition handleJWTBearer :: "env \<Rightarrow> form \<Rightarrow> response" where
  "handleJWTBearer E f =
     (case e_wif E of
        None \<Rightarrow> OauthError 400 ''unsupported_grant_type''
      | Some wif \<Rightarrow>
          if f ''assertion'' = '''' then OauthError 400 ''invalid_request''
          else (case wif (f ''assertion'') of
                  Inl WIFDisabled \<Rightarrow> OauthError 400 ''unsupported_grant_type''
                | Inl ExchangeUnknownIdentity \<Rightarrow> OauthError 403 ''invalid_grant''
                | Inl InvalidScope \<Rightarrow> OauthError 400 ''invalid_scope''
                | Inl (AssertionRejected _) \<Rightarrow> OauthError 400 ''invalid_grant''
                | Inr (sub, scope, ttl) \<Rightarrow>
                    issueAccessOnly E \<lparr>at_Principal = sub, at_Actor = '''', at_ClientAuth = AuthLevelOther ''''\<rparr>
                      scope ttl))"

definition handleTokenExchange :: "env \<Rightarrow> form \<Rightarrow> response" where
  "handleTokenExchange E f =
     (case e_delegation E of
        None \<Rightarrow> OauthError 400 ''unsupported_grant_type''
      | Some exchange \<Rightarrow>
          if f ''actor_token'' = '''' \<or> f ''act_for'' = '''' then OauthError 400 ''invalid_request''
          else (case exchange (f ''actor_token'') (f ''act_for'') of
                  Inl _ \<Rightarrow> OauthError 403 ''invalid_grant''
                | Inr (at, scope, ttl) \<Rightarrow> issueAccessOnly E at scope ttl))"

definition authenticateBoundClient :: "env \<Rightarrow> form \<Rightarrow> refresh_token \<Rightarrow> string + client_auth_level" where
  "authenticateBoundClient E f rt =
     (if rt_ClientID rt = '''' then Inr (rt_ClientAuth rt)
      else if f ''client_id'' \<noteq> rt_ClientID rt then Inl ''client_id mismatch''
      else if prefix ''https://'' (rt_ClientID rt) then
        (case (e_resolve E, e_authenticate E) of
           (Some resolve, Some auth) \<Rightarrow>
             (case resolve (rt_ClientID rt) of
                None \<Rightarrow> Inl ''client metadata unavailable''
              | Some cimd \<Rightarrow> auth f cimd)
         | _ \<Rightarrow> Inl ''client authentication unavailable'')
      else Inr (rt_ClientAuth rt))"

definition next_refresh :: "env \<Rightarrow> int \<Rightarrow> string \<Rightarrow> client_auth_level \<Rightarrow> refresh_token \<Rightarrow> refresh_token" where
  "next_refresh E now rand level old =
     \<lparr>rt_Token = rand, rt_Subject = rt_Subject old, rt_Actor = rt_Actor old,
      rt_ClientID = rt_ClientID old, rt_ClientAuth = level, rt_Scope = rt_Scope old,
      rt_ChainID = rt_ChainID old, rt_ExpiresAt = Some (now + e_refreshTTL E),
      rt_Used = False, rt_RotatedAt = 0, rt_ReplacedBy = []\<rparr>"

definition handleRefreshToken ::
  "env \<Rightarrow> int \<Rightarrow> string \<Rightarrow> form \<Rightarrow> endpoint \<Rightarrow> response \<times> endpoint" where
  "handleRefreshToken E now rand f st =
     (if f ''refresh_token'' = '''' then (OauthError 400 ''invalid_request'', st)
      else case Lookup (f ''refresh_token'') (es_refresh st) of
             None \<Rightarrow> (OauthError 400 ''invalid_grant'', st)
           | Some old \<Rightarrow>
               (case authenticateBoundClient E f old of
                  Inl _ \<Rightarrow> (OauthError 401 ''invalid_client'', st)
                | Inr level \<Rightarrow>
                    let nt = next_refresh E now rand level old
                    in (case Rotate (e_persist E) now (f ''refresh_token'') nt (es_refresh st) of
                          (Inl _, m) \<Rightarrow> (OauthError 400 ''invalid_grant'', st\<lparr>es_refresh := m\<rparr>)
                        | (Inr r, m) \<Rightarrow>
                            ((case e_mint E \<lparr>at_Principal = rt_Subject old, at_Actor = rt_Actor old,
                                            at_ClientAuth = level\<rparr> (or_full (rt_Scope old)) (e_accessTTL E) of
                                None \<Rightarrow> OauthError 500 ''server_error''
                              | Some access \<Rightarrow> Tokens access (rt_Token (rr_Token r)) (or_full (rt_Scope old))),
                             st\<lparr>es_refresh := m\<rparr>))))"

datatype revoke_response = RevokeOk | RevokeError nat string

definition handleRevoke :: "env \<Rightarrow> form \<Rightarrow> endpoint \<Rightarrow> revoke_response \<times> endpoint" where
  "handleRevoke E f st =
     (if f ''token'' = '''' then (RevokeOk, st)
      else case Lookup (f ''token'') (es_refresh st) of
             None \<Rightarrow> (RevokeOk, st)
           | Some rt \<Rightarrow>
               (case authenticateBoundClient E f rt of
                  Inl _ \<Rightarrow> (RevokeError 401 ''invalid_client'', st)
                | Inr _ \<Rightarrow>
                    (case RevokeChain (e_persist E) (rt_ChainID rt) (es_refresh st) of
                       (Inl _, m) \<Rightarrow> (RevokeError 500 ''server_error'', st\<lparr>es_refresh := m\<rparr>)
                     | (Inr _, m) \<Rightarrow> (RevokeOk, st\<lparr>es_refresh := m\<rparr>))))"

text \<open>\<open>ServeHTTP\<close> after its method and form checks: the dispatch on the grant type.\<close>

definition delegationGrantType :: string where
  "delegationGrantType = ''urn:openlore:oauth:grant-type:delegation''"

definition ServeHTTP ::
  "env \<Rightarrow> int \<Rightarrow> string \<Rightarrow> string \<Rightarrow> form \<Rightarrow> endpoint \<Rightarrow> response \<times> endpoint" where
  "ServeHTTP E now chain rand f st =
     (if f ''grant_type'' = ''authorization_code'' then handleAuthorizationCode E now chain rand f st
      else if f ''grant_type'' = ''refresh_token'' then handleRefreshToken E now rand f st
      else if f ''grant_type'' = ''urn:ietf:params:oauth:grant-type:jwt-bearer'' then (handleJWTBearer E f, st)
      else if f ''grant_type'' = delegationGrantType then (handleTokenExchange E f, st)
      else (OauthError 400 ''unsupported_grant_type'', st))"

subsection \<open>The authorization request\<close>

datatype authorize_response = BadRequest string | Choice string

text \<open>
  \<open>store\<close> and \<open>resolver\<close> look clients up, when configured; \<open>audience\<close> is the configured one,
  absent when token auth is off.
\<close>

definition native_client :: "string \<Rightarrow> string \<Rightarrow> oauth_client" where
  "native_client clientID redirectURI =
     \<lparr>oc_ClientID = clientID, oc_ClientName = '''', oc_RedirectURIs = [redirectURI],
      oc_TokenEndpointAuthMethod = '''', oc_GrantTypes = [], oc_ResponseTypes = [], oc_Scope = '''',
      oc_ClientIDIssuedAt = 0, oc_LastDelegate = '''', oc_CIMD = None\<rparr>"

definition authorize_client ::
  "net \<Rightarrow> (string \<Rightarrow> oauth_client option) option \<Rightarrow> (string \<Rightarrow> cimd_client option) option
   \<Rightarrow> string \<Rightarrow> string \<Rightarrow> oauth_client option" where
  "authorize_client N store resolver clientID redirectURI =
     (case resolveOAuthClient store resolver clientID of
        Some c \<Rightarrow> Some c
      | None \<Rightarrow>
          if validNativeRedirectURI N redirectURI then Some (native_client clientID redirectURI) else None)"

definition authorizeHandler ::
  "net \<Rightarrow> (string \<Rightarrow> oauth_client option) option \<Rightarrow> (string \<Rightarrow> cimd_client option) option
   \<Rightarrow> string option \<Rightarrow> int \<Rightarrow> string \<Rightarrow> form \<Rightarrow> endpoint \<Rightarrow> authorize_response \<times> endpoint" where
  "authorizeHandler N store resolver audience now rand q st =
     (if q ''response_type'' \<noteq> ''code'' then (BadRequest ''response_type'', st)
      else case authorize_client N store resolver (q ''client_id'') (q ''redirect_uri'') of
             None \<Rightarrow> (BadRequest ''redirect_uri'', st)
           | Some c \<Rightarrow>
               if \<not> AllowsRedirect N c (q ''redirect_uri'') then (BadRequest ''redirect_uri'', st)
               else if q ''code_challenge'' = '''' then (BadRequest ''code_challenge'', st)
               else let method = (if q ''code_challenge_method'' = '''' then ''S256''
                                  else q ''code_challenge_method'')
                    in if method \<noteq> ''S256'' then (BadRequest ''code_challenge_method'', st)
                       else if q ''resource'' \<noteq> '''' \<and>
                         (case audience of None \<Rightarrow> False
                          | Some a \<Rightarrow> \<not> sameResourceIdentifier N (q ''resource'') a)
                       then (BadRequest ''resource'', st)
                       else let req = \<lparr>ar_ClientID = q ''client_id'', ar_Client = c,
                                       ar_RedirectURI = q ''redirect_uri'', ar_State = q ''state'',
                                       ar_Scope = or_full (q ''scope''), ar_Resource = q ''resource'',
                                       ar_CodeChallenge = q ''code_challenge'',
                                       ar_CodeChallengeMethod = method, ar_Expires = 0\<rparr>
                            in (Choice rand, st\<lparr>es_requests := req_put now rand req (es_requests st)\<rparr>))"

definition code_of_request :: "authorize_request \<Rightarrow> string \<Rightarrow> string \<Rightarrow> auth_code" where
  "code_of_request req sub actor =
     \<lparr>ac_Subject = sub, ac_Actor = actor, ac_Scope = ar_Scope req, ac_Expires = 0,
      ac_ClientID = ar_ClientID req, ac_Client = ar_Client req, ac_Resource = ar_Resource req,
      ac_RedirectURI = ar_RedirectURI req, ac_CodeChallenge = ar_CodeChallenge req,
      ac_CodeChallengeMethod = ar_CodeChallengeMethod req\<rparr>"

text \<open>\<open>redirect\<close> adds the code and state to the redirect URI; it fails on one that does not parse.\<close>

definition finishAuthorize ::
  "(string \<Rightarrow> string \<Rightarrow> string \<Rightarrow> string option) \<Rightarrow> int \<Rightarrow> string \<Rightarrow> string \<Rightarrow> string \<Rightarrow> string
   \<Rightarrow> endpoint \<Rightarrow> string option \<times> endpoint" where
  "finishAuthorize redirect now rand requestID sub actor st =
     (case req_take now requestID (es_requests st) of
        (None, m) \<Rightarrow> (None, st\<lparr>es_requests := m\<rparr>)
      | (Some req, m) \<Rightarrow>
          (redirect (ar_RedirectURI req) rand (ar_State req),
           st\<lparr>es_requests := m, es_codes := Issue now rand (code_of_request req sub actor) (es_codes st)\<rparr>))"

definition CompleteAuthorize ::
  "(string \<Rightarrow> string \<Rightarrow> string \<Rightarrow> string option) \<Rightarrow> (string \<Rightarrow> string) \<Rightarrow> int \<Rightarrow> string \<Rightarrow> string \<Rightarrow> string
   \<Rightarrow> endpoint \<Rightarrow> string option \<times> endpoint" where
  "CompleteAuthorize redirect consentURL now rand requestID sub st =
     (case req_get now requestID (es_requests st) of
        (None, m) \<Rightarrow> (None, st\<lparr>es_requests := m\<rparr>)
      | (Some req, m) \<Rightarrow>
          if sub \<noteq> anonymousSubject \<and> ar_ClientID req \<noteq> '''' \<and> oc_ClientID (ar_Client req) \<noteq> ''''
          then (Some (consentURL rand),
                st\<lparr>es_requests := m,
                   es_consents := consent_put now rand
                     \<lparr>cr_AuthorizeID = requestID, cr_Principal = sub, cr_Expires = 0\<rparr> (es_consents st)\<rparr>)
          else finishAuthorize redirect now rand requestID sub '''' (st\<lparr>es_requests := m\<rparr>))"


text \<open>\<open>IssueAuthCode\<close>: a code without client, redirect or PKCE binding.\<close>

definition IssueAuthCode :: "int \<Rightarrow> string \<Rightarrow> string \<Rightarrow> string \<Rightarrow> endpoint \<Rightarrow> endpoint" where
  "IssueAuthCode now rand sub scope st =
     st\<lparr>es_codes := Issue now rand
       \<lparr>ac_Subject = sub, ac_Actor = '''', ac_Scope = or_full scope, ac_Expires = 0, ac_ClientID = '''',
        ac_Client = \<lparr>oc_ClientID = '''', oc_ClientName = '''', oc_RedirectURIs = [],
          oc_TokenEndpointAuthMethod = '''', oc_GrantTypes = [], oc_ResponseTypes = [], oc_Scope = '''',
          oc_ClientIDIssuedAt = 0, oc_LastDelegate = '''', oc_CIMD = None\<rparr>,
        ac_Resource = '''', ac_RedirectURI = '''', ac_CodeChallenge = '''', ac_CodeChallengeMethod = ''''\<rparr>
       (es_codes st)\<rparr>"

subsection \<open>The server as a state machine\<close>

text \<open>
  The surroundings of the endpoints, and the events that change their state. \<open>Consented\<close> is
  the end of the consent page: it consumes the consent and finishes the request for the
  consent's principal and the delegate chosen there.
\<close>

record system =
  sy_env :: env
  sy_store :: "(string \<Rightarrow> oauth_client option) option"
  sy_resolver :: "(string \<Rightarrow> cimd_client option) option"
  sy_audience :: "string option"
  sy_redirect :: "string \<Rightarrow> string \<Rightarrow> string \<Rightarrow> string option"
  sy_consentURL :: "string \<Rightarrow> string"

datatype event =
    Authorize int string form
  | LoggedIn int string string string
  | Consented int string string string
  | MintCode int string string string
  | TokenRequest int string string form
  | RevokeRequest form

definition consented :: "system \<Rightarrow> int \<Rightarrow> string \<Rightarrow> string \<Rightarrow> string \<Rightarrow> endpoint \<Rightarrow> endpoint" where
  "consented S now rand consentID actor st =
     (case consent_get now consentID True (es_consents st) of
        (None, m) \<Rightarrow> st\<lparr>es_consents := m\<rparr>
      | (Some c, m) \<Rightarrow>
          snd (finishAuthorize (sy_redirect S) now rand (cr_AuthorizeID c) (cr_Principal c) actor
                 (st\<lparr>es_consents := m\<rparr>)))"

fun step :: "system \<Rightarrow> event \<Rightarrow> endpoint \<Rightarrow> endpoint" where
  "step S (Authorize now rand q) st =
     snd (authorizeHandler (e_net (sy_env S)) (sy_store S) (sy_resolver S) (sy_audience S) now rand q st)"
| "step S (LoggedIn now rand requestID sub) st =
     snd (CompleteAuthorize (sy_redirect S) (sy_consentURL S) now rand requestID sub st)"
| "step S (Consented now rand consentID actor) st = consented S now rand consentID actor st"
| "step S (MintCode now rand sub scope) st = IssueAuthCode now rand sub scope st"
| "step S (TokenRequest now chain rand f) st = snd (ServeHTTP (sy_env S) now chain rand f st)"
| "step S (RevokeRequest f) st = snd (handleRevoke (sy_env S) f st)"

definition start_endpoint :: endpoint where
  "start_endpoint = \<lparr>es_requests = (\<lambda>i. None), es_consents = (\<lambda>i. None), es_codes = (\<lambda>i. None),
     es_refresh = [], es_recorded = []\<rparr>"

subsection \<open>What each part of the endpoint touches\<close>

lemmas endpoint_simps = handleAuthorizationCode_def handleRefreshToken_def handleRevoke_def issue_def
  finishAuthorize_def CompleteAuthorize_def authorizeHandler_def IssueAuthCode_def consented_def

lemma issue_frame [simp]:
  "es_codes (snd (issue E now rand at scope chain cid st)) = es_codes st"
  "es_requests (snd (issue E now rand at scope chain cid st)) = es_requests st"
  "es_consents (snd (issue E now rand at scope chain cid st)) = es_consents st"
  by (auto simp: issue_def Let_def split: option.split prod.split sum.split)

lemma refresh_frame [simp]:
  "es_codes (snd (handleRefreshToken E now rand f st)) = es_codes st"
  "es_requests (snd (handleRefreshToken E now rand f st)) = es_requests st"
  "es_consents (snd (handleRefreshToken E now rand f st)) = es_consents st"
  by (auto simp: handleRefreshToken_def Let_def split: option.split prod.split sum.split)

lemma revoke_frame [simp]:
  "es_codes (snd (handleRevoke E f st)) = es_codes st"
  "es_requests (snd (handleRevoke E f st)) = es_requests st"
  "es_consents (snd (handleRevoke E f st)) = es_consents st"
  by (auto simp: handleRevoke_def split: option.split prod.split sum.split)

lemma Consume_codes: "snd (Consume now k m) = m(k := None)"
  by (auto simp: Consume_def split: option.split)

lemma code_frame [simp]:
  "es_requests (snd (handleAuthorizationCode E now chain rand f st)) = es_requests st"
  "es_consents (snd (handleAuthorizationCode E now chain rand f st)) = es_consents st"
  by (auto simp: handleAuthorizationCode_def Let_def split: option.split prod.split sum.split)

lemma code_consumed:
  "es_codes (snd (handleAuthorizationCode E now chain rand f st))
    = (if f ''code'' = '''' then es_codes st else (es_codes st)(f ''code'' := None))"
  using Consume_codes [of now "f ''code''" "es_codes st"]
  by (auto simp: handleAuthorizationCode_def Let_def split: option.split prod.split sum.split)

end
