(* ===== verification/Oauth_Codes.thy ===== *)
theory Oauth_Codes
  imports Oauth
begin

text \<open>
  Authorization codes over the life of the server: a code is used once, and only by the client,
  redirect and PKCE verifier it was issued for.
\<close>

subsection \<open>Codes are used once\<close>

fun event_code :: "event \<Rightarrow> string option" where
  "event_code (LoggedIn now rand requestID sub) = Some rand"
| "event_code (Consented now rand consentID actor) = Some rand"
| "event_code (MintCode now rand sub scope) = Some rand"
| "event_code _ = None"

lemma finish_codes:
  "k \<noteq> rand \<Longrightarrow> es_codes (snd (finishAuthorize redirect now rand i sub actor st)) k = es_codes st k"
  by (auto simp: finishAuthorize_def Issue_def split: option.split prod.split)

lemma authorize_frame [simp]:
  "es_codes (snd (authorizeHandler N store resolver aud now rand q st)) = es_codes st"
  "es_refresh (snd (authorizeHandler N store resolver aud now rand q st)) = es_refresh st"
  by (auto simp: authorizeHandler_def Let_def split: option.split)

lemma complete_codes:
  "k \<noteq> rand \<Longrightarrow> es_codes (snd (CompleteAuthorize redirect url now rand i sub st)) k = es_codes st k"
  by (auto simp: CompleteAuthorize_def finish_codes split: option.split prod.split)

lemma consented_codes:
  "k \<noteq> rand \<Longrightarrow> es_codes (consented S now rand i actor st) k = es_codes st k"
  by (auto simp: consented_def finish_codes split: option.split prod.split)

lemma serve_codes:
  "es_codes (snd (ServeHTTP E now chain rand f st)) k = None \<or>
   es_codes (snd (ServeHTTP E now chain rand f st)) k = es_codes st k"
  by (auto simp: ServeHTTP_def code_consumed)

lemma step_codes:
  "event_code e \<noteq> Some k \<Longrightarrow> es_codes (step S e st) k = None \<or> es_codes (step S e st) k = es_codes st k"
  by (cases e) (auto simp: complete_codes consented_codes serve_codes IssueAuthCode_def Issue_def)

lemma steps_no_code:
  "\<forall>e \<in> set es. event_code e \<noteq> Some k \<Longrightarrow> es_codes st k = None \<Longrightarrow> es_codes (fold (step S) es st) k = None"
proof (induction es arbitrary: st)
  case (Cons e es)
  then show ?case using step_codes [of e k S st] by auto
qed simp

text \<open>
  C21. Once a request has presented a code, whether it was answered with tokens or not, no later
  request with that code is answered with tokens, whatever happens in between, as long as the
  same random code is not drawn again.
\<close>

theorem code_single_use:
  assumes "f ''code'' = k" "k \<noteq> ''''" "\<forall>e \<in> set es. event_code e \<noteq> Some k" "f' ''code'' = k"
  shows "fst (handleAuthorizationCode (sy_env S) now' chain' rand' f'
           (fold (step S) es (snd (handleAuthorizationCode (sy_env S) now chain rand f st))))
         = OauthError 400 ''invalid_grant''"
proof -
  let ?st = "fold (step S) es (snd (handleAuthorizationCode (sy_env S) now chain rand f st))"
  have "es_codes ?st k = None"
    using assms by (intro steps_no_code) (simp_all add: code_consumed)
  then show ?thesis
    using assms by (simp add: handleAuthorizationCode_def Consume_def)
qed

subsection \<open>A sample flow\<close>

definition native_net :: net where
  "native_net = \<lparr>n_Parse = (\<lambda>s. Some \<lparr>u_Scheme = ''app'', u_Opaque = [], u_HasUser = False, u_Host = ''cb'',
     u_Hostname = ''cb'', u_EscapedPath = [], u_RawQuery = [], u_Fragment = []\<rparr>), n_EqualFold = (=)\<rparr>"

definition sample_env :: env where
  "sample_env = \<lparr>e_net = native_net, e_s256 = (\<lambda>v. ''#'' @ v), e_mint = (\<lambda>a sc ttl. Some (at_Principal a @ ''.access'')),
     e_authenticate = None, e_resolve = None, e_wif = None, e_delegation = None, e_persist = no_persist_error,
     e_records_delegates = False, e_accessTTL = 60 * second, e_refreshTTL = 86400 * second\<rparr>"

definition sample_system :: system where
  "sample_system = \<lparr>sy_env = sample_env, sy_store = None, sy_resolver = None, sy_audience = None,
     sy_redirect = (\<lambda>u c s. Some (u @ ''?code='' @ c)), sy_consentURL = (\<lambda>i. ''/consent?'' @ i)\<rparr>"

definition form_of :: "(string \<times> string) list \<Rightarrow> form" where
  "form_of kvs k = (case map_of kvs k of Some v \<Rightarrow> v | None \<Rightarrow> '''')"

definition code_form :: "string \<Rightarrow> string \<Rightarrow> form" where
  "code_form code verifier = form_of
     [(''grant_type'', ''authorization_code''), (''code'', code), (''redirect_uri'', ''app://cb''),
      (''client_id'', ''app''), (''code_verifier'', verifier)]"

definition authorize_form :: form where
  "authorize_form = form_of
     [(''response_type'', ''code''), (''client_id'', ''app''), (''redirect_uri'', ''app://cb''),
      (''code_challenge'', ''#v'')]"

theorem code_single_use_witness:
  "fst (handleAuthorizationCode (sy_env sample_system) 2 ''c2'' ''r2'' (code_form ''k'' ''v'')
     (fold (step sample_system) [MintCode 1 ''other'' ''ann'' '''']
        (snd (handleAuthorizationCode (sy_env sample_system) 1 ''c'' ''r'' (code_form ''k'' ''v'') start_endpoint))))
   = OauthError 400 ''invalid_grant''"
  by (rule code_single_use) (simp_all add: code_form_def form_of_def)


subsection \<open>Codes are bound to their request\<close>

text \<open>
  The states of a server whose codes all come from the browser flow: the code minted without
  a request is left out, and the consent page always names a delegate.
\<close>

fun browser_event :: "event \<Rightarrow> bool" where
  "browser_event (MintCode now rand sub scope) = False"
| "browser_event (Consented now rand consentID actor) = (actor \<noteq> '''')"
| "browser_event _ = True"

inductive browser_reach :: "system \<Rightarrow> endpoint \<Rightarrow> bool" for S where
  start: "browser_reach S start_endpoint"
| event: "browser_reach S st \<Longrightarrow> browser_event e \<Longrightarrow> browser_reach S (step S e st)"

definition client_ids_ok :: "system \<Rightarrow> bool" where
  "client_ids_ok S \<longleftrightarrow>
     (\<forall>lookup i c. sy_store S = Some lookup \<longrightarrow> lookup i = Some c \<longrightarrow> oc_ClientID c = i)
     \<and> (\<forall>resolve i c. sy_resolver S = Some resolve \<longrightarrow> resolve i = Some c \<longrightarrow> cc_ClientID c = i)"

definition request_bound :: "net \<Rightarrow> authorize_request \<Rightarrow> bool" where
  "request_bound N r \<longleftrightarrow> ar_CodeChallenge r \<noteq> '''' \<and> ar_CodeChallengeMethod r = ''S256''
     \<and> AllowsRedirect N (ar_Client r) (ar_RedirectURI r) \<and> oc_ClientID (ar_Client r) = ar_ClientID r
     \<and> ar_Scope r \<noteq> ''''"

definition code_bound :: "net \<Rightarrow> auth_code \<Rightarrow> bool" where
  "code_bound N c \<longleftrightarrow> ac_CodeChallenge c \<noteq> '''' \<and> ac_CodeChallengeMethod c = ''S256''
     \<and> AllowsRedirect N (ac_Client c) (ac_RedirectURI c) \<and> ac_Scope c \<noteq> ''''
     \<and> (ac_Actor c = '''' \<longrightarrow> ac_Subject c = anonymousSubject \<or> ac_ClientID c = '''')"

definition bound_state :: "net \<Rightarrow> endpoint \<Rightarrow> bool" where
  "bound_state N st \<longleftrightarrow>
     (\<forall>i r. es_requests st i = Some r \<longrightarrow> request_bound N r)
     \<and> (\<forall>k c. es_codes st k = Some c \<longrightarrow> code_bound N c)"

lemma authorize_client_id:
  assumes "client_ids_ok S" "authorize_client N (sy_store S) (sy_resolver S) i uri = Some c"
  shows "oc_ClientID c = i"
  using assms
  by (auto simp: authorize_client_def resolveOAuthClient_def client_ids_ok_def native_client_def
      oauthClientFromCIMD_def split: option.splits if_splits)

lemma or_full_nonempty [simp]: "or_full s \<noteq> ''''"
  by (simp add: or_full_def ScopeFull_def)

lemma authorize_bound:
  assumes "client_ids_ok S" "bound_state N st"
  shows "bound_state N (snd (authorizeHandler N (sy_store S) (sy_resolver S) aud now rand q st))"
  using assms authorize_client_id [OF assms(1), of N]
  by (auto simp: authorizeHandler_def Let_def bound_state_def req_put_def request_bound_def split: option.split)

lemma req_get_cases:
  "req_get now i m = (r, m') \<Longrightarrow> (m' = m \<or> m' = m(i := None)) \<and> (\<forall>q. r = Some q \<longrightarrow> m i = Some q \<and> m' = m)"
  by (auto simp: req_get_def split: option.splits if_splits)

lemma req_take_cases:
  "req_take now i m = (r, m') \<Longrightarrow> (m' = m \<or> m' = m(i := None)) \<and> (\<forall>q. r = Some q \<longrightarrow> m i = Some q)"
  by (auto simp: req_take_def split: option.splits if_splits)

lemma code_of_request_bound:
  "request_bound N r \<Longrightarrow> (actor = [] \<Longrightarrow> sub = anonymousSubject \<or> ar_ClientID r = []) \<Longrightarrow>
   code_bound N ((code_of_request r sub actor)\<lparr>ac_Expires := t\<rparr>)"
  by (auto simp: code_bound_def request_bound_def code_of_request_def)

lemma finish_bound:
  assumes "bound_state N st"
    and actor: "\<And>r. es_requests st i = Some r \<Longrightarrow> actor = '''' \<Longrightarrow> sub = anonymousSubject \<or> ar_ClientID r = ''''"
  shows "bound_state N (snd (finishAuthorize redirect now rand i sub actor st))"
proof (cases "req_take now i (es_requests st)")
  case (Pair r m)
  then show ?thesis
    using assms req_take_cases [OF Pair]
    by (cases r)
      (auto simp: finishAuthorize_def bound_state_def Issue_def code_of_request_bound split: if_splits)
qed

lemma complete_bound:
  assumes "bound_state N st"
  shows "bound_state N (snd (CompleteAuthorize redirect url now rand i sub st))"
proof (cases "req_get now i (es_requests st)")
  case (Pair r m)
  show ?thesis
  proof (cases r)
    case None
    with assms Pair req_get_cases [OF Pair] show ?thesis
      by (auto simp: CompleteAuthorize_def bound_state_def split: if_splits)
  next
    case (Some q)
    with Pair req_get_cases [OF Pair] have q: "es_requests st i = Some q" "m = es_requests st"
      by auto
    then have "oc_ClientID (ar_Client q) = ar_ClientID q"
      using assms by (auto simp: bound_state_def request_bound_def)
    with assms q Some Pair show ?thesis
      using finish_bound [OF assms, of i "''''" sub redirect now rand]
      by (auto simp: CompleteAuthorize_def bound_state_def)
  qed
qed

lemma serve_bound: "bound_state N st \<Longrightarrow> bound_state N (snd (ServeHTTP E now chain rand f st))"
  by (auto simp: bound_state_def ServeHTTP_def code_consumed split: if_splits)

lemma consented_bound:
  assumes "bound_state N st" "actor \<noteq> ''''"
  shows "bound_state N (consented S now rand i actor st)"
proof (cases "consent_get now i True (es_consents st)")
  case (Pair r m)
  have "bound_state N (st\<lparr>es_consents := m\<rparr>)"
    using assms(1) by (simp add: bound_state_def)
  with Pair assms(2) finish_bound [OF this] show ?thesis
    by (cases r) (simp_all add: consented_def)
qed

lemma step_bound:
  assumes "client_ids_ok S" "browser_event e" "bound_state (e_net (sy_env S)) st"
  shows "bound_state (e_net (sy_env S)) (step S e st)"
  using assms
  by (cases e) (simp_all add: authorize_bound complete_bound serve_bound consented_bound, simp add: bound_state_def)

lemma browser_reach_bound:
  "browser_reach S st \<Longrightarrow> client_ids_ok S \<Longrightarrow> bound_state (e_net (sy_env S)) st"
proof (induction rule: browser_reach.induct)
  case start
  then show ?case by (simp add: bound_state_def start_endpoint_def)
next
  case (event st e)
  then show ?case by (simp add: step_bound)
qed

text \<open>What an answer with tokens shows of the code.\<close>

lemma code_errors_not_tokens [simp]:
  "code_client_auth E f c \<noteq> Inl (Tokens a r sc)" "code_binding_error E f c \<noteq> Some (Tokens a r sc)"
  by (auto simp: code_client_auth_def code_binding_error_def split: option.split sum.split)

lemma code_tokens:
  assumes "handleAuthorizationCode E now chain rand f st = (Tokens access rt scope, st')"
  shows "\<exists>c level. es_codes st (f ''code'') = Some c \<and> now \<le> ac_Expires c
    \<and> (ac_ClientID c = '''' \<or> f ''client_id'' = ac_ClientID c)
    \<and> code_client_auth E f c = Inr level \<and> code_binding_error E f c = None
    \<and> rt = rand \<and> scope = or_full (ac_Scope c)
    \<and> (\<exists>r. Lookup rand (es_refresh st') = Some r \<and> rt_Subject r = ac_Subject c \<and> rt_Actor r = ac_Actor c
         \<and> rt_ClientID r = ac_ClientID c \<and> rt_ClientAuth r = level \<and> rt_Scope r = scope \<and> rt_ChainID r = chain)"
proof -
  obtain c where c: "es_codes st (f ''code'') = Some c" "now \<le> ac_Expires c"
    using assms by (auto simp: handleAuthorizationCode_def Consume_def Let_def split: option.splits if_splits)
  then have "Consume now (f ''code'') (es_codes st) = (Some c, (es_codes st)(f ''code'' := None))"
    by (simp add: Consume_def)
  with assms c show ?thesis
    by (auto simp: handleAuthorizationCode_def Let_def issue_def Save_def persisted_def Lookup_def update_conv'
        split: option.splits sum.splits if_splits prod.splits)
qed




definition sample_login :: endpoint where
  "sample_login = fold (step sample_system)
     [Authorize 0 ''req'' authorize_form, LoggedIn 1 ''k'' ''req'' anonymousSubject] start_endpoint"

lemma sample_login_reach: "browser_reach sample_system sample_login"
  unfolding sample_login_def fold.simps comp_def id_def
  by (intro browser_reach.event browser_reach.start) simp_all

lemma sample_redeem:
  "\<exists>st'. handleAuthorizationCode sample_env 2 ''c'' ''r'' (code_form ''k'' ''v'') sample_login
     = (Tokens ''anonymous.access'' ''r'' ''full'', st')"
  by (simp add: sample_login_def sample_system_def sample_env_def authorizeHandler_def authorize_client_def
      resolveOAuthClient_def authorize_form_def form_of_def validNativeRedirectURI_def parseRedirectURI_def
      native_net_def native_client_def AllowsRedirect_def req_put_def request_ttl_def second_def Let_def
      CompleteAuthorize_def req_get_def anonymousSubject_def finishAuthorize_def req_take_def Issue_def
      code_of_request_def code_ttl_def start_endpoint_def handleAuthorizationCode_def code_form_def Consume_def
      code_client_auth_def code_binding_error_def verifyPKCE_def issue_def Save_def persisted_def
      no_persist_error_def or_full_def ScopeFull_def)


end
