(* ===== verification/Oauth_Tokens.thy ===== *)
theory Oauth_Tokens
  imports Oauth_Codes
begin

text \<open>
  Refresh tokens over the life of the server: the chains of the store of Refresh_Store under the
  requests of the token endpoint, through the laws of the store's interface.
\<close>

subsection \<open>Refresh tokens\<close>

text \<open>
  The states of a server whose random tokens are fresh: a token request draws a refresh token and
  a chain id that do not occur in the store.
\<close>

fun fresh_event :: "endpoint \<Rightarrow> event \<Rightarrow> bool" where
  "fresh_event st (TokenRequest now chain rand f) =
     (Lookup rand (es_refresh st) = None \<and> rand \<notin> rt_ReplacedBy ` snd ` set (es_refresh st)
      \<and> chain \<notin> rt_ChainID ` snd ` set (es_refresh st))"
| "fresh_event st _ = True"

inductive fresh_reach :: "system \<Rightarrow> endpoint \<Rightarrow> bool" for S where
  start: "fresh_reach S start_endpoint"
| event: "fresh_reach S st \<Longrightarrow> fresh_event st e \<Longrightarrow> fresh_reach S (step S e st)"

definition refresh_ok :: "tokens \<Rightarrow> bool" where
  "refresh_ok m \<longleftrightarrow> go_map m \<and> file_store.single_live m"

lemma refresh_frame_other [simp]:
  "es_refresh (snd (finishAuthorize redirect now rand i sub actor st)) = es_refresh st"
  "es_refresh (snd (CompleteAuthorize redirect url now rand i sub st)) = es_refresh st"
  "es_refresh (consented S now rand k actor st) = es_refresh st"
  "es_refresh (IssueAuthCode now rand sub scope st) = es_refresh st"
  by (auto simp: finishAuthorize_def CompleteAuthorize_def consented_def IssueAuthCode_def
      split: option.split prod.split)

lemma save_ok:
  assumes "refresh_ok m" "\<And>t old. Lookup t m = Some old \<Longrightarrow> rt_ChainID old \<noteq> rt_ChainID rt"
  shows "refresh_ok (snd (Save no_persist_error rt m))"
  using assms file_store.save_single_live [of m rt] file_store.ok_steps [of m rt]
  by (auto simp: refresh_ok_def)

lemma rotate_ok:
  assumes "refresh_ok m" "Lookup t m = Some old" "rt_ChainID nt = rt_ChainID old" "Lookup (rt_Token nt) m = None"
  shows "refresh_ok (snd (Rotate no_persist_error now t nt m))"
proof (cases "Rotate no_persist_error now t nt m")
  case (Pair r m')
  have go: "go_map m'"
    using file_store.ok_steps [of m nt "''''" now t nt] assms(1) Pair by (simp add: refresh_ok_def)
  show ?thesis
  proof (cases r)
    case (Inl e)
    then have "\<forall>x. e \<noteq> RefreshPersist x"
      using Pair by (auto simp: Rotate_def persisted_def no_persist_error_def Let_def split: option.splits if_splits)
    then show ?thesis
      using file_store.rotate_failed_single_live [of m now t nt e m'] assms(1) Pair Inl go by (simp add: refresh_ok_def)
  next
    case (Inr rot)
    then show ?thesis
      using file_store.rotate_single_live [of m now t nt rot m'] assms Pair go by (simp add: refresh_ok_def)
  qed
qed

lemma issue_ok:
  assumes "refresh_ok (es_refresh st)" "chain \<notin> rt_ChainID ` snd ` set (es_refresh st)" "e_persist E = no_persist_error"
  shows "refresh_ok (es_refresh (snd (issue E now rand at scope chain cid st)))"
proof -
  have chain: "Lookup t (es_refresh st) = Some old \<Longrightarrow> rt_ChainID old \<noteq> chain" for t old
    using assms(2) by (force simp: Lookup_def dest: map_of_SomeD)
  have "snd (Save no_persist_error rt m) = snd (Save p rt m)" for p rt m
    by (simp add: Save_def persisted_def)
  then show ?thesis
    using assms(1,3) save_ok [OF assms(1)] chain
    by (auto simp: issue_def Let_def split: option.split prod.split sum.split) (metis (lifting) refresh_token.select_convs(7) snd_conv)+
qed


lemma code_ok:
  assumes "refresh_ok (es_refresh st)" "chain \<notin> rt_ChainID ` snd ` set (es_refresh st)" "e_persist E = no_persist_error"
  shows "refresh_ok (es_refresh (snd (handleAuthorizationCode E now chain rand f st)))"
  using assms by (auto simp: handleAuthorizationCode_def Let_def issue_ok split: option.split prod.split sum.split)

lemma refresh_state:
  assumes "Lookup (f ''refresh_token'') (es_refresh st) = Some old"
  shows "es_refresh (snd (handleRefreshToken E now rand f st)) = es_refresh st
    \<or> (\<exists>level. es_refresh (snd (handleRefreshToken E now rand f st))
         = snd (Rotate (e_persist E) now (f ''refresh_token'') (next_refresh E now rand level old) (es_refresh st)))"
proof (cases "authenticateBoundClient E f old")
  case (Inr level)
  with assms show ?thesis
    by (cases "Rotate (e_persist E) now (f ''refresh_token'') (next_refresh E now rand level old) (es_refresh st)")
      (auto simp: handleRefreshToken_def Let_def split: sum.split intro!: exI [of _ level])
qed (use assms in \<open>simp add: handleRefreshToken_def\<close>)

lemma handle_refresh_ok:
  assumes "refresh_ok (es_refresh st)" "Lookup rand (es_refresh st) = None" "e_persist E = no_persist_error"
  shows "refresh_ok (es_refresh (snd (handleRefreshToken E now rand f st)))"
proof (cases "Lookup (f ''refresh_token'') (es_refresh st)")
  case None
  with assms show ?thesis by (simp add: handleRefreshToken_def)
next
  case (Some old)
  then show ?thesis
    using assms refresh_state [where f = f and st = st and old = old and E = E and now = now and rand = rand, OF Some]
    by (auto simp: rotate_ok [OF assms(1) Some] next_refresh_def)
qed

lemma revoke_state:
  "es_refresh (snd (handleRevoke E f st)) = es_refresh st
   \<or> (\<exists>c. es_refresh (snd (handleRevoke E f st)) = snd (RevokeChain (e_persist E) c (es_refresh st)))"
  by (auto simp: handleRevoke_def split: option.split prod.split sum.split) (metis snd_conv)+

lemma revoke_ok:
  assumes "refresh_ok (es_refresh st)"
  shows "refresh_ok (es_refresh (snd (handleRevoke E f st)))"
proof -
  have "refresh_ok (snd (RevokeChain no_persist_error c (es_refresh st)))" for c
    using assms file_store.revoke_single_live [of "es_refresh st" c] file_store.ok_steps [of "es_refresh st" _ c]
    by (simp add: refresh_ok_def)
  then have "refresh_ok (snd (RevokeChain p c (es_refresh st)))" for p c
    by (simp add: RevokeChain_def persisted_def)
  then show ?thesis
    using assms revoke_state [of E f st] by fastforce
qed

lemma step_refresh_ok:
  assumes "refresh_ok (es_refresh st)" "fresh_event st e" "e_persist (sy_env S) = no_persist_error"
  shows "refresh_ok (es_refresh (step S e st))"
  using assms by (cases e) (auto simp: ServeHTTP_def code_ok handle_refresh_ok revoke_ok)

lemma fresh_reach_ok:
  "fresh_reach S st \<Longrightarrow> e_persist (sy_env S) = no_persist_error \<Longrightarrow> refresh_ok (es_refresh st)"
proof (induction rule: fresh_reach.induct)
  case start
  have "\<not> file_store.live [] c t" for c t
    unfolding file_store.live_def by (simp add: Lookup_def)
  then show ?case
    unfolding refresh_ok_def file_store.single_live_def by (simp add: start_endpoint_def go_map_def)
qed (simp add: step_refresh_ok)

text \<open>
  C22. However logins, refreshes and revocations are interleaved, at most one refresh token of a
  login's chain is unused.
\<close>

theorem one_live_refresh_token:
  assumes "fresh_reach S st" "e_persist (sy_env S) = no_persist_error"
    and "Lookup t (es_refresh st) = Some r" "Lookup u (es_refresh st) = Some r'"
    and "rt_ChainID r = rt_ChainID r'" "\<not> rt_Used r" "\<not> rt_Used r'"
  shows "t = u"
  using fresh_reach_ok [OF assms(1,2)] assms(3-)
  by (auto simp: refresh_ok_def file_store.single_live_def file_store.live_def)

text \<open>
  A spent token's successor, while the store holds it, carries the same authority.
\<close>

definition same_authority :: "refresh_token \<Rightarrow> refresh_token \<Rightarrow> bool" where
  "same_authority a b \<longleftrightarrow> rt_Subject a = rt_Subject b \<and> rt_Actor a = rt_Actor b
     \<and> rt_ClientID a = rt_ClientID b \<and> rt_Scope a = rt_Scope b \<and> rt_ChainID a = rt_ChainID b"

definition linked :: "(string \<rightharpoonup> refresh_token) \<Rightarrow> bool" where
  "linked g \<longleftrightarrow> (\<forall>t r. g t = Some r \<longrightarrow> rt_Token r = t
     \<and> (\<forall>s. rt_Used r \<longrightarrow> g (rt_ReplacedBy r) = Some s \<longrightarrow> same_authority r s))"

lemma linked_sub: "linked g \<Longrightarrow> (\<And>t. h t = None \<or> h t = g t) \<Longrightarrow> linked h"
  unfolding linked_def by (metis option.distinct(1))

lemma linked_add:
  "linked g \<Longrightarrow> \<not> rt_Used rt \<Longrightarrow> (\<And>t r. g t = Some r \<Longrightarrow> rt_ReplacedBy r \<noteq> rt_Token rt)
   \<Longrightarrow> linked (g(rt_Token rt \<mapsto> rt))"
  by (auto simp: linked_def)

lemma linked_rotate:
  assumes "linked g" "g t = Some old" "same_authority old nt" "\<not> rt_Used nt" "rt_Token nt \<noteq> t"
    and "\<And>u r. g u = Some r \<Longrightarrow> rt_ReplacedBy r \<noteq> rt_Token nt"
    and "rt_Used old = False" "old' = old\<lparr>rt_Used := True, rt_RotatedAt := now, rt_ReplacedBy := rt_Token nt\<rparr>"
  shows "linked (g(t \<mapsto> old', rt_Token nt \<mapsto> nt))"
proof -
  have "same_authority r old' \<longleftrightarrow> same_authority r old" for r
    by (simp add: same_authority_def assms(8))
  moreover have "same_authority old' nt" "rt_Token old' = t"
    using assms by (auto simp: same_authority_def linked_def)
  ultimately show ?thesis
    using assms by (auto simp: linked_def)
qed

lemma map_of_Save: "go_map m \<Longrightarrow> map_of (snd (Save p rt m)) = (map_of m)(rt_Token rt \<mapsto> rt)"
  by (simp add: Save_def persisted_def update_conv')

lemma Rotate_state:
  assumes "go_map m" "map_of m t = Some old"
  shows "(\<forall>u. map_of (snd (Rotate p now t nt m)) u = None \<or> map_of (snd (Rotate p now t nt m)) u = map_of m u)
    \<or> \<not> rt_Used old \<and> map_of (snd (Rotate p now t nt m)) = (map_of m)(t \<mapsto>
         old\<lparr>rt_Used := True, rt_RotatedAt := now, rt_ReplacedBy := rt_Token nt\<rparr>, rt_Token nt \<mapsto> nt)"
  using assms
  by (auto simp: Rotate_def persisted_def Let_def map_of_revoke delete_conv' update_conv' split: option.split)

lemma map_of_snd: "map_of m t = Some r \<Longrightarrow> r \<in> snd ` set m"
  by (force dest: map_of_SomeD)

definition refresh_linked :: "tokens \<Rightarrow> bool" where
  "refresh_linked m \<longleftrightarrow> go_map m \<and> linked (map_of m)"

lemma Rotate_go_map: "go_map m \<Longrightarrow> go_map (snd (Rotate p now t nt m))"
  by (auto simp: Rotate_def persisted_def Let_def split: option.split)

lemma linked_fresh:
  assumes "refresh_linked m" "rand \<notin> rt_ReplacedBy ` snd ` set m" "map_of m t = Some r"
  shows "rt_ReplacedBy r \<noteq> rand"
  using assms map_of_snd [of m t r] by force

lemma save_linked:
  assumes "refresh_linked m" "rt_Token rt \<notin> rt_ReplacedBy ` snd ` set m" "\<not> rt_Used rt"
  shows "refresh_linked (snd (Save p rt m))"
proof -
  have "go_map (snd (Save p rt m))"
    using assms(1) by (simp add: refresh_linked_def Save_def persisted_def)
  moreover have "linked (map_of (snd (Save p rt m)))"
    using assms linked_add [of "map_of m" rt] linked_fresh [OF assms(1,2)]
    by (simp add: refresh_linked_def map_of_Save)
  ultimately show ?thesis by (simp add: refresh_linked_def)
qed

lemma rotate_linked:
  assumes "refresh_linked m" "map_of m t = Some old" "same_authority old nt" "\<not> rt_Used nt"
    and "rt_Token nt \<notin> rt_ReplacedBy ` snd ` set m" "map_of m (rt_Token nt) = None"
  shows "refresh_linked (snd (Rotate p now t nt m))"
proof -
  have "rt_Token nt \<noteq> t"
    using assms(2,6) by auto
  then have "linked (map_of (snd (Rotate p now t nt m)))"
    using assms Rotate_state [of m t old p now nt] linked_fresh [OF assms(1,5)]
    by (auto simp: refresh_linked_def intro: linked_sub intro!: linked_rotate [where old = old])
  then show ?thesis
    using assms(1) by (simp add: refresh_linked_def Rotate_go_map)
qed

lemma revoke_linked: "refresh_linked m \<Longrightarrow> refresh_linked (snd (RevokeChain p c m))"
  by (auto simp: refresh_linked_def RevokeChain_def persisted_def map_of_revoke split: option.split
      elim!: linked_sub)

definition saved :: "env \<Rightarrow> string \<Rightarrow> tokens \<Rightarrow> tokens \<Rightarrow> bool" where
  "saved E rand m m' \<longleftrightarrow>
     m' = m \<or> (\<exists>rt. rt_Token rt = rand \<and> \<not> rt_Used rt \<and> m' = snd (Save (e_persist E) rt m))"

lemma saved_refl [simp]: "saved E rand m m"
  by (simp add: saved_def)

lemma saved_Save [simp]: "rt_Token rt = rand \<Longrightarrow> \<not> rt_Used rt \<Longrightarrow> saved E rand m (snd (Save (e_persist E) rt m))"
  by (auto simp: saved_def)

lemma issue_saved [simp]:
  assumes "es_refresh st2 = m"
  shows "saved E rand m (es_refresh (snd (issue E now rand at scope chain cid st2)))"
proof -
  have "saved E rand m m'" if "Save (e_persist E) rt m = (r, m')" "rt_Token rt = rand" "\<not> rt_Used rt" for rt r m'
    using saved_Save [OF that(2,3), of E m] that(1) by simp
  then show ?thesis
    using assms by (auto simp: issue_def Let_def split: option.split prod.split sum.split)
qed

lemma code_saved: "saved E rand (es_refresh st) (es_refresh (snd (handleAuthorizationCode E now chain rand f st)))"
  by (simp add: handleAuthorizationCode_def Let_def split: option.split prod.split sum.split)

lemma saved_linked:
  assumes "saved E rand m m'" "refresh_linked m" "rand \<notin> rt_ReplacedBy ` snd ` set m"
  shows "refresh_linked m'"
  using assms by (auto simp: saved_def save_linked)

lemma refresh_linked_step:
  assumes "refresh_linked (es_refresh st)" "fresh_event st e"
  shows "refresh_linked (es_refresh (step S e st))"
proof (cases e)
  case (TokenRequest now chain rand f)
  then have fresh: "rand \<notin> rt_ReplacedBy ` snd ` set (es_refresh st)" "map_of (es_refresh st) rand = None"
    using assms(2) by (simp_all add: Lookup_def)
  have "refresh_linked (es_refresh (snd (handleAuthorizationCode E now chain rand f st)))" for E
    by (rule saved_linked [OF code_saved assms(1) fresh(1)])
  moreover have "refresh_linked (es_refresh (snd (handleRefreshToken E now rand f st)))" for E
  proof (cases "Lookup (f ''refresh_token'') (es_refresh st)")
    case None
    with assms(1) show ?thesis by (simp add: handleRefreshToken_def)
  next
    case (Some old)
    have "refresh_linked (snd (Rotate p now (f ''refresh_token'') (next_refresh E now rand level old) (es_refresh st)))" for p level
      using Some fresh by (intro rotate_linked [OF assms(1)]) (simp_all add: Lookup_def next_refresh_def same_authority_def)
    with refresh_state [where f = f and st = st and old = old, OF Some] assms(1) show ?thesis
      by metis
  qed
  ultimately show ?thesis
    using TokenRequest assms(1) by (simp add: ServeHTTP_def)
next
  case (RevokeRequest f)
  then show ?thesis
    using revoke_state [of "sy_env S" f st] revoke_linked [OF assms(1)] assms(1) by auto
qed (use assms(1) in simp_all)

lemma fresh_reach_linked: "fresh_reach S st \<Longrightarrow> refresh_linked (es_refresh st)"
proof (induction rule: fresh_reach.induct)
  case start
  then show ?case by (simp add: refresh_linked_def start_endpoint_def go_map_def linked_def)
qed (simp add: refresh_linked_step)


lemma refresh_tokens:
  assumes "handleRefreshToken E now rand f st = (Tokens access rt scope, st')"
  shows "\<exists>old level r. Lookup (f ''refresh_token'') (es_refresh st) = Some old
    \<and> authenticateBoundClient E f old = Inr level
    \<and> Rotate (e_persist E) now (f ''refresh_token'') (next_refresh E now rand level old) (es_refresh st)
        = (Inr r, es_refresh st')
    \<and> rt = rt_Token (rr_Token r) \<and> scope = or_full (rt_Scope old)"
  using assms
  by (auto simp: handleRefreshToken_def Let_def split: option.splits sum.splits prod.splits if_splits)

lemma Rotate_result:
  assumes "Rotate p now t nt m = (Inr r, m')" "map_of m t = Some old"
  shows "rt_Used old \<and> m' = m \<and> map_of m (rt_ReplacedBy old) = Some (rr_Token r) \<and> \<not> rt_Used (rr_Token r)
    \<or> rr_Token r = nt \<and> map_of m' (rt_Token nt) = Some nt"
  using assms
  by (auto simp: Rotate_def persisted_def retry_successor_def Let_def update_conv'
      split: option.splits if_splits)

text \<open>
  C23. A refresh answered with tokens keeps the authority of the login, on a retry too: the token
  handed out is unused and has the subject, actor, client, scope and chain of the one presented,
  and the client bound to that one was authenticated by this request.
\<close>

theorem refresh_keeps_authority:
  assumes "fresh_reach S st"
    and "handleRefreshToken (sy_env S) now rand f st = (Tokens access rt scope, st')"
  shows "\<exists>old level new. Lookup (f ''refresh_token'') (es_refresh st) = Some old
    \<and> authenticateBoundClient (sy_env S) f old = Inr level
    \<and> Lookup rt (es_refresh st') = Some new \<and> \<not> rt_Used new \<and> same_authority old new
    \<and> scope = or_full (rt_Scope old)"
proof -
  obtain old level r where old: "Lookup (f ''refresh_token'') (es_refresh st) = Some old"
    "authenticateBoundClient (sy_env S) f old = Inr level"
    "Rotate (e_persist (sy_env S)) now (f ''refresh_token'') (next_refresh (sy_env S) now rand level old)
       (es_refresh st) = (Inr r, es_refresh st')"
    "rt = rt_Token (rr_Token r)" "scope = or_full (rt_Scope old)"
    using refresh_tokens [OF assms(2)] by blast
  have links: "linked (map_of (es_refresh st))"
    using fresh_reach_linked [OF assms(1)] by (simp add: refresh_linked_def)
  have "Lookup rt (es_refresh st') = Some (rr_Token r) \<and> \<not> rt_Used (rr_Token r) \<and> same_authority old (rr_Token r)"
    using Rotate_result [OF old(3)] old(1,4) links
    by (auto simp: Lookup_def linked_def next_refresh_def same_authority_def)
  with old show ?thesis by blast
qed

definition sample_session :: endpoint where
  "sample_session = step sample_system (TokenRequest 2 ''c'' ''r'' (code_form ''k'' ''v'')) sample_login"

lemma sample_session_reach: "fresh_reach sample_system sample_session"
  unfolding sample_session_def sample_login_def fold.simps comp_def id_def
  by (intro fresh_reach.event fresh_reach.start)
    (simp_all add: start_endpoint_def Lookup_def)

definition refresh_form :: form where
  "refresh_form = form_of [(''grant_type'', ''refresh_token''), (''refresh_token'', ''r''), (''client_id'', ''app'')]"

definition sample_refresh :: refresh_token where
  "sample_refresh =
     \<lparr>rt_Token = ''r'', rt_Subject = anonymousSubject, rt_Actor = '''', rt_ClientID = ''app'',
      rt_ClientAuth = AuthDCRLocal, rt_Scope = ''full'', rt_ChainID = ''c'',
      rt_ExpiresAt = Some (2 + 86400 * second), rt_Used = False, rt_RotatedAt = 0, rt_ReplacedBy = ''''\<rparr>"

lemma sample_refresh_token: "es_refresh sample_session = [(''r'', sample_refresh)]"
  by (simp add: sample_session_def ServeHTTP_def sample_login_def sample_system_def sample_env_def authorizeHandler_def
      authorize_client_def resolveOAuthClient_def authorize_form_def form_of_def validNativeRedirectURI_def
      parseRedirectURI_def native_net_def native_client_def AllowsRedirect_def req_put_def request_ttl_def
      second_def Let_def CompleteAuthorize_def req_get_def anonymousSubject_def finishAuthorize_def req_take_def
      Issue_def code_of_request_def code_ttl_def start_endpoint_def handleAuthorizationCode_def code_form_def
      Consume_def code_client_auth_def code_binding_error_def verifyPKCE_def issue_def Save_def persisted_def
      no_persist_error_def or_full_def ScopeFull_def Lookup_def baselineClientAuth_def remote_redirect_def sample_refresh_def)


lemma sample_refresh_answer:
  "\<exists>st'. handleRefreshToken sample_env 3 ''r2'' refresh_form sample_session = (Tokens ''anonymous.access'' ''r2'' ''full'', st')
     \<and> Lookup ''r2'' (es_refresh st') = Some (next_refresh sample_env 3 ''r2'' AuthDCRLocal sample_refresh)
     \<and> (\<exists>r. Lookup ''r'' (es_refresh st') = Some r \<and> rt_ChainID r = ''c'')"
proof -
  have form: "refresh_form ''refresh_token'' = ''r''" "refresh_form ''client_id'' = ''app''"
    by (simp_all add: refresh_form_def form_of_def)
  show ?thesis
    by (simp add: form handleRefreshToken_def sample_refresh_token Lookup_def authenticateBoundClient_def
        sample_refresh_def Rotate_def expired_def second_def persisted_def
        sample_env_def no_persist_error_def next_refresh_def anonymousSubject_def or_full_def Let_def)
qed

theorem refresh_keeps_authority_witness:
  "\<exists>st' new. handleRefreshToken sample_env 3 ''r2'' refresh_form sample_session = (Tokens ''anonymous.access'' ''r2'' ''full'', st')
     \<and> Lookup ''r2'' (es_refresh st') = Some new \<and> rt_Subject new = anonymousSubject"
proof -
  obtain st' where r: "handleRefreshToken sample_env 3 ''r2'' refresh_form sample_session
      = (Tokens ''anonymous.access'' ''r2'' ''full'', st')"
    using sample_refresh_answer by blast
  then have "handleRefreshToken (sy_env sample_system) 3 ''r2'' refresh_form sample_session
      = (Tokens ''anonymous.access'' ''r2'' ''full'', st')"
    by (simp add: sample_system_def)
  from refresh_keeps_authority [OF sample_session_reach this] show ?thesis
    using r by (auto simp: same_authority_def refresh_form_def form_of_def sample_refresh_token Lookup_def sample_refresh_def)
qed

theorem one_live_refresh_token_witness:
  "\<exists>r. Lookup ''r'' (es_refresh (step sample_system (TokenRequest 3 ''c2'' ''r2'' refresh_form) sample_session)) = Some r
     \<and> rt_Used r"
proof -
  let ?st = "step sample_system (TokenRequest 3 ''c2'' ''r2'' refresh_form) sample_session"
  obtain st' where st': "handleRefreshToken sample_env 3 ''r2'' refresh_form sample_session
      = (Tokens ''anonymous.access'' ''r2'' ''full'', st')"
    and r2: "Lookup ''r2'' (es_refresh st') = Some (next_refresh sample_env 3 ''r2'' AuthDCRLocal sample_refresh)"
    and r: "\<exists>r. Lookup ''r'' (es_refresh st') = Some r \<and> rt_ChainID r = ''c''"
    using sample_refresh_answer by blast
  have st: "?st = st'"
    using st' by (simp add: ServeHTTP_def sample_system_def refresh_form_def form_of_def)
  have "fresh_event sample_session (TokenRequest 3 ''c2'' ''r2'' refresh_form)"
    by (simp add: sample_refresh_token Lookup_def sample_refresh_def)
  then have reach: "fresh_reach sample_system ?st"
    by (intro fresh_reach.event sample_session_reach)
  obtain old where old: "Lookup ''r'' (es_refresh ?st) = Some old" "rt_ChainID old = ''c''"
    using r st by auto
  have "rt_Used old"
  proof (rule ccontr)
    assume "\<not> rt_Used old"
    then have "''r'' = ''r2''"
      using r2 old st one_live_refresh_token [OF reach, of "''r''" old "''r2''" "next_refresh sample_env 3 ''r2'' AuthDCRLocal sample_refresh"]
      by (simp add: next_refresh_def sample_refresh_def sample_system_def sample_env_def)
    then show False by simp
  qed
  with old show ?thesis by blast
qed

subsection \<open>Revocation and grants without refresh tokens\<close>

text \<open>
  A revocation of a token the store holds succeeds only for the authenticated client, and then
  removes every token of the chain and no other; an unauthenticated client changes nothing.
\<close>

theorem revocation_removes_chain:
  assumes "go_map (es_refresh st)" "Lookup (f ''token'') (es_refresh st) = Some r" "f ''token'' \<noteq> ''''"
  shows "case handleRevoke E f st of
      (RevokeError code _, st') \<Rightarrow> code = 401 \<and> st' = st \<and> (\<exists>e. authenticateBoundClient E f r = Inl e) \<or> code = 500
    | (RevokeOk, st') \<Rightarrow> (\<exists>level. authenticateBoundClient E f r = Inr level)
        \<and> (\<forall>t. Lookup t (es_refresh st') =
             (case Lookup t (es_refresh st) of
                Some u \<Rightarrow> if rt_ChainID u = rt_ChainID r then None else Some u | None \<Rightarrow> None))"
proof -
  have "map_of (es_refresh st) (f ''token'') = Some r"
    using assms(2) by (simp add: Lookup_def)
  then show ?thesis
    using assms
    by (auto simp: handleRevoke_def Lookup_def RevokeChain_def persisted_def map_of_revoke
        split: option.split sum.split prod.split)
qed

theorem revocation_removes_chain_witness:
  "Lookup ''r'' (es_refresh (snd (handleRevoke sample_env (form_of [(''token'', ''r''), (''client_id'', ''app'')]) sample_session))) = None"
proof -
  let ?f = "form_of [(''token'', ''r''), (''client_id'', ''app'')]"
  have f: "?f ''token'' = ''r''" "?f ''client_id'' = ''app''"
    by (simp_all add: form_of_def)
  have pre: "go_map (es_refresh sample_session)" "Lookup (?f ''token'') (es_refresh sample_session) = Some sample_refresh"
    "?f ''token'' \<noteq> ''''"
    using f by (simp_all add: sample_refresh_token go_map_def Lookup_def)
  have ok: "fst (handleRevoke sample_env ?f sample_session) = RevokeOk"
    using pre(2) f
    by (simp add: handleRevoke_def authenticateBoundClient_def sample_refresh_def RevokeChain_def persisted_def
        sample_env_def no_persist_error_def split: option.split)
  obtain st' where "handleRevoke sample_env ?f sample_session = (RevokeOk, st')"
    using ok by (cases "handleRevoke sample_env ?f sample_session") auto
  with revocation_removes_chain [where f = ?f and st = sample_session and E = sample_env, OF pre] show ?thesis
    using pre(2) f by (simp add: sample_refresh_def)
qed

text \<open>
  The grants for workloads and for delegation never hand out a refresh token and leave every
  store as it was.
\<close>

theorem workload_grants_stateless:
  assumes "f ''grant_type'' = ''urn:ietf:params:oauth:grant-type:jwt-bearer'' \<or> f ''grant_type'' = delegationGrantType"
  shows "snd (ServeHTTP E now chain rand f st) = st
    \<and> (\<forall>access rt scope. fst (ServeHTTP E now chain rand f st) = Tokens access rt scope \<longrightarrow> rt = '''')"
proof -
  have "rt = ''''" if "issueAccessOnly E at sc ttl = Tokens a rt scope" for at sc ttl a rt scope
    using that by (auto simp: issueAccessOnly_def split: option.splits)
  then have "handleJWTBearer E f = Tokens a rt scope \<Longrightarrow> rt = ''''"
    "handleTokenExchange E f = Tokens a rt scope \<Longrightarrow> rt = ''''" for a rt scope
    by (auto simp: handleJWTBearer_def handleTokenExchange_def split: option.splits sum.splits if_splits
        exchange_error.splits)
  with assms show ?thesis
    by (auto simp: ServeHTTP_def delegationGrantType_def)
qed

theorem workload_grants_stateless_witness:
  "snd (ServeHTTP (sample_env\<lparr>e_wif := Some (\<lambda>a. Inr (''ci'', ''read'', second))\<rparr>) 0 ''c'' ''r''
     (form_of [(''grant_type'', ''urn:ietf:params:oauth:grant-type:jwt-bearer''), (''assertion'', ''jwt'')])
     sample_session) = sample_session"
  by (rule conjunct1 [OF workload_grants_stateless]) (simp add: form_of_def)

end
