(* ===== verification/Commit.thy ===== *)
theory Commit
  imports Writable_Fs "HOL-Library.AList"
begin

text \<open>
  Committing change sets (pkg/vfs/changeset.go): the singleton commit, the ordered batch with
  its pre-images, and the rollback. Reading a pre-image walks the tree, so a commit may fail
  to return on an endless backend: the batch operations are options.
\<close>

subsection \<open>Singletons\<close>

datatype commit_error =
    CInvalid changeset_error
  | CSnapshot vfs_error
  | CMissingPayload string
  | CLeaf vfs_error
  | CUnknownAction string
  | CPanic
  | CRollback commit_error vfs_error

record commit_result =
  CommitHash :: string
  Committed :: changeset

definition no_commit :: commit_result where
  "no_commit = \<lparr>CommitHash = '''', Committed = empty_change\<rparr>"

definition HasCommitted :: "commit_result \<Rightarrow> bool" where
  "HasCommitted r \<longleftrightarrow> Target (Committed r) \<noteq> '''' \<or> length (Changes (Committed r)) \<noteq> 0"

text \<open>The call a singleton change makes on the backend; the error is one of the payload or interface checks.\<close>

definition commit_action :: "'s wfs \<Rightarrow> 'a change_scheme \<Rightarrow> 's \<Rightarrow> (commit_error + string) \<times> 's" where
  "commit_action w c s =
     (let err = (\<lambda>r. (case fst r of None \<Rightarrow> Inr '''' | Some e \<Rightarrow> Inl (CLeaf e), snd r))
      in case Action c of
           ChangeActionWrite \<Rightarrow>
             (case Write c of
                None \<Rightarrow> (Inl (CMissingPayload (Target c)), s)
              | Some p \<Rightarrow>
                  (case w_WriteFileAtomic w (Target c) (wc_Bytes p) (wc_Opts p) s of
                     (Inl e, s') \<Rightarrow> (Inl (CLeaf e), s')
                   | (Inr h, s') \<Rightarrow> (Inr h, s')))
         | ChangeActionMkdir \<Rightarrow> err (w_Mkdir w (Target c) s)
         | ChangeActionMkdirAll \<Rightarrow> err (w_MkdirAll w (Target c) s)
         | ChangeActionRemove \<Rightarrow> err (w_Remove w (Target c) s)
         | ChangeActionRemoveAll \<Rightarrow>
             (case RemoveAll c of
                None \<Rightarrow> (Inl (CMissingPayload (Target c)), s)
              | Some p \<Rightarrow> err (w_RemoveAll w (Target c) (rc_Opts p) s))
         | ChangeActionSetXattr \<Rightarrow>
             (case (w_xattr_writer w, Xattr c) of
                (None, _) \<Rightarrow> (Inl (CLeaf ENOTSUP), s)
              | (Some xw, Some x) \<Rightarrow> err (x_SetXattr xw (Target c) (xc_Name x) (xc_Value x) (xc_Flags x) s)
              | (Some _, None) \<Rightarrow> (Inl CPanic, s))
         | ChangeActionRemoveXattr \<Rightarrow>
             (case (w_xattr_writer w, Xattr c) of
                (None, _) \<Rightarrow> (Inl (CLeaf ENOTSUP), s)
              | (Some xw, Some x) \<Rightarrow> err (x_RemoveXattr xw (Target c) (xc_Name x) s)
              | (Some _, None) \<Rightarrow> (Inl CPanic, s))
         | ChangeActionPreserveAndRecreateXattrs \<Rightarrow>
             (case (w_xattr_maintenance w, XattrRepair c) of
                (None, _) \<Rightarrow> (Inl (CLeaf ENOTSUP), s)
              | (Some xm, Some r) \<Rightarrow> err (x_PreserveAndRecreateXattrs xm (Target c) (xr_Attributes r) s)
              | (Some _, None) \<Rightarrow> (Inl CPanic, s))
         | ChangeActionMigrateXattrs \<Rightarrow>
             (case (w_xattr_maintenance w, XattrMigration c) of
                (None, _) \<Rightarrow> (Inl (CLeaf ENOTSUP), s)
              | (Some xm, Some m) \<Rightarrow> err (x_MigrateXattrs xm (Target c) m s)
              | (Some _, None) \<Rightarrow> (Inl CPanic, s))
         | ChangeActionOther a \<Rightarrow> (Inl (CUnknownAction a), s))"

definition commit_leaf :: "'s wfs \<Rightarrow> change \<Rightarrow> 's \<Rightarrow> (commit_error + string) \<times> 's" where
  "commit_leaf w c s =
     (case validateChange c of
        Some e \<Rightarrow> (Inl (CInvalid (SingletonError e)), s)
      | None \<Rightarrow> commit_action w c s)"

subsection \<open>Pre-images of a batch\<close>

record rollback_entry =
  re_path :: string
  re_dir :: bool
  re_data :: string
  re_xattrs :: "string gomap option"

record rollback_snapshot =
  rs_root :: string
  rs_existed :: bool
  rs_entries :: "rollback_entry list"

record rollback_attrs =
  ra_path :: string
  ra_attrs :: "string gomap"

record batch_snapshot =
  bs_roots :: "rollback_snapshot list"
  bs_attrs :: "rollback_attrs list"

definition missingPath :: "vfs_error \<Rightarrow> bool" where
  "missingPath e \<longleftrightarrow> is_not_exist e \<or> e = ENOTDIR"

partial_function (option) climb :: "fs \<Rightarrow> string \<Rightarrow> string vres option" where
  "climb F root =
     (if path_dir root = root then Some (Inr root)
      else case fs_Stat F (path_dir root) of
             Inr _ \<Rightarrow> Some (Inr root)
           | Inl e \<Rightarrow> if missingPath e then climb F (path_dir root) else Some (Inl e))"

declare climb.simps [code]

definition highestMissingRoot :: "fs \<Rightarrow> string \<Rightarrow> string vres option" where
  "highestMissingRoot F target =
     (case fs_Stat F target of
        Inr _ \<Rightarrow> Some (Inr target)
      | Inl e \<Rightarrow> if missingPath e then climb F target else Some (Inl e))"

fun read_attr_values ::
  "'s xattr_reader \<Rightarrow> string \<Rightarrow> string list \<Rightarrow> string gomap \<Rightarrow> 's \<Rightarrow> string gomap vres" where
  "read_attr_values x target [] acc s = Inr acc"
| "read_attr_values x target (n # ns) acc s =
     (case x_GetXattr x target n s of
        Inl e \<Rightarrow> Inl e
      | Inr v \<Rightarrow> read_attr_values x target ns (AList.update n v acc) s)"

definition readXattrs :: "'s xattr_reader \<Rightarrow> string \<Rightarrow> 's \<Rightarrow> string gomap vres" where
  "readXattrs x target s =
     (case x_ListXattrs x target s of
        Inl e \<Rightarrow> Inl e
      | Inr names \<Rightarrow> read_attr_values x target names [] s)"

text \<open>The attributes of an entry: none kept when the backend reads none or does not support them there.\<close>

definition entry_xattrs :: "'s wfs \<Rightarrow> 's \<Rightarrow> string \<Rightarrow> string gomap option vres" where
  "entry_xattrs w s target =
     (case w_xattr_reader w of
        None \<Rightarrow> Inr None
      | Some x \<Rightarrow>
          (case readXattrs x target s of
             Inl e \<Rightarrow> if e = ENOTSUP then Inr None else Inl e
           | Inr attrs \<Rightarrow>
               if attrs \<noteq> [] \<and> Option.is_none (w_xattr_writer w) then Inl ENOTSUP else Inr (Some attrs)))"

definition capture_walk :: "'s wfs \<Rightarrow> 's \<Rightarrow> rollback_entry list walk_fn" where
  "capture_walk w s target info walkErr entries =
     (case walkErr of
        Some e \<Rightarrow> Inl e
      | None \<Rightarrow>
          let dir = (case info of Some f \<Rightarrow> Dir f | None \<Rightarrow> False)
          in case (if dir then Inr '''' else fs_ReadFile (w_fs w s) target) of
               Inl e \<Rightarrow> Inl e
             | Inr data \<Rightarrow>
                 (case entry_xattrs w s target of
                    Inl e \<Rightarrow> Inl e
                  | Inr xs \<Rightarrow>
                      Inr (entries @ [\<lparr>re_path = target, re_dir = dir, re_data = data, re_xattrs = xs\<rparr>])))"

definition captureRoot :: "'s wfs \<Rightarrow> 's \<Rightarrow> string \<Rightarrow> rollback_snapshot vres option" where
  "captureRoot w s root =
     (case fs_Stat (w_fs w s) root of
        Inl e \<Rightarrow>
          Some (if missingPath e then Inr \<lparr>rs_root = root, rs_existed = False, rs_entries = []\<rparr> else Inl e)
      | Inr _ \<Rightarrow>
          map_option (map_sum id (\<lambda>es. \<lparr>rs_root = root, rs_existed = True, rs_entries = es\<rparr>))
            (WalkDir (w_fs w s) root (capture_walk w s) []))"

definition path_action :: "change_action \<Rightarrow> bool" where
  "path_action a \<longleftrightarrow>
     a \<in> {ChangeActionWrite, ChangeActionMkdir, ChangeActionMkdirAll, ChangeActionRemove, ChangeActionRemoveAll}"

definition attr_action :: "change_action \<Rightarrow> bool" where
  "attr_action a \<longleftrightarrow>
     a \<in> {ChangeActionSetXattr, ChangeActionRemoveXattr, ChangeActionPreserveAndRecreateXattrs,
          ChangeActionMigrateXattrs}"

fun missing_roots :: "fs \<Rightarrow> change list \<Rightarrow> string list vres option" where
  "missing_roots F [] = Some (Inr [])"
| "missing_roots F (c # cs) =
     (if path_action (Action c) then
        (case highestMissingRoot F (CleanPath (Target c)) of
           None \<Rightarrow> None
         | Some (Inl e) \<Rightarrow> Some (Inl e)
         | Some (Inr r) \<Rightarrow> map_option (map_sum id ((#) r)) (missing_roots F cs))
      else missing_roots F cs)"

definition pathDepth :: "string \<Rightarrow> nat" where
  "pathDepth p = count_list (trim_both CHR ''/'' p) CHR ''/''"

definition sort_roots :: "string list \<Rightarrow> string list" where
  "sort_roots roots = sort_key pathDepth (sort roots)"

definition covers_root :: "string \<Rightarrow> string \<Rightarrow> bool" where
  "covers_root parent root \<longleftrightarrow> root = parent \<or> parent = ''/'' \<or> prefix (parent @ ''/'') root"

fun minimal_roots :: "string list \<Rightarrow> string list \<Rightarrow> string list" where
  "minimal_roots acc [] = acc"
| "minimal_roots acc (r # rs) =
     minimal_roots (if \<exists>p \<in> set acc. covers_root p r then acc else acc @ [r]) rs"

fun capture_roots :: "'s wfs \<Rightarrow> 's \<Rightarrow> string list \<Rightarrow> rollback_snapshot list vres option" where
  "capture_roots w s [] = Some (Inr [])"
| "capture_roots w s (r # rs) =
     (case captureRoot w s r of
        None \<Rightarrow> None
      | Some (Inl e) \<Rightarrow> Some (Inl e)
      | Some (Inr x) \<Rightarrow> map_option (map_sum id ((#) x)) (capture_roots w s rs))"

fun capture_attrs :: "'s xattr_reader \<Rightarrow> 's \<Rightarrow> string list \<Rightarrow> rollback_attrs list vres" where
  "capture_attrs x s [] = Inr []"
| "capture_attrs x s (t # ts) =
     (case readXattrs x t s of
        Inl e \<Rightarrow> Inl e
      | Inr a \<Rightarrow> map_sum id ((#) \<lparr>ra_path = t, ra_attrs = a\<rparr>) (capture_attrs x s ts))"

text \<open>
  \<open>attrTargets\<close> is a set the code sorts after capturing; capturing in sorted order gives the
  same snapshot, since reading does not change the state.
\<close>

definition captureBatch :: "'s wfs \<Rightarrow> change list \<Rightarrow> 's \<Rightarrow> batch_snapshot vres option" where
  "captureBatch w changes s =
     (case missing_roots (w_fs w s) changes of
        None \<Rightarrow> None
      | Some (Inl e) \<Rightarrow> Some (Inl e)
      | Some (Inr roots) \<Rightarrow>
          (case capture_roots w s (minimal_roots [] (sort_roots roots)) of
             None \<Rightarrow> None
           | Some (Inl e) \<Rightarrow> Some (Inl e)
           | Some (Inr rs) \<Rightarrow>
               let targets = sort (remdups (map (\<lambda>c. CleanPath (Target c))
                                (filter (\<lambda>c. attr_action (Action c)) changes)))
               in Some (if targets = [] then Inr \<lparr>bs_roots = rs, bs_attrs = []\<rparr>
                        else case (w_xattr_reader w, w_xattr_writer w) of
                               (Some x, Some _) \<Rightarrow>
                                 map_sum id (\<lambda>as. \<lparr>bs_roots = rs, bs_attrs = as\<rparr>) (capture_attrs x s targets)
                             | _ \<Rightarrow> Inl ENOTSUP)))"

subsection \<open>Rollback\<close>

fun remove_roots :: "'s wfs \<Rightarrow> rollback_snapshot list \<Rightarrow> 's op" where
  "remove_roots w [] s = (None, s)"
| "remove_roots w (r # rs) s =
     (case fs_Stat (w_fs w s) (rs_root r) of
        Inl e \<Rightarrow> if missingPath e then remove_roots w rs s else (Some e, s)
      | Inr info \<Rightarrow>
          (case (if Dir info then w_RemoveAll w (rs_root r) \<lparr>Expected = None\<rparr> s
                 else w_Remove w (rs_root r) s) of
             (Some e, s') \<Rightarrow> (Some e, s')
           | (None, s') \<Rightarrow> remove_roots w rs s'))"

definition validated_opts :: write_opts where
  "validated_opts = unconditional\<lparr>ContentPolicyValidated := True\<rparr>"

fun restore_entries :: "'s wfs \<Rightarrow> rollback_entry list \<Rightarrow> 's op" where
  "restore_entries w [] s = (None, s)"
| "restore_entries w (e # es) s =
     (if re_dir e then
        (case w_MkdirAll w (re_path e) s of
           (Some err, s') \<Rightarrow> (Some err, s')
         | (None, s') \<Rightarrow> restore_entries w es s')
      else
        (case w_WriteFileAtomic w (re_path e) (re_data e) validated_opts s of
           (Inl err, s') \<Rightarrow> (Some err, s')
         | (Inr _, s') \<Rightarrow> restore_entries w es s'))"

fun remove_attrs :: "'s xattr_writer \<Rightarrow> string \<Rightarrow> string gomap \<Rightarrow> string list \<Rightarrow> 's op" where
  "remove_attrs x target snap [] s = (None, s)"
| "remove_attrs x target snap (n # ns) s =
     (if map_of snap n \<noteq> None then remove_attrs x target snap ns s
      else case x_RemoveXattr x target n s of
             (Some e, s') \<Rightarrow> (Some e, s')
           | (None, s') \<Rightarrow> remove_attrs x target snap ns s')"

fun set_attrs :: "'s xattr_writer \<Rightarrow> string \<Rightarrow> (string \<times> string) list \<Rightarrow> 's op" where
  "set_attrs x target [] s = (None, s)"
| "set_attrs x target ((n, v) # rest) s =
     (case x_SetXattr x target n v 0 s of
        (Some e, s') \<Rightarrow> (Some e, s')
      | (None, s') \<Rightarrow> set_attrs x target rest s')"

definition restoreXattrs ::
  "'s xattr_reader \<Rightarrow> 's xattr_writer \<Rightarrow> string \<Rightarrow> string gomap \<Rightarrow> 's op" where
  "restoreXattrs xr xw target snap s =
     (case x_ListXattrs xr target s of
        Inl e \<Rightarrow> (Some e, s)
      | Inr current \<Rightarrow>
          (case remove_attrs xw target snap current s of
             (Some e, s') \<Rightarrow> (Some e, s')
           | (None, s') \<Rightarrow>
               set_attrs xw target (map (\<lambda>n. (n, the (map_of snap n))) (sort (map fst snap))) s'))"

fun restore_entry_attrs :: "'s xattr_reader \<Rightarrow> 's xattr_writer \<Rightarrow> rollback_entry list \<Rightarrow> 's op" where
  "restore_entry_attrs xr xw [] s = (None, s)"
| "restore_entry_attrs xr xw (e # es) s =
     (case re_xattrs e of
        None \<Rightarrow> restore_entry_attrs xr xw es s
      | Some a \<Rightarrow>
          (case restoreXattrs xr xw (re_path e) a s of
             (Some err, s') \<Rightarrow> (Some err, s')
           | (None, s') \<Rightarrow> restore_entry_attrs xr xw es s'))"

definition restore_root_attrs :: "'s wfs \<Rightarrow> rollback_snapshot \<Rightarrow> 's op" where
  "restore_root_attrs w r s =
     (case (w_xattr_reader w, w_xattr_writer w) of
        (Some xr, Some xw) \<Rightarrow> restore_entry_attrs xr xw (rs_entries r) s
      | _ \<Rightarrow> (None, s))"

fun restore_roots :: "'s wfs \<Rightarrow> rollback_snapshot list \<Rightarrow> 's op" where
  "restore_roots w [] s = (None, s)"
| "restore_roots w (r # rs) s =
     (if \<not> rs_existed r then restore_roots w rs s
      else case restore_entries w (rs_entries r) s of
             (Some e, s') \<Rightarrow> (Some e, s')
           | (None, s') \<Rightarrow>
               (case restore_root_attrs w r s' of
                  (Some e, s'') \<Rightarrow> (Some e, s'')
                | (None, s'') \<Rightarrow> restore_roots w rs s''))"

fun restore_attrs :: "'s xattr_reader \<Rightarrow> 's xattr_writer \<Rightarrow> rollback_attrs list \<Rightarrow> 's op" where
  "restore_attrs xr xw [] s = (None, s)"
| "restore_attrs xr xw (a # as) s =
     (case restoreXattrs xr xw (ra_path a) (ra_attrs a) s of
        (Some e, s') \<Rightarrow> (Some e, s')
      | (None, s') \<Rightarrow> restore_attrs xr xw as s')"

definition restoreBatch :: "'s wfs \<Rightarrow> batch_snapshot \<Rightarrow> 's op" where
  "restoreBatch w snap s =
     (case remove_roots w (rev (bs_roots snap)) s of
        (Some e, s1) \<Rightarrow> (Some e, s1)
      | (None, s1) \<Rightarrow>
          (case restore_roots w (bs_roots snap) s1 of
             (Some e, s2) \<Rightarrow> (Some e, s2)
           | (None, s2) \<Rightarrow>
               (case (w_xattr_reader w, w_xattr_writer w) of
                  (Some xr, Some xw) \<Rightarrow> restore_attrs xr xw (bs_attrs snap) s2
                | _ \<Rightarrow> (None, s2))))"

subsection \<open>CommitChangeSet\<close>

fun commit_leaves ::
  "'s wfs \<Rightarrow> batch_snapshot \<Rightarrow> nat \<Rightarrow> change list \<Rightarrow> 's \<Rightarrow> commit_error option \<times> 's" where
  "commit_leaves w snap i [] s = (None, s)"
| "commit_leaves w snap i (c # cs) s =
     (case commit_leaf w c s of
        (Inr _, s') \<Rightarrow> commit_leaves w snap (Suc i) cs s'
      | (Inl e, s') \<Rightarrow>
          if i = 0 then (Some e, s')
          else (case restoreBatch w snap s' of
                  (Some re, s'') \<Rightarrow> (Some (CRollback e re), s'')
                | (None, s'') \<Rightarrow> (Some e, s'')))"

definition CommitChangeSet ::
  "(string \<Rightarrow> string) \<Rightarrow> 's wfs \<Rightarrow> changeset \<Rightarrow> 's \<Rightarrow> ((commit_error + commit_result) \<times> 's) option" where
  "CommitChangeSet sha w cs s =
     (case ValidateChangeSet sha cs of
        Some e \<Rightarrow> Some (Inl (CInvalid e), s)
      | None \<Rightarrow>
          if Changes cs \<noteq> [] then
            (case captureBatch w (Changes cs) s of
               None \<Rightarrow> None
             | Some (Inl e) \<Rightarrow> Some (Inl (CSnapshot e), s)
             | Some (Inr snap) \<Rightarrow>
                 (case commit_leaves w snap 0 (Changes cs) s of
                    (Some e, s') \<Rightarrow> Some (Inl e, s')
                  | (None, s') \<Rightarrow> Some (Inr \<lparr>CommitHash = '''', Committed = cs\<rparr>, s')))
          else
            (case commit_action w cs s of
               (Inl e, s') \<Rightarrow> Some (Inl e, s')
             | (Inr h, s') \<Rightarrow> Some (Inr \<lparr>CommitHash = h, Committed = cs\<rparr>, s')))"

subsection \<open>Commits return\<close>

lemma climb_returns:
  assumes "list_all valid_seg ss"
  shows "\<exists>r. climb F (of_segs ss) = Some r"
  using assms
proof (induction ss rule: rev_induct)
  case Nil
  have "path_dir (of_segs []) = of_segs []" by (simp add: of_segs_def)
  then show ?case by (subst climb.simps) simp
next
  case (snoc x ss)
  then show ?case
    by (subst climb.simps) (auto simp: path_dir_of_segs split: sum.split)
qed

lemma highestMissingRoot_returns: "cleaned p \<Longrightarrow> \<exists>r. highestMissingRoot F p = Some r"
  using climb_returns [of "segs p" F]
  by (auto simp: highestMissingRoot_def segs_valid cleaned_segs [symmetric] split: sum.split)

lemma missing_roots_returns: "\<exists>r. missing_roots F cs = Some r"
proof (induction cs)
  case (Cons c cs)
  obtain r where "highestMissingRoot F (CleanPath (Target c)) = Some r"
    using highestMissingRoot_returns cleaned_CleanPath by blast
  with Cons show ?case by (auto split: sum.split)
qed simp

lemma capture_roots_returns:
  assumes "walk_ranked (w_fs w s) rank"
  shows "\<exists>r. capture_roots w s rs = Some r"
proof (induction rs)
  case (Cons r rs)
  have "\<exists>x. captureRoot w s r = Some x"
    using walk_list_returns [OF assms] by (auto simp: captureRoot_def WalkDir_def split: sum.split)
  with Cons show ?case by (auto split: sum.split)
qed simp

lemma captureBatch_returns:
  assumes "walk_ranked (w_fs w s) rank"
  shows "\<exists>r. captureBatch w cs s = Some r"
proof -
  obtain m where m: "missing_roots (w_fs w s) cs = Some m"
    using missing_roots_returns by blast
  show ?thesis
  proof (cases m)
    case (Inr roots)
    obtain rs where "capture_roots w s (minimal_roots [] (sort_roots roots)) = Some rs"
      using capture_roots_returns [OF assms] by blast
    with m Inr show ?thesis by (simp add: captureBatch_def Let_def split: sum.split)
  qed (simp add: captureBatch_def m)
qed

subsection \<open>What a commit does\<close>

text \<open>Applying leaves in order until one fails: the number applied and the error, if any.\<close>

fun run_leaves :: "'s wfs \<Rightarrow> nat \<Rightarrow> change list \<Rightarrow> 's \<Rightarrow> (nat \<times> commit_error) option \<times> 's" where
  "run_leaves w k [] s = (None, s)"
| "run_leaves w k (c # cs) s =
     (case commit_leaf w c s of
        (Inl e, s') \<Rightarrow> (Some (k, e), s')
      | (Inr _, s') \<Rightarrow> run_leaves w (Suc k) cs s')"

definition after_failure :: "'s wfs \<Rightarrow> batch_snapshot \<Rightarrow> nat \<Rightarrow> commit_error \<Rightarrow> 's \<Rightarrow> commit_error \<times> 's" where
  "after_failure w snap k e s =
     (if k = 0 then (e, s)
      else case restoreBatch w snap s of
             (None, s') \<Rightarrow> (e, s')
           | (Some re, s') \<Rightarrow> (CRollback e re, s'))"

lemma commit_leaves_run:
  "commit_leaves w snap i cs s =
     (case run_leaves w i cs s of
        (None, s') \<Rightarrow> (None, s')
      | (Some (k, e), s') \<Rightarrow> map_prod Some id (after_failure w snap k e s'))"
  by (induction cs arbitrary: i s) (auto simp: after_failure_def split: sum.splits prod.splits option.splits)

lemma run_leaves_valid:
  "run_leaves w k cs s = (None, s') \<Longrightarrow> \<forall>c \<in> set cs. validateChange c = None"
  by (induction cs arbitrary: k s) (auto simp: commit_leaf_def split: sum.splits prod.splits option.splits)


text \<open>
  A change set that is refused or whose pre-images cannot be read leaves the backend as it
  was, a commit succeeds only for a valid change set and then names something committed, and
  a commit returns when the tree below each path is finite.
\<close>

theorem CommitChangeSet_outcome:
  assumes ranked: "walk_ranked (w_fs w s) rank"
  shows "\<exists>r s'. CommitChangeSet sha w cs s = Some (r, s')
    \<and> (ValidateChangeSet sha cs \<noteq> None \<longrightarrow> isl r \<and> s' = s)
    \<and> (\<forall>e. r = Inl (CSnapshot e) \<longrightarrow> Changes cs \<noteq> [] \<longrightarrow> captureBatch w (Changes cs) s = Some (Inl e) \<longrightarrow> s' = s)
    \<and> (\<forall>x. r = Inr x \<longrightarrow> ValidateChangeSet sha cs = None \<and> Committed x = cs \<and> HasCommitted x)"
proof (cases "ValidateChangeSet sha cs")
  case (Some e)
  then show ?thesis by (auto simp: CommitChangeSet_def)
next
  case None
  have target: "Changes cs = [] \<Longrightarrow> Target cs \<noteq> ''''"
    using None
    by (auto simp: ValidateChangeSet_def validateChange_def change.truncate_def split: if_splits)
  obtain c where "captureBatch w (Changes cs) s = Some c"
    using captureBatch_returns [OF ranked] by blast
  with None target show ?thesis
    by (auto simp: CommitChangeSet_def HasCommitted_def split: sum.split prod.split option.split)
qed

subsection \<open>Pre-images cover what a batch may change\<close>

lemma covers_root_refl [simp]: "covers_root r r"
  by (simp add: covers_root_def)

lemma minimal_roots_sound:
  "set acc \<subseteq> set (minimal_roots acc rs) \<and> set (minimal_roots acc rs) \<subseteq> set acc \<union> set rs
   \<and> (\<forall>r \<in> set rs. \<exists>p \<in> set (minimal_roots acc rs). covers_root p r)"
proof (induction rs arbitrary: acc)
  case (Cons r rs)
  show ?case
  proof (cases "\<exists>p \<in> set acc. covers_root p r")
    case True
    with Cons.IH [of acc] show ?thesis by auto
  next
    case False
    with Cons.IH [of "acc @ [r]"] show ?thesis
      by (simp add: Bex_def) (blast intro: covers_root_refl)
  qed
qed auto

lemma climb_prefix:
  assumes "list_all valid_seg ss" "climb F (of_segs ss) = Some (Inr r)"
  shows "pathWithinRoot r (of_segs ss) \<and> cleaned r"
  using assms
proof (induction ss rule: rev_induct)
  case Nil
  have "path_dir (of_segs []) = of_segs []" by (simp add: of_segs_def)
  with Nil have "of_segs [] = r" by (subst (asm) climb.simps) simp
  then show ?case by (auto simp: of_segs_def)
next
  case (snoc x ss)
  have p: "path_dir (of_segs (ss @ [x])) = of_segs ss"
    using snoc.prems(1) by (rule path_dir_of_segs)
  have up: "pathWithinRoot (of_segs ss) (of_segs (ss @ [x]))"
    using snoc.prems(1) by (simp add: pathWithinRoot_segs path_simps)
  have "r = of_segs (ss @ [x]) \<or> climb F (of_segs ss) = Some (Inr r)"
    using snoc.prems(2) by (subst (asm) climb.simps) (auto simp: p split: if_splits sum.splits)
  then show ?case
  proof
    assume "r = of_segs (ss @ [x])"
    then show ?thesis using snoc.prems(1) by (simp add: path_simps)
  next
    assume "climb F (of_segs ss) = Some (Inr r)"
    then have "pathWithinRoot r (of_segs ss) \<and> cleaned r"
      using snoc.IH snoc.prems(1) by simp
    then show ?thesis
      using pathWithinRoot_trans [of r "of_segs ss" "of_segs (ss @ [x])"] up snoc.prems(1)
      by (simp add: path_simps)
  qed
qed

lemma highestMissingRoot_prefix:
  assumes "highestMissingRoot F p = Some (Inr r)" "cleaned p"
  shows "pathWithinRoot r p \<and> cleaned r"
  using assms climb_prefix [of "segs p" F r] cleaned_segs [OF assms(2)] segs_valid [of p]
  by (auto simp: highestMissingRoot_def split: sum.splits if_splits)

lemma missing_roots_sound:
  "missing_roots F cs = Some (Inr roots) \<Longrightarrow>
     (\<forall>r \<in> set roots. cleaned r)
     \<and> (\<forall>c \<in> set cs. path_action (Action c) \<longrightarrow>
        (\<exists>r \<in> set roots. pathWithinRoot r (CleanPath (Target c))))"
proof (induction cs arbitrary: roots)
  case (Cons c cs)
  show ?case
  proof (cases "path_action (Action c)")
    case False
    with Cons show ?thesis by simp
  next
    case True
    obtain r rs where r: "highestMissingRoot F (CleanPath (Target c)) = Some (Inr r)"
      and rs: "missing_roots F cs = Some (Inr rs)" "roots = r # rs"
      using Cons.prems True by (auto split: option.splits sum.splits)
    with Cons.IH [OF rs(1)] highestMissingRoot_prefix [OF r cleaned_CleanPath] show ?thesis by auto
  qed
qed simp

lemma capture_roots_roots:
  "capture_roots w s rs = Some (Inr xs) \<Longrightarrow> map rs_root xs = rs"
proof (induction rs arbitrary: xs)
  case (Cons r rs)
  then obtain x ys where x: "captureRoot w s r = Some (Inr x)" and ys: "capture_roots w s rs = Some (Inr ys)"
    and xs: "xs = x # ys"
    by (auto split: option.splits sum.splits)
  have "rs_root x = r"
    using x by (auto simp: captureRoot_def split: sum.splits if_splits)
  with Cons.IH [OF ys] xs show ?case by simp
qed simp

text \<open>
  Every path a batch writes, creates or removes lies in a root whose pre-image was
  captured, so a rollback restores it.
\<close>

theorem captureBatch_covers:
  assumes cap: "captureBatch w cs s = Some (Inr snap)" and c: "c \<in> set cs" "path_action (Action c)"
  shows "\<exists>r \<in> set (bs_roots snap). pathWithinRoot (rs_root r) (CleanPath (Target c))"
proof -
  obtain roots rs where roots: "missing_roots (w_fs w s) cs = Some (Inr roots)"
    and rs: "capture_roots w s (minimal_roots [] (sort_roots roots)) = Some (Inr rs)"
    and snap: "bs_roots snap = rs"
    using cap by (auto simp: captureBatch_def Let_def split: option.splits sum.splits if_splits)
  have cleaned: "\<forall>r \<in> set roots. cleaned r"
    using missing_roots_sound [OF roots] by blast
  obtain r where r: "r \<in> set roots" "pathWithinRoot r (CleanPath (Target c))"
    using missing_roots_sound [OF roots] c by blast
  have sorted: "set (sort_roots roots) = set roots"
    by (simp add: sort_roots_def)
  obtain p where p: "p \<in> set (minimal_roots [] (sort_roots roots))" "covers_root p r"
    using minimal_roots_sound [of "[]" "sort_roots roots"] r(1) sorted by auto
  then have "p \<in> set roots"
    using minimal_roots_sound [of "[]" "sort_roots roots"] sorted by auto
  moreover have "pathWithinRoot p r"
    using p(2) by (auto simp: covers_root_def pathWithinRoot_def)
  ultimately have "pathWithinRoot p (CleanPath (Target c))"
    using r cleaned by (meson cleaned_CleanPath pathWithinRoot_trans)
  moreover have "p \<in> rs_root ` set (bs_roots snap)"
    using p(1) capture_roots_roots [OF rs] snap by (metis image_set)
  ultimately show ?thesis by blast
qed

subsection \<open>A flat backend\<close>

text \<open>A backend of files in one directory, its state an association list; its hash is the content.\<close>

definition flat_fs :: "string gomap \<Rightarrow> fs" where
  "flat_fs m = \<lparr>
     fs_Stat = (\<lambda>p. if p = ''/'' then Inr (vfs_Dir ''/'' 0)
                    else case map_of m p of None \<Rightarrow> Inl (ErrNotExist p)
                         | Some c \<Rightarrow> Inr (vfs_File (path_base p) p c 0)),
     fs_ReadDir = (\<lambda>p. if p = ''/'' then Inr (map (\<lambda>(q, c). vfs_File (path_base q) q c 0) m) else Inl ENOTDIR),
     fs_ReadFile = (\<lambda>p. case map_of m p of None \<Rightarrow> Inl (ErrNotExist p) | Some c \<Rightarrow> Inr c)\<rparr>"

definition flat_remove :: "string \<Rightarrow> string gomap op" where
  "flat_remove p m = (if map_of m p = None then (Some (ErrNotExist p), m) else (None, AList.delete p m))"

definition flat_wfs :: "string gomap wfs" where
  "flat_wfs = \<lparr>w_fs = flat_fs,
     w_WriteFileAtomic = (\<lambda>p b opts m. (Inr b, AList.update p b m)),
     w_Mkdir = (\<lambda>p. unsupported), w_MkdirAll = (\<lambda>p. unsupported),
     w_Remove = flat_remove, w_RemoveAll = (\<lambda>p opts. flat_remove p),
     w_xattr_reader = None, w_xattr_writer = None, w_xattr_maintenance = None,
     w_admitter = None, w_preflight = None\<rparr>"

definition flat_batch :: changeset where
  "flat_batch = empty_change\<lparr>Changes :=
     [change.truncate (change_of (MWrite ''/a'' ''x'' unconditional)), change.truncate (change_of (MRemove ''/b''))]\<rparr>"


theorem CommitChangeSet_outcome_witness:
  "\<exists>r s'. CommitChangeSet id flat_wfs (flat_batch\<lparr>Moves := [\<lparr>From = 0, To = 0\<rparr>]\<rparr>) [] = Some (r, s') \<and> isl r \<and> s' = []"
proof -
  have "walk_ranked (w_fs flat_wfs []) (\<lambda>_. 0)"
    by (auto simp: walk_ranked_def flat_wfs_def flat_fs_def split: if_splits)
  moreover have "ValidateChangeSet id (flat_batch\<lparr>Moves := [\<lparr>From = 0, To = 0\<rparr>]\<rparr>) \<noteq> None"
    by code_simp
  ultimately show ?thesis
    using CommitChangeSet_outcome [of flat_wfs "[]" "\<lambda>_. 0" id "flat_batch\<lparr>Moves := [\<lparr>From = 0, To = 0\<rparr>]\<rparr>"]
    by blast
qed

theorem captureBatch_covers_witness:
  "\<exists>snap. captureBatch flat_wfs (Changes flat_batch) [] = Some (Inr snap)
     \<and> (\<exists>r \<in> set (bs_roots snap). pathWithinRoot (rs_root r) (CleanPath ''/b''))"
proof -
  let ?snap = "\<lparr>bs_roots = [\<lparr>rs_root = ''/a'', rs_existed = False, rs_entries = []\<rparr>,
    \<lparr>rs_root = ''/b'', rs_existed = False, rs_entries = []\<rparr>], bs_attrs = []\<rparr>"
  have s: "captureBatch flat_wfs (Changes flat_batch) [] = Some (Inr ?snap)"
    by code_simp
  have "change.truncate (change_of (MRemove ''/b'')) \<in> set (Changes flat_batch)"
    by (simp add: flat_batch_def empty_change_def)
  moreover have "path_action (Action (change.truncate (change_of (MRemove ''/b''))))"
    "Target (change.truncate (change_of (MRemove ''/b''))) = ''/b''"
    by code_simp+
  ultimately show ?thesis
    using captureBatch_covers [OF s] s by metis
qed

end
