(* ===== verification/Pre_Images.thy ===== *)
theory Pre_Images
  imports Commit Identity
begin

text \<open>
  What the write log records of a commit: the pre-images captured before it and their blobs
  (pkg/openlore/history_blobs.go), and the history records made of its leaves, moves paired
  (writelog.go). \<open>sha\<close> is the hexadecimal SHA-256; a directory that is removed is replaced by
  its entries, depth first, written over the stack of changes still to visit.
\<close>

subsection \<open>Blobs\<close>

text \<open>
  The blob store: content by its hash. \<open>fails\<close> says for which hashes the write to disk fails,
  a malformed hash among them.
\<close>

type_synonym blobs = "string \<rightharpoonup> string"

definition blob_Put :: "(string \<Rightarrow> string) \<Rightarrow> (string \<Rightarrow> bool) \<Rightarrow> string \<Rightarrow> string \<Rightarrow> blobs \<Rightarrow> bool \<times> blobs" where
  "blob_Put sha fails h b m =
     (if fails h then (False, m)
      else if m h \<noteq> None then (True, m)
      else if sha b \<noteq> h then (False, m)
      else (True, m(h \<mapsto> b)))"

definition blobs_ok :: "(string \<Rightarrow> string) \<Rightarrow> blobs \<Rightarrow> bool" where
  "blobs_ok sha m \<longleftrightarrow> (\<forall>h b. m h = Some b \<longrightarrow> sha b = h)"

lemma blob_Put_ok: "blobs_ok sha m \<Longrightarrow> blobs_ok sha (snd (blob_Put sha fails h b m))"
  by (auto simp: blob_Put_def blobs_ok_def)

lemma blob_Put_keeps: "m h' = Some b' \<Longrightarrow> snd (blob_Put sha fails h b m) h' = Some b'"
  by (auto simp: blob_Put_def)

lemma blob_Put_stored: "fst (blob_Put sha fails h b m) \<Longrightarrow> \<exists>c. snd (blob_Put sha fails h b m) h = Some c"
  by (auto simp: blob_Put_def split: if_splits)

subsection \<open>Pre-images\<close>

record leaf_record =
  lr_Target :: string
  lr_Action :: change_action
  lr_BeforeExists :: bool
  lr_BeforeHash :: string
  lr_BeforeSize :: int
  lr_AfterHash :: string
  lr_AfterSize :: int
  lr_BeforeUnknown :: bool
  lr_Generated :: bool

definition new_leaf_record :: "change \<Rightarrow> leaf_record" where
  "new_leaf_record c =
     \<lparr>lr_Target = CleanPath (Target c), lr_Action = Action c, lr_BeforeExists = False,
      lr_BeforeHash = '''', lr_BeforeSize = 0, lr_AfterHash = '''', lr_AfterSize = 0,
      lr_BeforeUnknown = False,
      lr_Generated = (case Write c of Some w \<Rightarrow> wc_Generated w | None \<Rightarrow> False)\<rparr>"

text \<open>\<open>store\<close> is the blob store's \<open>Put\<close>, absent when no blobs are kept.\<close>

definition leaf_pre_image ::
  "(string \<Rightarrow> string) \<Rightarrow> (string \<Rightarrow> bool) option \<Rightarrow> fs \<Rightarrow> change \<Rightarrow> blobs \<Rightarrow> leaf_record \<times> blobs" where
  "leaf_pre_image sha store F c m =
     (let r = new_leaf_record c
      in case fs_Stat F (Target c) of
           Inr info \<Rightarrow>
             if Dir info then (r, m)
             else (case fs_ReadFile F (Target c) of
                     Inl _ \<Rightarrow> (r\<lparr>lr_BeforeExists := True, lr_BeforeUnknown := True\<rparr>, m)
                   | Inr b \<Rightarrow>
                       let r' = r\<lparr>lr_BeforeExists := True, lr_BeforeHash := sha b,
                                  lr_BeforeSize := int (length b)\<rparr>
                       in (case store of
                             None \<Rightarrow> (r', m)
                           | Some fails \<Rightarrow>
                               (case blob_Put sha fails (sha b) b m of
                                  (True, m') \<Rightarrow> (r', m')
                                | (False, m') \<Rightarrow> (r'\<lparr>lr_BeforeUnknown := True\<rparr>, m'))))
         | Inl e \<Rightarrow> (if is_not_exist e then r else r\<lparr>lr_BeforeUnknown := True\<rparr>, m))"

definition removes_dir :: "fs \<Rightarrow> change \<Rightarrow> bool" where
  "removes_dir F c \<longleftrightarrow>
     (Action c = ChangeActionRemove \<or> Action c = ChangeActionRemoveAll)
     \<and> (case fs_Stat F (Target c) of Inr info \<Rightarrow> Dir info | Inl _ \<Rightarrow> False)"

definition child_change :: "change \<Rightarrow> file_info \<Rightarrow> change" where
  "child_change c f = c\<lparr>Target := path_join (Target c) (FileName f)\<rparr>"

type_synonym captured = "(leaf_record list \<times> vfs_error option) \<times> blobs"

partial_function (option) capture_list ::
  "(string \<Rightarrow> string) \<Rightarrow> (string \<Rightarrow> bool) option \<Rightarrow> fs \<Rightarrow> change list \<Rightarrow> leaf_record list \<Rightarrow> blobs \<Rightarrow> captured option" where
  "capture_list sha store F work out m =
     (case work of
        [] \<Rightarrow> Some ((out, None), m)
      | c # rest \<Rightarrow>
          (if removes_dir F c then
             (case fs_ReadDir F (Target c) of
                Inl e \<Rightarrow> Some ((out, Some e), m)
              | Inr es \<Rightarrow> capture_list sha store F (map (child_change c) es @ rest) out m)
           else (case leaf_pre_image sha store F c m of
                   (r, m') \<Rightarrow> capture_list sha store F rest (out @ [r]) m')))"

declare capture_list.simps [code]

definition capturePreImages ::
  "(string \<Rightarrow> string) \<Rightarrow> (string \<Rightarrow> bool) option \<Rightarrow> fs \<Rightarrow> changeset \<Rightarrow> blobs \<Rightarrow> captured option" where
  "capturePreImages sha store F cs m = capture_list sha store F (Leaves cs) [] m"

text \<open>The after-images are those of the last committed leaf of a path.\<close>

definition leaf_at :: "changeset \<Rightarrow> string \<Rightarrow> change option" where
  "leaf_at cs p = map_of (rev (map (\<lambda>c. (CleanPath (Target c), c)) (Leaves cs))) p"

definition fillAfter :: "(string \<Rightarrow> string) \<Rightarrow> leaf_record list \<Rightarrow> changeset \<Rightarrow> leaf_record list" where
  "fillAfter sha rs cs =
     map (\<lambda>r. case leaf_at cs (lr_Target r) of
                Some c \<Rightarrow>
                  (case Write c of
                     Some w \<Rightarrow> r\<lparr>lr_AfterHash := sha (wc_Bytes w), lr_AfterSize := int (length (wc_Bytes w))\<rparr>
                   | None \<Rightarrow> r)
              | None \<Rightarrow> r) rs"

subsection \<open>History records\<close>

record history_record =
  hr_CommitID :: string
  hr_Time :: int
  hr_Attribution :: attribution
  hr_FileKey :: string
  hr_Action :: string
  hr_ContentHash :: string
  hr_From :: string

fun action_name :: "change_action \<Rightarrow> string" where
  "action_name ChangeActionWrite = ''write''"
| "action_name ChangeActionMkdir = ''mkdir''"
| "action_name ChangeActionMkdirAll = ''mkdir_all''"
| "action_name ChangeActionRemove = ''remove''"
| "action_name ChangeActionRemoveAll = ''remove_all''"
| "action_name ChangeActionSetXattr = ''set_xattr''"
| "action_name ChangeActionRemoveXattr = ''remove_xattr''"
| "action_name ChangeActionPreserveAndRecreateXattrs = ''preserve_and_recreate_xattrs''"
| "action_name ChangeActionMigrateXattrs = ''migrate_xattrs''"
| "action_name (ChangeActionOther s) = s"


definition leaf_hash :: "(string \<Rightarrow> string) \<Rightarrow> commit_result \<Rightarrow> change \<Rightarrow> string" where
  "leaf_hash sha r c =
     (case Write c of
        None \<Rightarrow> ''''
      | Some w \<Rightarrow> if length (Leaves (Committed r)) = 1 \<and> CommitHash r \<noteq> '''' then CommitHash r else sha (wc_Bytes w))"

definition history_record_of :: "string \<Rightarrow> int \<Rightarrow> attribution \<Rightarrow> string \<Rightarrow> change_action \<Rightarrow> string \<Rightarrow> history_record" where
  "history_record_of cid t at key action h =
     \<lparr>hr_CommitID = cid, hr_Time = t, hr_Attribution = at, hr_FileKey = CleanPath key,
      hr_Action = action_name action, hr_ContentHash = h, hr_From = ''''\<rparr>"

text \<open>The first record of a leaf's path and action that is not that of an earlier equal leaf.\<close>

fun nth_match :: "('a \<Rightarrow> bool) \<Rightarrow> nat \<Rightarrow> nat \<Rightarrow> 'a list \<Rightarrow> nat option" where
  "nth_match P i n [] = None"
| "nth_match P i n (x # xs) =
     (if P x then (case n of 0 \<Rightarrow> Some i | Suc m \<Rightarrow> nth_match P (Suc i) m xs)
      else nth_match P (Suc i) n xs)"

definition record_matches :: "change \<Rightarrow> history_record \<Rightarrow> bool" where
  "record_matches c r \<longleftrightarrow> hr_FileKey r = CleanPath (Target c) \<and> hr_Action r = action_name (Action c)"

definition same_leaf :: "change \<Rightarrow> change \<Rightarrow> bool" where
  "same_leaf a b \<longleftrightarrow> Target a = Target b \<and> Action a = Action b"

definition recordIndex :: "change list \<Rightarrow> history_record list \<Rightarrow> nat \<Rightarrow> nat option" where
  "recordIndex leaves records k =
     (let leaf = leaves ! k
      in nth_match (record_matches leaf) 0 (length (filter (same_leaf leaf) (take k leaves))) records)"

definition moved_record :: "(string \<Rightarrow> string) \<Rightarrow> change list \<Rightarrow> move \<Rightarrow> history_record \<Rightarrow> history_record" where
  "moved_record sha leaves m r =
     r\<lparr>hr_Action := ''move'', hr_From := CleanPath (Target (leaves ! nat (From m))),
       hr_ContentHash := sha (case Write (leaves ! nat (To m)) of Some w \<Rightarrow> wc_Bytes w | None \<Rightarrow> '''')\<rparr>"

definition move_sources :: "change list \<Rightarrow> history_record list \<Rightarrow> move list \<Rightarrow> nat list" where
  "move_sources leaves records ms = List.map_filter (\<lambda>m. recordIndex leaves records (nat (From m))) ms"

fun moved_records ::
  "(string \<Rightarrow> string) \<Rightarrow> change list \<Rightarrow> history_record list \<Rightarrow> move list \<Rightarrow> (nat \<rightharpoonup> history_record) \<Rightarrow> (nat \<rightharpoonup> history_record)" where
  "moved_records sha leaves records [] acc = acc"
| "moved_records sha leaves records (m # ms) acc =
     moved_records sha leaves records ms
       (case recordIndex leaves records (nat (To m)) of
          Some i \<Rightarrow> acc(i \<mapsto> moved_record sha leaves m (records ! i))
        | None \<Rightarrow> acc)"

definition moveHistoryRecords :: "(string \<Rightarrow> string) \<Rightarrow> history_record list \<Rightarrow> changeset \<Rightarrow> history_record list" where
  "moveHistoryRecords sha records cs =
     (if Moves cs = [] then records
      else let leaves = Leaves cs;
               moved = moved_records sha leaves records (Moves cs) (\<lambda>i. None);
               sources = move_sources leaves records (Moves cs)
           in map (\<lambda>(i, r). case moved i of Some r' \<Rightarrow> r' | None \<Rightarrow> r)
                (filter (\<lambda>(i, r). i \<notin> set sources) (List.enumerate 0 records)))"

definition historyRecordsWithCommitID ::
  "(string \<Rightarrow> string) \<Rightarrow> string \<Rightarrow> int \<Rightarrow> attribution \<Rightarrow> commit_result \<Rightarrow> history_record list" where
  "historyRecordsWithCommitID sha cid t at r =
     moveHistoryRecords sha
       (map (\<lambda>c. history_record_of cid t at (Target c) (Action c) (leaf_hash sha r c)) (Leaves (Committed r)))
       (Committed r)"

definition indexedHistoryRecords ::
  "(string \<Rightarrow> string) \<Rightarrow> string \<Rightarrow> int \<Rightarrow> attribution \<Rightarrow> commit_result \<Rightarrow> leaf_record list \<Rightarrow> history_record list" where
  "indexedHistoryRecords sha cid t at r leaves =
     (if leaves = [] then historyRecordsWithCommitID sha cid t at r
      else moveHistoryRecords sha
             (map (\<lambda>l. history_record_of cid t at (lr_Target l) (lr_Action l) (lr_AfterHash l)) leaves)
             (Committed r))"

subsection \<open>What a capture guarantees\<close>

definition recoverable :: "(string \<Rightarrow> string) \<Rightarrow> fs \<Rightarrow> blobs \<Rightarrow> leaf_record \<Rightarrow> bool" where
  "recoverable sha F m r \<longleftrightarrow>
     (\<exists>p b c. CleanPath p = lr_Target r \<and> fs_ReadFile F p = Inr b \<and> lr_BeforeHash r = sha b
        \<and> lr_BeforeSize r = int (length b) \<and> m (sha b) = Some c \<and> sha c = sha b)"

definition captured_ok :: "(string \<Rightarrow> string) \<Rightarrow> fs \<Rightarrow> blobs \<Rightarrow> leaf_record list \<Rightarrow> bool" where
  "captured_ok sha F m rs \<longleftrightarrow> blobs_ok sha m
     \<and> (\<forall>r \<in> set rs. lr_BeforeExists r \<and> \<not> lr_BeforeUnknown r \<longrightarrow> recoverable sha F m r)"

lemma recoverable_grows:
  "recoverable sha F m r \<Longrightarrow> (\<And>h b. m h = Some b \<Longrightarrow> m' h = Some b) \<Longrightarrow> recoverable sha F m' r"
  unfolding recoverable_def by meson

lemma leaf_pre_image_grows:
  "leaf_pre_image sha store F c m = (r, m') \<Longrightarrow> m h = Some b \<Longrightarrow> m' h = Some b"
  using blob_Put_keeps [of m h b sha]
  by (auto simp: leaf_pre_image_def Let_def split: sum.splits if_splits option.splits prod.splits bool.splits)
    (metis snd_conv)+

lemma leaf_pre_image_recoverable:
  assumes "blobs_ok sha m" "leaf_pre_image sha (Some fails) F c m = (r, m')"
  shows "blobs_ok sha m' \<and> (lr_BeforeExists r \<and> \<not> lr_BeforeUnknown r \<longrightarrow> recoverable sha F m' r)"
proof (cases "fs_Stat F (Target c)")
  case (Inl e)
  then show ?thesis using assms by (auto simp: leaf_pre_image_def new_leaf_record_def Let_def split: if_splits)
next
  case (Inr info)
  show ?thesis
  proof (cases "Dir info")
    case True
    with Inr assms show ?thesis by (auto simp: leaf_pre_image_def new_leaf_record_def Let_def)
  next
    case notdir: False
    show ?thesis
    proof (cases "fs_ReadFile F (Target c)")
      case (Inl e)
      with Inr notdir assms show ?thesis by (auto simp: leaf_pre_image_def new_leaf_record_def Let_def)
    next
      case read: (Inr b)
      obtain ok m1 where put: "blob_Put sha fails (sha b) b m = (ok, m1)"
        by force
      have m1: "blobs_ok sha m1" "ok \<Longrightarrow> \<exists>x. m1 (sha b) = Some x"
        using blob_Put_ok [OF assms(1), of fails "sha b" b] blob_Put_stored [of sha fails "sha b" b m] put by auto
      with Inr notdir read put assms(2) show ?thesis
        by (cases ok) (auto simp: leaf_pre_image_def new_leaf_record_def Let_def recoverable_def blobs_ok_def)
    qed
  qed
qed

lemma leaf_pre_image_ok:
  assumes "captured_ok sha F m rs" "leaf_pre_image sha (Some fails) F c m = (r, m')"
  shows "captured_ok sha F m' (rs @ [r])"
  using assms leaf_pre_image_recoverable [OF _ assms(2)] recoverable_grows leaf_pre_image_grows [OF assms(2)]
  unfolding captured_ok_def by (auto 0 3)

definition capture_step ::
  "((string \<Rightarrow> string) \<Rightarrow> (string \<Rightarrow> bool) option \<Rightarrow> fs \<Rightarrow> change list \<Rightarrow> leaf_record list \<Rightarrow> blobs \<Rightarrow> captured option) \<Rightarrow>
   (string \<Rightarrow> string) \<Rightarrow> (string \<Rightarrow> bool) option \<Rightarrow> fs \<Rightarrow> change list \<Rightarrow> leaf_record list \<Rightarrow> blobs \<Rightarrow> captured option" where
  "capture_step capture sha store F work out m =
     (case work of
        [] \<Rightarrow> Some ((out, None), m)
      | c # rest \<Rightarrow>
          (if removes_dir F c then
             (case fs_ReadDir F (Target c) of
                Inl e \<Rightarrow> Some ((out, Some e), m)
              | Inr es \<Rightarrow> capture sha store F (map (child_change c) es @ rest) out m)
           else (case leaf_pre_image sha store F c m of
                   (r, m') \<Rightarrow> capture sha store F rest (out @ [r]) m')))"

lemma capture_list_induct [consumes 1, case_names step]:
  assumes "capture_list sha store F work out m = Some r"
    and "\<And>capture sha store F work out m r.
      (\<And>sha store F work out m r. capture sha store F work out m = Some r \<Longrightarrow> P sha store F work out m r) \<Longrightarrow>
      capture_step capture sha store F work out m = Some r \<Longrightarrow> P sha store F work out m r"
  shows "P sha store F work out m r"
  using assms(1)
  by (rule capture_list.raw_induct [where P = P, rotated]) (rule assms(2), unfold capture_step_def)

lemma capture_list_ok:
  assumes "capture_list sha store F work out m = Some r"
  shows "store \<noteq> None \<longrightarrow> captured_ok sha F m out \<longrightarrow> captured_ok sha F (snd r) (fst (fst r))"
  using assms
proof (induction rule: capture_list_induct)
  case (step capture sha store F work out m r)
  show ?case
  proof (cases work)
    case Nil
    with step.hyps show ?thesis by (auto simp: capture_step_def)
  next
    case (Cons c rest)
    show ?thesis
    proof (cases "removes_dir F c")
      case True
      with step.hyps step.IH Cons show ?thesis
        by (cases "fs_ReadDir F (Target c)") (auto simp: capture_step_def)
    next
      case False
      obtain x m1 where leaf: "leaf_pre_image sha store F c m = (x, m1)"
        by force
      with step.hyps Cons False have "capture sha store F rest (out @ [x]) m1 = Some r"
        by (simp add: capture_step_def)
      from step.IH [OF this] leaf leaf_pre_image_ok show ?thesis
        by (metis option.exhaust)
    qed
  qed
qed


definition records_leaf :: "fs \<Rightarrow> change \<Rightarrow> leaf_record \<Rightarrow> bool" where
  "records_leaf F c r \<longleftrightarrow> lr_Target r = CleanPath (Target c) \<and> lr_Action r = Action c
     \<and> lr_BeforeExists r = (case fs_Stat F (Target c) of Inr info \<Rightarrow> \<not> Dir info | Inl _ \<Rightarrow> False)"

lemma leaf_pre_image_records: "records_leaf F c (fst (leaf_pre_image sha store F c m))"
  by (auto simp: records_leaf_def leaf_pre_image_def new_leaf_record_def Let_def
      split: sum.split option.split prod.split bool.split)

lemma capture_list_complete:
  assumes "capture_list sha store F work out m = Some r"
  shows "set out \<subseteq> set (fst (fst r))
    \<and> (snd (fst r) = None \<longrightarrow> (\<forall>c \<in> set work. \<not> removes_dir F c \<longrightarrow> (\<exists>x \<in> set (fst (fst r)). records_leaf F c x)))"
  using assms
proof (induction rule: capture_list_induct)
  case (step capture sha store F work out m r)
  show ?case
  proof (cases work)
    case Nil
    with step.hyps show ?thesis by (auto simp: capture_step_def)
  next
    case (Cons c rest)
    show ?thesis
    proof (cases "removes_dir F c")
      case True
      with step.hyps step.IH Cons show ?thesis
        by (cases "fs_ReadDir F (Target c)") (fastforce simp: capture_step_def)+
    next
      case False
      obtain x m1 where leaf: "leaf_pre_image sha store F c m = (x, m1)"
        by force
      with step.hyps Cons False have "capture sha store F rest (out @ [x]) m1 = Some r"
        by (simp add: capture_step_def)
      from step.IH [OF this] leaf leaf_pre_image_records [of F c sha store m] Cons show ?thesis
        by fastforce
    qed
  qed
qed

text \<open>
  Before a commit, the write log records every leaf that is not the removal of a directory,
  saying whether a file was there; and the content of every file so recorded, also beneath a
  removed directory, can be read back from the blob store by the hash in its record, unless
  the record says the content is unknown.
\<close>

theorem pre_images_recoverable:
  assumes "blobs_ok sha m" "capturePreImages sha (Some fails) F cs m = Some ((rs, e), m')"
  shows "(\<forall>r \<in> set rs. lr_BeforeExists r \<and> \<not> lr_BeforeUnknown r \<longrightarrow>
      (\<exists>p b c. CleanPath p = lr_Target r \<and> fs_ReadFile F p = Inr b \<and> lr_BeforeSize r = int (length b)
         \<and> lr_BeforeHash r = sha b \<and> m' (lr_BeforeHash r) = Some c \<and> sha c = lr_BeforeHash r))
    \<and> (e = None \<longrightarrow> (\<forall>c \<in> set (Leaves cs). \<not> removes_dir F c \<longrightarrow> (\<exists>r \<in> set rs. records_leaf F c r)))"
proof -
  have run: "capture_list sha (Some fails) F (Leaves cs) [] m = Some ((rs, e), m')"
    using assms(2) by (simp add: capturePreImages_def)
  have "captured_ok sha F m []"
    using assms(1) by (simp add: captured_ok_def)
  then have "captured_ok sha F m' rs"
    using capture_list_ok [OF run] by simp
  with capture_list_complete [OF run] show ?thesis
    unfolding captured_ok_def recoverable_def by fastforce
qed

lemma capture_list_Nil [simp]: "capture_list sha store F [] out m = Some ((out, None), m)"
  by (simp add: capture_list.simps)

lemma capture_list_leaf [simp]:
  "\<not> removes_dir F c \<Longrightarrow> capture_list sha store F (c # rest) out m =
     (case leaf_pre_image sha store F c m of (r, m') \<Rightarrow> capture_list sha store F rest (out @ [r]) m')"
  by (subst capture_list.simps) simp

definition one_file_fs :: "string \<Rightarrow> string \<Rightarrow> fs" where
  "one_file_fs p b = \<lparr>fs_Stat = (\<lambda>q. if q = p then Inr (vfs_File p p b 0) else Inl (ErrNotExist q)),
     fs_ReadDir = (\<lambda>q. Inl ENOTDIR), fs_ReadFile = (\<lambda>q. if q = p then Inr b else Inl (ErrNotExist q))\<rparr>"

definition overwrite :: "string \<Rightarrow> string \<Rightarrow> changeset" where
  "overwrite p b = change_of (MWrite p b unconditional)"

theorem pre_images_recoverable_witness:
  "\<exists>r m'. capturePreImages rev (Some (\<lambda>h. False)) (one_file_fs ''/a'' ''old'') (overwrite ''/a'' ''new'') (\<lambda>h. None)
       = Some (([r], None), m') \<and> lr_BeforeHash r = ''dlo'' \<and> m' ''dlo'' \<noteq> None"
proof -
  have run: "\<exists>r m'. capturePreImages rev (Some (\<lambda>h. False)) (one_file_fs ''/a'' ''old'') (overwrite ''/a'' ''new'') (\<lambda>h. None)
      = Some (([r], None), m') \<and> lr_BeforeExists r \<and> \<not> lr_BeforeUnknown r \<and> lr_BeforeHash r = ''dlo''"
    by (simp add: capturePreImages_def overwrite_def change_of_leaf(1), simp add: removes_dir_def
        one_file_fs_def leaf_pre_image_def new_leaf_record_def vfs_File_def blob_Put_def Let_def
        change_of_def empty_change_def change.truncate_def)
  have "blobs_ok rev (\<lambda>h. None)"
    by (simp add: blobs_ok_def)
  with run pre_images_recoverable [of rev "\<lambda>h. None"] show ?thesis
    by fastforce
qed

subsection \<open>The history of a move\<close>

lemma nth_match_iff:
  "nth_match P i n xs = Some j \<longleftrightarrow>
     (\<exists>k. j = i + k \<and> k < length xs \<and> P (xs ! k) \<and> length (filter P (take k xs)) = n)"
proof (induction xs arbitrary: i n)
  case (Cons x xs)
  have split: "(\<exists>k. Q k) \<longleftrightarrow> Q 0 \<or> (\<exists>k. Q (Suc k))" for Q :: "nat \<Rightarrow> bool"
    by (metis not0_implies_Suc)
  show ?case
    by (subst split) (auto simp: Cons.IH split: nat.split)
qed simp

definition known_action :: "change_action \<Rightarrow> bool" where
  "known_action a \<longleftrightarrow> required_payloads a \<noteq> None"

lemma action_name_inject: "known_action a \<Longrightarrow> known_action b \<Longrightarrow> action_name a = action_name b \<longleftrightarrow> a = b"
  by (cases a; cases b; simp add: known_action_def)

definition plain_leaves :: "change list \<Rightarrow> bool" where
  "plain_leaves cs \<longleftrightarrow> (\<forall>c \<in> set cs. CleanPath (Target c) = Target c \<and> known_action (Action c))"

lemma recordIndex_own:
  assumes "plain_leaves leaves" "k < length leaves"
    and rec: "\<And>c. hr_FileKey (f c) = CleanPath (Target c) \<and> hr_Action (f c) = action_name (Action c)"
  shows "recordIndex leaves (map f leaves) k = Some k"
proof -
  have match: "record_matches (leaves ! k) (f c) \<longleftrightarrow> same_leaf (leaves ! k) c" if "c \<in> set leaves" for c
    using assms that by (auto simp: record_matches_def same_leaf_def plain_leaves_def action_name_inject dest!: nth_mem)
  have "filter (record_matches (leaves ! k)) (map f (take k leaves)) = map f (filter (same_leaf (leaves ! k)) (take k leaves))"
    unfolding filter_map comp_def using match in_set_takeD by (metis (mono_tags, lifting) filter_cong)
  then have "length (filter (record_matches (leaves ! k)) (map f (take k leaves)))
      = length (filter (same_leaf (leaves ! k)) (take k leaves))"
    by (simp only: length_map)
  then show ?thesis
    using assms(2) match [OF nth_mem [OF assms(2)]]
    by (auto simp: recordIndex_def Let_def nth_match_iff take_map same_leaf_def simp del: filter_map)
qed

lemma moved_records_other:
  assumes "\<forall>m \<in> set ms. recordIndex leaves records (nat (To m)) = Some (nat (To m))" "\<forall>m \<in> set ms. nat (To m) \<noteq> k"
  shows "moved_records sha leaves records ms acc k = acc k"
  using assms by (induction ms arbitrary: acc) auto

lemma moved_records_to:
  assumes "\<forall>m \<in> set ms. recordIndex leaves records (nat (To m)) = Some (nat (To m))"
    and "distinct (map (\<lambda>m. nat (To m)) ms)" "m \<in> set ms"
  shows "moved_records sha leaves records ms acc (nat (To m)) = Some (moved_record sha leaves m (records ! nat (To m)))"
  using assms
proof (induction ms arbitrary: acc)
  case (Cons x ms)
  show ?case
  proof (cases "m = x")
    case True
    with Cons.prems have "\<forall>y \<in> set ms. nat (To y) \<noteq> nat (To m)"
      by (metis (no_types, lifting) distinct.simps(2) image_eqI list.set_map list.simps(9))
    with Cons.prems True show ?thesis
      by (simp add: moved_records_other)
  qed (use Cons in auto)
qed simp

lemma enumerate_map: "List.enumerate 0 (map f xs) = map (\<lambda>k. (k, f (xs ! k))) [0..<length xs]"
  by (rule nth_equalityI) (simp_all add: nth_enumerate_eq)

definition moves_of :: "changeset \<Rightarrow> nat \<Rightarrow> move list" where
  "moves_of cs k = filter (\<lambda>m. nat (To m) = k) (Moves cs)"

lemma moveHistoryRecords_spec:
  assumes "ValidateChangeSet sha cs = None" "Moves cs \<noteq> []" "plain_leaves (Leaves cs)"
    and rec: "\<And>c. hr_FileKey (f c) = CleanPath (Target c) \<and> hr_Action (f c) = action_name (Action c)"
  shows "moveHistoryRecords sha (map f (Leaves cs)) cs =
    map (\<lambda>k. case moves_of cs k of
               [] \<Rightarrow> f (Leaves cs ! k)
             | m # _ \<Rightarrow> moved_record sha (Leaves cs) m (f (Leaves cs ! k)))
      (filter (\<lambda>k. k \<notin> (\<lambda>m. nat (From m)) ` set (Moves cs)) [0..<length (Leaves cs)])"
proof -
  let ?L = "Leaves cs"
  have changes: "Changes cs \<noteq> []" "?L = Changes cs"
    using assms(1,2) by (auto simp: ValidateChangeSet_def Leaves_def split: if_splits)
  have ok: "\<forall>m \<in> set (Moves cs). move_ok sha ?L m" and to: "distinct (map To (Moves cs))"
    using assms(1) changes by (auto simp: ValidateChangeSet_def validateMoves_iff split: option.splits if_splits)
  have idx: "recordIndex ?L (map f ?L) k = Some k" if "k < length ?L" for k
    using recordIndex_own [OF assms(3) that rec] .
  have range: "nat (To m) < length ?L \<and> nat (From m) < length ?L \<and> 0 \<le> To m" if "m \<in> set (Moves cs)" for m
    using ok that by (auto simp: move_ok_def)
  have dist: "distinct (map (\<lambda>m. nat (To m)) (Moves cs))"
    using to eq_nat_nat_iff [of "To _" "To _"] range unfolding distinct_map inj_on_def by metis
  have sources: "set (move_sources ?L (map f ?L) (Moves cs)) = (\<lambda>m. nat (From m)) ` set (Moves cs)"
    using idx range by (force simp: move_sources_def List.map_filter_def)
  have moved: "moved_records sha ?L (map f ?L) (Moves cs) (\<lambda>i. None) k =
      (case moves_of cs k of [] \<Rightarrow> None | m # _ \<Rightarrow> Some (moved_record sha ?L m (f (?L ! k))))" for k
  proof (cases "moves_of cs k")
    case Nil
    then have "\<forall>m \<in> set (Moves cs). nat (To m) \<noteq> k"
      by (auto simp: moves_of_def filter_empty_conv)
    with Nil idx range show ?thesis
      by (simp add: moved_records_other)
  next
    case (Cons m ms)
    then have "m \<in> set (filter (\<lambda>m. nat (To m) = k) (Moves cs))"
      by (simp add: moves_of_def)
    then have "m \<in> set (Moves cs)" "nat (To m) = k"
      by simp_all
    with Cons idx range dist show ?thesis
      using moved_records_to [of "Moves cs" ?L "map f ?L" m] by auto
  qed
  show ?thesis
    using assms(2)
    by (auto simp: moveHistoryRecords_def Let_def moved sources enumerate_map filter_map comp_def split: list.split
        intro!: map_cong)
qed


text \<open>
  A committed batch with moves is recorded as one event per leaf that is not the source of a
  move: the destination of a move is an event \<open>move\<close> with its previous path and the hash of the
  moved content, every other leaf its own action, in the order of the leaves.
\<close>

theorem history_of_moves:
  assumes "ValidateChangeSet sha (Committed r) = None" "Moves (Committed r) \<noteq> []"
    and "plain_leaves (Leaves (Committed r))"
  shows "historyRecordsWithCommitID sha cid t at r =
    (let leaves = Leaves (Committed r);
         plain = (\<lambda>k. history_record_of cid t at (Target (leaves ! k)) (Action (leaves ! k)) (leaf_hash sha r (leaves ! k)))
     in map (\<lambda>k. case moves_of (Committed r) k of
                  [] \<Rightarrow> plain k
                | m # _ \<Rightarrow> (plain k)\<lparr>hr_Action := ''move'', hr_From := CleanPath (Target (leaves ! nat (From m))),
                     hr_ContentHash := sha (case Write (leaves ! nat (To m)) of Some w \<Rightarrow> wc_Bytes w | None \<Rightarrow> '''')\<rparr>)
          (filter (\<lambda>k. k \<notin> (\<lambda>m. nat (From m)) ` set (Moves (Committed r))) [0..<length leaves]))"
  unfolding historyRecordsWithCommitID_def Let_def
  by (subst moveHistoryRecords_spec [OF assms]) (simp_all add: history_record_of_def moved_record_def split: list.split)

theorem history_of_moves_witness:
  "map hr_Action (historyRecordsWithCommitID (\<lambda>b. b) ''id'' 0
      \<lparr>at_Principal = ''ann'', at_Actor = '''', at_ClientAuth = AuthLevelOther ''''\<rparr>
      \<lparr>CommitHash = '''', Committed = sample_rename\<rparr>) = [''move'']"
proof -
  have valid: "ValidateChangeSet (\<lambda>b. b) sample_rename = None"
    by code_simp
  have "CleanPath ''/new'' = ''/new''" "CleanPath ''/old'' = ''/old''"
    by code_simp+
  then have "plain_leaves (Leaves sample_rename)"
    by (simp add: sample_rename_def Leaves_def plain_leaves_def known_action_def)
  with history_of_moves [of "\<lambda>b. b" "\<lparr>CommitHash = '''', Committed = sample_rename\<rparr>"] valid show ?thesis
    by (simp add: sample_rename_def Leaves_def Let_def moves_of_def)
qed

end
