(* ===== verification/Write_Log.thy ===== *)
theory Write_Log
  imports Pre_Images
begin

text \<open>
  The ordered write log of pkg/openlore/writelog.go and its single applier. One entry is one
  queued mutation or task; applying it runs the checks, captures the pre-images, commits the
  change set, and records it. The hooks a server installs are fields of the environment; the
  clock and the commit ids are functions of the number of entries applied. A file that cannot
  be appended to loses that record only, as the code logs the error and goes on. The actor kind, which
  durableAttribution fills in, is not part of the model's attributions.
\<close>

subsection \<open>Entries, records and results\<close>

datatype log_error =
    Preflight vfs_error
  | PreApply string
  | CommitFailed commit_error
  | CommitState string
  | TaskFailed string

record apply_result =
  ap_hash :: string
  ap_err :: "log_error option"

record commit_info =
  ci_ID :: string
  ci_ChangeSet :: changeset
  ci_Hash :: string
  ci_Leaves :: "leaf_record list"
  ci_Attribution :: attribution

record commit_record = commit_info +
  cj_Time :: int

datatype 's entry =
    ChangeEntry nat "identity option" attribution changeset
  | TaskEntry nat "'s \<Rightarrow> string option \<times> 's"

fun entry_id :: "'s entry \<Rightarrow> nat" where
  "entry_id (ChangeEntry i _ _ _) = i"
| "entry_id (TaskEntry i _) = i"

record 's log_env =
  le_sha :: "string \<Rightarrow> string"
  le_substrate :: "'s wfs"
  le_preApply :: "(identity option \<Rightarrow> attribution \<Rightarrow> changeset \<Rightarrow> 's \<Rightarrow> string option) option"
  le_blobs :: "(string \<Rightarrow> bool) option"
  le_commitState :: "(commit_info \<Rightarrow> string option) option"
  le_journal :: "(commit_record \<Rightarrow> bool) option"
  le_history :: "(history_record list \<Rightarrow> bool) option"
  le_postCommit :: bool
  le_newID :: "nat \<Rightarrow> string"
  le_clock :: "nat \<Rightarrow> int"

record 's log_state =
  ls_store :: 's
  ls_blobs :: blobs
  ls_journal :: "commit_record list"
  ls_history :: "history_record list"
  ls_post :: "commit_info list"
  ls_applied :: nat
  ls_replies :: "(nat \<times> apply_result) list"

subsection \<open>Applying an entry\<close>

fun preflight_leaves :: "(change \<Rightarrow> 's \<Rightarrow> vfs_error option) \<Rightarrow> change list \<Rightarrow> 's \<Rightarrow> vfs_error option" where
  "preflight_leaves check [] s = None"
| "preflight_leaves check (c # cs) s =
     (case check c s of Some e \<Rightarrow> Some e | None \<Rightarrow> preflight_leaves check cs s)"

definition admission_error ::
  "'s log_env \<Rightarrow> identity option \<Rightarrow> attribution \<Rightarrow> changeset \<Rightarrow> 's \<Rightarrow> log_error option" where
  "admission_error E ident at cs s =
     (case (case w_preflight (le_substrate E) of
              None \<Rightarrow> None | Some check \<Rightarrow> preflight_leaves check (Leaves cs) s) of
        Some e \<Rightarrow> Some (Preflight e)
      | None \<Rightarrow>
          (case le_preApply E of
             None \<Rightarrow> None
           | Some pre \<Rightarrow> map_option PreApply (pre ident at cs s)))"

text \<open>What follows a commit that left something in the substrate: hook, journal, history, reply, post-commit.\<close>

definition record_commit ::
  "'s log_env \<Rightarrow> nat \<Rightarrow> attribution \<Rightarrow> commit_result \<Rightarrow> leaf_record list \<Rightarrow> 's log_state \<Rightarrow> 's log_state" where
  "record_commit E i at r leaves st =
     (let info = \<lparr>ci_ID = le_newID E (ls_applied st), ci_ChangeSet = Committed r, ci_Hash = CommitHash r,
                  ci_Leaves = fillAfter (le_sha E) leaves (Committed r), ci_Attribution = at\<rparr>;
          rec = commit_info.extend info \<lparr>cj_Time = le_clock E (ls_applied st)\<rparr>;
          events = indexedHistoryRecords (le_sha E) (ci_ID info) (le_clock E (ls_applied st)) at r (ci_Leaves info);
          err = (case le_commitState E of None \<Rightarrow> None | Some hook \<Rightarrow> map_option CommitState (hook info))
      in st\<lparr>ls_journal := ls_journal st @
               (case le_journal E of Some ok \<Rightarrow> if ok rec then [rec] else [] | None \<Rightarrow> []),
            ls_history := ls_history st @
               (case le_history E of Some ok \<Rightarrow> if ok events then events else [] | None \<Rightarrow> []),
            ls_post := ls_post st @ (if le_postCommit E then [info] else []),
            ls_applied := Suc (ls_applied st),
            ls_replies := ls_replies st @ [(i, \<lparr>ap_hash = CommitHash r, ap_err = err\<rparr>)]\<rparr>)"

definition reject :: "nat \<Rightarrow> log_error \<Rightarrow> 's log_state \<Rightarrow> 's log_state" where
  "reject i e st =
     st\<lparr>ls_applied := Suc (ls_applied st),
        ls_replies := ls_replies st @ [(i, \<lparr>ap_hash = '''', ap_err = Some e\<rparr>)]\<rparr>"

definition apply_change ::
  "'s log_env \<Rightarrow> nat \<Rightarrow> identity option \<Rightarrow> attribution \<Rightarrow> changeset \<Rightarrow> 's log_state \<Rightarrow> 's log_state option" where
  "apply_change E i ident at cs st =
     (let w = le_substrate E; s = ls_store st
      in case admission_error E ident at cs s of
           Some e \<Rightarrow> Some (reject i e st)
         | None \<Rightarrow>
             (case capturePreImages (le_sha E) (le_blobs E) (w_fs w s) cs (ls_blobs st) of
                None \<Rightarrow> None
              | Some ((leaves, _), m) \<Rightarrow>
                  (case CommitChangeSet (le_sha E) w cs s of
                     None \<Rightarrow> None
                   | Some (Inl e, s') \<Rightarrow> Some (reject i (CommitFailed e) (st\<lparr>ls_store := s', ls_blobs := m\<rparr>))
                   | Some (Inr r, s') \<Rightarrow>
                       Some (if HasCommitted r
                             then record_commit E i at r leaves (st\<lparr>ls_store := s', ls_blobs := m\<rparr>)
                             else st\<lparr>ls_store := s', ls_blobs := m, ls_applied := Suc (ls_applied st),
                                     ls_replies := ls_replies st @
                                       [(i, \<lparr>ap_hash = CommitHash r, ap_err = None\<rparr>)]\<rparr>))))"

definition apply_task :: "nat \<Rightarrow> ('s \<Rightarrow> string option \<times> 's) \<Rightarrow> 's log_state \<Rightarrow> 's log_state" where
  "apply_task i f st =
     (case f (ls_store st) of
        (err, s') \<Rightarrow>
          st\<lparr>ls_store := s',
             ls_replies := ls_replies st @ [(i, \<lparr>ap_hash = '''', ap_err = map_option TaskFailed err\<rparr>)]\<rparr>)"

fun apply_entry :: "'s log_env \<Rightarrow> 's entry \<Rightarrow> 's log_state \<Rightarrow> 's log_state option" where
  "apply_entry E (ChangeEntry i ident at cs) st = apply_change E i ident at cs st"
| "apply_entry E (TaskEntry i f) st = Some (apply_task i f st)"

text \<open>The sequential specification: entries applied one after the other.\<close>

fun run_entries :: "'s log_env \<Rightarrow> 's entry list \<Rightarrow> 's log_state \<Rightarrow> 's log_state option" where
  "run_entries E [] st = Some st"
| "run_entries E (e # es) st =
     (case apply_entry E e st of None \<Rightarrow> None | Some st' \<Rightarrow> run_entries E es st')"

lemma run_entries_append:
  "run_entries E (es @ fs) st = (case run_entries E es st of None \<Rightarrow> None | Some st' \<Rightarrow> run_entries E fs st')"
  by (induction es arbitrary: st) (auto split: option.split)

subsection \<open>The log as a state machine\<close>

text \<open>
  The queue is the buffered channel. A submitter whose context ends while it waits for its
  reply changes nothing here: its entry stays queued.
\<close>

record 's machine =
  mc_queue :: "'s entry list"
  mc_closed :: bool
  mc_done :: bool
  mc_next :: nat
  mc_log :: "'s log_state"

datatype submit_error = ErrLogClosed | QueueFull

definition submit :: "nat \<Rightarrow> (nat \<Rightarrow> 's entry) \<Rightarrow> 's machine \<Rightarrow> (submit_error + nat) \<times> 's machine" where
  "submit buffer mk M =
     (if mc_closed M then (Inl ErrLogClosed, M)
      else if length (mc_queue M) \<ge> buffer then (Inl QueueFull, M)
      else (Inr (mc_next M), M\<lparr>mc_queue := mc_queue M @ [mk (mc_next M)], mc_next := Suc (mc_next M)\<rparr>))"

definition apply_next :: "'s log_env \<Rightarrow> 's machine \<Rightarrow> 's machine option" where
  "apply_next E M =
     (case mc_queue M of
        [] \<Rightarrow> (if mc_closed M \<and> \<not> mc_done M then Some (M\<lparr>mc_done := True\<rparr>) else None)
      | e # q \<Rightarrow> map_option (\<lambda>st. M\<lparr>mc_queue := q, mc_log := st\<rparr>) (apply_entry E e (mc_log M)))"

definition close_log :: "'s machine \<Rightarrow> 's machine" where
  "close_log M = M\<lparr>mc_closed := True\<rparr>"

text \<open>A send into a full queue waits; it is not a step.\<close>

inductive log_step :: "'s log_env \<Rightarrow> nat \<Rightarrow> 's entry option \<Rightarrow> 's machine \<Rightarrow> 's machine \<Rightarrow> bool" for E buffer where
  accept: "submit buffer mk M = (Inr i, M') \<Longrightarrow> entry_id (mk i) = i \<Longrightarrow> log_step E buffer (Some (mk i)) M M'"
| applied: "apply_next E M = Some M' \<Longrightarrow> log_step E buffer None M M'"
| closed: "log_step E buffer None M (close_log M)"

definition start_log :: "'s log_state \<Rightarrow> 's machine" where
  "start_log st = \<lparr>mc_queue = [], mc_closed = False, mc_done = False, mc_next = 0, mc_log = st\<rparr>"

definition new_log :: "'s \<Rightarrow> 's log_state" where
  "new_log s = \<lparr>ls_store = s, ls_blobs = (\<lambda>h. None), ls_journal = [], ls_history = [], ls_post = [],
     ls_applied = 0, ls_replies = []\<rparr>"

text \<open>A run, with the entries the log accepted in order.\<close>

inductive log_run :: "'s log_env \<Rightarrow> nat \<Rightarrow> 's \<Rightarrow> 's entry list \<Rightarrow> 's machine \<Rightarrow> bool" for E buffer s where
  start: "log_run E buffer s [] (start_log (new_log s))"
| step: "log_run E buffer s es M \<Longrightarrow> log_step E buffer e M M' \<Longrightarrow>
    log_run E buffer s (es @ (case e of Some x \<Rightarrow> [x] | None \<Rightarrow> [])) M'"

subsection \<open>The log refines sequential application\<close>

lemma replies_apply:
  assumes "apply_entry E e st = Some st'"
  shows "map fst (ls_replies st') = map fst (ls_replies st) @ [entry_id e]"
proof (cases e)
  case (ChangeEntry i ident at cs)
  with assms show ?thesis
    by (auto simp: apply_change_def Let_def reject_def record_commit_def split: option.splits sum.splits prod.splits if_splits)
qed (use assms in \<open>auto simp: apply_task_def split: prod.splits\<close>)

lemma replies_run:
  "run_entries E es st = Some st' \<Longrightarrow> map fst (ls_replies st') = map fst (ls_replies st) @ map entry_id es"
proof (induction es arbitrary: st)
  case (Cons e es)
  then obtain st1 where "apply_entry E e st = Some st1" "run_entries E es st1 = Some st'"
    by (auto split: option.splits)
  with Cons.IH [of st1] replies_apply show ?case by fastforce
qed simp

text \<open>The abstraction: the entries applied so far, then the queue.\<close>

definition log_abs :: "'s log_env \<Rightarrow> 's \<Rightarrow> 's entry list \<Rightarrow> 's machine \<Rightarrow> bool" where
  "log_abs E s es M \<longleftrightarrow>
     (\<exists>applied. es = applied @ mc_queue M \<and> run_entries E applied (new_log s) = Some (mc_log M))
     \<and> map entry_id es = [0..<mc_next M]"

lemma log_abs_step:
  assumes "log_abs E s es M" "log_step E buffer e M M'"
  shows "log_abs E s (es @ (case e of Some x \<Rightarrow> [x] | None \<Rightarrow> [])) M'"
  using assms(2)
proof cases
  case (accept mk i)
  then show ?thesis
    using assms(1) by (auto simp: log_abs_def submit_def split: if_splits)
next
  case applied
  show ?thesis
  proof (cases "mc_queue M")
    case Nil
    with applied assms(1) show ?thesis
      by (auto simp: log_abs_def apply_next_def split: if_splits)
  next
    case (Cons x q)
    with applied assms(1) show ?thesis
      by (fastforce simp: log_abs_def apply_next_def run_entries_append)
  qed
next
  case closed
  then show ?thesis
    using assms(1) by (simp add: log_abs_def close_log_def)
qed

lemma log_run_abs: "log_run E buffer s es M \<Longrightarrow> log_abs E s es M"
proof (induction rule: log_run.induct)
  case start
  then show ?case by (simp add: log_abs_def start_log_def)
qed (simp add: log_abs_step)

text \<open>
  C25. However submissions, applications and the closing of the log interleave, the substrate,
  the journal, the history, the notifications and every reply are those of applying a prefix
  of the accepted entries one after the other in the order of acceptance; the rest is queued;
  and each applied entry has exactly one reply.
\<close>

theorem log_is_sequential:
  assumes "log_run E buffer s es M"
  shows "\<exists>applied. es = applied @ mc_queue M
    \<and> run_entries E applied (new_log s) = Some (mc_log M)
    \<and> map fst (ls_replies (mc_log M)) = [0..<length applied]"
proof -
  obtain applied where applied: "es = applied @ mc_queue M" "run_entries E applied (new_log s) = Some (mc_log M)"
    and ids: "map entry_id es = [0..<mc_next M]"
    using log_run_abs [OF assms] by (auto simp: log_abs_def)
  have "map entry_id applied = take (length applied) [0..<mc_next M]"
    using arg_cong [OF ids, of "take (length applied)"] applied(1) by simp
  moreover have "length es = mc_next M"
    using arg_cong [OF ids, of length] by simp
  ultimately have "map entry_id applied = [0..<length applied]"
    using applied(1) by (simp add: take_upt)
  with applied replies_run [OF applied(2)] show ?thesis
    by (auto simp: new_log_def)
qed

subsection \<open>Closing drains the queue\<close>

definition capture_ranked :: "fs \<Rightarrow> (string \<Rightarrow> nat) \<Rightarrow> bool" where
  "capture_ranked F rank \<longleftrightarrow>
     (\<forall>p info es. fs_Stat F p = Inr info \<longrightarrow> Dir info \<longrightarrow> fs_ReadDir F p = Inr es \<longrightarrow>
        (\<forall>e \<in> set es. rank (path_join p (FileName e)) < rank p))"

lemma capture_list_returns:
  assumes ranked: "capture_ranked F rank"
  shows "\<exists>r. capture_list sha store F work out m = Some r"
proof -
  have one: "\<exists>r. capture_list sha store F (c # rest) out m = Some r"
    if "\<And>out m. \<exists>r. capture_list sha store F rest out m = Some r" for c rest out m
    using that
  proof (induction "rank (Target c)" arbitrary: c rest out m rule: less_induct)
    case less
    have many: "\<exists>r. capture_list sha store F (map (child_change c) es @ rest) out m = Some r"
      if "\<forall>e \<in> set es. rank (path_join (Target c) (FileName e)) < rank (Target c)" for es out m
      using that
    proof (induction es arbitrary: out m)
      case (Cons e es)
      then show ?case using less.hyps [of "child_change c e"] by (simp add: child_change_def)
    next
      case Nil
      then show ?case using less.prems by simp
    qed
    show ?case
    proof (cases "removes_dir F c")
      case True
      then obtain info where "fs_Stat F (Target c) = Inr info" "Dir info"
        by (auto simp: removes_dir_def split: sum.splits)
      with ranked True many show ?thesis
        by (subst capture_list.simps) (auto simp: capture_ranked_def split: sum.split)
    next
      case False
      then show ?thesis using less.prems by (simp split: prod.split)
    qed
  qed
  show ?thesis
  proof (induction work arbitrary: out m)
    case Nil
    then show ?case by simp
  next
    case (Cons c rest)
    then show ?case by (rule one)
  qed
qed

text \<open>A substrate whose states are all finite trees.\<close>

definition finite_trees :: "'s wfs \<Rightarrow> bool" where
  "finite_trees w \<longleftrightarrow> (\<forall>s. (\<exists>rank. walk_ranked (w_fs w s) rank) \<and> (\<exists>rank. capture_ranked (w_fs w s) rank))"

lemma CommitChangeSet_returns:
  assumes "walk_ranked (w_fs w s) rank"
  shows "\<exists>r. CommitChangeSet sha w cs s = Some r"
  using captureBatch_returns [OF assms, of "Changes cs"]
  by (auto simp: CommitChangeSet_def split: option.split sum.split prod.split)

lemma apply_entry_returns:
  assumes "finite_trees (le_substrate E)"
  shows "\<exists>st'. apply_entry E e st = Some st'"
proof (cases e)
  case (ChangeEntry i ident at cs)
  let ?w = "le_substrate E"
  obtain rank rank' where "walk_ranked (w_fs ?w (ls_store st)) rank" "capture_ranked (w_fs ?w (ls_store st)) rank'"
    using assms unfolding finite_trees_def by blast
  then obtain x y where
    "capturePreImages (le_sha E) (le_blobs E) (w_fs ?w (ls_store st)) cs (ls_blobs st) = Some x"
    "CommitChangeSet (le_sha E) ?w cs (ls_store st) = Some y"
    using capture_list_returns CommitChangeSet_returns by (metis capturePreImages_def)
  with ChangeEntry show ?thesis
    by (auto simp: apply_change_def Let_def split: option.split sum.split prod.split)
qed simp

fun applies :: "'s log_env \<Rightarrow> nat \<Rightarrow> 's machine \<Rightarrow> 's machine option" where
  "applies E 0 M = Some M"
| "applies E (Suc n) M = (case apply_next E M of None \<Rightarrow> None | Some M' \<Rightarrow> applies E n M')"

lemma applies_run:
  "applies E n M = Some M' \<Longrightarrow> log_run E buffer s es M \<Longrightarrow> log_run E buffer s es M'"
proof (induction n arbitrary: M)
  case (Suc n)
  then obtain M1 where M1: "apply_next E M = Some M1" "applies E n M1 = Some M'"
    by (auto split: option.splits)
  have "log_run E buffer s es M1"
    using log_run.step [OF Suc.prems(2) log_step.applied [OF M1(1)]] by simp
  with Suc.IH M1(2) show ?case by blast
qed simp

lemma applies_drain:
  assumes "finite_trees (le_substrate E)" "mc_closed M" "\<not> mc_done M"
  shows "\<exists>M'. applies E (Suc (length (mc_queue M))) M = Some M' \<and> mc_done M' \<and> mc_queue M' = [] \<and> mc_next M' = mc_next M"
  using assms(2,3)
proof (induction "mc_queue M" arbitrary: M)
  case Nil
  then show ?case by (simp add: apply_next_def)
next
  case (Cons e q)
  obtain st where st: "apply_entry E e (mc_log M) = Some st"
    using apply_entry_returns [OF assms(1)] by blast
  let ?M1 = "M\<lparr>mc_queue := q, mc_log := st\<rparr>"
  have "apply_next E M = Some ?M1"
    using Cons.hyps(2) [symmetric] st by (simp add: apply_next_def)
  then show ?case
    using Cons.hyps(1) [of ?M1] Cons.hyps(2) [symmetric] Cons.prems by simp
qed

text \<open>
  C26. On finite trees, a closed log drains: the applier needs one step per queued entry and
  one to stop, after which nothing is queued, every accepted entry has been applied in order,
  and each has its reply, so no submitter is left waiting.
\<close>

theorem close_drains:
  assumes "finite_trees (le_substrate E)" "log_run E buffer s es M" "mc_closed M" "\<not> mc_done M"
  shows "\<exists>M'. applies E (Suc (length (mc_queue M))) M = Some M' \<and> mc_done M' \<and> mc_queue M' = []
    \<and> run_entries E es (new_log s) = Some (mc_log M')
    \<and> map fst (ls_replies (mc_log M')) = [0..<length es]"
proof -
  obtain M' where M': "applies E (Suc (length (mc_queue M))) M = Some M'" "mc_done M'" "mc_queue M' = []"
    using applies_drain [OF assms(1,3,4)] by blast
  have abs: "log_abs E s es M'"
    using log_run_abs [OF applies_run [OF M'(1) assms(2)]] .
  then have run: "run_entries E es (new_log s) = Some (mc_log M')"
    using M'(3) by (auto simp: log_abs_def)
  have "map entry_id es = [0..<mc_next M']"
    using abs by (simp add: log_abs_def)
  then have "map entry_id es = [0..<length es]"
    by (metis length_map length_upt minus_nat.diff_0)
  with replies_run [OF run] M' run show ?thesis
    by (simp add: new_log_def)
qed

subsection \<open>A run on a concrete substrate\<close>

text \<open>A substrate of one file, its state the content.\<close>

definition note_wfs :: "string wfs" where
  "note_wfs = \<lparr>w_fs = one_file_fs ''/a'',
     w_WriteFileAtomic = (\<lambda>p b opts s. if p = ''/a'' then (Inr b, b) else (Inl ENOTSUP, s)),
     w_Mkdir = (\<lambda>p. unsupported), w_MkdirAll = (\<lambda>p. unsupported),
     w_Remove = (\<lambda>p. unsupported), w_RemoveAll = (\<lambda>p opts. unsupported),
     w_xattr_reader = None, w_xattr_writer = None, w_xattr_maintenance = None,
     w_admitter = None, w_preflight = None\<rparr>"

definition note_env :: "string log_env" where
  "note_env = \<lparr>le_sha = (\<lambda>b. b), le_substrate = note_wfs, le_preApply = None, le_blobs = None,
     le_commitState = None, le_journal = Some (\<lambda>r. True), le_history = None, le_postCommit = True,
     le_newID = (\<lambda>n. ''c''), le_clock = int\<rparr>"

definition note_entry :: "nat \<Rightarrow> string entry" where
  "note_entry i = ChangeEntry i None \<lparr>at_Principal = ''ann'', at_Actor = '''', at_ClientAuth = AuthLevelOther ''''\<rparr> (overwrite ''/a'' ''new'')"

definition note_queued :: "string machine" where
  "note_queued = \<lparr>mc_queue = [note_entry 0], mc_closed = True, mc_done = False, mc_next = 1,
     mc_log = new_log ''old''\<rparr>"

lemma note_run: "log_run note_env 1 ''old'' [note_entry 0] note_queued"
proof -
  let ?M = "(start_log (new_log ''old''))\<lparr>mc_queue := [note_entry 0], mc_next := 1\<rparr>"
  have "log_step note_env 1 (Some (note_entry 0)) (start_log (new_log ''old'')) ?M"
    by (rule log_step.accept [where i = 0]) (simp_all add: submit_def start_log_def note_entry_def)
  from log_run.step [OF log_run.start this] have "log_run note_env 1 ''old'' [note_entry 0] ?M"
    by simp
  from log_run.step [OF this log_step.closed] show ?thesis
    by (simp add: close_log_def start_log_def note_queued_def)
qed

theorem log_is_sequential_witness:
  "mc_queue note_queued = [note_entry 0] \<and> (\<exists>applied. [note_entry 0] = applied @ mc_queue note_queued
     \<and> run_entries note_env applied (new_log ''old'') = Some (mc_log note_queued)
     \<and> map fst (ls_replies (mc_log note_queued)) = [0..<length applied])"
  using log_is_sequential [OF note_run] by (simp add: note_queued_def)

theorem close_drains_witness:
  "\<exists>M'. applies note_env 2 note_queued = Some M' \<and> mc_done M' \<and> map fst (ls_replies (mc_log M')) = [0]"
proof -
  have "finite_trees (le_substrate note_env)"
    by (auto simp: finite_trees_def note_env_def walk_ranked_def capture_ranked_def note_wfs_def one_file_fs_def vfs_File_def
        split: if_splits intro!: exI [where x = "\<lambda>_. 0"])
  from close_drains [OF this note_run] show ?thesis
    by (auto simp: note_queued_def numeral_2_eq_2)
qed

end
