(* ===== verification/History.thy ===== *)
theory History
  imports Pre_Images Scoped_Read
begin

text \<open>
  The history store of pkg/openlore/history.go: every event goes to one global journal and to
  the shard of each path it concerns, a directory of hashed segments under the store. Queries
  read one file, filter it by the session's scope, and answer newest first in pages. The
  digest of a segment, the text of a cursor and the results of the host's file system are
  parameters; a partial append leaves whole records.
\<close>

subsection \<open>The store\<close>

text \<open>A file is the global journal or a shard, by the hashed segments of its directory.\<close>

datatype history_file = Journal | Shard "string list"

type_synonym history_store = "history_file \<Rightarrow> history_record list option"

datatype history_error = AppendFailed | ShardRemoveFailed | ReadFailed | InvalidCursor

record history_env =
  he_sha :: "string \<Rightarrow> string"
  he_append :: "history_file \<Rightarrow> history_record list \<Rightarrow> nat option"
  he_remove :: "history_file \<Rightarrow> bool"
  he_read :: "history_file \<Rightarrow> bool"
  he_order :: "string list \<Rightarrow> string list"

definition shardDir :: "history_env \<Rightarrow> string \<Rightarrow> string list" where
  "shardDir E fileKey =
     (let clean = (case CleanPath fileKey of [] \<Rightarrow> [] | c # cs \<Rightarrow> if c = CHR ''/'' then cs else c # cs)
      in if clean = '''' then [] else map (he_sha E) (split_char CHR ''/'' clean))"

definition filePath :: "history_env \<Rightarrow> string \<Rightarrow> history_file" where
  "filePath E fileKey = Shard (shardDir E fileKey)"

text \<open>\<open>he_append\<close> tells after how many records an append fails; \<open>he_remove\<close> and \<open>he_read\<close> which files do.\<close>

definition appendHistoryRecords ::
  "history_env \<Rightarrow> history_file \<Rightarrow> history_record list \<Rightarrow> history_store \<Rightarrow> history_error option \<times> history_store" where
  "appendHistoryRecords E f rs st =
     (let old = (case st f of None \<Rightarrow> [] | Some l \<Rightarrow> l)
      in case he_append E f rs of
           None \<Rightarrow> (None, st(f \<mapsto> old @ rs))
         | Some k \<Rightarrow> (Some AppendFailed, st(f := if k = 0 then st f else Some (old @ take k rs))))"

definition readHistoryRecords :: "history_env \<Rightarrow> history_store \<Rightarrow> history_file \<Rightarrow> history_error + history_record list" where
  "readHistoryRecords E st f =
     (if he_read E f then Inl ReadFailed else Inr (case st f of None \<Rightarrow> [] | Some l \<Rightarrow> l))"

definition removeHistoryShard :: "history_env \<Rightarrow> history_file \<Rightarrow> history_store \<Rightarrow> history_error option \<times> history_store" where
  "removeHistoryShard E f st = (if he_remove E f then (Some ShardRemoveFailed, st) else (None, st(f := None)))"

fun in_shard_tree :: "string list \<Rightarrow> history_file \<Rightarrow> bool" where
  "in_shard_tree d Journal \<longleftrightarrow> False"
| "in_shard_tree d (Shard e) \<longleftrightarrow> prefix d e"

definition removeHistoryTree :: "history_env \<Rightarrow> string \<Rightarrow> history_store \<Rightarrow> history_error option \<times> history_store" where
  "removeHistoryTree E root st =
     (if he_remove E (filePath E root) then (Some ShardRemoveFailed, st)
      else (None, \<lambda>f. if in_shard_tree (shardDir E root) f then None else st f))"

subsection \<open>Recording\<close>

text \<open>
  The pending appends are a Go map from paths to records; \<open>he_order\<close> is the order in which a
  flush happens to range over it.
\<close>

type_synonym pending = "string list \<times> (string \<Rightarrow> history_record list)"

definition add_pending :: "string \<Rightarrow> history_record \<Rightarrow> pending \<Rightarrow> pending" where
  "add_pending p r P = (List.insert p (fst P), (snd P)(p := snd P p @ [r]))"

definition no_pending :: "pending" where
  "no_pending = ([], \<lambda>f. [])"

fun append_all :: "history_env \<Rightarrow> string list \<Rightarrow> (string \<Rightarrow> history_record list) \<Rightarrow> history_store \<Rightarrow> history_error option \<times> history_store" where
  "append_all E [] P st = (None, st)"
| "append_all E (p # ps) P st =
     (case appendHistoryRecords E (filePath E p) (P p) st of
        (Some e, st') \<Rightarrow> (Some e, st')
      | (None, st') \<Rightarrow> append_all E ps P st')"

definition flush :: "history_env \<Rightarrow> pending \<Rightarrow> history_store \<Rightarrow> history_error option \<times> history_store" where
  "flush E P st = append_all E (he_order E (fst P)) (snd P) st"

definition normalize :: "history_record \<Rightarrow> history_record" where
  "normalize r =
     r\<lparr>hr_FileKey := CleanPath (hr_FileKey r),
       hr_From := if hr_From r = '''' then '''' else CleanPath (hr_From r)\<rparr>"

definition pend_source :: "history_record \<Rightarrow> pending \<Rightarrow> pending" where
  "pend_source r P =
     (if hr_Action r = ''move'' \<and> hr_From r \<noteq> '''' then add_pending (hr_From r) r P else P)"

fun record_all ::
  "history_env \<Rightarrow> history_record list \<Rightarrow> pending \<Rightarrow> history_store \<Rightarrow> history_error option \<times> history_store" where
  "record_all E [] P st = flush E P st"
| "record_all E (r # rs) P st =
     (let P1 = pend_source r P
      in if hr_Action r \<in> {''remove'', ''remove_all''} \<and> hr_CommitID r = '''' then
           (case flush E P1 st of
              (Some e, st1) \<Rightarrow> (Some e, st1)
            | (None, st1) \<Rightarrow>
                (case (if hr_Action r = ''remove'' then removeHistoryShard E (filePath E (hr_FileKey r)) st1
                       else removeHistoryTree E (hr_FileKey r) st1) of
                   (Some e, st2) \<Rightarrow> (Some e, st2)
                 | (None, st2) \<Rightarrow> record_all E rs no_pending st2))
         else record_all E rs (add_pending (hr_FileKey r) r P1) st)"

definition Record :: "history_env \<Rightarrow> history_record list \<Rightarrow> history_store \<Rightarrow> history_error option \<times> history_store" where
  "Record E records st =
     (if records = [] then (None, st)
      else let rs = map normalize records
           in case appendHistoryRecords E Journal rs st of
                (Some e, st1) \<Rightarrow> (Some e, st1)
              | (None, st1) \<Rightarrow> record_all E rs no_pending st1)"

subsection \<open>Queries\<close>

record history_query =
  hq_FileKey :: string
  hq_Roots :: "string list"
  hq_Boundaries :: "string list"
  hq_Principal :: string
  hq_Actor :: string
  hq_Limit :: int
  hq_Cursor :: string
  hq_FollowMoves :: bool

record history_page =
  pg_Records :: "history_record list"
  pg_NextCursor :: string

record history_cursor =
  hc_Boundary :: int
  hc_Offset :: int

record cursor_codec =
  cc_encode :: "history_cursor \<Rightarrow> string"
  cc_decode :: "string \<Rightarrow> history_cursor option"

definition query_scope :: "history_query \<Rightarrow> scoped_read_fs" where
  "query_scope q = newScopedReadFS empty_fs (hq_Roots q) (hq_Boundaries q)"

definition same_event :: "history_record \<Rightarrow> history_record \<Rightarrow> bool" where
  "same_event r c \<longleftrightarrow> hr_CommitID c = hr_CommitID r \<and> hr_Time c = hr_Time r
     \<and> hr_FileKey c = hr_FileKey r \<and> hr_From c = hr_From r"

fun cutoff_index :: "history_record \<Rightarrow> history_record list \<Rightarrow> nat option" where
  "cutoff_index r [] = None"
| "cutoff_index r (c # cs) = (if same_event r c then Some 0 else map_option Suc (cutoff_index r cs))"

text \<open>
  The loop of \<open>followMoves\<close>: the records still to read, the last one first, and the lineage
  collected so far, newest first. Shards that contradict each other can make it run forever.
\<close>

partial_function (option) follow ::
  "history_env \<Rightarrow> history_store \<Rightarrow> scoped_read_fs \<Rightarrow> string \<Rightarrow> history_record list \<Rightarrow> history_record list
     \<Rightarrow> (history_error + history_record list) option" where
  "follow E st sc tracked remaining newest =
     (case remaining of
        [] \<Rightarrow> Some (Inr newest)
      | r # rest \<Rightarrow>
          if hr_FileKey r \<noteq> tracked \<and> hr_From r \<noteq> tracked then follow E st sc tracked rest newest
          else if hr_Action r = ''move'' \<and> hr_From r = tracked \<and> hr_FileKey r \<noteq> tracked \<and> newest \<noteq> []
          then Some (Inr newest)
          else if hr_Action r = ''move'' \<and> hr_FileKey r = tracked then
            if \<not> within sc (hr_From r) then Some (Inr newest)
            else (case readHistoryRecords E st (filePath E (hr_From r)) of
                    Inl e \<Rightarrow> Some (Inl e)
                  | Inr previous \<Rightarrow>
                      (case cutoff_index r previous of
                         None \<Rightarrow> Some (Inr (newest @ [r]))
                       | Some k \<Rightarrow> follow E st sc (hr_From r) (rev (take k previous)) (newest @ [r])))
          else follow E st sc tracked rest (newest @ [r]))"

definition followMoves ::
  "history_env \<Rightarrow> history_store \<Rightarrow> history_query \<Rightarrow> history_record list \<Rightarrow> (history_error + history_record list) option" where
  "followMoves E st q records =
     map_option (map_sum id rev) (follow E st (query_scope q) (CleanPath (hq_FileKey q)) (rev records) [])"

definition query_keeps :: "history_query \<Rightarrow> history_record \<Rightarrow> bool" where
  "query_keeps q r \<longleftrightarrow>
     \<not> (hq_FileKey q \<noteq> '''' \<and> \<not> hq_FollowMoves q
        \<and> hr_FileKey r \<noteq> CleanPath (hq_FileKey q) \<and> hr_From r \<noteq> CleanPath (hq_FileKey q))
     \<and> \<not> (\<not> within (query_scope q) (hr_FileKey r) \<or> hr_From r \<noteq> '''' \<and> \<not> within (query_scope q) (hr_From r))
     \<and> \<not> (hq_Principal q \<noteq> '''' \<and> at_Principal (hr_Attribution r) \<noteq> hq_Principal q
          \<or> hq_Actor q \<noteq> '''' \<and> at_Actor (hr_Attribution r) \<noteq> hq_Actor q)"

definition query_matches ::
  "history_env \<Rightarrow> history_query \<Rightarrow> history_store \<Rightarrow> (history_error + history_record list) option" where
  "query_matches E q st =
     (case readHistoryRecords E st (if hq_FileKey q = '''' then Journal else filePath E (hq_FileKey q)) of
        Inl e \<Rightarrow> Some (Inl e)
      | Inr records \<Rightarrow>
          map_option (map_sum id (filter (query_keeps q)))
            (if hq_FileKey q \<noteq> '''' \<and> hq_FollowMoves q then followMoves E st q records else Some (Inr records)))"

definition parseHistoryCursor :: "cursor_codec \<Rightarrow> string \<Rightarrow> int \<Rightarrow> history_error + history_cursor" where
  "parseHistoryCursor C encoded n =
     (if encoded = '''' then Inr \<lparr>hc_Boundary = n, hc_Offset = 0\<rparr>
      else case cc_decode C encoded of
             None \<Rightarrow> Inl InvalidCursor
           | Some c \<Rightarrow>
               if hc_Boundary c < 0 \<or> hc_Boundary c > n \<or> hc_Offset c < 0 \<or> hc_Offset c > hc_Boundary c
               then Inl InvalidCursor else Inr c)"

definition defaultHistoryPageSize :: int where
  "defaultHistoryPageSize = 100"

definition history_page_of :: "cursor_codec \<Rightarrow> history_query \<Rightarrow> history_record list \<Rightarrow> history_error + history_page" where
  "history_page_of C q ms =
     (let limit = (if hq_Limit q \<le> 0 then defaultHistoryPageSize else hq_Limit q)
      in case parseHistoryCursor C (hq_Cursor q) (int (length ms)) of
           Inl e \<Rightarrow> Inl e
         | Inr c \<Rightarrow>
             let start = hc_Boundary c - hc_Offset c
             in if start \<le> 0 then Inr \<lparr>pg_Records = [], pg_NextCursor = ''''\<rparr>
                else let end' = max (start - limit) 0;
                         records = map (\<lambda>i. ms ! nat i) (rev [end'..start - 1])
                     in Inr \<lparr>pg_Records = records,
                             pg_NextCursor = if end' > 0
                               then cc_encode C (c\<lparr>hc_Offset := hc_Offset c + int (length records)\<rparr>) else ''''\<rparr>)"

definition Query :: "history_env \<Rightarrow> cursor_codec \<Rightarrow> history_query \<Rightarrow> history_store \<Rightarrow> (history_error + history_page) option" where
  "Query E C q st =
     (if hq_FileKey q \<noteq> '''' \<and> \<not> within (query_scope q) (hq_FileKey q)
      then Some (Inr \<lparr>pg_Records = [], pg_NextCursor = ''''\<rparr>)
      else case query_matches E q st of
             None \<Rightarrow> None
           | Some (Inl e) \<Rightarrow> Some (Inl e)
           | Some (Inr ms) \<Rightarrow> Some (history_page_of C q ms))"

subsection \<open>The reader's loop\<close>

text \<open>
  A reader follows cursors until there is none. The store may grow between two pages; \<open>page k\<close>
  is the answer to the \<open>k\<close>-th request.
\<close>

fun collect_pages ::
  "(nat \<Rightarrow> string \<Rightarrow> ('e + 'r list \<times> string) option) \<Rightarrow> nat \<Rightarrow> nat \<Rightarrow> string \<Rightarrow> ('e + 'r list) option" where
  "collect_pages page 0 k cursor = None"
| "collect_pages page (Suc fuel) k cursor =
     (case page k cursor of
        None \<Rightarrow> None
      | Some (Inl e) \<Rightarrow> Some (Inl e)
      | Some (Inr (rs, nxt)) \<Rightarrow>
          if nxt = '''' then Some (Inr rs)
          else map_option (map_sum id ((@) rs)) (collect_pages page fuel (Suc k) nxt))"

text \<open>
  What the reader relies on: \<open>at s c n\<close> says that the cursor \<open>c\<close> stands, in the state \<open>s\<close>, after
  the first \<open>n\<close> matches, the ones not yet read.
\<close>

locale paged_store =
  fixes matches :: "'s \<Rightarrow> 'r list"
    and page :: "'s \<Rightarrow> string \<Rightarrow> ('e + 'r list \<times> string) option"
    and at :: "'s \<Rightarrow> string \<Rightarrow> nat \<Rightarrow> bool"
    and grows :: "'s \<Rightarrow> 's \<Rightarrow> bool"
  assumes at_bound: "at s c n \<Longrightarrow> n \<le> length (matches s)"
    and page_at: "at s c n \<Longrightarrow> \<exists>j nxt. j \<le> n
      \<and> page s c = Some (Inr (rev (take j (drop (n - j) (matches s))), nxt))
      \<and> (if j = n then nxt = '''' else 0 < j \<and> nxt \<noteq> '''' \<and> at s nxt (n - j))"
    and grows_matches: "grows s s' \<Longrightarrow> prefix (matches s) (matches s')"
    and grows_at: "grows s s' \<Longrightarrow> at s c n \<Longrightarrow> c \<noteq> '''' \<Longrightarrow> at s' c n"
begin

lemma collect_all:
  assumes "\<forall>k. grows (stores k) (stores (Suc k))" "at (stores k) c n" "n < fuel"
  shows "collect_pages (\<lambda>k. page (stores k)) fuel k c = Some (Inr (rev (take n (matches (stores k)))))"
  using assms(2,3)
proof (induction fuel arbitrary: k c n)
  case (Suc fuel)
  obtain j nxt where j: "j \<le> n" "page (stores k) c = Some (Inr (rev (take j (drop (n - j) (matches (stores k)))), nxt))"
    and nxt: "if j = n then nxt = '''' else 0 < j \<and> nxt \<noteq> '''' \<and> at (stores k) nxt (n - j)"
    using page_at [OF Suc.prems(1)] by blast
  show ?case
  proof (cases "j = n")
    case True
    with j nxt show ?thesis by simp
  next
    case False
    with nxt assms(1) have at: "at (stores (Suc k)) nxt (n - j)" and ne: "nxt \<noteq> ''''" "0 < j"
      using grows_at [of "stores k" "stores (Suc k)"] by auto
    have "take (n - j) (matches (stores (Suc k))) = take (n - j) (matches (stores k))"
      using grows_matches [of "stores k" "stores (Suc k)"] assms(1) at_bound [OF Suc.prems(1)]
      by (auto simp: prefix_def)
    moreover have "take n (matches (stores k)) = take (n - j) (matches (stores k)) @ take j (drop (n - j) (matches (stores k)))"
      using j(1) by (metis le_add_diff_inverse2 take_add)
    moreover have "n - j < fuel"
      using Suc.prems(2) ne(2) j(1) by linarith
    ultimately show ?thesis
      using Suc.IH [OF at] j(2) ne(1) by simp
  qed
qed simp

end

subsection \<open>Records are appended\<close>

abbreviation contents :: "history_store \<Rightarrow> history_file \<Rightarrow> history_record list" where
  "contents st f \<equiv> (case st f of None \<Rightarrow> [] | Some l \<Rightarrow> l)"

definition appended :: "history_store \<Rightarrow> history_store \<Rightarrow> bool" where
  "appended st st' \<longleftrightarrow> (\<forall>f. prefix (contents st f) (contents st' f))"

lemma appended_refl [simp]: "appended st st"
  by (simp add: appended_def)

lemma appended_trans: "appended st st1 \<Longrightarrow> appended st1 st2 \<Longrightarrow> appended st st2"
  by (meson appended_def prefix_order.trans)

lemma appendHistoryRecords_appended: "appended st (snd (appendHistoryRecords E f rs st))"
  by (auto simp: appended_def appendHistoryRecords_def Let_def split: option.split)

lemma append_all_appended: "appended st (snd (append_all E ps P st))"
proof (induction ps arbitrary: st)
  case (Cons p ps)
  obtain e st1 where st1: "appendHistoryRecords E (filePath E p) (P p) st = (e, st1)"
    by (cases "appendHistoryRecords E (filePath E p) (P p) st")
  then have "appended st st1"
    using appendHistoryRecords_appended [of st E] by (metis snd_conv)
  with st1 Cons.IH [of st1] show ?case
    by (auto split: option.split intro: appended_trans)
qed simp

definition pend :: "history_record list \<Rightarrow> pending \<Rightarrow> pending" where
  "pend rs P = fold (\<lambda>r P. add_pending (hr_FileKey r) r (pend_source r P)) rs P"

lemma record_all_commits:
  "\<forall>r \<in> set rs. hr_CommitID r \<noteq> '''' \<Longrightarrow> record_all E rs P st = flush E (pend rs P) st"
  by (induction rs arbitrary: P) (simp_all add: pend_def)

lemma hr_CommitID_normalize [simp]: "hr_CommitID (normalize r) = hr_CommitID r"
  by (simp add: normalize_def)

lemma Record_appended:
  assumes "\<forall>r \<in> set rs. hr_CommitID r \<noteq> ''''"
  shows "appended st (snd (Record E rs st))"
proof -
  obtain e st1 where st1: "appendHistoryRecords E Journal (map normalize rs) st = (e, st1)"
    by (cases "appendHistoryRecords E Journal (map normalize rs) st")
  then have "appended st st1"
    using appendHistoryRecords_appended [of st E] by (metis snd_conv)
  moreover have "appended st1 (snd (record_all E (map normalize rs) no_pending st1))"
    using assms append_all_appended by (simp add: record_all_commits flush_def)
  ultimately show ?thesis
    using st1 by (auto simp: Record_def Let_def split: option.split intro: appended_trans)
qed

subsection \<open>Pages\<close>

definition codec_ok :: "cursor_codec \<Rightarrow> bool" where
  "codec_ok C \<longleftrightarrow> (\<forall>c. cc_encode C c \<noteq> '''' \<and> cc_decode C (cc_encode C c) = Some c)"

text \<open>The matches of a query that does not follow moves.\<close>

definition plain_matches :: "history_env \<Rightarrow> history_query \<Rightarrow> history_store \<Rightarrow> history_record list" where
  "plain_matches E q st =
     filter (query_keeps q) (contents st (if hq_FileKey q = '''' then Journal else filePath E (hq_FileKey q)))"

definition plain_query :: "history_env \<Rightarrow> history_query \<Rightarrow> bool" where
  "plain_query E q \<longleftrightarrow> \<not> (hq_FileKey q \<noteq> '''' \<and> hq_FollowMoves q)
     \<and> (hq_FileKey q \<noteq> '''' \<longrightarrow> within (query_scope q) (hq_FileKey q))
     \<and> \<not> he_read E (if hq_FileKey q = '''' then Journal else filePath E (hq_FileKey q))"

lemma query_matches_plain:
  "plain_query E q \<Longrightarrow> query_matches E q st = Some (Inr (plain_matches E q st))"
  by (auto simp: plain_query_def query_matches_def plain_matches_def readHistoryRecords_def)

definition query_page :: "history_env \<Rightarrow> cursor_codec \<Rightarrow> history_query \<Rightarrow> history_store \<Rightarrow> string
    \<Rightarrow> (history_error + history_record list \<times> string) option" where
  "query_page E C q st c =
     map_option (map_sum id (\<lambda>p. (pg_Records p, pg_NextCursor p))) (Query E C (q\<lparr>hq_Cursor := c\<rparr>) st)"

definition cursor_at :: "history_env \<Rightarrow> cursor_codec \<Rightarrow> history_query \<Rightarrow> history_store \<Rightarrow> string \<Rightarrow> nat \<Rightarrow> bool" where
  "cursor_at E C q st c n \<longleftrightarrow> codec_ok C \<and> plain_query E q
     \<and> (\<exists>hc. parseHistoryCursor C c (int (length (plain_matches E q st))) = Inr hc
            \<and> int n = hc_Boundary hc - hc_Offset hc)"

lemma parse_bounds:
  "parseHistoryCursor C c (int n) = Inr hc \<Longrightarrow> 0 \<le> hc_Offset hc \<and> hc_Offset hc \<le> hc_Boundary hc \<and> hc_Boundary hc \<le> int n"
  by (auto simp: parseHistoryCursor_def split: if_splits option.splits)

lemma parse_encode:
  assumes "codec_ok C" "0 \<le> hc_Offset hc" "hc_Offset hc \<le> hc_Boundary hc" "hc_Boundary hc \<le> int n"
  shows "parseHistoryCursor C (cc_encode C hc) (int n) = Inr hc"
  using assms by (auto simp: parseHistoryCursor_def codec_ok_def)

lemma records_slice:
  assumes "n \<le> length ms" "j \<le> n"
  shows "map (\<lambda>i. ms ! nat i) (rev [int (n - j)..int n - 1]) = rev (take j (drop (n - j) ms))"
proof -
  have "map (\<lambda>i. ms ! nat i) [int (n - j)..int n - 1] = take j (drop (n - j) ms)"
    using assms by (intro nth_equalityI) (auto simp: nth_upto nat_add_distrib nat_diff_distrib)
  then show ?thesis
    by (simp only: rev_map [symmetric])
qed

lemma plain_query_cursor [simp]: "plain_query E (q\<lparr>hq_Cursor := c\<rparr>) = plain_query E q"
  by (simp add: plain_query_def query_scope_def)

lemma query_keeps_cursor [simp]: "query_keeps (q\<lparr>hq_Cursor := c\<rparr>) = query_keeps q"
  by (rule ext) (simp add: query_keeps_def query_scope_def)

lemma plain_matches_cursor [simp]: "plain_matches E (q\<lparr>hq_Cursor := c\<rparr>) st = plain_matches E q st"
  by (simp add: plain_matches_def)

lemma query_page_plain:
  assumes "plain_query E q"
  shows "query_page E C q st c =
    Some (map_sum id (\<lambda>p. (pg_Records p, pg_NextCursor p)) (history_page_of C (q\<lparr>hq_Cursor := c\<rparr>) (plain_matches E q st)))"
proof -
  have "query_matches E (q\<lparr>hq_Cursor := c\<rparr>) st = Some (Inr (plain_matches E q st))"
    using query_matches_plain [of E "q\<lparr>hq_Cursor := c\<rparr>"] assms by simp
  moreover have "\<not> (hq_FileKey q \<noteq> '''' \<and> \<not> within (query_scope (q\<lparr>hq_Cursor := c\<rparr>)) (hq_FileKey q))"
    using assms by (auto simp: plain_query_def query_scope_def)
  ultimately show ?thesis
    by (auto simp: query_page_def Query_def)
qed

lemma history_page_of_slice:
  assumes "parseHistoryCursor C (hq_Cursor q) (int (length ms)) = Inr hc"
    and "hc_Boundary hc - hc_Offset hc = int n"
    and "max (int n - (if hq_Limit q \<le> 0 then defaultHistoryPageSize else hq_Limit q)) 0 = int m" "0 < n"
  shows "history_page_of C q ms =
    (let rs = map (\<lambda>i. ms ! nat i) (rev [int m..int n - 1])
     in Inr \<lparr>pg_Records = rs,
          pg_NextCursor = if 0 < m then cc_encode C (hc\<lparr>hc_Offset := hc_Offset hc + int (length rs)\<rparr>) else ''''\<rparr>)"
  using assms(1,4) by (simp only: history_page_of_def Let_def assms(2,3) sum.case) simp

lemma query_page_at:
  assumes at: "cursor_at E C q st c n"
  shows "\<exists>j nxt. j \<le> n \<and> query_page E C q st c = Some (Inr (rev (take j (drop (n - j) (plain_matches E q st))), nxt))
    \<and> (if j = n then nxt = '''' else 0 < j \<and> nxt \<noteq> '''' \<and> cursor_at E C q st nxt (n - j))"
proof -
  let ?ms = "plain_matches E q st"
  obtain hc where hc: "parseHistoryCursor C c (int (length ?ms)) = Inr hc" "int n = hc_Boundary hc - hc_Offset hc"
    and C: "codec_ok C" and plain: "plain_query E q"
    using at by (auto simp: cursor_at_def)
  have bounds: "0 \<le> hc_Offset hc" "hc_Offset hc \<le> hc_Boundary hc" "hc_Boundary hc \<le> int (length ?ms)"
    using parse_bounds [OF hc(1)] by auto
  define l where "l = (if hq_Limit q \<le> 0 then defaultHistoryPageSize else hq_Limit q)"
  have l: "0 < l"
    by (simp add: l_def defaultHistoryPageSize_def)
  define j where "j = min n (nat l)"
  have j: "j \<le> n" "max (int n - l) 0 = int (n - j)" and jn: "j \<noteq> n \<Longrightarrow> 0 < j \<and> j < n"
    using l by (auto simp: j_def)
  have records: "map (\<lambda>i. ?ms ! nat i) (rev [int (n - j)..int n - 1]) = rev (take j (drop (n - j) ?ms))"
    using records_slice [of n ?ms j] j bounds hc(2) by linarith
  let ?nxt = "if int (n - j) > 0 then cc_encode C (hc\<lparr>hc_Offset := hc_Offset hc + int j\<rparr>) else ''''"
  have len: "length (take j (drop (n - j) ?ms)) = j"
    using j(1) bounds hc(2) by simp
  have "history_page_of C (q\<lparr>hq_Cursor := c\<rparr>) ?ms =
      Inr \<lparr>pg_Records = rev (take j (drop (n - j) ?ms)), pg_NextCursor = ?nxt\<rparr>"
  proof (cases "n = 0")
    case True
    then show ?thesis
      using hc j by (simp add: history_page_of_def Let_def)
  next
    case False
    have "max (int n - (if hq_Limit (q\<lparr>hq_Cursor := c\<rparr>) \<le> 0 then defaultHistoryPageSize
        else hq_Limit (q\<lparr>hq_Cursor := c\<rparr>))) 0 = int (n - j)"
      using j(2) unfolding l_def by (simp split: if_splits)
    then have "history_page_of C (q\<lparr>hq_Cursor := c\<rparr>) ?ms =
        (let rs = map (\<lambda>i. ?ms ! nat i) (rev [int (n - j)..int n - 1])
         in Inr \<lparr>pg_Records = rs, pg_NextCursor = if 0 < n - j
              then cc_encode C (hc\<lparr>hc_Offset := hc_Offset hc + int (length rs)\<rparr>) else ''''\<rparr>)"
      using history_page_of_slice [of C "q\<lparr>hq_Cursor := c\<rparr>" ?ms hc n "n - j"] hc False by simp
    then show ?thesis
      by (simp only: Let_def records len length_rev of_nat_0_less_iff)
  qed
  then have page: "query_page E C q st c = Some (Inr (rev (take j (drop (n - j) ?ms)), ?nxt))"
    by (simp add: query_page_plain [OF plain])
  have "cursor_at E C q st (cc_encode C (hc\<lparr>hc_Offset := hc_Offset hc + int j\<rparr>)) (n - j)"
    using C plain bounds hc(2) j(1)
    by (simp add: cursor_at_def parse_encode of_nat_diff)
  with page j(1) jn C show ?thesis
    by (intro exI [of _ j] exI [of _ ?nxt]) (auto simp: codec_ok_def)
qed

lemma plain_matches_appended:
  "appended st st' \<Longrightarrow> prefix (plain_matches E q st) (plain_matches E q st')"
  by (auto simp: appended_def plain_matches_def prefix_def elim!: allE [of _ "if hq_FileKey q = '''' then Journal else filePath E (hq_FileKey q)"])

interpretation jsonl: paged_store "plain_matches E q" "query_page E C q" "cursor_at E C q" appended
  for E C q
proof (unfold_locales, goal_cases)
  case (1 st c n)
  then show ?case
    by (auto simp: cursor_at_def dest: parse_bounds)
next
  case (2 st c n)
  then show ?case by (rule query_page_at)
next
  case (3 st st')
  then show ?case by (rule plain_matches_appended)
next
  case (4 st st' c n)
  then have "length (plain_matches E q st) \<le> length (plain_matches E q st')"
    by (meson plain_matches_appended prefix_length_le)
  with 4 show ?case
    by (auto simp: cursor_at_def parseHistoryCursor_def split: option.splits if_splits)
qed


subsection \<open>A store with one move\<close>

definition sample_event :: "string \<Rightarrow> string \<Rightarrow> string \<Rightarrow> string \<Rightarrow> history_record" where
  "sample_event cid action key from =
     \<lparr>hr_CommitID = cid, hr_Time = 0,
      hr_Attribution = \<lparr>at_Principal = ''ann'', at_Actor = '''', at_ClientAuth = AuthLevelOther ''''\<rparr>,
      hr_FileKey = key, hr_Action = action, hr_ContentHash = '''', hr_From = from\<rparr>"

definition sample_events :: "history_record list" where
  "sample_events = [sample_event ''c1'' ''write'' ''/a'' '''', sample_event ''c2'' ''move'' ''/b'' ''/a'']"

definition sample_env :: history_env where
  "sample_env = \<lparr>he_sha = (\<lambda>s. s), he_append = (\<lambda>f rs. None), he_remove = (\<lambda>f. False),
     he_read = (\<lambda>f. False), he_order = (\<lambda>ps. ps)\<rparr>"

definition sample_store :: history_store where
  "sample_store = snd (Record sample_env sample_events (\<lambda>f. None))"

definition sample_query :: "string \<Rightarrow> bool \<Rightarrow> history_query" where
  "sample_query key moves = \<lparr>hq_FileKey = key, hq_Roots = [''/''], hq_Boundaries = [], hq_Principal = '''',
     hq_Actor = '''', hq_Limit = 0, hq_Cursor = '''', hq_FollowMoves = moves\<rparr>"

text \<open>A codec that writes the two numbers in unary.\<close>

definition sample_codec :: cursor_codec where
  "sample_codec = \<lparr>cc_encode = (\<lambda>c. (if hc_Boundary c < 0 then ''-'' else ''+'') @ replicate (nat \<bar>hc_Boundary c\<bar>) CHR ''b''
       @ (if hc_Offset c < 0 then ''-'' else ''+'') @ replicate (nat \<bar>hc_Offset c\<bar>) CHR ''o''),
     cc_decode = (\<lambda>s. case s of [] \<Rightarrow> None
       | x # t \<Rightarrow> (let b = takeWhile (\<lambda>c. c = CHR ''b'') t; u = dropWhile (\<lambda>c. c = CHR ''b'') t
           in case u of [] \<Rightarrow> None
              | y # v \<Rightarrow> Some \<lparr>hc_Boundary = (if x = CHR ''-'' then - int (length b) else int (length b)),
                               hc_Offset = (if y = CHR ''-'' then - int (length v) else int (length v))\<rparr>))\<rparr>"

lemma sample_codec_ok: "codec_ok sample_codec"
proof -
  have "takeWhile (\<lambda>c. c = CHR ''b'') (replicate n CHR ''b'' @ y # v) = replicate n CHR ''b''"
    "dropWhile (\<lambda>c. c = CHR ''b'') (replicate n CHR ''b'' @ y # v) = y # v" if "y \<noteq> CHR ''b''" for n y v
    using that by (induction n) auto
  then show ?thesis
    by (auto simp: codec_ok_def sample_codec_def Let_def)
qed

definition sample_stores :: "nat \<Rightarrow> history_store" where
  "sample_stores k = ((\<lambda>st. snd (Record sample_env sample_events st)) ^^ k) sample_store"


subsection \<open>The history a session sees\<close>

text \<open>The fields of a session's docset rows that the history's scope reads.\<close>

record docset_info =
  di_Name :: string
  di_Paths :: "string list"
  di_AliasTarget :: string
  di_Grants :: "string list"

definition sessionDocsets :: "server \<Rightarrow> identity \<Rightarrow> docset_info list" where
  "sessionDocsets s i =
     sort_key di_Name (concat (map (\<lambda>(name, ds).
       case effectiveGrantNames s i name of
         None \<Rightarrow> []
       | Some names \<Rightarrow>
           map (\<lambda>pm. \<lparr>di_Name = name, di_Paths = [displayPath pm], di_AliasTarget = '''', di_Grants = names\<rparr>) (Paths ds)
           @ map (\<lambda>a. \<lparr>di_Name = name, di_Paths = [CleanPath a], di_AliasTarget = primaryDisplayPath ds,
               di_Grants = names\<rparr>) (Aliases ds)) (Docsets (sv_auth s))))"

definition historyRoots :: "docset_info list \<Rightarrow> string list" where
  "historyRoots rows = concat (map di_Paths rows)"

definition historyQuery :: "server \<Rightarrow> identity \<Rightarrow> history_query" where
  "historyQuery s i =
     \<lparr>hq_FileKey = '''', hq_Roots = historyRoots (sessionDocsets s (liveReadIdentity s i)),
      hq_Boundaries = allDocsetRoots s, hq_Principal = '''', hq_Actor = '''', hq_Limit = 0,
      hq_Cursor = '''', hq_FollowMoves = False\<rparr>"

text \<open>
  The shell's history command: the scope is the session's at the time of the call, the limit
  the largest int; \<open>line\<close> renders a record.
\<close>

definition scoped_history_query ::
  "history_env \<Rightarrow> cursor_codec \<Rightarrow> (history_record \<Rightarrow> string) \<Rightarrow> history_query \<Rightarrow> history_query
     \<Rightarrow> (nat \<Rightarrow> history_store) \<Rightarrow> nat \<Rightarrow> (history_error + string) option" where
  "scoped_history_query E C line scope q stores fuel =
     (let q' = q\<lparr>hq_Roots := hq_Roots scope, hq_Boundaries := hq_Boundaries scope, hq_Limit := 2 ^ 63 - 1\<rparr>
      in map_option (map_sum id (\<lambda>rs. concat (map (\<lambda>r. line r @ [CHR 0x0A]) rs)))
           (collect_pages (\<lambda>k. query_page E C q' (stores k)) fuel 0 (hq_Cursor q)))"

definition history_by_actor :: "string \<Rightarrow> string \<Rightarrow> history_query" where
  "history_by_actor who actor =
     \<lparr>hq_FileKey = '''', hq_Roots = [], hq_Boundaries = [], hq_Principal = who, hq_Actor = actor,
      hq_Limit = 0, hq_Cursor = '''', hq_FollowMoves = False\<rparr>"

definition history_by_path :: "string \<Rightarrow> history_query" where
  "history_by_path p = (history_by_actor '''' '''')\<lparr>hq_FileKey := p, hq_FollowMoves := True\<rparr>"

lemma query_matches_keeps:
  "query_matches E q st = Some (Inr ms) \<Longrightarrow> \<forall>r \<in> set ms. query_keeps q r"
  by (auto simp: query_matches_def map_sum_Inr split: sum.splits if_splits)

lemma Query_records:
  assumes "Query E C q st = Some (Inr p)" "r \<in> set (pg_Records p)"
  shows "query_keeps q r"
proof -
  obtain ms where ms: "query_matches E q st = Some (Inr ms)" "history_page_of C q ms = Inr p"
    using assms by (auto simp: Query_def split: if_splits option.splits sum.splits)
  have "r \<in> set ms"
    using ms(2) assms(2)
    by (auto simp: history_page_of_def Let_def split: sum.splits if_splits dest!: parse_bounds intro!: nth_mem;
        auto simp: max_def nat_less_iff split: if_splits)
  with query_matches_keeps [OF ms(1)] show ?thesis by blast
qed

lemma historyRoots_iff:
  "root \<in> set (historyRoots (sessionDocsets s i)) \<longleftrightarrow>
     (\<exists>(name, ds) \<in> set (Docsets (sv_auth s)). effectiveGrantNames s i name \<noteq> None
        \<and> root \<in> displayPath ` set (Paths ds) \<union> CleanPath ` set (Aliases ds))"
proof -
  let ?rows = "\<lambda>(name, ds). case effectiveGrantNames s i name of
      None \<Rightarrow> []
    | Some names \<Rightarrow>
        map (\<lambda>pm. \<lparr>di_Name = name, di_Paths = [displayPath pm], di_AliasTarget = '''', di_Grants = names\<rparr>) (Paths ds)
        @ map (\<lambda>a. \<lparr>di_Name = name, di_Paths = [CleanPath a], di_AliasTarget = primaryDisplayPath ds,
            di_Grants = names\<rparr>) (Aliases ds)"
  have rows: "(\<exists>d \<in> set (?rows nd). root \<in> set (di_Paths d)) \<longleftrightarrow>
      (case nd of (name, ds) \<Rightarrow> effectiveGrantNames s i name \<noteq> None
        \<and> root \<in> displayPath ` set (Paths ds) \<union> CleanPath ` set (Aliases ds))" for nd
    by (cases nd, cases "effectiveGrantNames s i (fst nd)") (auto simp: bex_Un)
  have "root \<in> set (historyRoots (sessionDocsets s i)) \<longleftrightarrow>
      (\<exists>nd \<in> set (Docsets (sv_auth s)). \<exists>d \<in> set (?rows nd). root \<in> set (di_Paths d))"
    by (simp add: historyRoots_def sessionDocsets_def)
  then show ?thesis
    unfolding rows by blast
qed

text \<open>
  A record a session's history query returns concerns paths whose longest covering root is
  a path or an alias of a docset that the session's policy holds a grant on, never a path of a
  docset it holds none on.
\<close>

theorem session_history_confined:
  assumes "hq_Roots q = hq_Roots (historyQuery s i)" "hq_Boundaries q = hq_Boundaries (historyQuery s i)"
    and "Query E C q st = Some (Inr p)" "r \<in> set (pg_Records p)" "path = hr_FileKey r \<or> hr_From r \<noteq> '''' \<and> path = hr_From r"
  shows "\<exists>(name, ds) \<in> set (Docsets (sv_auth s)). effectiveGrantNames s (liveReadIdentity s i) name \<noteq> None
    \<and> (\<exists>root \<in> displayPath ` set (Paths ds) \<union> CleanPath ` set (Aliases ds).
         pathWithinRoot root (CleanPath path)
         \<and> (\<forall>d \<in> set (allDocsetRoots s). pathWithinRoot d (CleanPath path) \<longrightarrow> length d \<le> length root))"
proof -
  have "within (query_scope q) path"
    using Query_records [OF assms(3,4)] assms(5) by (auto simp: query_keeps_def)
  then obtain root where root: "root \<in> CleanPath ` set (hq_Roots q)" "pathWithinRoot root (CleanPath path)"
    and best: "\<forall>d \<in> CleanPath ` set (hq_Boundaries q). pathWithinRoot d (CleanPath path) \<longrightarrow> length d \<le> length root"
    by (auto simp: within_governed governed_by_def query_scope_def newScopedReadFS_def)
  obtain root' where root': "root' \<in> set (historyRoots (sessionDocsets s (liveReadIdentity s i)))" "root = CleanPath root'"
    using root(1) assms(1) by (auto simp: historyQuery_def)
  then have "root = root'"
    by (auto simp: historyRoots_iff)
  moreover have "\<forall>d \<in> set (allDocsetRoots s). CleanPath d = d"
    using allDocsetRoots_clean by blast
  ultimately show ?thesis
    using root' root(2) best assms(2)
    by (fastforce simp: historyRoots_iff historyQuery_def image_iff)
qed

definition docs_store :: history_store where
  "docs_store = snd (Record sample_env [sample_event ''c1'' ''write'' ''/d/x'' ''''] (\<lambda>f. None))"

theorem session_history_confined_witness:
  "\<exists>(name, ds) \<in> set (Docsets (sv_auth sample_server)).
     effectiveGrantNames sample_server (liveReadIdentity sample_server (sample_caller ''ann'')) name \<noteq> None
     \<and> (\<exists>root \<in> displayPath ` set (Paths ds) \<union> CleanPath ` set (Aliases ds). pathWithinRoot root (CleanPath ''/d/x''))"
proof -
  let ?e = "sample_event ''c1'' ''write'' ''/d/x'' ''''" and ?q = "historyQuery sample_server (sample_caller ''ann'')"
  have "Query sample_env sample_codec ?q docs_store = Some (Inr \<lparr>pg_Records = [?e], pg_NextCursor = ''''\<rparr>)"
    by code_simp
  from session_history_confined [OF refl refl this, of ?e "''/d/x''"] show ?thesis
    by (fastforce simp: sample_event_def)
qed

text \<open>
  The scope of the history comes from the docsets a session has any grant on: a grant type whose
  \<open>CanRead\<close> refuses still opens the history of the docset.
\<close>

lemma history_ignores_CanRead:
  fixes s defines "s \<equiv> sample_server\<lparr>grants := register pluginGrantRegistry (publishGrant\<lparr>g_CanRead := \<lambda>ds p. False\<rparr>)\<rparr>"
  shows "''/d/t'' \<in> set (hq_Roots (historyQuery s (sample_caller ''bot'')))
    \<and> ''/d/t'' \<notin> set (readableRoots s (liveReadIdentity s (sample_caller ''bot'')))"
  unfolding s_def by code_simp

end
