(* ===== verification/History_Index.thy ===== *)
theory History_Index
  imports History "HOL-Library.Multiset"
begin

text \<open>
  The shards of the history store as an index of its journal: while every append succeeds and
  commits carry ids, a path's shard holds the journal's events that concern it, in their order.
  A query by path then answers what a scan of the journal would, and following moves through
  the shards ends.
\<close>

subsection \<open>Stores that were only recorded to\<close>

text \<open>Events of the write log: a commit id, and a source exactly on moves between two paths.\<close>

definition commit_event :: "history_record \<Rightarrow> bool" where
  "commit_event r \<longleftrightarrow> hr_CommitID r \<noteq> '''' \<and> (hr_Action r = ''move'' \<longleftrightarrow> hr_From r \<noteq> '''')
     \<and> (hr_From r \<noteq> '''' \<longrightarrow> CleanPath (hr_From r) \<noteq> CleanPath (hr_FileKey r))"

inductive recorded :: "history_env \<Rightarrow> history_store \<Rightarrow> history_record list \<Rightarrow> bool" for E where
  empty: "recorded E (\<lambda>f. None) []"
| more: "recorded E st es \<Longrightarrow> Record E rs st = (None, st') \<Longrightarrow> \<forall>r \<in> set rs. commit_event r \<Longrightarrow>
    recorded E st' (es @ map normalize rs)"

definition touches :: "string \<Rightarrow> history_record \<Rightarrow> bool" where
  "touches p r \<longleftrightarrow> hr_FileKey r = p \<or> hr_From r = p"

definition index_env :: "history_env \<Rightarrow> bool" where
  "index_env E \<longleftrightarrow> inj (he_sha E) \<and> (\<forall>ps. mset (he_order E ps) = mset ps)"

lemma shardDir_segs: "shardDir E p = map (he_sha E) (segs p)"
proof -
  have v: "list_all valid_seg (segs p)" by (rule segs_valid)
  show ?thesis
  proof (cases "segs p")
    case Nil
    then show ?thesis by (simp add: shardDir_def CleanPath_of_segs of_segs_def)
  next
    case (Cons s ss)
    have ne: "join_with ''/'' (segs p) \<noteq> ''''"
      using v Cons by (cases ss) (auto simp: valid_seg_def)
    have "\<forall>w \<in> set (segs p). CHR ''/'' \<notin> set w"
      using v by (rule valid_segs_no_slash)
    then have "split_char CHR ''/'' (join_with ''/'' (segs p)) = segs p"
      using Cons by (intro split_join) auto
    with ne show ?thesis
      by (simp add: shardDir_def CleanPath_of_segs of_segs_def)
  qed
qed

lemma filePath_inject:
  assumes "index_env E" "cleaned p" "cleaned p'"
  shows "filePath E p = filePath E p' \<longleftrightarrow> p = p'"
proof
  assume "filePath E p = filePath E p'"
  then have "segs p = segs p'"
    using assms(1) by (auto simp: filePath_def shardDir_segs index_env_def inj_map_eq_map)
  then show "p = p'"
    using cleaned_segs assms(2,3) by metis
qed simp

subsection \<open>The shards index the journal\<close>

lemma pend_content:
  assumes "\<forall>r \<in> set rs. (hr_Action r = ''move'' \<longleftrightarrow> hr_From r \<noteq> '''') \<and> (hr_From r \<noteq> '''' \<longrightarrow> hr_From r \<noteq> hr_FileKey r)"
    and "p \<noteq> ''''"
  shows "snd (pend rs P) p = snd P p @ filter (touches p) rs"
  using assms
proof (induction rs arbitrary: P)
  case (Cons r rs)
  have "snd (add_pending (hr_FileKey r) r (pend_source r P)) p = snd P p @ (if touches p r then [r] else [])"
    using Cons.prems by (auto simp: add_pending_def pend_source_def touches_def)
  with Cons show ?case
    by (simp add: pend_def)
qed (simp add: pend_def)

lemma pend_keys: "set (fst (pend rs P)) = set (fst P) \<union> hr_FileKey ` set rs
    \<union> hr_From ` {r \<in> set rs. hr_Action r = ''move'' \<and> hr_From r \<noteq> ''''}"
proof (induction rs arbitrary: P)
  case (Cons r rs)
  have "set (fst (add_pending (hr_FileKey r) r (pend_source r P))) =
      set (fst P) \<union> {hr_FileKey r} \<union> (if hr_Action r = ''move'' \<and> hr_From r \<noteq> '''' then {hr_From r} else {})"
    by (auto simp: add_pending_def pend_source_def)
  with Cons.IH show ?case
    by (auto simp: pend_def)
qed (simp add: pend_def)

lemma pend_distinct: "distinct (fst P) \<Longrightarrow> distinct (fst (pend rs P))"
  by (induction rs arbitrary: P) (auto simp: pend_def add_pending_def pend_source_def)

lemma appendHistoryRecords_None:
  "appendHistoryRecords E f rs st = (None, st') \<Longrightarrow> contents st' g = contents st g @ (if g = f then rs else [])"
  by (auto simp: appendHistoryRecords_def Let_def split: option.splits if_splits)

lemma append_all_None:
  assumes "append_all E ps P st = (None, st')" "distinct (map (filePath E) ps)"
  shows "contents st' g = contents st g @ concat (map (\<lambda>p. if filePath E p = g then P p else []) ps)"
  using assms
proof (induction ps arbitrary: st)
  case (Cons p ps)
  then obtain st1 where st1: "appendHistoryRecords E (filePath E p) (P p) st = (None, st1)" "append_all E ps P st1 = (None, st')"
    by (auto split: prod.splits option.splits)
  with Cons.IH [OF st1(2)] Cons.prems(2) appendHistoryRecords_None [OF st1(1), of g] show ?case
    by auto
qed simp

lemma concat_single:
  "distinct xs \<Longrightarrow> concat (map (\<lambda>x. if x = y then f x else []) xs) = (if y \<in> set xs then f y else [])"
  by (induction xs) auto

lemma flush_None:
  assumes "flush E P st = (None, st')" "index_env E" "distinct (fst P)" "\<forall>p \<in> set (fst P). cleaned p" "cleaned p"
  shows "contents st' (filePath E p) = contents st (filePath E p) @ (if p \<in> set (fst P) then snd P p else [])"
    and "contents st' Journal = contents st Journal"
proof -
  let ?ps = "he_order E (fst P)"
  have m: "mset ?ps = mset (fst P)"
    using assms(2) by (simp add: index_env_def)
  then have ps: "set ?ps = set (fst P)" "distinct ?ps"
    using assms(3) mset_eq_setD mset_eq_imp_distinct_iff by metis+
  have "inj_on (filePath E) (set ?ps)"
    using ps assms(2,4) by (auto intro!: inj_onI simp: filePath_inject)
  then have dist: "distinct (map (filePath E) ?ps)"
    using ps by (simp add: distinct_map)
  note app = append_all_None [OF assms(1) [unfolded flush_def] dist]
  have "map (\<lambda>q. if filePath E q = filePath E p then snd P q else []) ?ps
      = map (\<lambda>q. if q = p then snd P q else []) ?ps"
    using assms(2,4,5) ps by (intro map_cong) (auto simp: filePath_inject)
  with app [of "filePath E p"] show "contents st' (filePath E p) = contents st (filePath E p) @ (if p \<in> set (fst P) then snd P p else [])"
    using concat_single [OF ps(2), of p "snd P"] ps(1) by simp
  show "contents st' Journal = contents st Journal"
    using app [of Journal] by (simp add: filePath_def)
qed

definition indexed :: "history_env \<Rightarrow> history_store \<Rightarrow> history_record list \<Rightarrow> bool" where
  "indexed E st es \<longleftrightarrow> contents st Journal = es
     \<and> (\<forall>r \<in> set es. commit_event r \<and> cleaned (hr_FileKey r) \<and> (hr_From r = '''' \<or> cleaned (hr_From r)))
     \<and> (\<forall>p. cleaned p \<longrightarrow> contents st (filePath E p) = filter (touches p) es)"

lemma normalize_event:
  "commit_event r \<Longrightarrow> commit_event (normalize r) \<and> cleaned (hr_FileKey (normalize r))
     \<and> (hr_From (normalize r) = '''' \<or> cleaned (hr_From (normalize r)))"
  using cleaned_prefix_slash [OF cleaned_CleanPath, of "hr_From r"]
  by (auto simp: commit_event_def normalize_def)

lemma cleaned_nonempty: "cleaned p \<Longrightarrow> p \<noteq> ''''"
  using cleaned_prefix_slash by fastforce

lemma Record_indexed:
  assumes "indexed E st es" "index_env E" "Record E rs st = (None, st')" "\<forall>r \<in> set rs. commit_event r"
  shows "indexed E st' (es @ map normalize rs)"
proof (cases "rs = []")
  case True
  with assms show ?thesis by (simp add: Record_def)
next
  case False
  let ?rs = "map normalize rs" and ?P = "pend (map normalize rs) no_pending"
  have ev: "\<forall>r \<in> set ?rs. commit_event r \<and> cleaned (hr_FileKey r) \<and> (hr_From r = '''' \<or> cleaned (hr_From r))"
    using assms(4) normalize_event by auto
  obtain st1 where st1: "appendHistoryRecords E Journal ?rs st = (None, st1)" "record_all E ?rs no_pending st1 = (None, st')"
    using assms(3) False by (auto simp: Record_def Let_def split: prod.splits option.splits)
  have "\<forall>r \<in> set ?rs. hr_CommitID r \<noteq> ''''"
    using ev by (auto simp: commit_event_def)
  from record_all_commits [OF this] st1(2) have fl: "flush E ?P st1 = (None, st')"
    by simp
  have keys: "\<forall>p \<in> set (fst ?P). cleaned p"
    using ev by (auto simp: pend_keys no_pending_def)
  have dist: "distinct (fst ?P)"
    by (rule pend_distinct) (simp add: no_pending_def)
  note flush = flush_None [OF fl assms(2) dist keys]
  have shard: "contents st' (filePath E p) = filter (touches p) (es @ ?rs)" if p: "cleaned p" for p
  proof -
    have "\<forall>r \<in> set ?rs. (hr_Action r = ''move'' \<longleftrightarrow> hr_From r \<noteq> '''') \<and> (hr_From r \<noteq> '''' \<longrightarrow> hr_From r \<noteq> hr_FileKey r)"
      using ev by (auto simp: commit_event_def)
    from pend_content [OF this cleaned_nonempty [OF p], of no_pending]
    have "snd ?P p = filter (touches p) ?rs"
      by (simp add: no_pending_def)
    moreover have "filter (touches p) ?rs = []" if "p \<notin> set (fst ?P)"
      using that ev cleaned_nonempty [OF p]
      by (force simp: pend_keys filter_empty_conv touches_def commit_event_def)
    moreover have "contents st1 (filePath E p) = filter (touches p) es"
      using appendHistoryRecords_None [OF st1(1), of "filePath E p"] assms(1) p
      by (simp add: filePath_def indexed_def)
    ultimately show ?thesis
      using flush(1) [OF p] by auto
  qed
  have "contents st' Journal = es @ ?rs"
    using flush(2) [of "''/''"] appendHistoryRecords_None [OF st1(1), of Journal] assms(1)
    by (simp add: indexed_def)
  with shard ev assms(1) show ?thesis
    by (auto simp: indexed_def)
qed

lemma recorded_indexed:
  assumes "index_env E"
  shows "recorded E st es \<Longrightarrow> indexed E st es"
proof (induction rule: recorded.induct)
  case empty
  then show ?case by (simp add: indexed_def)
next
  case (more st es rs st')
  then show ?case using Record_indexed assms by blast
qed


subsection \<open>Following moves ends\<close>

lemma filter_take_snoc:
  assumes "filter P (take g es) = xs @ [r]"
  shows "\<exists>g' < g. g' < length es \<and> es ! g' = r \<and> P r \<and> filter P (take g' es) = xs"
  using assms
proof (induction g)
  case (Suc g)
  show ?case
  proof (cases "g < length es \<and> P (es ! g)")
    case True
    with Suc.prems show ?thesis
      by (intro exI [of _ g]) (auto simp: take_Suc_conv_app_nth)
  next
    case False
    then have "filter P (take g es) = xs @ [r]"
      using Suc.prems by (cases "g < length es") (auto simp: take_Suc_conv_app_nth)
    from Suc.IH [OF this] show ?thesis
      using less_Suc_eq by blast
  qed
qed simp

lemma take_filter_prefix:
  "k \<le> length (filter P (take g es)) \<Longrightarrow> \<exists>g' \<le> g. take k (filter P es) = filter P (take g' es)"
proof (induction g)
  case (Suc g)
  have split: "filter P es = filter P (take (Suc g) es) @ filter P (drop (Suc g) es)"
    by (simp flip: filter_append)
  show ?case
  proof (cases "k \<le> length (filter P (take g es))")
    case True
    with Suc.IH show ?thesis using le_SucI by blast
  next
    case False
    then have "k = length (filter P (take (Suc g) es))"
      using Suc.prems by (cases "g < length es") (auto simp: take_Suc_conv_app_nth split: if_splits)
    then have "take k (filter P es) = filter P (take (Suc g) es)"
      by (subst split) simp
    then show ?thesis by blast
  qed
qed simp

lemma cutoff_index_le:
  "k < length cs \<Longrightarrow> same_event r (cs ! k) \<Longrightarrow> \<exists>j \<le> k. cutoff_index r cs = Some j"
proof (induction cs arbitrary: k)
  case (Cons c cs)
  then show ?case
    by (cases k) (auto, metis Suc_le_mono)
qed simp

lemma subseq_take_mono:
  assumes "a \<le> b" "subseq xs (take a es)"
  shows "subseq xs (take b es)"
proof -
  have "take b es = take a es @ drop a (take b es)"
    using assms(1) by (metis append_take_drop_id min.absorb1 take_take)
  with assms(2) show ?thesis
    by (metis list_emb_prefix)
qed

lemma follow_ends:
  assumes ix: "indexed E st es"
  shows "g \<le> length es \<Longrightarrow> cleaned t \<Longrightarrow>
    \<exists>res. follow E st sc t (rev (filter (touches t) (take g es))) newest = Some res
      \<and> (\<forall>l. res = Inr l \<longrightarrow> (\<exists>m. l = newest @ m \<and> subseq (rev m) (take g es)))"
proof (induction g arbitrary: t newest rule: less_induct)
  case (less g)
  let ?goal = "\<lambda>res. \<exists>r. res = Some r \<and> (\<forall>l. r = Inr l \<longrightarrow> (\<exists>m. l = newest @ m \<and> subseq (rev m) (take g es)))"
  show ?case
  proof (cases "filter (touches t) (take g es)" rule: rev_cases)
    case Nil
    then show ?thesis
      by (subst follow.simps) simp
  next
    case (snoc xs r)
    then obtain g' where g': "g' < g" "g' < length es" "es ! g' = r" "touches t r" "filter (touches t) (take g' es) = xs"
      using filter_take_snoc by metis
    have r: "r \<in> set es" using g' by auto
    have longer: "subseq (rev ([r] @ m)) (take g es)" if "subseq (rev m) (take g' es)" for m
    proof -
      have "subseq (rev m @ [r]) (take (Suc g') es)"
        using that g'(2,3) by (simp add: take_Suc_conv_app_nth)
      then show ?thesis
        using subseq_take_mono [of "Suc g'" g] g'(1) by simp
    qed
    have on: "?goal (follow E st sc t' (rev (filter (touches t') (take g'' es))) (newest @ [r]))"
      if "g'' \<le> g'" "cleaned t'" for g'' t'
    proof -
      have "\<exists>res. follow E st sc t' (rev (filter (touches t') (take g'' es))) (newest @ [r]) = Some res
          \<and> (\<forall>l. res = Inr l \<longrightarrow> (\<exists>m. l = (newest @ [r]) @ m \<and> subseq (rev m) (take g'' es)))"
        using less.IH [of g'' t' "newest @ [r]"] that g' by simp
      moreover have "subseq (rev m) (take g'' es) \<Longrightarrow> subseq (rev m) (take g' es)" for m
        using that(1) by (rule subseq_take_mono)
      ultimately show ?thesis
        using longer by fastforce
    qed
    have unfold: "follow E st sc t (rev (filter (touches t) (take g es))) newest = follow E st sc t (r # rev xs) newest"
      by (simp add: snoc)
    show ?thesis
    proof (cases "hr_Action r = ''move'' \<and> hr_FileKey r = t \<and> within sc (hr_From r) \<and> \<not> he_read E (filePath E (hr_From r))")
      case True
      let ?src = "hr_From r"
      have src: "cleaned ?src" "commit_event r"
        using ix r True by (auto simp: indexed_def commit_event_def)
      have previous: "readHistoryRecords E st (filePath E ?src) = Inr (filter (touches ?src) es)"
        using ix src(1) True by (simp add: indexed_def readHistoryRecords_def)
      let ?k = "length (filter (touches ?src) (take g' es))"
      have "filter (touches ?src) es = filter (touches ?src) (take g' es) @ r # filter (touches ?src) (drop (Suc g') es)"
        by (subst id_take_nth_drop [OF g'(2)]) (simp add: g'(3) touches_def)
      then have "?k < length (filter (touches ?src) es)" "filter (touches ?src) es ! ?k = r"
        by simp_all
      then obtain j where j: "j \<le> ?k" "cutoff_index r (filter (touches ?src) es) = Some j"
        using cutoff_index_le [of ?k "filter (touches ?src) es" r] by (auto simp: same_event_def)
      obtain g'' where g'': "g'' \<le> g'" "take j (filter (touches ?src) es) = filter (touches ?src) (take g'' es)"
        using take_filter_prefix [OF j(1)] by blast
      have "follow E st sc t (r # rev xs) newest
          = follow E st sc ?src (rev (filter (touches ?src) (take g'' es))) (newest @ [r])"
        using True previous j(2) g''(2) by (subst follow.simps) simp
      with on [OF g''(1) src(1)] unfold show ?thesis by simp
    next
      case False
      have "?goal (follow E st sc t (rev xs) (newest @ [r]))"
        using on [of g' t] g'(5) less.prems(2) by simp
      moreover have "?goal (Some (Inr newest))"
        by simp
      ultimately have "?goal (follow E st sc t (r # rev xs) newest)"
        using False g'(4) by (subst follow.simps) (auto simp: readHistoryRecords_def touches_def)
      with unfold show ?thesis by simp
    qed
  qed
qed

text \<open>
  On a store written by commits, following the moves of a path ends, and the lineage it
  finds is made of events of the journal in their order, none of them twice.
\<close>

theorem followMoves_ends:
  assumes "index_env E" "recorded E st es" "hq_FileKey q \<noteq> ''''" "hq_FollowMoves q"
  shows "\<exists>res. query_matches E q st = Some res \<and> (\<forall>l. res = Inr l \<longrightarrow> subseq l es)"
proof (cases "he_read E (filePath E (hq_FileKey q))")
  case True
  with assms show ?thesis
    by (simp add: query_matches_def readHistoryRecords_def)
next
  case False
  let ?t = "CleanPath (hq_FileKey q)"
  have ix: "indexed E st es"
    using recorded_indexed [OF assms(1,2)] .
  have "filePath E (hq_FileKey q) = filePath E ?t"
    by (simp add: filePath_def shardDir_def)
  then have read: "readHistoryRecords E st (filePath E (hq_FileKey q)) = Inr (filter (touches ?t) es)"
    using ix False by (simp add: readHistoryRecords_def indexed_def)
  obtain res where res: "follow E st (query_scope q) ?t (rev (filter (touches ?t) es)) [] = Some res"
    "\<forall>l. res = Inr l \<longrightarrow> subseq (rev l) es"
    using follow_ends [OF ix, of "length es" ?t "query_scope q" "[]"] by auto
  have matches: "query_matches E q st = Some (map_sum id (filter (query_keeps q)) (map_sum id rev res))"
    using assms(3,4) read res(1) by (simp add: query_matches_def followMoves_def)
  have "subseq l es" if "map_sum id (filter (query_keeps q)) (map_sum id rev res) = Inr l" for l
  proof -
    have "\<exists>m. res = Inr m \<and> l = filter (query_keeps q) (rev m)"
      using that by (cases res) auto
    with res(2) show ?thesis
      by (metis subseq_filter_left subseq_order.trans)
  qed
  with matches show ?thesis by blast
qed

lemma sample_index: "index_env sample_env"
  by (simp add: index_env_def sample_env_def)

lemma sample_recorded: "recorded sample_env sample_store (map normalize sample_events)"
proof -
  have "fst (Record sample_env sample_events (\<lambda>f. None)) = None"
    by code_simp
  then have "Record sample_env sample_events (\<lambda>f. None) = (None, sample_store)"
    by (simp add: sample_store_def prod_eq_iff)
  moreover have "\<forall>r \<in> set sample_events. commit_event r"
    by code_simp
  ultimately show ?thesis
    using recorded.more [OF recorded.empty] by fastforce
qed


theorem followMoves_ends_witness:
  "\<exists>res. query_matches sample_env (sample_query ''/b'' True) sample_store = Some res
     \<and> (\<forall>l. res = Inr l \<longrightarrow> subseq l (map normalize sample_events))"
  by (rule followMoves_ends [OF sample_index sample_recorded]) (simp_all add: sample_query_def)

end
