(* ===== verification/Merge_Fs.thy ===== *)
theory Merge_Fs
  imports Writable_Fs "HOL-Library.AList" "HOL-Library.List_Lexorder" "HOL-Library.Char_ord"
begin

text \<open>
  \<open>MergeFS\<close> of pkg/openlore/vfs.go, the filesystem the server is built on: backends under
  mount names, an optional root backend, and projections published with the live policy. It
  is a \<open>WritableFS\<close> again, so the session's layers and the write log stand on it. A backend
  that does not implement \<open>WritableFS\<close> has \<open>be_writable\<close> false; its writing operations are
  never called.
\<close>

record 's backend =
  be_wfs :: "'s wfs"
  be_writable :: bool

record 's merge_fs =
  mg_root :: "'s backend option"
  mg_mounts :: "'s backend gomap"
  mg_projections :: "('s \<Rightarrow> 's backend gomap) option"
  mg_system :: "string list"

subsection \<open>Mounting\<close>

definition NewMergeFS :: "'s merge_fs" where
  "NewMergeFS = \<lparr>mg_root = None, mg_mounts = [], mg_projections = None, mg_system = []\<rparr>"

definition SetRoot :: "'s merge_fs \<Rightarrow> 's backend \<Rightarrow> 's merge_fs" where
  "SetRoot m b = m\<lparr>mg_root := Some b\<rparr>"

definition Mount :: "'s merge_fs \<Rightarrow> string \<Rightarrow> 's backend \<Rightarrow> 's merge_fs" where
  "Mount m name b = m\<lparr>mg_mounts := AList.update name b (mg_mounts m)\<rparr>"

definition MountSystem :: "'s merge_fs \<Rightarrow> string \<Rightarrow> 's backend \<Rightarrow> 's merge_fs" where
  "MountSystem m name b = (Mount m name b)\<lparr>mg_system := List.insert name (mg_system m)\<rparr>"

definition merge_SystemMountPaths :: "'s merge_fs \<Rightarrow> string list" where
  "merge_SystemMountPaths m = map (\<lambda>name. ''/'' @ name) (mg_system m)"

definition merge_mountPaths :: "'s merge_fs \<Rightarrow> string list" where
  "merge_mountPaths m = map (\<lambda>(name, b). ''/'' @ name) (mg_mounts m)"

definition contentMounts :: "'s merge_fs \<Rightarrow> 's \<Rightarrow> 's backend gomap" where
  "contentMounts m s =
     (case mg_projections m of
        None \<Rightarrow> mg_mounts m
      | Some projections \<Rightarrow> fold (\<lambda>(name, b). AList.update name b) (projections s) (mg_mounts m))"

subsection \<open>Routing\<close>

datatype 's route =
    MergeRoot
  | Routed string "'s backend"
  | Unrouted vfs_error

definition trim_root :: "string \<Rightarrow> string" where
  "trim_root p = (case p of [] \<Rightarrow> [] | c # cs \<Rightarrow> if c = CHR ''/'' then cs else c # cs)"

definition longer_name :: "string \<times> 'b \<Rightarrow> string \<times> 'b \<Rightarrow> bool" where
  "longer_name a b \<longleftrightarrow> length (fst a) > length (fst b)"

definition best_mount :: "'b gomap \<Rightarrow> string \<Rightarrow> (string \<times> 'b) option" where
  "best_mount mounts p =
     pick_best longer_name None
       (filter (\<lambda>(name, b). name \<noteq> '''' \<and> (p = name \<or> prefix (name @ ''/'') p)) mounts)"

definition merge_resolve :: "'s merge_fs \<Rightarrow> 's \<Rightarrow> string \<Rightarrow> 's route" where
  "merge_resolve m s p =
     (let q = trim_root (path_clean (''/'' @ p))
      in if q = '''' \<or> q = ''.'' then MergeRoot
         else case best_mount (contentMounts m s) q of
                Some (name, b) \<Rightarrow> Routed (''/'' @ drop (length name) q) b
              | None \<Rightarrow> (case mg_root m of
                           Some r \<Rightarrow> Routed (''/'' @ q) r
                         | None \<Rightarrow> Unrouted (ErrNotExist q)))"

subsection \<open>Reading\<close>

definition nestedMounts :: "'s merge_fs \<Rightarrow> 's \<Rightarrow> string \<Rightarrow> string list" where
  "nestedMounts m s p =
     (let c = trim_root (CleanPath p);
          pre = (if c = '''' then '''' else c @ ''/'');
          children = map (\<lambda>name. takeWhile (\<lambda>x. x \<noteq> CHR ''/'') (drop (length pre) name))
                       (filter (\<lambda>name. prefix pre name) (map fst (contentMounts m s)))
      in sort (remdups (filter (\<lambda>child. child \<noteq> '''') children)))"

definition mount_dir :: "string \<Rightarrow> string \<Rightarrow> file_info" where
  "mount_dir name p = \<lparr>FileName = name, FilePath = p, Content = '''', Dir = True,
     FileModTime = 0, FileSize = 0, LinkTarget = ''''\<rparr>"

definition withNestedMounts :: "'s merge_fs \<Rightarrow> 's \<Rightarrow> string \<Rightarrow> file_info list \<Rightarrow> file_info list" where
  "withNestedMounts m s p entries =
     entries @ map (\<lambda>child. mount_dir child (path_join (CleanPath p) child))
       (filter (\<lambda>child. child \<notin> FileName ` set entries) (nestedMounts m s p))"

definition merge_Stat :: "'s merge_fs \<Rightarrow> 's \<Rightarrow> string \<Rightarrow> file_info vres" where
  "merge_Stat m s p =
     (case merge_resolve m s p of
        MergeRoot \<Rightarrow> Inr (mount_dir ''/'' ''/'')
      | r \<Rightarrow>
          (case (case r of Routed sub b \<Rightarrow> fs_Stat (w_fs (be_wfs b) s) sub
                         | Unrouted e \<Rightarrow> Inl e | MergeRoot \<Rightarrow> Inr (mount_dir ''/'' ''/'')) of
             Inr info \<Rightarrow> Inr info
           | Inl e \<Rightarrow>
               if nestedMounts m s p \<noteq> [] then Inr (mount_dir (path_base (CleanPath p)) (CleanPath p))
               else Inl e))"

definition merge_ReadDir :: "'s merge_fs \<Rightarrow> 's \<Rightarrow> string \<Rightarrow> file_info list vres" where
  "merge_ReadDir m s p =
     (case merge_resolve m s p of
        MergeRoot \<Rightarrow>
          Inr (withNestedMounts m s p
            (case mg_root m of
               None \<Rightarrow> []
             | Some r \<Rightarrow> (case fs_ReadDir (w_fs (be_wfs r) s) ''/'' of Inl e \<Rightarrow> [] | Inr es \<Rightarrow> es)))
      | r \<Rightarrow>
          (let res = (case r of Routed sub b \<Rightarrow> fs_ReadDir (w_fs (be_wfs b) s) sub
                              | Unrouted e \<Rightarrow> Inl e | MergeRoot \<Rightarrow> Inr [])
           in if nestedMounts m s p = [] then res
              else Inr (withNestedMounts m s p (case res of Inl e \<Rightarrow> [] | Inr es \<Rightarrow> es))))"

definition merge_ReadFile :: "'s merge_fs \<Rightarrow> 's \<Rightarrow> string \<Rightarrow> string vres" where
  "merge_ReadFile m s p =
     (case merge_resolve m s p of
        Unrouted e \<Rightarrow> Inl e
      | MergeRoot \<Rightarrow> Inl (OtherError ''cannot read directory'')
      | Routed sub b \<Rightarrow> fs_ReadFile (w_fs (be_wfs b) s) sub)"

subsection \<open>Writing\<close>

definition merge_WriteFileAtomic :: "'s merge_fs \<Rightarrow> string \<Rightarrow> string \<Rightarrow> write_opts \<Rightarrow> 's \<Rightarrow> string vres \<times> 's" where
  "merge_WriteFileAtomic m p b opts s =
     (case merge_resolve m s p of
        Unrouted e \<Rightarrow> (Inl e, s)
      | MergeRoot \<Rightarrow> (Inl (OtherError (''cannot write to filesystem root: '' @ p)), s)
      | Routed sub be \<Rightarrow>
          if \<not> be_writable be then (Inl (ErrReadOnly p), s)
          else w_WriteFileAtomic (be_wfs be) sub b opts s)"

definition merge_structural :: "string \<Rightarrow> string \<Rightarrow> ('s wfs \<Rightarrow> string \<Rightarrow> 's op) \<Rightarrow> 's merge_fs \<Rightarrow> string \<Rightarrow> 's op" where
  "merge_structural at_root at_mount f m p s =
     (case merge_resolve m s p of
        Unrouted e \<Rightarrow> (Some e, s)
      | MergeRoot \<Rightarrow> (Some (OtherError (at_root @ p)), s)
      | Routed sub be \<Rightarrow>
          if CleanPath sub = ''/'' then (Some (OtherError (at_mount @ p)), s)
          else if \<not> be_writable be then (Some (ErrReadOnly p), s)
          else f (be_wfs be) sub s)"

definition merge_Mkdir :: "'s merge_fs \<Rightarrow> string \<Rightarrow> 's op" where
  "merge_Mkdir = merge_structural ''cannot create docset at filesystem root: '' ''cannot create docset root: '' w_Mkdir"

definition merge_MkdirAll :: "'s merge_fs \<Rightarrow> string \<Rightarrow> 's op" where
  "merge_MkdirAll = merge_structural ''cannot create docset at filesystem root: '' ''cannot create docset root: '' w_MkdirAll"

definition merge_Remove :: "'s merge_fs \<Rightarrow> string \<Rightarrow> 's op" where
  "merge_Remove = merge_structural ''cannot delete filesystem root: '' ''cannot delete docset root: '' w_Remove"

definition merge_RemoveAll :: "'s merge_fs \<Rightarrow> string \<Rightarrow> remove_opts \<Rightarrow> 's op" where
  "merge_RemoveAll m p opts =
     merge_structural ''cannot delete filesystem root: '' ''cannot delete docset root: ''
       (\<lambda>w sub. w_RemoveAll w sub opts) m p"

definition merge_PreflightChange :: "'s merge_fs \<Rightarrow> change \<Rightarrow> 's \<Rightarrow> vfs_error option" where
  "merge_PreflightChange m c s =
     (case merge_resolve m s (Target c) of
        Unrouted e \<Rightarrow> Some e
      | MergeRoot \<Rightarrow> Some (OtherError (''cannot mutate filesystem root: '' @ Target c))
      | Routed sub be \<Rightarrow>
          if CleanPath sub = ''/'' \<and> Action c \<in> {ChangeActionMkdir, ChangeActionMkdirAll, ChangeActionRemove, ChangeActionRemoveAll}
          then Some (OtherError (''cannot mutate docset root: '' @ Target c))
          else if \<not> be_writable be then Some (ErrReadOnly (Target c))
          else (case w_preflight (be_wfs be) of None \<Rightarrow> None | Some check \<Rightarrow> check (c\<lparr>Target := sub\<rparr>) s))"

subsection \<open>Extended attributes\<close>

definition merge_xattr_source :: "'s merge_fs \<Rightarrow> 's \<Rightarrow> string \<Rightarrow> vfs_error + (string \<times> 's backend) option" where
  "merge_xattr_source m s p =
     (case merge_resolve m s p of
        Unrouted e \<Rightarrow> Inl e
      | MergeRoot \<Rightarrow> Inr (map_option (\<lambda>r. (''/'', r)) (mg_root m))
      | Routed sub b \<Rightarrow> Inr (Some (sub, b)))"

definition merge_GetXattr :: "'s merge_fs \<Rightarrow> string \<Rightarrow> string \<Rightarrow> 's \<Rightarrow> string vres" where
  "merge_GetXattr m p name s =
     (case merge_xattr_source m s p of
        Inl e \<Rightarrow> Inl e
      | Inr None \<Rightarrow> Inl ENODATA
      | Inr (Some (sub, b)) \<Rightarrow>
          (case w_xattr_reader (be_wfs b) of None \<Rightarrow> Inl ENOTSUP | Some x \<Rightarrow> x_GetXattr x sub name s))"

definition merge_ListXattrs :: "'s merge_fs \<Rightarrow> string \<Rightarrow> 's \<Rightarrow> string list vres" where
  "merge_ListXattrs m p s =
     (case merge_xattr_source m s p of
        Inl e \<Rightarrow> Inl e
      | Inr None \<Rightarrow> Inr []
      | Inr (Some (sub, b)) \<Rightarrow>
          (case w_xattr_reader (be_wfs b) of None \<Rightarrow> Inl ENOTSUP | Some x \<Rightarrow> x_ListXattrs x sub s))"

definition merge_xattr_op :: "('s wfs \<Rightarrow> 'x option) \<Rightarrow> ('x \<Rightarrow> string \<Rightarrow> 's op) \<Rightarrow> 's merge_fs \<Rightarrow> string \<Rightarrow> 's op" where
  "merge_xattr_op sel f m p s =
     (case merge_resolve m s p of
        Unrouted e \<Rightarrow> (Some e, s)
      | MergeRoot \<Rightarrow> (Some ENOTSUP, s)
      | Routed sub b \<Rightarrow> (case sel (be_wfs b) of None \<Rightarrow> (Some ENOTSUP, s) | Some x \<Rightarrow> f x sub s))"

definition merge_wfs :: "'s merge_fs \<Rightarrow> 's wfs" where
  "merge_wfs m = \<lparr>
     w_fs = (\<lambda>s. \<lparr>fs_Stat = merge_Stat m s, fs_ReadDir = merge_ReadDir m s, fs_ReadFile = merge_ReadFile m s\<rparr>),
     w_WriteFileAtomic = merge_WriteFileAtomic m,
     w_Mkdir = merge_Mkdir m,
     w_MkdirAll = merge_MkdirAll m,
     w_Remove = merge_Remove m,
     w_RemoveAll = merge_RemoveAll m,
     w_xattr_reader = Some \<lparr>x_GetXattr = merge_GetXattr m, x_ListXattrs = merge_ListXattrs m\<rparr>,
     w_xattr_writer = Some
       \<lparr>x_SetXattr = (\<lambda>p n v f. merge_xattr_op w_xattr_writer (\<lambda>x sub. x_SetXattr x sub n v f) m p),
        x_RemoveXattr = (\<lambda>p n. merge_xattr_op w_xattr_writer (\<lambda>x sub. x_RemoveXattr x sub n) m p)\<rparr>,
     w_xattr_maintenance = Some
       \<lparr>x_PreserveAndRecreateXattrs = (\<lambda>p a. merge_xattr_op w_xattr_maintenance (\<lambda>x sub. x_PreserveAndRecreateXattrs x sub a) m p),
        x_MigrateXattrs = (\<lambda>p mig. merge_xattr_op w_xattr_maintenance (\<lambda>x sub. x_MigrateXattrs x sub mig) m p)\<rparr>,
     w_admitter = None,
     w_preflight = Some (merge_PreflightChange m)\<rparr>"

subsection \<open>Which backend a path reaches\<close>

lemma trim_root_CleanPath: "trim_root (CleanPath p) = join_with ''/'' (segs p)"
  by (simp add: CleanPath_of_segs of_segs_def trim_root_def)

lemma trim_root_clean: "trim_root (path_clean (''/'' @ p)) = join_with ''/'' (segs p)"
proof -
  have "path_clean (''/'' @ p) = of_segs (segs (''/'' @ p))"
    by (rule path_clean_rooted) simp
  moreover have "segs (''/'' @ p) = segs p"
    by (simp add: segs_def)
  ultimately show ?thesis
    by (simp add: of_segs_def trim_root_def)
qed

text \<open>A mount name is a clean relative path; names of a map are distinct.\<close>

definition mount_name :: "string \<Rightarrow> bool" where
  "mount_name n \<longleftrightarrow> n \<noteq> '''' \<and> n = join_with ''/'' (segs n)"

definition mounts_ok :: "'b gomap \<Rightarrow> bool" where
  "mounts_ok ms \<longleftrightarrow> go_map ms \<and> (\<forall>n \<in> fst ` set ms. mount_name n)"

lemma mount_name_CleanPath: "mount_name n \<Longrightarrow> CleanPath n = ''/'' @ n"
  by (metis CleanPath_of_segs append_Cons append_Nil mount_name_def of_segs_def)

lemma mount_covers:
  assumes "mount_name n"
  shows "join_with ''/'' (segs p) = n \<or> prefix (n @ ''/'') (join_with ''/'' (segs p)) \<longleftrightarrow> prefix (segs n) (segs p)"
proof -
  have "pathWithinRoot (CleanPath n) (CleanPath p) \<longleftrightarrow>
      join_with ''/'' (segs p) = n \<or> prefix (n @ ''/'') (join_with ''/'' (segs p))"
    using assms by (auto simp: mount_name_CleanPath pathWithinRoot_def CleanPath_of_segs [of p] of_segs_def mount_name_def)
  moreover have "segs (CleanPath n) = segs n" "segs (CleanPath p) = segs p"
    by (simp_all add: CleanPath_of_segs segs_of_segs segs_valid)
  ultimately show ?thesis
    by (simp add: pathWithinRoot_segs)
qed

definition covering :: "'b gomap \<Rightarrow> string \<Rightarrow> (string \<times> 'b) list" where
  "covering ms p = filter (\<lambda>(n, b). prefix (segs n) (segs p)) ms"

lemma best_mount_covering:
  assumes "mounts_ok ms"
  shows "best_mount ms (join_with ''/'' (segs p)) = pick_best longer_name None (covering ms p)"
proof -
  have "filter (\<lambda>(n, b). n \<noteq> '''' \<and> (join_with ''/'' (segs p) = n \<or> prefix (n @ ''/'') (join_with ''/'' (segs p)))) ms
      = covering ms p"
    unfolding covering_def
  proof (rule filter_cong [OF refl])
    fix x assume "x \<in> set ms"
    then have "mount_name (fst x)"
      using assms by (auto simp: mounts_ok_def)
    then show "(case x of (n, b) \<Rightarrow> n \<noteq> '''' \<and> (join_with ''/'' (segs p) = n \<or> prefix (n @ ''/'') (join_with ''/'' (segs p))))
        = (case x of (n, b) \<Rightarrow> prefix (segs n) (segs p))"
      using mount_covers [of "fst x" p] by (auto simp: mount_name_def split: prod.splits)
  qed
  then show ?thesis by (simp add: best_mount_def)
qed

interpretation mount_choice: best_choice longer_name "\<lambda>a. True"
  by unfold_locales (auto simp: longer_name_def)

lemma covering_same_length:
  assumes "mounts_ok ms" "(n, b) \<in> set (covering ms p)" "(n', b') \<in> set (covering ms p)" "length n = length n'"
  shows "n = n' \<and> b = b'"
proof -
  have names: "mount_name n" "mount_name n'" "(n, b) \<in> set ms" "(n', b') \<in> set ms" "prefix (segs n) (segs p)" "prefix (segs n') (segs p)"
    using assms(1-3) by (auto simp: covering_def mounts_ok_def)
  have within: "pathWithinRoot (CleanPath a) (CleanPath p)" if "prefix (segs a) (segs p)" for a
    using that by (simp add: pathWithinRoot_segs CleanPath_of_segs segs_of_segs segs_valid cleaned_of_segs)
  have "CleanPath n = CleanPath n'"
    using pathWithinRoot_same_length [OF within [of n] within [of n']] names assms(4) by (simp add: mount_name_CleanPath)
  then have "n = n'"
    using names(1,2) by (simp add: mount_name_CleanPath)
  with names(3,4) assms(1) show ?thesis
    by (metis go_map_lookup mounts_ok_def option.inject)
qed

text \<open>The route of a path: the longest mount covering it, and the root backend when there is none.\<close>

lemma merge_resolve_best:
  assumes "mounts_ok (contentMounts m s)"
  shows "merge_resolve m s p =
      (if segs p = [] then MergeRoot
       else case pick_best longer_name None (covering (contentMounts m s) p) of
              Some (n, b) \<Rightarrow> Routed (''/'' @ drop (length n) (join_with ''/'' (segs p))) b
            | None \<Rightarrow> (case mg_root m of
                Some r \<Rightarrow> Routed (''/'' @ join_with ''/'' (segs p)) r
              | None \<Rightarrow> Unrouted (ErrNotExist (join_with ''/'' (segs p)))))"
proof -
  let ?q = "join_with ''/'' (segs p)"
  have q: "?q = '''' \<or> ?q = ''.'' \<longleftrightarrow> segs p = []"
  proof (cases "segs p" rule: remdups_adj.cases)
    case (3 x y xs)
    have "CHR ''/'' \<in> set ?q"
      by (simp add: 3)
    moreover have "CHR ''/'' \<notin> set ''.''" by simp
    ultimately have "?q \<noteq> ''.''" by metis
    moreover have "?q \<noteq> ''''" by (simp add: 3)
    ultimately show ?thesis by (simp only: 3) simp
  qed (use segs_valid [of p] in \<open>auto simp: valid_seg_def\<close>)
  show ?thesis
    unfolding merge_resolve_def trim_root_clean best_mount_covering [OF assms] Let_def q ..
qed

lemma best_covering:
  assumes "pick_best longer_name None (covering ms p) = Some (n, b)"
  shows "(n, b) \<in> set ms \<and> prefix (segs n) (segs p)
    \<and> (\<forall>(n', b') \<in> set ms. prefix (segs n') (segs p) \<longrightarrow> length n' \<le> length n)"
  using mount_choice.pick_best_Some_in [OF assms] mount_choice.pick_best_max [OF assms]
  by (auto simp: covering_def longer_name_def)

lemma no_covering:
  "pick_best longer_name None (covering ms p) = None \<longleftrightarrow> (\<forall>(n', b') \<in> set ms. \<not> prefix (segs n') (segs p))"
  by (auto simp: mount_choice.pick_best_None covering_def filter_empty_conv)

lemma merge_resolve_route:
  assumes "mounts_ok (contentMounts m s)"
  shows "merge_resolve m s p = Routed sub b \<longleftrightarrow> segs p \<noteq> []
    \<and> ((\<exists>n. (n, b) \<in> set (contentMounts m s) \<and> prefix (segs n) (segs p)
          \<and> (\<forall>(n', b') \<in> set (contentMounts m s). prefix (segs n') (segs p) \<longrightarrow> length n' \<le> length n)
          \<and> sub = ''/'' @ drop (length n) (join_with ''/'' (segs p)))
       \<or> (\<forall>(n', b') \<in> set (contentMounts m s). \<not> prefix (segs n') (segs p)) \<and> mg_root m = Some b \<and> sub = CleanPath p)"
proof -
  let ?ms = "contentMounts m s" and ?q = "join_with ''/'' (segs p)"
  note resolve = merge_resolve_best [OF assms]
  show ?thesis
  proof (cases "pick_best longer_name None (covering ?ms p)")
    case None
    with None no_covering [of ?ms p] show ?thesis
      by (auto simp: resolve CleanPath_of_segs of_segs_def split: option.splits)
  next
    case (Some x)
    obtain n c where x: "x = (n, c)" by force
    note best = best_covering [OF Some [unfolded x]]
    then have mem: "(n, c) \<in> set (covering ?ms p)"
      by (simp add: covering_def)
    from best have longest: "\<forall>(n', b') \<in> set ?ms. prefix (segs n') (segs p) \<longrightarrow> length n' \<le> length n"
      by blast
    have "n' = n \<and> b' = c" if "(n', b') \<in> set ?ms" "prefix (segs n') (segs p)"
      "\<forall>(k, d) \<in> set ?ms. prefix (segs k) (segs p) \<longrightarrow> length k \<le> length n'" for n' b'
    proof -
      have "(n', b') \<in> set (covering ?ms p)"
        using that(1,2) by (simp add: covering_def)
      moreover have "length n' \<le> length n"
        using longest that(1,2) by blast
      moreover have "length n \<le> length n'"
        using mem that(3) by (auto simp: covering_def)
      ultimately show ?thesis
        using covering_same_length [OF assms _ mem, of n' b'] by simp
    qed
    note unique = this
    have here: "merge_resolve m s p = (if segs p = [] then MergeRoot else Routed (''/'' @ drop (length n) ?q) c)"
      by (simp add: resolve Some x)
    have covers: "(n, c) \<in> set ?ms" "prefix (segs n) (segs p)"
      using mem by (auto simp: covering_def)
    show ?thesis (is "?l \<longleftrightarrow> ?r")
    proof
      assume ?l
      with here covers longest show ?r
        by (auto split: if_splits)
    next
      assume r: ?r
      have "\<not> (\<forall>(n', b') \<in> set ?ms. \<not> prefix (segs n') (segs p))"
        using covers by blast
      with r obtain n' where "segs p \<noteq> []" "(n', b) \<in> set ?ms" "prefix (segs n') (segs p)"
        "\<forall>(k, d) \<in> set ?ms. prefix (segs k) (segs p) \<longrightarrow> length k \<le> length n'" "sub = ''/'' @ drop (length n') ?q"
        by blast
      with unique [of n' b] here show ?l by simp
    qed
  qed
qed

subsection \<open>Mutations\<close>

fun m_at :: "string \<Rightarrow> mutation \<Rightarrow> mutation" where
  "m_at q (MWrite p b opts) = MWrite q b opts"
| "m_at q (MMkdir p) = MMkdir q"
| "m_at q (MMkdirAll p) = MMkdirAll q"
| "m_at q (MRemove p) = MRemove q"
| "m_at q (MRemoveAll p opts) = MRemoveAll q opts"
| "m_at q (MSetXattr p n v f) = MSetXattr q n v f"
| "m_at q (MRemoveXattr p n) = MRemoveXattr q n"
| "m_at q (MPreserve p a) = MPreserve q a"
| "m_at q (MMigrate p mig) = MMigrate q mig"

definition structural :: "change_action \<Rightarrow> bool" where
  "structural a \<longleftrightarrow> a \<in> {ChangeActionMkdir, ChangeActionMkdirAll, ChangeActionRemove, ChangeActionRemoveAll}"

text \<open>
  A mutation of the merged filesystem is that mutation of the backend the path resolves to, at
  the path relative to it, or an error that changes nothing; no directory is made or removed in
  place of a mount or of the root, and a backend that is not writable is never written.
\<close>

lemma merge_step:
  "(\<exists>e. mutate (merge_wfs m) mu s = (Inl e, s))
   \<or> (\<exists>sub b. merge_resolve m s (m_target mu) = Routed sub b
        \<and> mutate (merge_wfs m) mu s = mutate (be_wfs b) (m_at sub mu) s
        \<and> (structural (m_action mu) \<longrightarrow> CleanPath sub \<noteq> ''/'')
        \<and> (structural (m_action mu) \<or> m_action mu = ChangeActionWrite \<longrightarrow> be_writable b))"
proof (cases "merge_resolve m s (m_target mu)")
  case (Routed sub b)
  then show ?thesis
    by (cases mu) (auto simp: merge_wfs_def no_hash_def structural_def merge_WriteFileAtomic_def merge_Mkdir_def
        merge_MkdirAll_def merge_Remove_def merge_RemoveAll_def merge_structural_def merge_xattr_op_def unsupported_def
        split: option.split)
qed (cases mu; auto simp: merge_wfs_def no_hash_def merge_WriteFileAtomic_def merge_Mkdir_def merge_MkdirAll_def
      merge_Remove_def merge_RemoveAll_def merge_structural_def merge_xattr_op_def)+

definition confined :: "('k \<Rightarrow> 's \<Rightarrow> 'v) \<Rightarrow> 'k \<Rightarrow> 's backend \<Rightarrow> bool" where
  "confined view k b \<longleftrightarrow> (\<forall>mu s k'. k' \<noteq> k \<longrightarrow> view k' (snd (mutate (be_wfs b) mu s)) = view k' s)"


text \<open>The mount a path goes to, if any; the root backend otherwise.\<close>

definition mount_of :: "'s merge_fs \<Rightarrow> 's \<Rightarrow> string \<Rightarrow> string option" where
  "mount_of m s p = map_option fst (best_mount (contentMounts m s) (trim_root (path_clean (''/'' @ p))))"

text \<open>
  When each backend keeps to its own part of the state, a mutation changes only the part of
  the mount its path goes to: no path, however it is written, reaches into another mount.
\<close>

theorem merge_mutation_confined:
  assumes mounts: "\<forall>(n, b) \<in> set (contentMounts m s). confined view (Some n) b"
    and root: "\<forall>r. mg_root m = Some r \<longrightarrow> confined view None r"
    and "k \<noteq> mount_of m s (m_target mu)"
  shows "view k (snd (mutate (merge_wfs m) mu s)) = view k s"
proof (cases "merge_resolve m s (m_target mu)")
  case (Routed sub b)
  have "confined view (mount_of m s (m_target mu)) b"
    using Routed mounts root mount_choice.pick_best_Some_in
    by (fastforce simp: merge_resolve_def Let_def mount_of_def best_mount_def split: if_splits option.splits)
  with assms(3) have "view k (snd (mutate (be_wfs b) (m_at sub mu) s)) = view k s"
    by (simp add: confined_def)
  with merge_step [of m mu s] Routed show ?thesis
    by auto
qed (use merge_step [of m mu s] in auto)

subsection \<open>Listings\<close>

lemma join_append:
  "ss \<noteq> [] \<Longrightarrow> ts \<noteq> [] \<Longrightarrow> join_with ''/'' (ss @ ts) = join_with ''/'' ss @ ''/'' @ join_with ''/'' ts"
proof (induction ss)
  case (Cons a ss)
  then show ?case by (cases "ss = []") (simp_all add: join_with_Cons)
qed simp

lemma first_segment:
  "CHR ''/'' \<notin> set x \<Longrightarrow> takeWhile (\<lambda>c. c \<noteq> CHR ''/'') (join_with ''/'' (x # xs)) = x"
  by (cases xs) (auto simp: takeWhile_append takeWhile_eq_all_conv)

text \<open>The text of a mount below a path, after the path and its slash.\<close>

lemma nested_prefix:
  fixes p
  assumes "mount_name n"
  defines "c \<equiv> join_with ''/'' (segs p)"
  shows "prefix (if c = '''' then '''' else c @ ''/'') n \<longleftrightarrow> (\<exists>x xs. segs n = segs p @ x # xs)"
    and "segs n = segs p @ x # xs \<Longrightarrow> drop (length (if c = '''' then '''' else c @ ''/'')) n = join_with ''/'' (x # xs)"
proof -
  have n: "n = join_with ''/'' (segs n)" "segs n \<noteq> []"
    using assms(1) by (auto simp: mount_name_def)
  have c: "c = '''' \<longleftrightarrow> segs p = []"
    using segs_valid [of p] unfolding c_def by (cases "segs p" rule: remdups_adj.cases) (auto simp: valid_seg_def)
  have within: "pathWithinRoot (CleanPath p) (CleanPath n) \<longleftrightarrow> prefix (segs p) (segs n)"
    by (simp add: pathWithinRoot_segs CleanPath_of_segs segs_of_segs segs_valid cleaned_of_segs)
  show drop: "segs n = segs p @ x # xs \<Longrightarrow> drop (length (if c = '''' then '''' else c @ ''/'')) n = join_with ''/'' (x # xs)" for x xs
    using n(1) c join_append [of "segs p" "x # xs"] by (auto simp: c_def)
  show "prefix (if c = '''' then '''' else c @ ''/'') n \<longleftrightarrow> (\<exists>x xs. segs n = segs p @ x # xs)"
  proof (cases "segs p = []")
    case True
    with c n(2) show ?thesis by (simp add: neq_Nil_conv)
  next
    case False
    have "prefix (c @ ''/'') n \<Longrightarrow> pathWithinRoot (CleanPath p) (CleanPath n)"
      using mount_name_CleanPath [OF assms(1)] by (simp add: pathWithinRoot_def CleanPath_of_segs [of p] of_segs_def c_def)
    moreover have "\<not> prefix (c @ ''/'') n" if "segs n = segs p"
      using n(1) that by (auto simp: c_def dest: prefix_length_le)
    moreover have "prefix (c @ ''/'') n" if "segs n = segs p @ x # xs" for x xs
      using join_append [of "segs p" "x # xs"] False n(1) that by (simp add: c_def)
    ultimately show ?thesis
      using False c within by (metis append_Nil2 list.exhaust prefix_def)
  qed
qed

lemma nestedMounts_iff:
  assumes "mounts_ok (contentMounts m s)"
  shows "child \<in> set (nestedMounts m s p) \<longleftrightarrow>
    (\<exists>n xs. n \<in> fst ` set (contentMounts m s) \<and> segs n = segs p @ child # xs)"
proof -
  let ?c = "join_with ''/'' (segs p)" and ?names = "fst ` set (contentMounts m s)"
  let ?pre = "if ?c = '''' then '''' else ?c @ ''/''"
  have "child \<in> set (nestedMounts m s p) \<longleftrightarrow>
      (\<exists>n \<in> ?names. prefix ?pre n \<and> child = takeWhile (\<lambda>x. x \<noteq> CHR ''/'') (drop (length ?pre) n) \<and> child \<noteq> '''')"
    by (auto simp: nestedMounts_def Let_def trim_root_CleanPath)
  moreover have "(prefix ?pre n \<and> child = takeWhile (\<lambda>x. x \<noteq> CHR ''/'') (drop (length ?pre) n) \<and> child \<noteq> '''')
      \<longleftrightarrow> (\<exists>xs. segs n = segs p @ child # xs)" if "n \<in> ?names" for n
  proof -
    have name: "mount_name n" using assms that by (auto simp: mounts_ok_def)
    have "takeWhile (\<lambda>x. x \<noteq> CHR ''/'') (drop (length ?pre) n) = x \<and> x \<noteq> ''''" if "segs n = segs p @ x # xs" for x xs
      using nested_prefix(2) [OF name that] segs_valid [of n] that by (auto simp: first_segment valid_seg_def)
    then show ?thesis
      using nested_prefix(1) [OF name, of p] by (metis (no_types, lifting) list.inject same_append_eq)
  qed
  ultimately show ?thesis by blast
qed

lemma split_char_sep: "split_char c (a @ c # b) = split_char c a @ split_char c b"
  by (induction a) (auto split: list.split simp: neq_Nil_conv)

lemma clean_segs_snoc: "valid_seg x \<Longrightarrow> clean_segs True st (ss @ [x]) = clean_segs True st ss @ [x]"
  by (induction True st ss rule: clean_segs.induct) (auto simp: valid_seg_def split: list.splits)

lemma segs_path_join:
  assumes "cleaned p" "valid_seg x"
  shows "segs (path_join p x) = segs p @ [x]"
proof -
  have v: "list_all valid_seg (segs p @ [x])"
    using assms(2) segs_valid [of p] by simp
  have "prefix ''/'' (p @ ''/'' @ x)" "p \<noteq> ''''"
    using cleaned_prefix_slash [OF assms(1)] by (auto simp: prefix_def)
  then have "path_join p x = of_segs (segs (p @ ''/'' @ x))"
    using assms(2) by (simp add: path_join_def valid_seg_def path_clean_rooted)
  moreover have "segs (p @ ''/'' @ x) = segs p @ [x]"
    using assms(2) by (simp add: segs_def split_char_sep clean_segs_snoc split_char_id valid_seg_def)
  ultimately show ?thesis using v by (simp add: segs_of_segs)
qed

lemma in_withNestedMounts:
  "child \<in> set (nestedMounts m s p) \<Longrightarrow> child \<in> FileName ` set (withNestedMounts m s p es)"
  by (cases "child \<in> FileName ` set es") (auto simp: withNestedMounts_def mount_dir_def image_Un image_image)

text \<open>
  A directory above a mount lists the way to it, and what it lists can be looked at: for
  every mount below a path the next segment is an entry of the listing, and looking at that
  entry succeeds, provided each mounted backend can be looked at itself.
\<close>

theorem nested_mounts_reachable:
  assumes ok: "mounts_ok (contentMounts m s)"
    and alive: "\<forall>(n, b) \<in> set (contentMounts m s). \<exists>info. fs_Stat (w_fs (be_wfs b) s) ''/'' = Inr info"
    and mount: "(n, b) \<in> set (contentMounts m s)" "segs n = segs p @ child # xs"
  shows "\<exists>es info. merge_ReadDir m s p = Inr es \<and> child \<in> FileName ` set es
    \<and> merge_Stat m s (path_join (CleanPath p) child) = Inr info"
proof -
  let ?p = "path_join (CleanPath p) child"
  have nested: "child \<in> set (nestedMounts m s p)"
    using mount by (force simp: nestedMounts_iff [OF ok])
  then have "\<exists>es. merge_ReadDir m s p = Inr es \<and> child \<in> FileName ` set es"
    using in_withNestedMounts [OF nested] by (auto simp: merge_ReadDir_def Let_def split: route.split)
  moreover have "valid_seg child"
    using segs_valid [of n] mount(2) by simp
  then have segs: "segs ?p = segs p @ [child]"
    using segs_path_join [of "CleanPath p" child] by (simp add: CleanPath_of_segs segs_of_segs segs_valid cleaned_of_segs)
  have "\<exists>info. merge_Stat m s ?p = Inr info"
  proof (cases xs)
    case (Cons x ys)
    then have "x \<in> set (nestedMounts m s ?p)"
      using mount segs by (force simp: nestedMounts_iff [OF ok])
    then have "nestedMounts m s ?p \<noteq> []" by auto
    then show ?thesis
      by (auto simp: merge_Stat_def split: route.split sum.split)
  next
    case Nil
    then have same: "segs n = segs ?p"
      using mount(2) segs by simp
    have name: "mount_name k" if "(k, d) \<in> set (contentMounts m s)" for k d
      using ok that by (auto simp: mounts_ok_def)
    have "length k \<le> length n" if "(k, d) \<in> set (contentMounts m s)" "prefix (segs k) (segs ?p)" for k d
    proof -
      have "pathWithinRoot (CleanPath k) (CleanPath n)"
        using that(2) same by (simp add: pathWithinRoot_segs CleanPath_of_segs segs_of_segs segs_valid cleaned_of_segs)
      then show ?thesis
        using pathWithinRoot_length [of "CleanPath k" "CleanPath n"] name [OF that(1)] name [OF mount(1)]
          mount_name_CleanPath cleaned_CleanPath by (metis Suc_le_mono append_Cons append_Nil length_Cons)
    qed
    moreover have "drop (length n) (join_with ''/'' (segs ?p)) = ''''"
      using name [OF mount(1)] same by (metis drop_all mount_name_def order_refl)
    ultimately have "merge_resolve m s ?p = Routed ''/'' b"
      using mount(1) same segs by (subst merge_resolve_route [OF ok]) auto
    with alive mount(1) show ?thesis
      by (fastforce simp: merge_Stat_def)
  qed
  ultimately show ?thesis by blast
qed

lemma segs_double_slash: "segs (''/'' @ q) = segs q"
  by (simp add: segs_def)

lemma routed_relative:
  assumes "mount_name n" "prefix (segs n) (segs p)"
  shows "segs (''/'' @ drop (length n) (join_with ''/'' (segs p))) = drop (length (segs n)) (segs p)"
proof -
  obtain ts where ts: "segs p = segs n @ ts"
    using assms(2) by (auto simp: prefix_def)
  have n: "n = join_with ''/'' (segs n)" "segs n \<noteq> []"
    using assms(1) by (auto simp: mount_name_def)
  have v: "list_all valid_seg ts"
    using segs_valid [of p] ts by simp
  show ?thesis
  proof (cases "ts = []")
    case True
    with n(1) ts show ?thesis
      by (metis append_Nil2 append_Nil drop_all le_refl segs_slash)
  next
    case False
    have "drop (length n) (join_with ''/'' (segs p)) = ''/'' @ join_with ''/'' ts"
      using join_append [OF n(2) False] n(1) by (metis append_eq_conv_conj ts)
    moreover have "segs (''/'' @ join_with ''/'' ts) = ts"
      using segs_of_segs [OF v] by (simp add: of_segs_def)
    ultimately show ?thesis
      using ts segs_double_slash by simp
  qed
qed

text \<open>
  A path goes to the mount with the longest name that is the path or an ancestor of it,
  whatever the order in which the mounts are ranged over, and the backend is asked for the
  rest of the path. With no such mount it goes to the root backend under its own name.
\<close>

theorem merge_routes_longest:
  assumes "mounts_ok (contentMounts m s)" "segs p \<noteq> []"
  shows "(\<exists>(n, b) \<in> set (contentMounts m s). prefix (segs n) (segs p)
      \<and> (\<forall>(n', b') \<in> set (contentMounts m s). prefix (segs n') (segs p) \<longrightarrow> length n' \<le> length n)
      \<and> (\<exists>sub. merge_resolve m s p = Routed sub b \<and> segs sub = drop (length (segs n)) (segs p)))
    \<or> (\<forall>(n, b) \<in> set (contentMounts m s). \<not> prefix (segs n) (segs p))
      \<and> merge_resolve m s p = (case mg_root m of Some r \<Rightarrow> Routed (CleanPath p) r
                                | None \<Rightarrow> Unrouted (ErrNotExist (join_with ''/'' (segs p))))"
proof (cases "pick_best longer_name None (covering (contentMounts m s) p)")
  case None
  then have "\<forall>(n, b) \<in> set (contentMounts m s). \<not> prefix (segs n) (segs p)"
    by (simp add: no_covering)
  moreover have "''/'' @ join_with ''/'' (segs p) = CleanPath p"
    by (simp add: CleanPath_of_segs of_segs_def)
  ultimately show ?thesis
    using None assms(2) by (simp only: merge_resolve_best [OF assms(1)] if_False option.case) blast
next
  case (Some x)
  obtain n b where x: "x = (n, b)" by force
  note best = best_covering [OF Some [unfolded x]]
  then have "mount_name n"
    using assms(1) by (auto simp: mounts_ok_def)
  with best have "segs (''/'' @ drop (length n) (join_with ''/'' (segs p))) = drop (length (segs n)) (segs p)"
    by (intro routed_relative) auto
  moreover have "merge_resolve m s p = Routed (''/'' @ drop (length n) (join_with ''/'' (segs p))) b"
    using Some x assms(2) by (simp add: merge_resolve_best [OF assms(1)])
  ultimately show ?thesis
    using best by blast
qed

subsection \<open>Two nested mounts\<close>

text \<open>A backend that keeps one file, of any name, under its mount's name in the state.\<close>

definition slot_backend :: "string \<Rightarrow> (string \<Rightarrow> string) backend" where
  "slot_backend k = \<lparr>be_wfs = \<lparr>
     w_fs = (\<lambda>s. \<lparr>fs_Stat = (\<lambda>p. Inr (if CleanPath p = ''/'' then mount_dir ''/'' ''/'' else vfs_File ''f'' p (s k) 0)),
       fs_ReadDir = (\<lambda>p. Inr []), fs_ReadFile = (\<lambda>p. Inr (s k))\<rparr>),
     w_WriteFileAtomic = (\<lambda>p b opts s. (Inr b, s(k := b))),
     w_Mkdir = (\<lambda>p. unsupported), w_MkdirAll = (\<lambda>p. unsupported),
     w_Remove = (\<lambda>p s. (None, s(k := ''''))), w_RemoveAll = (\<lambda>p opts. unsupported),
     w_xattr_reader = None, w_xattr_writer = None, w_xattr_maintenance = None,
     w_admitter = None, w_preflight = None\<rparr>, be_writable = True\<rparr>"

definition nested_merge :: "(string \<Rightarrow> string) merge_fs" where
  "nested_merge = Mount (Mount NewMergeFS ''a'' (slot_backend ''a'')) ''a/b'' (slot_backend ''a/b'')"

lemma nested_contentMounts:
  "contentMounts nested_merge s = [(''a'', slot_backend ''a''), (''a/b'', slot_backend ''a/b'')]"
  by (simp add: contentMounts_def nested_merge_def Mount_def NewMergeFS_def)

lemma nested_ok: "mounts_ok (contentMounts nested_merge s)"
proof -
  have "mount_name ''a'' \<and> mount_name ''a/b''" by code_simp
  then show ?thesis by (simp add: nested_contentMounts mounts_ok_def go_map_def)
qed

theorem merge_routes_longest_witness:
  "\<exists>sub. merge_resolve nested_merge (\<lambda>k. '''') ''/a/b/c'' = Routed sub (slot_backend ''a/b'') \<and> segs sub = [''c'']"
proof -
  have s: "segs ''/a/b/c'' = [''a'', ''b'', ''c'']" "segs ''a/b'' = [''a'', ''b'']" "segs ''a'' = [''a'']"
    by code_simp+
  then show ?thesis
    using merge_routes_longest [OF nested_ok, of "''/a/b/c''" "\<lambda>k. ''''"] by (auto simp: nested_contentMounts)
qed

lemma slot_confined: "confined (\<lambda>k s. case k of None \<Rightarrow> '''' | Some n \<Rightarrow> s n) (Some n) (slot_backend n)"
  unfolding confined_def
proof (intro allI impI)
  fix mu and s :: "string \<Rightarrow> string" and k'
  show "k' \<noteq> Some n \<Longrightarrow> (case k' of None \<Rightarrow> '''' | Some j \<Rightarrow> snd (mutate (be_wfs (slot_backend n)) mu s) j) = (case k' of None \<Rightarrow> '''' | Some j \<Rightarrow> s j)"
    by (cases mu; cases k') (auto simp: slot_backend_def no_hash_def unsupported_def)
qed

theorem merge_mutation_confined_witness:
  "snd (mutate (merge_wfs nested_merge) (MWrite ''/a/../a/b/c'' ''new'' unconditional) (\<lambda>k. ''old'')) ''a'' = ''old''"
proof -
  have "mount_of nested_merge (\<lambda>k. ''old'') ''/a/../a/b/c'' = Some ''a/b''"
    by code_simp
  then show ?thesis
    using merge_mutation_confined [of nested_merge "\<lambda>k. ''old''" "\<lambda>k s. case k of None \<Rightarrow> '''' | Some n \<Rightarrow> s n"
        "Some ''a''" "MWrite ''/a/../a/b/c'' ''new'' unconditional"] slot_confined
    by (simp add: nested_contentMounts) (simp add: nested_merge_def Mount_def NewMergeFS_def)
qed

theorem nested_mounts_reachable_witness:
  "\<exists>es info. merge_ReadDir nested_merge (\<lambda>k. '''') ''/a'' = Inr es \<and> ''b'' \<in> FileName ` set es
     \<and> merge_Stat nested_merge (\<lambda>k. '''') (path_join (CleanPath ''/a'') ''b'') = Inr info"
proof (rule nested_mounts_reachable [OF nested_ok])
  show "segs ''a/b'' = segs ''/a'' @ ''b'' # []" by code_simp
qed (auto simp: nested_contentMounts slot_backend_def)

end
