(* ===== verification/Host.thy ===== *)
theory Host
  imports Vfs "HOL-Library.AList" "HOL-Library.List_Lexorder" "HOL-Library.Char_ord"
begin

text \<open>
  The host's files below the directory a \<open>DirFS\<close> serves, and the calls of Go's \<open>os\<close> package
  that pkg/openlore/vfs.go makes on them. A host path is its list of segments; the state lists
  the nodes. There are no symbolic links, and permissions are not checked; the faults a call
  may meet beside the shape of the tree are named where the code depends on them.
\<close>

datatype node = HDir | HFile string

type_synonym host = "(string list \<times> node) list"

definition host_ok :: "host \<Rightarrow> bool" where
  "host_ok h \<longleftrightarrow> distinct (map fst h) \<and> map_of h [] = Some HDir
     \<and> (\<forall>p x n. map_of h (p @ [x]) = Some n \<longrightarrow> map_of h p = Some HDir)"

definition EEXIST :: vfs_error where
  "EEXIST = OtherError ''file exists''"

definition EISDIR :: vfs_error where
  "EISDIR = OtherError ''is a directory''"

definition ENOTEMPTY :: vfs_error where
  "ENOTEMPTY = OtherError ''directory not empty''"

definition not_exist :: vfs_error where
  "not_exist = ErrNotExist ''''"

subsection \<open>Calls\<close>

text \<open>Looking a path up passes through its parents; a file among them is no directory.\<close>

definition through_file :: "host \<Rightarrow> string list \<Rightarrow> bool" where
  "through_file h p \<longleftrightarrow> (\<exists>k \<in> set [0..<length p]. case map_of h (take k p) of Some (HFile c) \<Rightarrow> True | _ \<Rightarrow> False)"

definition os_Stat :: "host \<Rightarrow> string list \<Rightarrow> node vres" where
  "os_Stat h p =
     (case map_of h p of
        Some n \<Rightarrow> Inr n
      | None \<Rightarrow> if through_file h p then Inl ENOTDIR else Inl not_exist)"

definition os_ReadFile :: "host \<Rightarrow> string list \<Rightarrow> string vres" where
  "os_ReadFile h p =
     (case os_Stat h p of Inl e \<Rightarrow> Inl e | Inr HDir \<Rightarrow> Inl EISDIR | Inr (HFile c) \<Rightarrow> Inr c)"

definition children :: "host \<Rightarrow> string list \<Rightarrow> string list" where
  "children h p = sort (remdups (map last (filter (\<lambda>q. q \<noteq> [] \<and> butlast q = p) (map fst h))))"

definition os_ReadDir :: "host \<Rightarrow> string list \<Rightarrow> string list vres" where
  "os_ReadDir h p =
     (case os_Stat h p of Inl e \<Rightarrow> Inl e | Inr HDir \<Rightarrow> Inr (children h p) | Inr (HFile c) \<Rightarrow> Inl ENOTDIR)"

definition os_Mkdir :: "string list \<Rightarrow> host \<Rightarrow> vfs_error option \<times> host" where
  "os_Mkdir p h =
     (if map_of h p \<noteq> None then (Some EEXIST, h)
      else case os_Stat h (butlast p) of
             Inr HDir \<Rightarrow> (None, AList.update p HDir h)
           | Inr (HFile c) \<Rightarrow> (Some ENOTDIR, h)
           | Inl e \<Rightarrow> (Some e, h))"

fun mkdir_prefixes :: "string list \<Rightarrow> nat list \<Rightarrow> host \<Rightarrow> vfs_error option \<times> host" where
  "mkdir_prefixes p [] h = (None, h)"
| "mkdir_prefixes p (k # ks) h =
     (case map_of h (take k p) of
        Some HDir \<Rightarrow> mkdir_prefixes p ks h
      | Some (HFile c) \<Rightarrow> (Some ENOTDIR, h)
      | None \<Rightarrow> mkdir_prefixes p ks (AList.update (take k p) HDir h))"

definition os_MkdirAll :: "string list \<Rightarrow> host \<Rightarrow> vfs_error option \<times> host" where
  "os_MkdirAll p h = mkdir_prefixes p [0..<Suc (length p)] h"

definition os_Remove :: "string list \<Rightarrow> host \<Rightarrow> vfs_error option \<times> host" where
  "os_Remove p h =
     (case os_Stat h p of
        Inl e \<Rightarrow> (Some e, h)
      | Inr (HFile c) \<Rightarrow> (None, AList.delete p h)
      | Inr HDir \<Rightarrow> if children h p \<noteq> [] \<or> p = [] then (Some ENOTEMPTY, h) else (None, AList.delete p h))"

definition os_RemoveAll :: "string list \<Rightarrow> host \<Rightarrow> host" where
  "os_RemoveAll p h = filter (\<lambda>(q, n). \<not> prefix p q) h"

text \<open>
  A rename replaces a file by a file, and moves a tree to a name that is free. The other cases,
  which the code does not meet, fail.
\<close>

definition moved :: "string list \<Rightarrow> string list \<Rightarrow> string list \<Rightarrow> string list" where
  "moved p p' q = (if prefix p q then p' @ drop (length p) q else q)"

definition os_Rename :: "string list \<Rightarrow> string list \<Rightarrow> host \<Rightarrow> vfs_error option \<times> host" where
  "os_Rename p p' h =
     (case os_Stat h p of
        Inl e \<Rightarrow> (Some e, h)
      | Inr (HFile c) \<Rightarrow>
          (case map_of h p' of
             Some HDir \<Rightarrow> (Some EISDIR, h)
           | _ \<Rightarrow> (case os_Stat h (butlast p') of
                     Inr HDir \<Rightarrow> (None, AList.update p' (HFile c) (AList.delete p h))
                   | Inr (HFile d) \<Rightarrow> (Some ENOTDIR, h)
                   | Inl e \<Rightarrow> (Some e, h)))
      | Inr HDir \<Rightarrow>
          if map_of h p' \<noteq> None \<or> prefix p p' then (Some EEXIST, h)
          else (case os_Stat h (butlast p') of
                  Inr HDir \<Rightarrow> (None, map (\<lambda>(q, n). (moved p p' q, n)) h)
                | Inr (HFile d) \<Rightarrow> (Some ENOTDIR, h)
                | Inl e \<Rightarrow> (Some e, h)))"

end
