(* ===== verification/Dir_Fs.thy ===== *)
theory Dir_Fs
  imports Host Config Writable_Fs
begin

text \<open>
  \<open>DirFS\<close> of pkg/openlore/vfs.go, the reference \<open>WritableFS\<close>: a directory of the host with the
  file policy of the configuration, hidden paths, docset boundaries, writes that replace a
  whole file by renaming a temporary one, and tree removals that first move the tree into a
  hidden staging directory. Paths of the host are relative to the served directory. The digest,
  \<open>path.Match\<close>, times and sizes of directories, the names of temporary files and the fault a
  write may meet are fields; extended attributes are those of dirfs_xattr.go, as operations.
  The numbers and lists in messages are left out.
\<close>

record dir_state =
  ds_host :: host
  ds_writeable :: bool

record dir_fs =
  df_Allowed :: "string list"
  df_Denied :: "string list"
  df_Ignore :: "string list"
  df_match :: "string \<Rightarrow> string \<Rightarrow> bool"
  df_docsetRoots :: "string list"
  df_maxWriteBytes :: int
  df_sha :: "string \<Rightarrow> string"
  df_base :: string
  df_mtime :: "host \<Rightarrow> string list \<Rightarrow> int"
  df_dirsize :: "host \<Rightarrow> string list \<Rightarrow> int"
  df_tmp :: "host \<Rightarrow> string \<Rightarrow> string"
  df_token :: "host \<Rightarrow> string"
  df_fault :: "host \<Rightarrow> nat option"
  df_xattr_reader :: "dir_state xattr_reader"
  df_xattr_writer :: "dir_state xattr_writer"
  df_xattr_maintenance :: "dir_state xattr_maintenance"

subsection \<open>Path policy\<close>

definition trashDirName :: string where
  "trashDirName = ''.openlore-trash''"

definition isTrashPath :: "string \<Rightarrow> bool" where
  "isTrashPath clean \<longleftrightarrow> clean = ''/'' @ trashDirName \<or> prefix (''/'' @ trashDirName @ ''/'') clean"

definition slash_parts :: "string \<Rightarrow> string list" where
  "slash_parts p = split_char CHR ''/'' (map (\<lambda>c. if c = CHR 0x5C then CHR ''/'' else c) p)"

definition hasReservedPath :: "string \<Rightarrow> bool" where
  "hasReservedPath p \<longleftrightarrow> ''.lore'' \<in> set (slash_parts p)"

definition hasTraversal :: "string \<Rightarrow> bool" where
  "hasTraversal p \<longleftrightarrow> ''..'' \<in> set (slash_parts p)"

definition isAllowed :: "dir_fs \<Rightarrow> string \<Rightarrow> bool" where
  "isAllowed d name \<longleftrightarrow>
     (if \<exists>pat \<in> set (df_Denied d). df_match d pat name then False
      else if df_Allowed d = [] then True
      else \<exists>pat \<in> set (df_Allowed d). df_match d pat name)"

definition filePatternError :: "dir_fs \<Rightarrow> string \<Rightarrow> string option" where
  "filePatternError d name =
     (if isAllowed d name then None
      else case find (\<lambda>pat. df_match d pat name) (df_Denied d) of
             Some pat \<Rightarrow> Some (''filename '' @ name @ '' matches server's denied pattern '' @ pat)
           | None \<Rightarrow> Some (''filename '' @ name @ '' does not match server's allowed patterns''))"

definition ignore_candidates :: "string \<Rightarrow> string list" where
  "ignore_candidates p =
     (let q = (case path_clean (''/'' @ p) of [] \<Rightarrow> [] | c # cs \<Rightarrow> if c = CHR ''/'' then cs else c # cs);
          parts = split_char CHR ''/'' q
      in q # path_base q # map (\<lambda>i. join_with ''/'' (take (Suc i) parts)) [0..<length parts])"

definition isIgnored :: "dir_fs \<Rightarrow> string \<Rightarrow> bool" where
  "isIgnored d p \<longleftrightarrow> (\<exists>pat \<in> set (df_Ignore d). \<exists>q \<in> set (ignore_candidates p). df_match d pat q)"

definition mutationPathError :: "dir_fs \<Rightarrow> string \<Rightarrow> bool \<Rightarrow> vfs_error option" where
  "mutationPathError d p dirConfig =
     (if isTrashPath (CleanPath p) \<or> (hasReservedPath p \<and> \<not> dirConfig)
      then Some (OtherError (''write rejected: '' @ p @ '': reserved path''))
      else if hasTraversal p
      then Some (OtherError (''write rejected: '' @ p @ '': parent traversal is not allowed''))
      else if \<not> dirConfig \<and> isIgnored d p
      then Some (OtherError (''write rejected: '' @ p @ '': path matches server's ignore patterns''))
      else None)"

definition insideDocset :: "dir_fs \<Rightarrow> string \<Rightarrow> bool" where
  "insideDocset d clean \<longleftrightarrow>
     (if df_docsetRoots d = [] then clean \<noteq> ''/''
      else if clean \<in> set (df_docsetRoots d) then False
      else (\<exists>root \<in> set (df_docsetRoots d). if root = ''/'' then clean \<noteq> ''/'' else prefix (root @ ''/'') clean))"

fun docset_root_loop :: "string \<Rightarrow> string list \<Rightarrow> string \<Rightarrow> string" where
  "docset_root_loop clean [] best = best"
| "docset_root_loop clean (root # roots) best =
     docset_root_loop clean roots
       (if root = ''/'' then (if clean \<noteq> ''/'' \<and> best = '''' then ''/'' else best)
        else if prefix (root @ ''/'') clean \<and> length root > length best then root else best)"

definition docsetRootFor :: "dir_fs \<Rightarrow> string \<Rightarrow> string option" where
  "docsetRootFor d clean =
     (if df_docsetRoots d = [] then (if clean \<noteq> ''/'' then Some ''/'' else None)
      else let best = docset_root_loop clean (df_docsetRoots d) '''' in if best = '''' then None else Some best)"

definition max_write :: "dir_fs \<Rightarrow> int" where
  "max_write d = (if df_maxWriteBytes d = 0 then 2 ^ 23 else df_maxWriteBytes d)"

definition read_only :: vfs_error where
  "read_only = ErrReadOnly ''''"

definition dir_PreflightChange :: "dir_fs \<Rightarrow> change \<Rightarrow> dir_state \<Rightarrow> vfs_error option" where
  "dir_PreflightChange d c s =
     (let p = Target c; clean = CleanPath p; dirConfig = IsDirConfigPath p
      in if \<not> ds_writeable s then Some read_only
         else case mutationPathError d p dirConfig of
                Some e \<Rightarrow> Some e
              | None \<Rightarrow>
                  (case Action c of
                     ChangeActionWrite \<Rightarrow>
                       (case Write c of
                          None \<Rightarrow> Some (OtherError (''write missing payload: '' @ p))
                        | Some w \<Rightarrow>
                            if \<not> ContentPolicyValidated (wc_Opts w) \<and> int (length (wc_Bytes w)) > max_write d
                            then Some (OtherError ''write rejected: too large'')
                            else if \<not> dirConfig \<and> \<not> ContentPolicyValidated (wc_Opts w)
                            then map_option (\<lambda>m. OtherError (''write rejected: '' @ p @ '': '' @ m)) (filePatternError d (path_base p))
                            else None)
                   | ChangeActionMkdir \<Rightarrow>
                       (if clean = ''/'' \<or> \<not> insideDocset d clean
                        then Some (OtherError (''cannot create folder outside a docset: '' @ p)) else None)
                   | ChangeActionMkdirAll \<Rightarrow>
                       (if clean = ''/'' \<or> \<not> insideDocset d clean
                        then Some (OtherError (''cannot create folder outside a docset: '' @ p)) else None)
                   | ChangeActionRemove \<Rightarrow>
                       (if clean = ''/'' \<or> \<not> insideDocset d clean
                        then Some (OtherError (''cannot delete outside a docset: '' @ p)) else None)
                   | ChangeActionRemoveAll \<Rightarrow>
                       (if clean = ''/'' \<or> \<not> insideDocset d clean
                        then Some (OtherError (''cannot delete outside a docset: '' @ p)) else None)
                   | _ \<Rightarrow> None))"

subsection \<open>Writing\<close>

text \<open>The hash of the file at a path and whether something is there; a directory has no hash.\<close>

definition currentHash :: "dir_fs \<Rightarrow> host \<Rightarrow> string list \<Rightarrow> (string \<times> bool) vres" where
  "currentHash d h full =
     (case os_ReadFile h full of
        Inr c \<Rightarrow> Inr (df_sha d c, True)
      | Inl e \<Rightarrow>
          if is_not_exist e then Inr ('''', False)
          else if os_Stat h full = Inr HDir then Inr ('''', True) else Inl e)"

text \<open>
  \<open>df_fault\<close> names the step that fails: 0 creating the temporary file, 1 to 4 writing, syncing,
  closing and changing its mode, 5 the rename.
\<close>

definition atomicWrite :: "dir_fs \<Rightarrow> string list \<Rightarrow> string \<Rightarrow> host \<Rightarrow> vfs_error option \<times> host" where
  "atomicWrite d full content h =
     (let tmp = butlast full @ [df_tmp d h (last full)]
      in if df_fault d h = Some 0 then (Some (OtherError ''create temp''), h)
         else case os_Stat h (butlast full) of
                Inl e \<Rightarrow> (Some e, h)
              | Inr (HFile c) \<Rightarrow> (Some ENOTDIR, h)
              | Inr HDir \<Rightarrow>
                  (if df_fault d h \<in> {Some 1, Some 2, Some 3, Some 4}
                   then (Some (OtherError ''write temp''), AList.delete tmp (AList.update tmp (HFile content) h))
                   else let h1 = AList.update tmp (HFile content) h
                        in if df_fault d h = Some 5 then (Some (OtherError ''rename''), AList.delete tmp h1)
                           else case os_Rename tmp full h1 of
                                  (Some e, h2) \<Rightarrow> (Some e, AList.delete tmp h2)
                                | (None, h2) \<Rightarrow> (None, h2)))"

definition precondition_error :: "dir_fs \<Rightarrow> host \<Rightarrow> string \<Rightarrow> write_opts \<Rightarrow> vfs_error option" where
  "precondition_error d h p opts =
     (if IfMatch opts = None \<and> \<not> IfNoneMatch opts then None
      else case currentHash d h (segs p) of
             Inl e \<Rightarrow> Some e
           | Inr (cur, exists) \<Rightarrow>
               if IfNoneMatch opts \<and> exists then Some (PreconditionError (CleanPath p) cur)
               else (case IfMatch opts of
                       None \<Rightarrow> None
                     | Some want \<Rightarrow> if \<not> exists \<or> cur \<noteq> want then Some (PreconditionError (CleanPath p) cur) else None))"

definition dir_write_rejection :: "dir_fs \<Rightarrow> string \<Rightarrow> string \<Rightarrow> write_opts \<Rightarrow> dir_state \<Rightarrow> vfs_error option" where
  "dir_write_rejection d p content opts s =
     (let dirConfig = IsDirConfigPath p
      in if \<not> ContentPolicyValidated opts \<and> int (length content) > max_write d
         then Some (OtherError ''write rejected: too large'')
         else case mutationPathError d p dirConfig of
                Some e \<Rightarrow> Some e
              | None \<Rightarrow>
                  (case (if \<not> dirConfig \<and> \<not> ContentPolicyValidated opts then filePatternError d (path_base p) else None) of
                     Some m \<Rightarrow> Some (OtherError (''write rejected: '' @ p @ '': '' @ m))
                   | None \<Rightarrow> if \<not> ds_writeable s then Some read_only else precondition_error d (ds_host s) p opts))"

definition dir_WriteFileAtomic :: "dir_fs \<Rightarrow> string \<Rightarrow> string \<Rightarrow> write_opts \<Rightarrow> dir_state \<Rightarrow> string vres \<times> dir_state" where
  "dir_WriteFileAtomic d p content opts s =
     (case dir_write_rejection d p content opts s of
        Some e \<Rightarrow> (Inl e, s)
      | None \<Rightarrow>
          (case os_MkdirAll (butlast (segs p)) (ds_host s) of
             (Some e, h) \<Rightarrow> (Inl e, s\<lparr>ds_host := h\<rparr>)
           | (None, h) \<Rightarrow>
               (case atomicWrite d (segs p) content h of
                  (Some e, h') \<Rightarrow> (Inl e, s\<lparr>ds_host := h'\<rparr>)
                | (None, h') \<Rightarrow> (Inr (df_sha d content), s\<lparr>ds_host := h'\<rparr>))))"

definition folder_rejection :: "dir_fs \<Rightarrow> string \<Rightarrow> dir_state \<Rightarrow> (string \<Rightarrow> bool) \<Rightarrow> vfs_error option" where
  "folder_rejection d p s inside =
     (if CleanPath p = ''/'' then Some (OtherError (''cannot create docset root: '' @ p))
      else case mutationPathError d p False of
             Some e \<Rightarrow> Some e
           | None \<Rightarrow>
               if \<not> inside (CleanPath p) then Some (OtherError (''cannot create folder outside a docset: '' @ p))
               else if \<not> ds_writeable s then Some read_only else None)"

definition dir_Mkdir :: "dir_fs \<Rightarrow> string \<Rightarrow> dir_state op" where
  "dir_Mkdir d p s =
     (case folder_rejection d p s (insideDocset d) of
        Some e \<Rightarrow> (Some e, s)
      | None \<Rightarrow>
          (let clean = CleanPath p;
               root = (case docsetRootFor d clean of Some r \<Rightarrow> r | None \<Rightarrow> '''');
               (err, h) = (if root \<noteq> ''/'' \<and> root = path_dir clean then os_MkdirAll (segs root) (ds_host s) else (None, ds_host s))
           in case err of
                Some e \<Rightarrow> (Some e, s\<lparr>ds_host := h\<rparr>)
              | None \<Rightarrow> (case os_Mkdir (segs p) h of (e, h') \<Rightarrow> (e, s\<lparr>ds_host := h'\<rparr>))))"

definition materializeDir :: "dir_fs \<Rightarrow> string \<Rightarrow> dir_state op" where
  "materializeDir d p s =
     (case mutationPathError d p False of
        Some e \<Rightarrow> (Some e, s)
      | None \<Rightarrow>
          if \<not> ds_writeable s then (Some read_only, s)
          else (case os_MkdirAll (segs (CleanPath p)) (ds_host s) of (e, h) \<Rightarrow> (e, s\<lparr>ds_host := h\<rparr>)))"

definition dir_MkdirAll :: "dir_fs \<Rightarrow> string \<Rightarrow> dir_state op" where
  "dir_MkdirAll d p s =
     (case folder_rejection d p s (\<lambda>clean. docsetRootFor d clean \<noteq> None) of
        Some e \<Rightarrow> (Some e, s)
      | None \<Rightarrow> (case os_MkdirAll (segs p) (ds_host s) of (e, h) \<Rightarrow> (e, s\<lparr>ds_host := h\<rparr>)))"

subsection \<open>Removing\<close>

definition removal_rejection :: "dir_fs \<Rightarrow> string \<Rightarrow> bool \<Rightarrow> dir_state \<Rightarrow> vfs_error option" where
  "removal_rejection d p dirConfig s =
     (if CleanPath p = ''/'' then Some (OtherError (''cannot delete docset root: '' @ p))
      else case mutationPathError d p dirConfig of
             Some e \<Rightarrow> Some e
           | None \<Rightarrow>
               if \<not> insideDocset d (CleanPath p) then Some (OtherError (''cannot delete outside a docset: '' @ p))
               else if \<not> ds_writeable s then Some read_only else None)"

definition host_name :: "dir_fs \<Rightarrow> string list \<Rightarrow> string" where
  "host_name d p = (if p = [] then df_base d else last p)"

definition dir_Remove :: "dir_fs \<Rightarrow> string \<Rightarrow> dir_state op" where
  "dir_Remove d p s =
     (case removal_rejection d p (IsDirConfigPath p) s of
        Some e \<Rightarrow> (Some e, s)
      | None \<Rightarrow>
          (case os_Stat (ds_host s) (segs p) of
             Inl e \<Rightarrow> (Some e, s)
           | Inr n \<Rightarrow>
               (case (if \<not> IsDirConfigPath p \<and> n \<noteq> HDir then filePatternError d (host_name d (segs p)) else None) of
                  Some m \<Rightarrow> (Some (OtherError (''delete rejected: '' @ p @ '': '' @ m)), s)
                | None \<Rightarrow> (case os_Remove (segs p) (ds_host s) of (e, h) \<Rightarrow> (e, s\<lparr>ds_host := h\<rparr>)))))"

text \<open>
  The nodes \<open>filepath.WalkDir\<close> visits below a path, in lexical order, not descending into a
  \<open>.lore\<close> directory, which its callback skips.
\<close>

definition walk_nodes :: "host \<Rightarrow> string list \<Rightarrow> string list list" where
  "walk_nodes h full =
     sort (filter (\<lambda>q. prefix full q \<and> (\<forall>k \<in> set [length full..<length q]. k = 0 \<or> take k q ! (k - 1) \<noteq> ''.lore'')) (map fst h))"

definition rel_path :: "string list \<Rightarrow> string list \<Rightarrow> string" where
  "rel_path full q = (if q = full then ''.'' else join_with ''/'' (drop (length full) q))"

definition dir_op :: "string \<Rightarrow> string \<Rightarrow> tree_op" where
  "dir_op rel hash = \<lparr>RelPath = rel, Kind = ''dir'', Hash = hash, Size = 0\<rparr>"

definition file_op :: "dir_fs \<Rightarrow> string \<Rightarrow> string \<Rightarrow> tree_op" where
  "file_op d rel c = \<lparr>RelPath = rel, Kind = ''file'', Hash = df_sha d c, Size = int (length c)\<rparr>"

definition snapshot_node :: "dir_fs \<Rightarrow> host \<Rightarrow> string list \<Rightarrow> string list \<Rightarrow> tree_op list vres" where
  "snapshot_node d h full q =
     (let rel = rel_path full q
      in case map_of h q of
           Some HDir \<Rightarrow>
             if host_name d q = ''.lore'' then
               (case os_Stat h (q @ [''config.yaml'']) of
                  Inr (HFile c) \<Rightarrow> Inr [dir_op rel '''', file_op d (path_join rel ''config.yaml'') c]
                | Inr HDir \<Rightarrow> Inr []
                | Inl e \<Rightarrow> if is_not_exist e then Inr [] else Inl e)
             else if q \<noteq> full \<and> isIgnored d (of_segs q)
             then Inl (OtherError (''refusing delete: hidden directory '' @ of_segs q))
             else (case os_ReadFile h (q @ [''.lore'', ''xattrs'', ''self'']) of
                     Inr data \<Rightarrow> Inr [dir_op rel (df_sha d data)]
                   | Inl e \<Rightarrow> if is_not_exist e then Inr [dir_op rel ''''] else Inl e)
         | Some (HFile c) \<Rightarrow>
             if \<not> isAllowed d (host_name d q) \<or> isIgnored d (of_segs q)
             then Inl (OtherError (''refusing delete: hidden file '' @ of_segs q))
             else Inr [file_op d rel c]
         | None \<Rightarrow> Inr [])"

fun snapshot_nodes :: "dir_fs \<Rightarrow> host \<Rightarrow> string list \<Rightarrow> string list list \<Rightarrow> tree_op list vres" where
  "snapshot_nodes d h full [] = Inr []"
| "snapshot_nodes d h full (q # qs) =
     (case snapshot_node d h full q of
        Inl e \<Rightarrow> Inl e
      | Inr ops \<Rightarrow> map_sum id ((@) ops) (snapshot_nodes d h full qs))"

definition rawSnapshot :: "dir_fs \<Rightarrow> host \<Rightarrow> string \<Rightarrow> string list \<Rightarrow> tree_snapshot vres" where
  "rawSnapshot d h clean full =
     map_sum id (\<lambda>ops. \<lparr>Root = clean, Ops = ops\<rparr>) (snapshot_nodes d h full (walk_nodes h full))"

definition op_map :: "tree_snapshot \<Rightarrow> string \<rightharpoonup> tree_op" where
  "op_map snap = map_of (map (\<lambda>op. (RelPath op, op)) (rev (Ops snap)))"

text \<open>Which of several divergences is told depends on the order of a Go map; here it is the order of the operations.\<close>

definition op_divergence :: "tree_snapshot \<Rightarrow> tree_op \<Rightarrow> string option" where
  "op_divergence got wop =
     (case op_map got (RelPath wop) of
        None \<Rightarrow> Some (RelPath wop @ '' was removed'')
      | Some gop \<Rightarrow>
          if Kind gop \<noteq> Kind wop then Some (RelPath wop @ '' changed kind'')
          else if Kind wop = ''dir'' \<and> Hash gop \<noteq> Hash wop then Some (RelPath wop @ '' changed attributes'')
          else if Kind wop = ''file'' \<and> Hash gop \<noteq> Hash wop then Some (RelPath wop @ '' changed content'')
          else None)"

definition snapshotsEqual :: "tree_snapshot \<Rightarrow> tree_snapshot \<Rightarrow> string option" where
  "snapshotsEqual want got =
     (let wants = List.map_filter (\<lambda>op. op_map want (RelPath op)) (Ops want)
      in case List.map_filter (op_divergence got) wants of
           m # _ \<Rightarrow> Some m
         | [] \<Rightarrow> (case find (\<lambda>op. op_map want (RelPath op) = None) (Ops got) of
                    Some op \<Rightarrow> Some (RelPath op @ '' was added'')
                  | None \<Rightarrow> None))"

definition dir_RemoveAll :: "dir_fs \<Rightarrow> string \<Rightarrow> remove_opts \<Rightarrow> dir_state op" where
  "dir_RemoveAll d p opts s =
     (case removal_rejection d p False s of
        Some e \<Rightarrow> (Some e, s)
      | None \<Rightarrow>
          (let h = ds_host s; full = segs p; clean = CleanPath p
           in case os_Stat h full of
                Inl e \<Rightarrow> (Some e, s)
              | Inr _ \<Rightarrow>
                  (case rawSnapshot d h clean full of
                     Inl e \<Rightarrow> (Some e, s)
                   | Inr snap \<Rightarrow>
                       (case (case Expected opts of None \<Rightarrow> None | Some want \<Rightarrow> snapshotsEqual want snap) of
                          Some detail \<Rightarrow> (Some (TreeStaleError clean detail), s)
                        | None \<Rightarrow>
                            (case os_MkdirAll [trashDirName] h of
                               (Some e, h1) \<Rightarrow> (Some e, s\<lparr>ds_host := h1\<rparr>)
                             | (None, h1) \<Rightarrow>
                                 (let staged = [trashDirName, df_token d h1]
                                  in case os_Rename full staged h1 of
                                       (Some e, h2) \<Rightarrow> (Some e, s\<lparr>ds_host := h2\<rparr>)
                                     | (None, h2) \<Rightarrow> (None, s\<lparr>ds_host := os_RemoveAll staged h2\<rparr>)))))))"

definition sweepTrash :: "dir_state \<Rightarrow> dir_state" where
  "sweepTrash s = s\<lparr>ds_host := os_RemoveAll [trashDirName] (ds_host s)\<rparr>"

definition dir_SetWriteable :: "dir_state \<Rightarrow> dir_state" where
  "dir_SetWriteable s = sweepTrash (s\<lparr>ds_writeable := True\<rparr>)"

definition dir_SetReadonly :: "dir_state \<Rightarrow> dir_state" where
  "dir_SetReadonly s = s\<lparr>ds_writeable := False\<rparr>"

subsection \<open>Reading\<close>

definition host_info :: "dir_fs \<Rightarrow> host \<Rightarrow> string list \<Rightarrow> string \<Rightarrow> string \<Rightarrow> node \<Rightarrow> file_info" where
  "host_info d h q name path n =
     \<lparr>FileName = name, FilePath = path, Content = '''', Dir = (n = HDir), FileModTime = df_mtime d h q,
      FileSize = (case n of HDir \<Rightarrow> df_dirsize d h q | HFile c \<Rightarrow> int (length c)), LinkTarget = ''''\<rparr>"

definition hidden :: "string \<Rightarrow> bool" where
  "hidden p \<longleftrightarrow> isTrashPath (CleanPath p) \<or> (hasReservedPath p \<and> \<not> IsDirConfigPath p) \<or> hasTraversal p"

definition dir_Stat :: "dir_fs \<Rightarrow> host \<Rightarrow> string \<Rightarrow> file_info vres" where
  "dir_Stat d h p =
     (let clean = CleanPath p; full = segs p; dirConfig = IsDirConfigPath p
      in if path_base clean = ''.lore'' \<and> \<not> hasTraversal p \<and> IsDirConfigPath (path_join clean ''config.yaml'') then
           (case os_Stat h (full @ [''config.yaml'']) of
              Inr (HFile c) \<Rightarrow>
                (case os_Stat h full of
                   Inl e \<Rightarrow> Inl e
                 | Inr n \<Rightarrow> Inr (host_info d h full ''.lore'' clean n\<lparr>Dir := True\<rparr>))
            | _ \<Rightarrow> Inl not_exist)
         else if hidden p then Inl not_exist
         else case os_Stat h full of
                Inl e \<Rightarrow> Inl e
              | Inr n \<Rightarrow>
                  if \<not> dirConfig \<and> n \<noteq> HDir \<and> \<not> isAllowed d (host_name d full) then Inl (OtherError (''access denied: '' @ p))
                  else if \<not> dirConfig \<and> n = HDir \<and> isIgnored d p then Inl (OtherError (''access denied: '' @ p))
                  else Inr (host_info d h full (host_name d full) clean n))"

definition dir_entry :: "dir_fs \<Rightarrow> host \<Rightarrow> string \<Rightarrow> string \<Rightarrow> file_info list" where
  "dir_entry d h p name =
     (let full = segs p; q = full @ [name]; childPath = path_join p name
      in case map_of h q of
           None \<Rightarrow> []
         | Some n \<Rightarrow>
             if name = ''.lore'' then
               (case os_Stat h (q @ [''config.yaml'']) of
                  Inr (HFile c) \<Rightarrow> [host_info d h q ''.lore'' (path_join (CleanPath p) ''.lore'') n\<lparr>Dir := True\<rparr>]
                | _ \<Rightarrow> [])
             else if isTrashPath (CleanPath childPath) then []
             else if (if n = HDir then isIgnored d childPath else \<not> isAllowed d name) then []
             else [host_info d h q name (CleanPath childPath) n])"

definition dir_ReadDir :: "dir_fs \<Rightarrow> host \<Rightarrow> string \<Rightarrow> file_info list vres" where
  "dir_ReadDir d h p =
     (let clean = CleanPath p
      in if path_base clean = ''.lore'' \<and> IsDirConfigPath (path_join clean ''config.yaml'') then
           (if hasTraversal p then Inl not_exist
            else case os_Stat h (segs p @ [''config.yaml'']) of
                   Inl e \<Rightarrow> Inl e
                 | Inr HDir \<Rightarrow> Inl not_exist
                 | Inr (HFile c) \<Rightarrow>
                     Inr [host_info d h (segs p @ [''config.yaml'']) ''config.yaml'' (path_join clean ''config.yaml'') (HFile c)])
         else if isTrashPath clean \<or> hasReservedPath p \<or> hasTraversal p then Inl not_exist
         else if isIgnored d p then Inl (OtherError (''access denied: '' @ p))
         else case os_ReadDir h (segs p) of
                Inl e \<Rightarrow> Inl e
              | Inr names \<Rightarrow> Inr (concat (map (dir_entry d h p) names)))"

definition dir_ReadFile :: "dir_fs \<Rightarrow> host \<Rightarrow> string \<Rightarrow> string vres" where
  "dir_ReadFile d h p =
     (if hidden p then Inl not_exist
      else if \<not> IsDirConfigPath p \<and> \<not> isAllowed d (path_base p) then Inl (OtherError (''access denied: '' @ p))
      else os_ReadFile h (segs p))"

definition dir_wfs :: "dir_fs \<Rightarrow> dir_state wfs" where
  "dir_wfs d = \<lparr>
     w_fs = (\<lambda>s. \<lparr>fs_Stat = dir_Stat d (ds_host s), fs_ReadDir = dir_ReadDir d (ds_host s),
                  fs_ReadFile = dir_ReadFile d (ds_host s)\<rparr>),
     w_WriteFileAtomic = dir_WriteFileAtomic d,
     w_Mkdir = dir_Mkdir d, w_MkdirAll = dir_MkdirAll d,
     w_Remove = dir_Remove d, w_RemoveAll = dir_RemoveAll d,
     w_xattr_reader = Some (df_xattr_reader d), w_xattr_writer = Some (df_xattr_writer d),
     w_xattr_maintenance = Some (df_xattr_maintenance d),
     w_admitter = None, w_preflight = Some (dir_PreflightChange d)\<rparr>"

end
