(* ===== verification/Dir_Writes.thy ===== *)
theory Dir_Writes
  imports Dir_Fs
begin

text \<open>
  What \<open>DirFS\<close> promises of a write: it is atomic, it compares and swaps, and it can be read
  back.
\<close>

subsection \<open>Files of a host\<close>

definition file_at :: "host \<Rightarrow> string list \<Rightarrow> string option" where
  "file_at h q = (case map_of h q of Some (HFile c) \<Rightarrow> Some c | _ \<Rightarrow> None)"

named_theorems host_simps

lemmas [host_simps] = AList.update_conv' AList.delete_conv' file_at_def

lemma mkdir_prefixes_files: "file_at (snd (mkdir_prefixes p ks h)) q = file_at h q"
proof (induction p ks h rule: mkdir_prefixes.induct)
  case (2 p k ks h)
  show ?case
  proof (cases "map_of h (take k p)")
    case None
    then have "file_at (AList.update (take k p) HDir h) q = file_at h q"
      by (auto simp: host_simps)
    with 2(1) [OF None] None show ?thesis by simp
  next
    case (Some n)
    with 2(2) show ?thesis by (cases n) auto
  qed
qed simp

lemma os_MkdirAll_files: "os_MkdirAll p h = (e, h') \<Longrightarrow> file_at h' q = file_at h q"
  using mkdir_prefixes_files [of p "[0..<Suc (length p)]" h q] by (simp add: os_MkdirAll_def)

text \<open>The temporary file of a write has a name of its own.\<close>

definition tmp_fresh :: "dir_fs \<Rightarrow> host \<Rightarrow> string list \<Rightarrow> bool" where
  "tmp_fresh d h full \<longleftrightarrow> butlast full @ [df_tmp d h (last full)] \<noteq> full
     \<and> map_of h (butlast full @ [df_tmp d h (last full)]) = None"

lemma atomicWrite_files:
  assumes "atomicWrite d full c h = (e, h')" "tmp_fresh d h full"
  shows "file_at h' q = (if e = None \<and> q = full then Some c else file_at h q)"
    and "e = None \<Longrightarrow> map_of h full \<noteq> Some HDir"
proof -
  define tmp where "tmp = butlast full @ [df_tmp d h (last full)]"
  define h1 where "h1 = AList.update tmp (HFile c) h"
  have tmp: "tmp \<noteq> full" "map_of h tmp = None"
    using assms(2) by (auto simp: tmp_fresh_def tmp_def)
  have stat: "os_Stat h1 tmp = Inr (HFile c)"
    by (simp add: os_Stat_def h1_def AList.update_conv')
  have m: "map_of h1 full = map_of h full"
    using tmp(1) by (simp add: h1_def AList.update_conv')
  have clean: "file_at (AList.delete tmp h1) q = file_at h q" for q
    using tmp by (auto simp: host_simps h1_def)
  have rename: "os_Rename tmp full h1 = (r, h2) \<Longrightarrow>
      (case r of None \<Rightarrow> h2 = AList.update full (HFile c) (AList.delete tmp h1) \<and> map_of h full \<noteq> Some HDir
       | Some _ \<Rightarrow> h2 = h1)" for r h2
    using tmp(1) m by (auto simp: os_Rename_def stat split: option.splits sum.splits node.splits)
  let ?ok = "(\<forall>q. file_at h' q = (if e = None \<and> q = full then Some c else file_at h q))
      \<and> (e = None \<longrightarrow> map_of h full \<noteq> Some HDir)"
  have def': "atomicWrite d full c h =
      (if df_fault d h = Some 0 then (Some (OtherError ''create temp''), h)
       else case os_Stat h (butlast full) of
              Inl e \<Rightarrow> (Some e, h)
            | Inr (HFile c) \<Rightarrow> (Some ENOTDIR, h)
            | Inr HDir \<Rightarrow>
                if df_fault d h \<in> {Some 1, Some 2, Some 3, Some 4} then (Some (OtherError ''write temp''), AList.delete tmp h1)
                else if df_fault d h = Some 5 then (Some (OtherError ''rename''), AList.delete tmp h1)
                else case os_Rename tmp full h1 of
                       (Some e, h2) \<Rightarrow> (Some e, AList.delete tmp h2)
                     | (None, h2) \<Rightarrow> (None, h2))"
    by (simp only: atomicWrite_def Let_def tmp_def h1_def)
  have ?ok
  proof (cases "df_fault d h = Some 0 \<or> os_Stat h (butlast full) \<noteq> Inr HDir")
    case True
    then have "e \<noteq> None \<and> h' = h"
      using assms(1) def' by (auto split: if_splits sum.splits node.splits)
    then show ?thesis by auto
  next
    case False
    show ?thesis
    proof (cases "df_fault d h \<in> {Some 1, Some 2, Some 3, Some 4, Some 5}")
      case True
      then have "e \<noteq> None \<and> h' = AList.delete tmp h1"
        using assms(1) def' False by auto
      with clean show ?thesis by auto
    next
      case nofault: False
      obtain r h2 where r: "os_Rename tmp full h1 = (r, h2)" by force
      show ?thesis
      proof (cases r)
        case None
        then have "e = None \<and> h' = h2"
          using assms(1) def' False nofault r by auto
        with rename [OF r] None clean show ?thesis
          by (auto simp: file_at_def AList.update_conv')
      next
        case (Some x)
        then have "e \<noteq> None \<and> h' = AList.delete tmp h2"
          using assms(1) def' False nofault r by auto
        with rename [OF r] Some clean show ?thesis by auto
      qed
    qed
  qed
  then show "file_at h' q = (if e = None \<and> q = full then Some c else file_at h q)"
    "e = None \<Longrightarrow> map_of h full \<noteq> Some HDir"
    by auto
qed

subsection \<open>Writes\<close>

text \<open>The host on which the temporary file is created.\<close>

definition write_host :: "string \<Rightarrow> dir_state \<Rightarrow> host" where
  "write_host p s = snd (os_MkdirAll (butlast (segs p)) (ds_host s))"

lemma dir_write_cases:
  assumes "dir_WriteFileAtomic d p c opts s = (r, s')" "tmp_fresh d (write_host p s) (segs p)"
  shows "(\<exists>e. r = Inl e \<and> (\<forall>q. file_at (ds_host s') q = file_at (ds_host s) q))
    \<or> (r = Inr (df_sha d c) \<and> dir_write_rejection d p c opts s = None
       \<and> (\<forall>q. file_at (ds_host s') q = (if q = segs p then Some c else file_at (ds_host s) q))
       \<and> map_of (write_host p s) (segs p) \<noteq> Some HDir)"
proof (cases "dir_write_rejection d p c opts s")
  case (Some e)
  with assms(1) show ?thesis by (auto simp: dir_WriteFileAtomic_def)
next
  case None
  obtain e h where mk: "os_MkdirAll (butlast (segs p)) (ds_host s) = (e, h)" by force
  then have files: "file_at h q = file_at (ds_host s) q" and h: "h = write_host p s" for q
    by (simp_all add: os_MkdirAll_files write_host_def)
  show ?thesis
  proof (cases e)
    case (Some x)
    with None mk assms(1) files show ?thesis by (auto simp: dir_WriteFileAtomic_def)
  next
    case none: None
    obtain e' h' where w: "atomicWrite d (segs p) c h = (e', h')" by force
    note after = atomicWrite_files [OF w assms(2) [folded h]]
    have "r = (case e' of Some x \<Rightarrow> Inl x | None \<Rightarrow> Inr (df_sha d c)) \<and> ds_host s' = h'"
      using assms(1) None mk none w by (auto simp: dir_WriteFileAtomic_def split: option.splits)
    with after files h None show ?thesis
      by (cases e') auto
  qed
qed

text \<open>
  C30. A write is atomic: whatever fails on the way, every file of the directory is what it was,
  or the write succeeded and only its target changed, to the whole new content; the hash it
  returns is that of the content.
\<close>

theorem write_is_atomic:
  assumes "dir_WriteFileAtomic d p c opts s = (r, s')" "tmp_fresh d (write_host p s) (segs p)"
  shows "(\<exists>e. r = Inl e \<and> file_at (ds_host s') = file_at (ds_host s))
    \<or> r = Inr (df_sha d c) \<and> file_at (ds_host s') = (file_at (ds_host s))(segs p \<mapsto> c)"
  using dir_write_cases [OF assms] by (auto simp: fun_eq_iff)

lemma mkdir_prefixes_dir: "map_of h q = Some n \<Longrightarrow> map_of (snd (mkdir_prefixes p ks h)) q = Some n"
proof (induction p ks h rule: mkdir_prefixes.induct)
  case (2 p k ks h)
  show ?case
  proof (cases "map_of h (take k p)")
    case None
    with 2(3) have "map_of (AList.update (take k p) HDir h) q = Some n"
      by (auto simp: host_simps)
    with 2(1) [OF None] None show ?thesis by simp
  next
    case (Some m)
    with 2(2,3) show ?thesis by (cases m) auto
  qed
qed simp

lemma write_host_keeps: "map_of (ds_host s) q = Some n \<Longrightarrow> map_of (write_host p s) q = Some n"
  by (simp add: write_host_def os_MkdirAll_def mkdir_prefixes_dir)

text \<open>
  A write compares and swaps: with \<open>IfMatch\<close> it succeeds only over a file with that hash,
  with \<open>IfNoneMatch\<close> only where there is nothing.
\<close>

lemma write_compares:
  assumes "dir_WriteFileAtomic d p c opts s = (Inr hash, s')" "tmp_fresh d (write_host p s) (segs p)"
  shows "(\<forall>want. IfMatch opts = Some want \<longrightarrow> (\<exists>old. file_at (ds_host s) (segs p) = Some old \<and> df_sha d old = want))
    \<and> (IfNoneMatch opts \<longrightarrow> map_of (ds_host s) (segs p) = None)"
proof -
  have ok: "dir_write_rejection d p c opts s = None" and content: "map_of (write_host p s) (segs p) \<noteq> Some HDir"
    using dir_write_cases [OF assms] by auto
  then have pre: "precondition_error d (ds_host s) p opts = None" and not_dir: "map_of (ds_host s) (segs p) \<noteq> Some HDir"
    using write_host_keeps [of s "segs p" HDir p] by (auto simp: dir_write_rejection_def Let_def split: if_splits option.splits)
  show ?thesis
  proof (cases "map_of (ds_host s) (segs p)")
    case None
    with pre show ?thesis
      by (auto simp: precondition_error_def currentHash_def os_ReadFile_def os_Stat_def not_exist_def
          split: if_splits option.splits)
  next
    case (Some n)
    with not_dir pre show ?thesis
      by (cases n) (auto simp: precondition_error_def currentHash_def os_ReadFile_def os_Stat_def file_at_def
          split: if_splits option.splits)
  qed
qed

text \<open>
  What a write put down can be read back: after a write under the file policy, reading the
  same path returns the content written.
\<close>

lemma write_then_read:
  assumes "dir_WriteFileAtomic d p c opts s = (Inr hash, s')" "tmp_fresh d (write_host p s) (segs p)"
    and "\<not> ContentPolicyValidated opts"
  shows "dir_ReadFile d (ds_host s') p = Inr c"
proof -
  have ok: "dir_write_rejection d p c opts s = None" and content: "file_at (ds_host s') (segs p) = Some c"
    using dir_write_cases [OF assms(1,2)] by auto
  from content have "os_ReadFile (ds_host s') (segs p) = Inr c"
    by (auto simp: os_ReadFile_def os_Stat_def file_at_def split: option.splits node.splits)
  moreover have "\<not> hidden p" "IsDirConfigPath p \<or> isAllowed d (path_base p)"
    using ok assms(3)
    by (auto simp: dir_write_rejection_def Let_def mutationPathError_def hidden_def filePatternError_def
        split: if_splits option.splits)
  ultimately show ?thesis
    by (auto simp: dir_ReadFile_def)
qed

subsection \<open>A small directory\<close>

definition no_xattrs :: "dir_state xattr_reader \<times> dir_state xattr_writer \<times> dir_state xattr_maintenance" where
  "no_xattrs =
     (\<lparr>x_GetXattr = (\<lambda>p n s. Inl ENOTSUP), x_ListXattrs = (\<lambda>p s. Inl ENOTSUP)\<rparr>,
      \<lparr>x_SetXattr = (\<lambda>p n v f. unsupported), x_RemoveXattr = (\<lambda>p n. unsupported)\<rparr>,
      \<lparr>x_PreserveAndRecreateXattrs = (\<lambda>p a. unsupported), x_MigrateXattrs = (\<lambda>p m. unsupported)\<rparr>)"

definition sample_dir :: dir_fs where
  "sample_dir = \<lparr>df_Allowed = [], df_Denied = [''secret''], df_Ignore = [''.git''], df_match = (\<lambda>pat name. pat = name),
     df_docsetRoots = [''/d''], df_maxWriteBytes = 0, df_sha = (\<lambda>b. b), df_base = ''content'',
     df_mtime = (\<lambda>h q. 0), df_dirsize = (\<lambda>h q. 0), df_tmp = (\<lambda>h name. ''.tmp-'' @ name @ ''-1''),
     df_token = (\<lambda>h. ''t''), df_fault = (\<lambda>h. None), df_xattr_reader = fst no_xattrs,
     df_xattr_writer = fst (snd no_xattrs), df_xattr_maintenance = snd (snd no_xattrs)\<rparr>"

definition sample_host :: dir_state where
  "sample_host = \<lparr>ds_host = [([], HDir), ([''d''], HDir), ([''d'', ''a''], HFile ''old''), ([''d'', ''t''], HDir),
       ([''d'', ''t'', ''x''], HFile ''1''), ([''.git''], HDir), ([''.git'', ''key''], HFile ''k'')], ds_writeable = True\<rparr>"

definition over_old :: write_opts where
  "over_old = \<lparr>IfMatch = Some ''old'', IfNoneMatch = False, ContentPolicyValidated = False\<rparr>"

lemma sample_write:
  "\<exists>s'. dir_WriteFileAtomic sample_dir ''/d/a'' ''new'' over_old sample_host = (Inr ''new'', s')"
proof -
  have "fst (dir_WriteFileAtomic sample_dir ''/d/a'' ''new'' over_old sample_host) = Inr ''new''"
    by code_simp
  then show ?thesis by (metis prod.collapse)
qed

lemma sample_fresh: "tmp_fresh sample_dir (write_host ''/d/a'' sample_host) (segs ''/d/a'')"
  by code_simp

theorem write_is_atomic_witness:
  "\<exists>s'. dir_WriteFileAtomic sample_dir ''/d/a'' ''new'' over_old sample_host = (Inr ''new'', s')
     \<and> file_at (ds_host s') = (file_at (ds_host sample_host))(segs ''/d/a'' \<mapsto> ''new'')"
  using sample_write write_is_atomic [OF _ sample_fresh] by (metis Inl_Inr_False)

text \<open>
  The ignore patterns hide a directory from listings, but a file in it whose name is allowed is
  served to a reader who names it.
\<close>

lemma ignored_file_readable:
  "isIgnored sample_dir ''/.git'' \<and> isIgnored sample_dir ''/.git/key''
   \<and> (\<forall>es. dir_ReadDir sample_dir (ds_host sample_host) ''/.git'' \<noteq> Inr es)
   \<and> dir_ReadFile sample_dir (ds_host sample_host) ''/.git/key'' = Inr ''k''"
proof -
  have "isIgnored sample_dir ''/.git'' \<and> isIgnored sample_dir ''/.git/key''
    \<and> isl (dir_ReadDir sample_dir (ds_host sample_host) ''/.git'')
    \<and> dir_ReadFile sample_dir (ds_host sample_host) ''/.git/key'' = Inr ''k''"
    by code_simp
  then show ?thesis by (metis sum.disc(2))
qed

end
