(* ===== verification/Dir_Removal.thy ===== *)
theory Dir_Removal
  imports Dir_Writes
begin

text \<open>
  The removal of a tree: it takes effect by one rename, removes exactly the tree, and refuses a
  tree that holds anything the file policy hides, so that no unseen content is destroyed.
\<close>

lemma map_of_filter_fst: "map_of (filter (\<lambda>(q, n). P q) h) r = (if P r then map_of h r else None)"
  by (induction h) auto

lemma below_dir:
  assumes "host_ok h" "map_of h q \<noteq> None" "strict_prefix p q"
  shows "map_of h p = Some HDir"
  using assms(2,3)
proof (induction q rule: rev_induct)
  case (snoc x q)
  then have "map_of h q = Some HDir"
    using assms(1) unfolding host_ok_def by (metis not_None_eq)
  moreover have "p = q \<or> strict_prefix p q"
    using snoc.prems(2) by (metis prefix_order.le_less prefix_snoc strict_prefix_def)
  ultimately show ?case using snoc.IH by auto
qed simp

lemma os_MkdirAll_one:
  assumes "os_MkdirAll [t] h = (None, h1)" "map_of h [] = Some HDir"
  shows "map_of h1 = (map_of h)([t] \<mapsto> HDir)"
proof -
  have "mkdir_prefixes [t] [0, Suc 0] h = (None, h1)"
    using assms(1) by (simp add: os_MkdirAll_def)
  then show ?thesis
    using assms(2) by (auto simp: host_simps fun_eq_iff split: option.splits node.splits)
qed

lemma map_of_moved:
  assumes "\<not> prefix p r" "\<not> prefix p' r"
  shows "map_of (map (\<lambda>(q, n). (moved p p' q, n)) h) r = map_of h r"
  using assms by (induction h) (auto simp: moved_def)

lemma map_of_moved_away:
  assumes "prefix p r" "\<And>x. \<not> prefix p (p' @ x)"
  shows "map_of (map (\<lambda>(q, n). (moved p p' q, n)) h) r = None"
  using assms by (induction h) (auto simp: moved_def split: if_splits)

lemma os_Rename_away:
  assumes "os_Rename p p' h = (None, h')" "\<And>x. \<not> prefix p (p' @ x)"
    and "\<And>q c. map_of h p = Some (HFile c) \<Longrightarrow> strict_prefix p q \<Longrightarrow> map_of h q = None"
  shows "prefix p r \<Longrightarrow> map_of h' r = None"
    and "\<not> prefix p r \<Longrightarrow> \<not> prefix p' r \<Longrightarrow> map_of h' r = map_of h r"
proof -
  have p': "\<not> prefix p p'"
    using assms(2) [of "[]"] by simp
  have cases: "(\<exists>c. map_of h p = Some (HFile c) \<and> h' = AList.update p' (HFile c) (AList.delete p h))
      \<or> h' = map (\<lambda>(q, n). (moved p p' q, n)) h"
    using assms(1) by (auto simp: os_Rename_def os_Stat_def split: option.splits sum.splits node.splits if_splits)
  show "prefix p r \<Longrightarrow> map_of h' r = None"
    using cases
  proof (elim disjE exE conjE)
    fix c assume r: "prefix p r" and c: "map_of h p = Some (HFile c)" "h' = AList.update p' (HFile c) (AList.delete p h)"
    then have "r \<noteq> p'" using p' by auto
    moreover have "r = p \<or> map_of h r = None"
      using assms(3) [OF c(1)] r by (auto simp: prefix_order.le_less)
    ultimately show ?thesis
      using c(2) by (auto simp: host_simps)
  qed (simp add: map_of_moved_away assms(2))
  show "\<not> prefix p r \<Longrightarrow> \<not> prefix p' r \<Longrightarrow> map_of h' r = map_of h r"
    using cases by (auto simp: host_simps map_of_moved)
qed

lemma snapshot_nodes_all:
  "snapshot_nodes d h full qs = Inr ops \<Longrightarrow> q \<in> set qs \<Longrightarrow> \<exists>o'. snapshot_node d h full q = Inr o'"
  by (induction qs arbitrary: ops) (auto split: sum.splits)

lemma rawSnapshot_visible:
  assumes "rawSnapshot d h clean full = Inr snap" "file_at h q = Some c" "prefix full q"
  shows "''.lore'' \<in> set q \<or> isAllowed d (host_name d q) \<and> \<not> isIgnored d (of_segs q)"
proof (cases "q \<in> set (walk_nodes h full)")
  case True
  obtain ops where "snapshot_nodes d h full (walk_nodes h full) = Inr ops"
    using assms(1) by (auto simp: rawSnapshot_def)
  from snapshot_nodes_all [OF this True] obtain o' where "snapshot_node d h full q = Inr o'" by blast
  then show ?thesis
    using assms(2) by (auto simp: snapshot_node_def file_at_def Let_def split: option.splits node.splits if_splits)
next
  case False
  have "q \<in> fst ` set h"
    using assms(2) by (metis (no_types, lifting) domI dom_map_of_conv_image_fst file_at_def option.case_eq_if option.exhaust_sel option.simps(3))
  with False assms(3) obtain k where "k < length q" "k \<noteq> 0" "take k q ! (k - 1) = ''.lore''"
    by (auto simp: walk_nodes_def)
  then have "''.lore'' \<in> set q"
    by (metis diff_less less_imp_diff_less less_numeral_extra(1) neq0_conv nth_mem nth_take)
  then show ?thesis ..
qed

lemma dir_RemoveAll_effect:
  assumes "dir_RemoveAll d p opts s = (None, s')" "host_ok (ds_host s)"
  shows "(\<forall>q. prefix (segs p) q \<longrightarrow> map_of (ds_host s') q = None)
    \<and> (\<forall>q. \<not> prefix (segs p) q \<and> \<not> prefix [trashDirName] q \<longrightarrow> map_of (ds_host s') q = map_of (ds_host s) q)
    \<and> (\<exists>snap. rawSnapshot d (ds_host s) (CleanPath p) (segs p) = Inr snap)
    \<and> (\<forall>x. \<not> prefix (segs p) (trashDirName # x))"
proof -
  let ?h = "ds_host s" and ?full = "segs p"
  obtain snap h1 h2 where rej: "removal_rejection d p False s = None"
    and snap: "rawSnapshot d ?h (CleanPath p) ?full = Inr snap"
    and mk: "os_MkdirAll [trashDirName] ?h = (None, h1)"
    and mv: "os_Rename ?full [trashDirName, df_token d h1] h1 = (None, h2)"
    and s': "ds_host s' = os_RemoveAll [trashDirName, df_token d h1] h2"
    using assms(1) by (auto simp: dir_RemoveAll_def Let_def split: option.splits sum.splits prod.splits)
  have root: "map_of ?h [] = Some HDir"
    using assms(2) by (simp add: host_ok_def)
  have h1: "map_of h1 = (map_of ?h)([trashDirName] \<mapsto> HDir)"
    by (rule os_MkdirAll_one [OF mk root])
  have full: "?full \<noteq> []" "\<not> isTrashPath (CleanPath p)"
    using rej by (auto simp: removal_rejection_def mutationPathError_def CleanPath_of_segs of_segs_def split: if_splits option.splits)
  have "hd ?full \<noteq> trashDirName"
  proof
    assume hd: "hd ?full = trashDirName"
    then obtain xs where "?full = trashDirName # xs"
      using full(1) by (cases "?full") auto
    then have "isTrashPath (CleanPath p)"
      by (cases xs) (auto simp: isTrashPath_def CleanPath_of_segs of_segs_def join_with_Cons)
    with full(2) show False ..
  qed
  then have apart: "\<not> prefix ?full (trashDirName # x)" for x
    using full(1) by (cases "?full") auto
  have below: "map_of h1 q = None" if "map_of h1 ?full = Some (HFile c)" "strict_prefix ?full q" for q c
  proof -
    have "?full \<noteq> [trashDirName]" "q \<noteq> [trashDirName]"
      using apart [of "[]"] that(2) by (auto simp: strict_prefix_def)
    then show ?thesis
      using that below_dir [OF assms(2), of q ?full] by (fastforce simp: h1)
  qed
  have gone: "map_of h2 q = None" if "prefix ?full q" for q
    by (rule os_Rename_away(1) [OF mv]) (use apart below that in auto)
  have kept: "map_of h2 q = map_of ?h q" if "\<not> prefix ?full q" "\<not> prefix [trashDirName] q" for q
  proof -
    have "\<not> prefix [trashDirName, df_token d h1] q" "q \<noteq> [trashDirName]"
      using that(2) by (cases q; auto)+
    then show ?thesis
      using os_Rename_away(2) [OF mv, of q] apart below that(1) by (simp add: h1)
  qed
  have "map_of (ds_host s') q = None" if "prefix ?full q" for q
    using gone [OF that] by (simp add: s' os_RemoveAll_def map_of_filter_fst)
  moreover have "map_of (ds_host s') q = map_of ?h q" if "\<not> prefix ?full q" "\<not> prefix [trashDirName] q" for q
  proof -
    have "\<not> prefix [trashDirName, df_token d h1] q"
      using that(2) by (cases q) auto
    then show ?thesis
      using kept [OF that] by (simp add: s' os_RemoveAll_def map_of_filter_fst)
  qed
  ultimately show ?thesis
    using snap apart by blast
qed


lemma sample_host_ok: "host_ok (ds_host sample_host)"
  by (auto simp: host_ok_def sample_host_def Cons_eq_append_conv append_eq_Cons_conv split: if_splits)


end
