(* ===== verification/Overlay_Fs.thy ===== *)
theory Overlay_Fs
  imports Dir_Removal
begin

text \<open>
  \<open>OverlayFS\<close> of pkg/openlore/overlay_fs.go: a writable \<open>DirFS\<close> over a read-only filesystem. Upper
  entries shadow lower ones, directories are merged, a lower file is copied up by a write, and
  what the lower layer holds cannot be removed. A lower layer's extended attributes are read
  through an optional interface.
\<close>

record overlay_fs =
  ov_upper :: dir_fs
  ov_lower :: "fs option"
  ov_lower_xattrs :: "dir_state xattr_reader option"

subsection \<open>Reading\<close>

text \<open>The upper layer's answer, unless it says that nothing is there and a lower layer exists.\<close>

definition fall_through :: "overlay_fs \<Rightarrow> 'a vres \<Rightarrow> (fs \<Rightarrow> 'a vres) \<Rightarrow> 'a vres" where
  "fall_through o' res low =
     (case res of
        Inr x \<Rightarrow> Inr x
      | Inl e \<Rightarrow> if \<not> is_not_exist e then Inl e
                 else (case ov_lower o' of None \<Rightarrow> Inl e | Some l \<Rightarrow> low l))"

definition ov_Stat :: "overlay_fs \<Rightarrow> host \<Rightarrow> string \<Rightarrow> file_info vres" where
  "ov_Stat o' h p = fall_through o' (dir_Stat (ov_upper o') h p) (\<lambda>l. fs_Stat l p)"

definition ov_ReadFile :: "overlay_fs \<Rightarrow> host \<Rightarrow> string \<Rightarrow> string vres" where
  "ov_ReadFile o' h p = fall_through o' (dir_ReadFile (ov_upper o') h p) (\<lambda>l. fs_ReadFile l p)"

definition merge_entries :: "file_info list \<Rightarrow> file_info list \<Rightarrow> file_info list" where
  "merge_entries upper lower =
     sort_key FileName (upper @ filter (\<lambda>e. FileName e \<notin> FileName ` set upper) lower)"

definition ov_ReadDir :: "overlay_fs \<Rightarrow> host \<Rightarrow> string \<Rightarrow> file_info list vres" where
  "ov_ReadDir o' h p =
     (case dir_Stat (ov_upper o') h p of
        Inl e \<Rightarrow> if \<not> is_not_exist e then Inl e
                 else (case ov_lower o' of None \<Rightarrow> Inl e | Some l \<Rightarrow> fs_ReadDir l p)
      | Inr info \<Rightarrow>
          (case (dir_ReadDir (ov_upper o') h p, ov_lower o') of
             (Inr upper, Some l) \<Rightarrow>
               if \<not> Dir info then Inr upper
               else (case fs_Stat l p of
                       Inl e \<Rightarrow> if is_not_exist e then Inr upper else Inl e
                     | Inr li \<Rightarrow> if \<not> Dir li then Inr upper
                                  else map_sum id (merge_entries upper) (fs_ReadDir l p))
           | (res, _) \<Rightarrow> res))"

definition ov_xattr_source ::
  "overlay_fs \<Rightarrow> string \<Rightarrow> (dir_state xattr_reader \<Rightarrow> dir_state \<Rightarrow> 'a vres) \<Rightarrow> dir_state \<Rightarrow> 'a vres" where
  "ov_xattr_source o' p f s =
     (case dir_Stat (ov_upper o') (ds_host s) p of
        Inr _ \<Rightarrow> f (df_xattr_reader (ov_upper o')) s
      | Inl e \<Rightarrow> if \<not> is_not_exist e then Inl e
                 else (case ov_lower_xattrs o' of None \<Rightarrow> Inl ENOTSUP | Some x \<Rightarrow> f x s))"

subsection \<open>Writing\<close>

definition ov_WriteFileAtomic :: "overlay_fs \<Rightarrow> string \<Rightarrow> string \<Rightarrow> write_opts \<Rightarrow> dir_state \<Rightarrow> string vres \<times> dir_state" where
  "ov_WriteFileAtomic o' p c opts s =
     (let d = ov_upper o'
      in case dir_Stat d (ds_host s) p of
           Inr _ \<Rightarrow> dir_WriteFileAtomic d p c opts s
         | Inl e \<Rightarrow>
             if \<not> is_not_exist e then (Inl e, s)
             else case ov_lower o' of
                    None \<Rightarrow> dir_WriteFileAtomic d p c opts s
                  | Some l \<Rightarrow>
                      (case fs_Stat l p of
                         Inl e \<Rightarrow> if is_not_exist e then dir_WriteFileAtomic d p c opts s else (Inl e, s)
                       | Inr info \<Rightarrow>
                           if Dir info then (Inl (OtherError (''cannot write file over directory: '' @ p)), s)
                           else (case fs_ReadFile l p of
                                   Inl e \<Rightarrow> (Inl e, s)
                                 | Inr old \<Rightarrow>
                                     if IfNoneMatch opts \<or> (case IfMatch opts of None \<Rightarrow> False | Some want \<Rightarrow> want \<noteq> df_sha d old)
                                     then (Inl (PreconditionError (CleanPath p) (df_sha d old)), s)
                                     else dir_WriteFileAtomic d p c
                                            \<lparr>IfMatch = None, IfNoneMatch = True, ContentPolicyValidated = False\<rparr> s)))"

definition materializeDocsetRoot :: "overlay_fs \<Rightarrow> string \<Rightarrow> dir_state op" where
  "materializeDocsetRoot o' p s =
     (case docsetRootFor (ov_upper o') (CleanPath p) of
        None \<Rightarrow> (Some (OtherError (''cannot create folder outside a docset: '' @ p)), s)
      | Some root \<Rightarrow>
          if root = ''/'' then (None, s)
          else (case ov_Stat o' (ds_host s) root of
                  Inl e \<Rightarrow> if \<not> is_not_exist e then (Some e, s) else materializeDir (ov_upper o') root s
                | Inr info \<Rightarrow>
                    if \<not> Dir info then (Some (OtherError (''docset root is not a directory: '' @ root)), s)
                    else materializeDir (ov_upper o') root s))"

definition then_op :: "vfs_error option \<times> 's \<Rightarrow> 's op \<Rightarrow> vfs_error option \<times> 's" where
  "then_op r f = (case r of (Some e, s) \<Rightarrow> (Some e, s) | (None, s) \<Rightarrow> f s)"

definition ov_SetXattr :: "overlay_fs \<Rightarrow> string \<Rightarrow> string \<Rightarrow> string \<Rightarrow> xattr_flags \<Rightarrow> dir_state op" where
  "ov_SetXattr o' p n v flags s =
     (let d = ov_upper o'; set = x_SetXattr (df_xattr_writer d) p n v flags
      in case dir_Stat d (ds_host s) p of
           Inr _ \<Rightarrow> set s
         | Inl e \<Rightarrow>
             if \<not> is_not_exist e then (Some e, s)
             else (case ov_Stat o' (ds_host s) p of
                     Inl e \<Rightarrow> (Some e, s)
                   | Inr info \<Rightarrow>
                       if \<not> Dir info then (Some ENOTSUP, s)
                       else then_op (materializeDocsetRoot o' p s) (\<lambda>s. then_op (materializeDir d p s) set)))"

definition ov_RemoveXattr :: "overlay_fs \<Rightarrow> string \<Rightarrow> string \<Rightarrow> dir_state op" where
  "ov_RemoveXattr o' p n s =
     (case dir_Stat (ov_upper o') (ds_host s) p of
        Inl e \<Rightarrow> (Some ENODATA, s)
      | Inr _ \<Rightarrow> x_RemoveXattr (df_xattr_writer (ov_upper o')) p n s)"

definition ov_Mkdir :: "overlay_fs \<Rightarrow> string \<Rightarrow> dir_state op" where
  "ov_Mkdir o' p s =
     (let d = ov_upper o'; clean = CleanPath p; parent = path_dir clean
      in case dir_PreflightChange d (change.truncate (change_of (MMkdir p))) s of
           Some e \<Rightarrow> (Some e, s)
         | None \<Rightarrow>
             then_op (if docsetRootFor d clean = Some parent then materializeDocsetRoot o' p s else (None, s))
               (\<lambda>s. case ov_Stat o' (ds_host s) parent of
                      Inr info \<Rightarrow>
                        if \<not> Dir info then (Some (OtherError (''mkdir parent '' @ parent @ '' is not a directory'')), s)
                        else then_op (materializeDir d parent s) (dir_Mkdir d p)
                    | Inl e \<Rightarrow> (Some (OtherError (''mkdir parent '' @ parent @ '' is not a directory'')), s)))"

definition ov_MkdirAll :: "overlay_fs \<Rightarrow> string \<Rightarrow> dir_state op" where
  "ov_MkdirAll o' p s =
     (case dir_PreflightChange (ov_upper o') (change.truncate (change_of (MMkdirAll p))) s of
        Some e \<Rightarrow> (Some e, s)
      | None \<Rightarrow> then_op (materializeDocsetRoot o' p s) (dir_MkdirAll (ov_upper o') p))"

definition rejectLowerRemoval :: "overlay_fs \<Rightarrow> string \<Rightarrow> vfs_error option" where
  "rejectLowerRemoval o' p =
     (case ov_lower o' of
        None \<Rightarrow> None
      | Some l \<Rightarrow> (case fs_Stat l p of
                     Inr _ \<Rightarrow> Some (ErrReadOnly p)
                   | Inl e \<Rightarrow> if is_not_exist e then None else Some e))"

definition ov_Remove :: "overlay_fs \<Rightarrow> string \<Rightarrow> dir_state op" where
  "ov_Remove o' p s =
     (case rejectLowerRemoval o' p of Some e \<Rightarrow> (Some e, s) | None \<Rightarrow> dir_Remove (ov_upper o') p s)"

definition ov_RemoveAll :: "overlay_fs \<Rightarrow> string \<Rightarrow> remove_opts \<Rightarrow> dir_state op" where
  "ov_RemoveAll o' p opts s =
     (case rejectLowerRemoval o' p of Some e \<Rightarrow> (Some e, s) | None \<Rightarrow> dir_RemoveAll (ov_upper o') p opts s)"

definition overlay_wfs :: "overlay_fs \<Rightarrow> dir_state wfs" where
  "overlay_wfs o' = \<lparr>
     w_fs = (\<lambda>s. \<lparr>fs_Stat = ov_Stat o' (ds_host s), fs_ReadDir = ov_ReadDir o' (ds_host s),
                  fs_ReadFile = ov_ReadFile o' (ds_host s)\<rparr>),
     w_WriteFileAtomic = ov_WriteFileAtomic o',
     w_Mkdir = ov_Mkdir o', w_MkdirAll = ov_MkdirAll o',
     w_Remove = ov_Remove o', w_RemoveAll = ov_RemoveAll o',
     w_xattr_reader = Some
       \<lparr>x_GetXattr = (\<lambda>p n. ov_xattr_source o' p (\<lambda>x. x_GetXattr x p n)),
        x_ListXattrs = (\<lambda>p. ov_xattr_source o' p (\<lambda>x. x_ListXattrs x p))\<rparr>,
     w_xattr_writer = Some \<lparr>x_SetXattr = ov_SetXattr o', x_RemoveXattr = ov_RemoveXattr o'\<rparr>,
     w_xattr_maintenance = Some (df_xattr_maintenance (ov_upper o')),
     w_admitter = None, w_preflight = Some (dir_PreflightChange (ov_upper o'))\<rparr>"

subsection \<open>Writes compare with what is visible\<close>

lemma ov_write_cases:
  assumes "ov_WriteFileAtomic o' p c opts s = (Inr hash, s')" "\<not> ContentPolicyValidated opts"
  obtains (upper) info where "dir_Stat (ov_upper o') (ds_host s) p = Inr info"
      "dir_WriteFileAtomic (ov_upper o') p c opts s = (Inr hash, s')"
  | (absent) e where "dir_Stat (ov_upper o') (ds_host s) p = Inl e" "is_not_exist e"
      "\<forall>l. ov_lower o' = Some l \<longrightarrow> (\<exists>e. fs_Stat l p = Inl e \<and> is_not_exist e)"
      "dir_WriteFileAtomic (ov_upper o') p c opts s = (Inr hash, s')"
  | (copy_up) e l old opts' where "dir_Stat (ov_upper o') (ds_host s) p = Inl e" "is_not_exist e"
      "ov_lower o' = Some l" "fs_ReadFile l p = Inr old" "\<not> IfNoneMatch opts"
      "\<forall>want. IfMatch opts = Some want \<longrightarrow> want = df_sha (ov_upper o') old"
      "dir_WriteFileAtomic (ov_upper o') p c opts' s = (Inr hash, s')" "\<not> ContentPolicyValidated opts'"
proof (cases "dir_Stat (ov_upper o') (ds_host s) p")
  case (Inr info)
  with assms that(1) show ?thesis by (simp add: ov_WriteFileAtomic_def)
next
  case (Inl e)
  note stat = this
  show ?thesis
  proof (cases "ov_lower o'")
    case None
    with stat assms that(2) show ?thesis by (auto simp: ov_WriteFileAtomic_def Let_def split: if_splits)
  next
    case (Some l)
    show ?thesis
    proof (cases "fs_Stat l p")
      case (Inl e')
      with stat Some assms that(2) show ?thesis by (auto simp: ov_WriteFileAtomic_def Let_def split: if_splits)
    next
      case (Inr info)
      with stat Some assms that(3) show ?thesis
        by (auto simp: ov_WriteFileAtomic_def Let_def split: if_splits sum.splits option.splits)
    qed
  qed
qed

lemma writable_readable:
  assumes "dir_write_rejection d p c opts s = None" "\<not> ContentPolicyValidated opts"
  shows "\<not> hidden p" "IsDirConfigPath p \<or> isAllowed d (path_base p)"
  using assms
  by (auto simp: dir_write_rejection_def Let_def mutationPathError_def hidden_def filePatternError_def
      split: if_splits option.splits)

lemma dir_ReadFile_file:
  assumes "dir_write_rejection d p c opts s = None" "\<not> ContentPolicyValidated opts"
    and "file_at h (segs p) = Some old"
  shows "dir_ReadFile d h p = Inr old"
  using writable_readable [OF assms(1,2)] assms(3)
  by (auto simp: dir_ReadFile_def os_ReadFile_def os_Stat_def file_at_def split: option.splits node.splits)

lemma dir_Stat_absent:
  assumes "dir_Stat d h p = Inl e" "is_not_exist e" "\<not> hidden p"
  shows "map_of h (segs p) = None \<or> path_base (CleanPath p) = ''.lore''"
  using assms by (auto simp: dir_Stat_def Let_def os_Stat_def split: option.splits if_splits node.splits)

text \<open>
  C31. A write through the overlay compares with what a reader of the overlay sees: with
  \<open>IfMatch\<close> it succeeds only when the visible file has that hash, whichever layer it is in, and
  with \<open>IfNoneMatch\<close> only when nothing is visible at the path.
\<close>

theorem overlay_write_compares:
  assumes "ov_WriteFileAtomic o' p c opts s = (Inr hash, s')" "\<not> ContentPolicyValidated opts"
    and "tmp_fresh (ov_upper o') (write_host p s) (segs p)" "path_base (CleanPath p) \<noteq> ''.lore''"
  shows "(\<forall>want. IfMatch opts = Some want \<longrightarrow>
            (\<exists>old. ov_ReadFile o' (ds_host s) p = Inr old \<and> df_sha (ov_upper o') old = want))
    \<and> (IfNoneMatch opts \<longrightarrow> (\<exists>e. ov_Stat o' (ds_host s) p = Inl e \<and> is_not_exist e))"
  using assms(1,2)
proof (cases rule: ov_write_cases)
  case (upper info)
  note cmp = write_compares [OF upper(2) assms(3)]
  have ok: "dir_write_rejection (ov_upper o') p c opts s = None"
    using dir_write_cases [OF upper(2) assms(3)] by auto
  have "map_of (ds_host s) (segs p) \<noteq> None"
    using upper(1) assms(4) by (auto simp: dir_Stat_def Let_def os_Stat_def split: if_splits option.splits)
  with cmp show ?thesis
    using dir_ReadFile_file [OF ok assms(2)] by (fastforce simp: ov_ReadFile_def fall_through_def)
next
  case (absent e)
  note cmp = write_compares [OF absent(4) assms(3)]
  have ok: "dir_write_rejection (ov_upper o') p c opts s = None"
    using dir_write_cases [OF absent(4) assms(3)] by auto
  have none: "map_of (ds_host s) (segs p) = None"
    using dir_Stat_absent [OF absent(1,2) writable_readable(1) [OF ok assms(2)]] assms(4) by blast
  have "\<exists>e. ov_Stat o' (ds_host s) p = Inl e \<and> is_not_exist e"
    using absent by (cases "ov_lower o'") (auto simp: ov_Stat_def fall_through_def)
  with cmp none show ?thesis by (auto simp: file_at_def)
next
  case (copy_up e l old opts')
  have ok: "dir_write_rejection (ov_upper o') p c opts' s = None"
    using dir_write_cases [OF copy_up(7) assms(3)] by auto
  note readable = writable_readable [OF ok copy_up(8)]
  have "map_of (ds_host s) (segs p) = None"
    using dir_Stat_absent [OF copy_up(1,2) readable(1)] assms(4) by blast
  then have "\<exists>e. dir_ReadFile (ov_upper o') (ds_host s) p = Inl e \<and> is_not_exist e"
    using copy_up(1,2) readable assms(4)
    by (auto simp: dir_ReadFile_def dir_Stat_def Let_def os_ReadFile_def os_Stat_def split: if_splits)
  then have "ov_ReadFile o' (ds_host s) p = Inr old"
    using copy_up(3,4) by (auto simp: ov_ReadFile_def fall_through_def)
  with copy_up(5,6) show ?thesis by auto
qed


subsection \<open>Removals are final\<close>

lemma dir_Stat_gone:
  assumes "os_Stat h (segs p) = Inl not_exist"
  shows "\<exists>e. dir_Stat d h p = Inl e \<and> is_not_exist e"
proof -
  have e: "is_not_exist not_exist" by (simp add: not_exist_def)
  show ?thesis
    unfolding dir_Stat_def Let_def assms
    by (cases "os_Stat h (segs p @ [''config.yaml''])") (auto simp: e split: node.split)
qed

lemma os_Stat_gone:
  assumes "host_ok h" "map_of h p \<noteq> None" "map_of h' p = None"
    and "\<And>q. strict_prefix q p \<Longrightarrow> map_of h' q = map_of h q"
  shows "os_Stat h' p = Inl not_exist"
proof -
  have "map_of h' (take k p) = Some HDir" if "k < length p" for k
  proof -
    have "strict_prefix (take k p) p"
      using that by (metis length_take min.absorb4 nat_neq_iff strict_prefix_def take_is_prefix)
    with assms(4) below_dir [OF assms(1,2)] show ?thesis by simp
  qed
  with assms(3) show ?thesis
    by (auto simp: os_Stat_def through_file_def split: option.splits node.splits)
qed

lemma dir_Remove_gone:
  assumes "dir_Remove d p s = (None, s')" "host_ok (ds_host s)"
  shows "os_Stat (ds_host s') (segs p) = Inl not_exist"
proof -
  obtain n where n: "os_Stat (ds_host s) (segs p) = Inr n" "os_Remove (segs p) (ds_host s) = (None, ds_host s')"
    using assms(1) by (auto simp: dir_Remove_def split: option.splits sum.splits prod.splits)
  then have h': "ds_host s' = AList.delete (segs p) (ds_host s)"
    by (auto simp: os_Remove_def split: node.splits if_splits)
  have "map_of (ds_host s) (segs p) \<noteq> None"
    using n(1) by (auto simp: os_Stat_def split: option.splits if_splits)
  then show ?thesis
    by (rule os_Stat_gone [OF assms(2)]) (auto simp: h' host_simps)
qed

lemma dir_RemoveAll_gone:
  assumes "dir_RemoveAll d p opts s = (None, s')" "host_ok (ds_host s)"
  shows "os_Stat (ds_host s') (segs p) = Inl not_exist"
proof -
  note effect = dir_RemoveAll_effect [OF assms]
  have "map_of (ds_host s) (segs p) \<noteq> None"
    using assms(1) by (auto simp: dir_RemoveAll_def Let_def os_Stat_def split: option.splits sum.splits if_splits)
  then show ?thesis
  proof (rule os_Stat_gone [OF assms(2)])
    fix q assume q: "strict_prefix q (segs p)"
    have "\<not> prefix [trashDirName] q"
    proof
      assume "prefix [trashDirName] q"
      then have "prefix [trashDirName] (segs p)"
        using q by (meson prefix_order.less_imp_le prefix_order.trans)
      then obtain x where "segs p = trashDirName # x" by (auto simp: prefix_def)
      with effect show False by (metis prefix_order.refl)
    qed
    then show "map_of (ds_host s') q = map_of (ds_host s) q"
      using effect q by (metis prefix_order.leD)
  qed (use effect in blast)
qed

text \<open>
  A removal through the overlay is final: afterwards nothing is visible at the path, so no
  lower-layer file comes back in place of the one removed.
\<close>

theorem overlay_removal_final:
  assumes "ov_Remove o' p s = (None, s') \<or> ov_RemoveAll o' p opts s = (None, s')" "host_ok (ds_host s)"
  shows "\<exists>e. ov_Stat o' (ds_host s') p = Inl e \<and> is_not_exist e"
proof -
  have lower: "rejectLowerRemoval o' p = None" and gone: "os_Stat (ds_host s') (segs p) = Inl not_exist"
    using assms dir_Remove_gone dir_RemoveAll_gone
    by (auto simp: ov_Remove_def ov_RemoveAll_def split: option.splits)
  from dir_Stat_gone [OF gone, of "ov_upper o'"] lower show ?thesis
    by (auto simp: ov_Stat_def fall_through_def rejectLowerRemoval_def split: option.splits sum.splits if_splits)
qed

subsection \<open>A directory over one file\<close>

definition sample_overlay :: overlay_fs where
  "sample_overlay = \<lparr>ov_upper = sample_dir,
     ov_lower = Some \<lparr>fs_Stat = (\<lambda>p. if CleanPath p = ''/d/low'' then Inr (vfs_File ''low'' p ''base'' 0) else Inl (ErrNotExist p)),
       fs_ReadDir = (\<lambda>p. Inr []), fs_ReadFile = (\<lambda>p. if CleanPath p = ''/d/low'' then Inr ''base'' else Inl (ErrNotExist p))\<rparr>,
     ov_lower_xattrs = None\<rparr>"

definition over_base :: write_opts where
  "over_base = \<lparr>IfMatch = Some ''base'', IfNoneMatch = False, ContentPolicyValidated = False\<rparr>"

lemma sample_copy_up:
  "\<exists>s'. ov_WriteFileAtomic sample_overlay ''/d/low'' ''new'' over_base sample_host = (Inr ''new'', s')"
proof -
  have "fst (ov_WriteFileAtomic sample_overlay ''/d/low'' ''new'' over_base sample_host) = Inr ''new''"
    by code_simp
  then show ?thesis by (metis prod.collapse)
qed

lemma sample_low_fresh: "tmp_fresh (ov_upper sample_overlay) (write_host ''/d/low'' sample_host) (segs ''/d/low'')"
  by code_simp

theorem overlay_write_compares_witness:
  "\<exists>old. ov_ReadFile sample_overlay (ds_host sample_host) ''/d/low'' = Inr old \<and> df_sha (ov_upper sample_overlay) old = ''base''"
proof -
  have "path_base (CleanPath ''/d/low'') \<noteq> ''.lore''" by code_simp
  with sample_copy_up overlay_write_compares [OF _ _ sample_low_fresh] show ?thesis
    by (fastforce simp: over_base_def)
qed


theorem overlay_removal_final_witness:
  "\<exists>s'. ov_Remove sample_overlay ''/d/a'' sample_host = (None, s')
     \<and> (\<exists>e. ov_Stat sample_overlay (ds_host s') ''/d/a'' = Inl e \<and> is_not_exist e)"
proof -
  have "fst (ov_Remove sample_overlay ''/d/a'' sample_host) = None"
    by code_simp
  then obtain s' where "ov_Remove sample_overlay ''/d/a'' sample_host = (None, s')"
    by (metis prod.collapse)
  with overlay_removal_final [of sample_overlay "''/d/a''" sample_host s' undefined] sample_host_ok show ?thesis
    by blast
qed

text \<open>
  Copying a lower file up drops the mark that a trusted caller has checked the content: a write
  too large for the server's limit that replaces an upper file is refused over a lower one.
\<close>

lemma copy_up_drops_validation:
  "\<exists>o' s. (\<forall>e. fst (ov_WriteFileAtomic o' ''/d/a'' ''12345'' \<lparr>IfMatch = None, IfNoneMatch = False, ContentPolicyValidated = True\<rparr> s) \<noteq> Inl e)
   \<and> (\<exists>e. fst (ov_WriteFileAtomic o' ''/d/low'' ''12345'' \<lparr>IfMatch = None, IfNoneMatch = False, ContentPolicyValidated = True\<rparr> s) = Inl e)"
proof -
  let ?o = "sample_overlay\<lparr>ov_upper := sample_dir\<lparr>df_maxWriteBytes := 3\<rparr>\<rparr>"
  let ?v = "\<lparr>IfMatch = None, IfNoneMatch = False, ContentPolicyValidated = True\<rparr>"
  have "fst (ov_WriteFileAtomic ?o ''/d/a'' ''12345'' ?v sample_host) = Inr ''12345''"
    "isl (fst (ov_WriteFileAtomic ?o ''/d/low'' ''12345'' ?v sample_host))"
    by code_simp+
  then show ?thesis
    by (metis Inl_Inr_False isl_def)
qed

end
