(* ===== verification/Shell_Ast.thy ===== *)
theory Shell_Ast
  imports Prelude
begin

text \<open>
  The syntax trees of the shell (pkg/shell/parser/ast.go) and the outcomes of a computation that
  may fail. A pointer to a node is the node; a pointer the code may leave nil is an option. A
  here-document is the one node that is changed after it has been attached to the tree (its body
  is read at the end of the line), so a tree refers to it by its index in a list of all that the
  parser has allocated.
\<close>

subsection \<open>Outcomes\<close>

text \<open>
  \<open>Fails\<close> is an error the code returns, \<open>Panics\<close> a run-time panic (an index out of range, a nil
  dereference), \<open>Unfinished\<close> a computation that has not ended within the steps it was given.
\<close>

datatype 'a outcome = Returns 'a | Fails string | Panics | Unfinished

fun andThen :: "'a outcome \<Rightarrow> ('a \<Rightarrow> 'b outcome) \<Rightarrow> 'b outcome" where
  "andThen (Returns x) f = f x"
| "andThen (Fails e) f = Fails e"
| "andThen Panics f = Panics"
| "andThen Unfinished f = Unfinished"

lemma andThen_cong [fundef_cong]:
  "m = m' \<Longrightarrow> (\<And>x. m' = Returns x \<Longrightarrow> f x = g x) \<Longrightarrow> andThen m f = andThen m' g"
  by (cases m') simp_all

lemma andThen_Returns_iff:
  "andThen m f = Returns y \<longleftrightarrow> (\<exists>x. m = Returns x \<and> f x = Returns y)"
  by (cases m) simp_all

text \<open>
  A computation avoids panics (\<open>avoids True\<close>) or runs to its end (\<open>avoids False\<close>); the two are
  shown in the same way.
\<close>

definition avoids :: "bool \<Rightarrow> 'a outcome \<Rightarrow> bool" where
  "avoids k m \<longleftrightarrow> (if k then m \<noteq> Panics else m \<noteq> Unfinished)"

lemma avoids_simps [simp]:
  "avoids k (Returns x)" "avoids k (Fails e)" "avoids k Panics \<longleftrightarrow> \<not> k" "avoids k Unfinished \<longleftrightarrow> k"
  by (simp_all add: avoids_def)

lemma avoids_map [simp]: "avoids k (map_outcome f m) \<longleftrightarrow> avoids k m"
  by (cases m) simp_all

lemma avoids_if: "avoids k (if b then m else m') \<longleftrightarrow> (b \<longrightarrow> avoids k m) \<and> (\<not> b \<longrightarrow> avoids k m')"
  by simp

lemma avoids_andThen [simp]:
  "avoids k (andThen m f) \<longleftrightarrow> avoids k m \<and> (\<forall>x. m = Returns x \<longrightarrow> avoids k (f x))"
  by (cases m) (simp_all add: avoids_def)

lemma andThen_Returns_right [simp]: "andThen m Returns = m"
  by (cases m) simp_all

subsection \<open>Trees\<close>

record heredoc =
  hd_Delimiter :: string
  hd_StripTabs :: bool
  hd_Body :: string

datatype binaryOp = Pipe | PipeAll | AndStmt | OrStmt

datatype paramExpOp =
    DefaultUnset | DefaultUnsetOrNull | AlternateUnset | AlternateUnsetOrNull
  | AssignUnset | AssignUnsetOrNull | ErrorUnset | ErrorUnsetOrNull

datatype wordPart =
    Lit string
  | Escaped string
  | SglQuoted string
  | DblQuoted "wordPart list"
  | ParamExp string (pe_Length: bool) (pe_Exp: "expansion option")
  | CmdSubst "stmt list"
and expansion = Expansion paramExpOp word
and word = Word (Parts: "wordPart list")
and assign = Assign (as_Name: string) (as_Value: "word option") (as_Naked: bool)
and redirect = Redirect (rd_Target: word) (rd_Append: bool) (rd_Stderr: bool)
and stmt = Stmt (Negated: bool) (Cmd: "command option")
and ifClause = IfClause "stmt list" "stmt list" "ifClause option"
and command =
    CallExpr "assign list" "word list" "nat list" bool "redirect option"
  | BinaryCmd binaryOp stmt "stmt option"
  | Subshell "stmt list"
  | Block "stmt list"
  | IfCmd ifClause
  | WhileClause bool "stmt list" "stmt list"
  | ForClause string "word list" "stmt list"
  | DeclClause string "assign list"
  | TestClause "word list"
  | TimeClause stmt
  | LetClause
  | ArithmCmd

fun ContainsExpansion :: "word \<Rightarrow> bool" where
  "ContainsExpansion (Word ps) =
     list_ex (\<lambda>p. case p of CmdSubst _ \<Rightarrow> True | ParamExp _ _ _ \<Rightarrow> True | _ \<Rightarrow> False) ps"

end
