(* ===== verification/Shell_Lexer.thy ===== *)
theory Shell_Lexer
  imports Shell_Ast
begin

text \<open>
  The shell's lexer (pkg/shell/parser/lexer.go). The position in the source is represented by the
  source that is left, which the lexer only ever shortens; \<open>advance\<close> past its end is the panic
  it is in Go. The heredocs allocated so far are a list, and those awaiting their bodies are
  indices into it. \<open>prevVal\<close>, which nothing reads, is left out.
\<close>

datatype tokenKind =
    tokEOF | tokNewline | tokSemi | tokAndIf | tokOrIf | tokPipe | tokPipeAll | tokBang
  | tokLParen | tokRParen | tokLBrace | tokRBrace | tokDblLBracket | tokDblRBracket
  | tokHeredoc | tokRedirIn | tokRedirMerge | tokRedirOut | tokRedirAppend | tokRedirErrOut
  | tokRedirErrAppend | tokWord

record token =
  tk_kind :: tokenKind
  tk_val :: string
  tk_hd :: "nat option"

record lexer =
  lx_src :: string
  lx_pending :: "nat list"
  lx_heap :: "heredoc list"

definition tok :: "tokenKind \<Rightarrow> token" where
  "tok k = \<lparr>tk_kind = k, tk_val = [], tk_hd = None\<rparr>"

definition tokVal :: "tokenKind \<Rightarrow> string \<Rightarrow> token" where
  "tokVal k v = \<lparr>tk_kind = k, tk_val = v, tk_hd = None\<rparr>"

subsection \<open>Characters\<close>

abbreviation NUL :: char where "NUL \<equiv> CHR 0x00"
abbreviation TAB :: char where "TAB \<equiv> CHR 0x09"
abbreviation NL :: char where "NL \<equiv> CHR 0x0A"
abbreviation SQ :: char where "SQ \<equiv> CHR 0x27"
abbreviation DQ :: char where "DQ \<equiv> CHR 0x22"
abbreviation BS :: char where "BS \<equiv> CHR 0x5C"
abbreviation BQ :: char where "BQ \<equiv> CHR 0x60"

definition peekAt :: "nat \<Rightarrow> string \<Rightarrow> char" where
  "peekAt i s = (if i < length s then s ! i else NUL)"

definition peek :: "string \<Rightarrow> char" where
  "peek s = peekAt 0 s"

definition between :: "char \<Rightarrow> char \<Rightarrow> char \<Rightarrow> bool" where
  "between lo hi c \<longleftrightarrow> lo \<le> c \<and> c \<le> hi"

definition is_digit :: "char \<Rightarrow> bool" where
  "is_digit c \<longleftrightarrow> between (CHR ''0'') (CHR ''9'') c"

definition skipSpaces :: "string \<Rightarrow> string" where
  "skipSpaces s = dropWhile (\<lambda>c. c = CHR '' '' \<or> c = TAB) s"

definition skipComment :: "string \<Rightarrow> string" where
  "skipComment s =
     (case s of [] \<Rightarrow> [] | c # _ \<Rightarrow> if c = CHR ''#'' then dropWhile (\<lambda>c. c \<noteq> NL) s else s)"

subsection \<open>Stretches of a word\<close>

text \<open>
  Each of these reads one stretch of a word and returns what it read and what is left:
  up to a closing quote (the quote included), and up to the bracket that closes the open ones.
\<close>

definition quoteEnd :: "char \<Rightarrow> string \<Rightarrow> string \<times> string" where
  "quoteEnd q s = (let body = takeWhile (\<lambda>c. c \<noteq> q) s; rest = dropWhile (\<lambda>c. c \<noteq> q) s
               in (body @ take 1 rest, drop 1 rest))"

fun balanced :: "char \<Rightarrow> char \<Rightarrow> nat \<Rightarrow> string \<Rightarrow> string \<times> string" where
  "balanced op cl d [] = ([], [])"
| "balanced op cl d (c # s) =
     (if d = 0 then ([], c # s)
      else if c = op then apfst (Cons c) (balanced op cl (d + 1) s)
      else if c = cl then (if d - 1 = 0 then ([c], s) else apfst (Cons c) (balanced op cl (d - 1) s))
      else apfst (Cons c) (balanced op cl d s))"

lemma quoteEnd_append: "fst (quoteEnd q s) @ snd (quoteEnd q s) = s"
  unfolding quoteEnd_def Let_def fst_conv snd_conv append_assoc append_take_drop_id
  by (rule takeWhile_dropWhile_id)

lemma balanced_append: "fst (balanced op cl d s) @ snd (balanced op cl d s) = s"
  by (induction op cl d s rule: balanced.induct) auto

lemma quoteEnd_shorter [termination_simp]: "length (snd (quoteEnd q s)) \<le> length s"
  using arg_cong [OF quoteEnd_append, of length q s] by simp

lemma balanced_shorter [termination_simp]: "length (snd (balanced op cl d s)) \<le> length s"
  using arg_cong [OF balanced_append, of length op cl d s] by simp

text \<open>Inside double quotes, an expansion \<open>${\<dots>}\<close> or a substitution \<open>$(\<dots>)\<close>, quotes in it ignored.\<close>

definition bracketed :: "string \<Rightarrow> (string \<times> string) option" where
  "bracketed s =
     (if take 2 s = ''${'' then Some (apfst ((@) ''${'') (balanced (CHR ''{'') (CHR ''}'') 1 (drop 2 s)))
      else if take 2 s = ''$('' then Some (apfst ((@) ''$('') (balanced (CHR ''('') (CHR '')'') 1 (drop 2 s)))
      else None)"

lemma reattach:
  assumes "take 2 s = p" "apfst ((@) p) (balanced op cl d (drop 2 s)) = (b, rest)"
  shows "b @ rest = s \<and> length p \<le> length b"
  using assms append_take_drop_id [of 2 s] balanced_append [of op cl d "drop 2 s"]
  by (cases "balanced op cl d (drop 2 s)") auto

lemma bracketed_append: "bracketed s = Some (b, rest) \<Longrightarrow> b @ rest = s \<and> b \<noteq> []"
  unfolding bracketed_def by (auto split: if_splits dest!: reattach)

lemma bracketed_shorter: "bracketed s = Some (b, rest) \<Longrightarrow> length rest < length s"
  using bracketed_append by force

text \<open>A double-quoted stretch, after its opening quote.\<close>

function dqStretch :: "string \<Rightarrow> string \<times> string" where
  "dqStretch [] = ([], [])"
| "dqStretch (c # r) =
     (if c = DQ then ([c], r)
      else if c = BS \<and> r \<noteq> [] then apfst ((@) [c, hd r]) (dqStretch (tl r))
      else (case bracketed (c # r) of
              Some (b, rest) \<Rightarrow> apfst ((@) b) (dqStretch rest)
            | None \<Rightarrow> apfst (Cons c) (dqStretch r)))"
  by pat_completeness auto
termination
  by (relation "measure length") (auto dest: bracketed_shorter)

lemma dqStretch_append: "fst (dqStretch s) @ snd (dqStretch s) = s"
proof (induction s rule: dqStretch.induct)
  case (2 c r)
  then show ?case
    by (auto split: option.split dest: bracketed_append)
qed simp

text \<open>
  A command substitution outside double quotes: quotes in it are respected, and a backslash that
  ends the source inside its double quotes makes the lexer read past the end.
\<close>

fun dqSkip :: "string \<Rightarrow> (string \<times> string) outcome" where
  "dqSkip [] = Returns ([], [])"
| "dqSkip (c # r) =
     (if c = DQ then Returns ([c], r)
      else if c = BS then
        (case r of [] \<Rightarrow> Panics | d # r' \<Rightarrow> map_outcome (apfst ((@) [c, d])) (dqSkip r'))
      else map_outcome (apfst (Cons c)) (dqSkip r))"

lemma dqSkip_append: "dqSkip s = Returns (b, rest) \<Longrightarrow> b @ rest = s"
proof (induction s arbitrary: b rest rule: dqSkip.induct)
  case (2 c r)
  then show ?case
    by (cases "dqSkip r"; cases r; cases "dqSkip (tl r)") (auto split: if_splits)
qed simp

lemma dqSkip_shorter: "dqSkip s = Returns (b, rest) \<Longrightarrow> length rest \<le> length s"
  using dqSkip_append by fastforce

function substStretch :: "nat \<Rightarrow> string \<Rightarrow> (string \<times> string) outcome" where
  "substStretch d [] = Returns ([], [])"
| "substStretch d (c # r) =
     (if d = 0 then Returns ([], c # r)
      else if c = CHR ''('' then map_outcome (apfst (Cons c)) (substStretch (d + 1) r)
      else if c = CHR '')'' then
        (if d - 1 = 0 then Returns ([c], r) else map_outcome (apfst (Cons c)) (substStretch (d - 1) r))
      else if c = SQ then
        map_outcome (apfst ((@) (c # fst (quoteEnd SQ r)))) (substStretch d (snd (quoteEnd SQ r)))
      else if c = DQ then
        andThen (dqSkip r) (\<lambda>(b, rest). map_outcome (apfst ((@) (c # b))) (substStretch d rest))
      else map_outcome (apfst (Cons c)) (substStretch d r))"
  by pat_completeness auto
termination
  by (relation "measure (length \<circ> snd)") (auto simp: le_imp_less_Suc quoteEnd_shorter dest: dqSkip_shorter)

lemma map_outcome_Returns: "map_outcome f m = Returns y \<longleftrightarrow> (\<exists>x. m = Returns x \<and> y = f x)"
  by (cases m) auto

lemma substStretch_append: "substStretch d s = Returns (b, rest) \<Longrightarrow> b @ rest = s"
proof (induction s arbitrary: d b rest rule: length_induct)
  case (1 s)
  note IH = 1(1) [rule_format]
  show ?case
  proof (cases s)
    case (Cons c r)
    have quote: "fst (quoteEnd SQ r) @ a @ rest = r"
      if "substStretch d (snd (quoteEnd SQ r)) = Returns (a, rest)" for a
      using IH [OF _ that] quoteEnd_append [of SQ r] quoteEnd_shorter [of SQ r] Cons by simp
    have dq: "a @ a' @ rest = r"
      if "dqSkip r = Returns (a, r')" "substStretch d r' = Returns (a', rest)" for a a' r'
      using IH [OF _ that(2)] dqSkip_append [OF that(1)] Cons by auto
    from 1(2) Cons show ?thesis
      by (auto simp: map_outcome_Returns andThen_Returns_iff quote dq IH split: if_splits)
  qed (use 1(2) in simp)
qed

lemma substStretch_shorter: "substStretch d s = Returns (b, rest) \<Longrightarrow> length rest \<le> length s"
  using substStretch_append by fastforce

subsection \<open>Words\<close>

definition wordEndsWithRedirOp :: "string \<Rightarrow> bool" where
  "wordEndsWithRedirOp s \<longleftrightarrow>
     s \<noteq> [] \<and> last s = CHR ''>'' \<and> list_all (\<lambda>c. c = CHR ''>'' \<or> is_digit c) (butlast s)"

definition ends_word :: "string \<Rightarrow> char \<Rightarrow> bool" where
  "ends_word sb c \<longleftrightarrow> c \<in> set ('' ;|&)<('' @ [TAB, NL]) \<or> c = CHR ''>'' \<and> sb \<noteq> []"

definition mergeToken :: "string \<Rightarrow> token" where
  "mergeToken v = (if v = ''2>&1'' then tokVal tokRedirMerge v else tokVal tokWord v)"

text \<open>One turn of the loop that is not the end of the word: the stretch of source it reads.\<close>

definition wordStretch :: "char \<Rightarrow> string \<Rightarrow> (string \<times> string) outcome" where
  "wordStretch c r =
     (if c = BS \<and> r \<noteq> [] then Returns ([c, hd r], tl r)
      else if c = SQ then Returns (apfst (Cons c) (quoteEnd SQ r))
      else if c = DQ then Returns (apfst (Cons c) (dqStretch r))
      else if c = CHR ''$'' \<and> peek r = CHR ''{'' then
        Returns (apfst ((@) ''${'') (balanced (CHR ''{'') (CHR ''}'') 1 (tl r)))
      else if c = CHR ''$'' \<and> peek r = CHR ''('' then
        map_outcome (apfst ((@) ''$('')) (substStretch 1 (tl r))
      else Returns ([c], r))"

lemma peek_Cons: "peek r = c \<Longrightarrow> c \<noteq> NUL \<Longrightarrow> r = c # tl r"
  by (cases r) (auto simp: peek_def peekAt_def)

lemma subst_tail:
  "peek r = CHR ''('' \<Longrightarrow> substStretch d (tl r) = Returns (b, rest) \<Longrightarrow> CHR ''('' # b @ rest = r"
  using substStretch_append [of d "tl r" b rest] peek_Cons [of r "CHR ''(''"] by simp

lemma wordStretch_append: "wordStretch c r = Returns (b, rest) \<Longrightarrow> b @ rest = c # r \<and> b \<noteq> []"
  using quoteEnd_append [of SQ r] dqStretch_append [of r]
    balanced_append [of "CHR ''{''" "CHR ''}''" 1 "tl r"]
  by (auto simp: wordStretch_def map_outcome_Returns apfst_def map_prod_def case_prod_beta
      split: if_splits dest: peek_Cons subst_tail)

lemma mergeToken_val [simp]: "tk_val (mergeToken v) = v"
  by (simp add: mergeToken_def tokVal_def)

function scanWord :: "string \<Rightarrow> string \<Rightarrow> (token \<times> string) outcome" where
  "scanWord sb [] = Returns (tokVal tokWord sb, [])"
| "scanWord sb (c # r) =
     (if c = CHR ''&'' \<and> wordEndsWithRedirOp sb \<and> is_digit (peek r) then
        Returns (mergeToken (sb @ c # takeWhile is_digit r), dropWhile is_digit r)
      else if ends_word sb c then Returns (tokVal tokWord sb, c # r)
      else andThen (wordStretch c r) (\<lambda>(b, rest). scanWord (sb @ b) rest))"
  by pat_completeness auto

lemma wordStretch_shorter: "wordStretch c r = Returns (b, rest) \<Longrightarrow> length rest < length (c # r)"
  using arg_cong [of "b @ rest" "c # r" length] wordStretch_append [of c r b rest] by (cases b) auto

termination scanWord
  by (relation "measure (length \<circ> snd)") (auto dest: wordStretch_shorter)

text \<open>A word's value is exactly the source it was read from.\<close>

lemma scanWord_reads: "scanWord sb s = Returns (t, rest) \<Longrightarrow> \<exists>w. tk_val t = sb @ w \<and> w @ rest = s"
proof (induction s arbitrary: sb rule: length_induct)
  case (1 s)
  show ?case
  proof (cases s)
    case Nil
    with 1(2) show ?thesis by (auto simp: tokVal_def)
  next
    case (Cons c r)
    have "\<exists>w. tk_val t = sb @ w \<and> w @ rest = c # r"
      if "wordStretch c r = Returns (b, s')" "scanWord (sb @ b) s' = Returns (t, rest)" for b s'
      using 1(1) [rule_format, OF _ that(2)] wordStretch_append [OF that(1)] wordStretch_shorter [OF that(1)] Cons
      by auto
    with 1(2) Cons show ?thesis
      by (auto simp: andThen_Returns_iff tokVal_def split: if_splits)
  qed
qed

lemma scanWord_append: "scanWord sb s = Returns (t, rest) \<Longrightarrow> tk_val t @ rest = sb @ s"
  using scanWord_reads by fastforce

lemma scanWord_starts:
  assumes "scanWord [] (c # r) = Returns (t, rest)" "\<not> ends_word [] c"
  shows "tk_val t \<noteq> []"
proof -
  have "\<exists>b s'. b \<noteq> [] \<and> scanWord b s' = Returns (t, rest)"
    using assms by (auto simp: andThen_Returns_iff wordEndsWithRedirOp_def split: if_splits dest: wordStretch_append)
  then show ?thesis using scanWord_reads by fastforce
qed

subsection \<open>Here-documents\<close>

definition heredocDelim :: "string \<Rightarrow> string \<times> string" where
  "heredocDelim s =
     (if s \<noteq> [] \<and> (hd s = SQ \<or> hd s = DQ) then
        (takeWhile (\<lambda>c. c \<noteq> hd s) (tl s), drop 1 (dropWhile (\<lambda>c. c \<noteq> hd s) (tl s)))
      else let stop = (\<lambda>c. c \<in> set ('' ;|&)<'' @ [TAB, NL]))
           in (takeWhile (\<lambda>c. \<not> stop c) s, dropWhile (\<lambda>c. \<not> stop c) s))"

definition scanHeredocOpener :: "lexer \<Rightarrow> token \<times> lexer" where
  "scanHeredocOpener lx =
     (let s = drop 2 (lx_src lx);
          stripTabs = (peek s = CHR ''-'');
          delim = heredocDelim (skipSpaces (if stripTabs then tl s else s));
          hd = length (lx_heap lx)
      in (\<lparr>tk_kind = tokHeredoc, tk_val = fst delim, tk_hd = Some hd\<rparr>,
          lx\<lparr>lx_src := snd delim, lx_pending := lx_pending lx @ [hd],
             lx_heap := lx_heap lx @ [\<lparr>hd_Delimiter = fst delim, hd_StripTabs = stripTabs, hd_Body = []\<rparr>]\<rparr>))"

text \<open>The body of one here-document and the source after the line that closes it.\<close>

function readBody :: "heredoc \<Rightarrow> string \<Rightarrow> string \<times> string" where
  "readBody h s =
     (if s = [] then ([], [])
      else let line = takeWhile (\<lambda>c. c \<noteq> NL) s;
               rest = dropWhile (\<lambda>c. c \<noteq> NL) s;
               line = (if hd_StripTabs h then trim_left TAB line else line)
           in if line = hd_Delimiter h then ([], drop 1 rest)
              else apfst ((@) (line @ take 1 rest)) (readBody h (drop 1 rest)))"
  by auto

lemma next_line_shorter: "s \<noteq> [] \<Longrightarrow> length (drop 1 (dropWhile P s)) < length s"
  using length_dropWhile_le [of P s] by (cases s) (auto simp: le_imp_less_Suc)

termination readBody
  by (relation "measure (length \<circ> snd)") (auto simp: next_line_shorter [simplified])

declare readBody.simps [simp del]

lemma readBody_shorter: "length (snd (readBody h s)) \<le> length s"
proof (induction s rule: length_induct)
  case (1 s)
  have "length (snd (readBody h (drop 1 (dropWhile (\<lambda>c. c \<noteq> NL) s)))) \<le> length s" if "s \<noteq> []"
    using 1 [rule_format, OF next_line_shorter [OF that, of "\<lambda>c. c \<noteq> NL"]] next_line_shorter [OF that, of "\<lambda>c. c \<noteq> NL"]
    by linarith
  moreover have "length (drop 1 (dropWhile (\<lambda>c. c \<noteq> NL) s)) \<le> length s" if "s \<noteq> []"
    using next_line_shorter [OF that, of "\<lambda>c. c \<noteq> NL"] by linarith
  ultimately show ?case
    by (subst readBody.simps) (simp add: Let_def)
qed

fun drainPending :: "nat list \<Rightarrow> lexer \<Rightarrow> lexer" where
  "drainPending [] lx = lx"
| "drainPending (i # is) lx =
     (let h = lx_heap lx ! i; (body, rest) = readBody h (lx_src lx)
      in drainPending is (lx\<lparr>lx_src := rest, lx_heap := (lx_heap lx)[i := h\<lparr>hd_Body := body\<rparr>]\<rparr>))"

definition drainHeredocs :: "lexer \<Rightarrow> lexer" where
  "drainHeredocs lx = drainPending (lx_pending lx) (lx\<lparr>lx_pending := []\<rparr>)"

lemma drainPending_shorter: "length (lx_src (drainPending is lx)) \<le> length (lx_src lx)"
proof (induction "is" lx rule: drainPending.induct)
  case (2 i "is" lx)
  let ?h = "lx_heap lx ! i"
  show ?case
    using 2 [of ?h "readBody ?h (lx_src lx)" "fst (readBody ?h (lx_src lx))" "snd (readBody ?h (lx_src lx))"]
      readBody_shorter [of ?h "lx_src lx"]
    by (simp add: Let_def case_prod_beta)
qed simp

lemma drainHeredocs_shorter: "length (lx_src (drainHeredocs lx)) \<le> length (lx_src lx)"
  using drainPending_shorter [of "lx_pending lx" "lx\<lparr>lx_pending := []\<rparr>"] by (simp add: drainHeredocs_def)

subsection \<open>The next token\<close>

text \<open>
  \<open>((\<dots>))\<close> is skipped. Where an inner \<open>))\<close> does not close the outermost \<open>((\<close>, the loop advances
  three times, past the end of a source that ends there.
\<close>

function arithSkip :: "nat \<Rightarrow> string \<Rightarrow> string outcome" where
  "arithSkip d s =
     (if s = [] \<or> d = 0 then Returns s
      else if take 2 s = ''(('' then arithSkip (d + 1) (drop 2 s)
      else if take 2 s = ''))'' then
        (if d - 1 > 0 then (if length s < 3 then Panics else arithSkip (d - 1) (drop 3 s))
         else arithSkip 0 (drop 2 s))
      else arithSkip d (tl s))"
  by auto
termination
  by (relation "measure (length \<circ> snd)") auto

declare arithSkip.simps [simp del]

lemma arithSkip_shorter: "arithSkip d s = Returns rest \<Longrightarrow> length rest \<le> length s"
proof (induction s arbitrary: d rule: length_induct)
  case (1 s)
  have "length rest \<le> length s" if "arithSkip d' s' = Returns rest" "length s' < length s" for d' s'
    using 1(1) [rule_format, OF that(2,1)] that(2) by linarith
  from this [of _ "drop 2 s"] this [of _ "drop 3 s"] this [of _ "tl s"] 1(2) show ?case
    by (subst (asm) (3) arithSkip.simps) (auto split: if_splits)
qed

definition blank :: "char \<Rightarrow> bool" where
  "blank c \<longleftrightarrow> c \<in> {NUL, CHR '' '', TAB, NL}"

definition lexNext :: "lexer \<Rightarrow> (token \<times> lexer) outcome" where
  "lexNext lx =
     (let s = skipComment (skipSpaces (lx_src lx));
          emit = (\<lambda>t n. Returns (t, lx\<lparr>lx_src := drop n s\<rparr>));
          word = map_outcome (apsnd (\<lambda>rest. lx\<lparr>lx_src := rest\<rparr>)) (scanWord [] s)
      in case s of
           [] \<Rightarrow> emit (tok tokEOF) 0
         | c # r \<Rightarrow>
             if c = CHR ''2'' \<and> peek r = CHR ''>'' then
               (if peekAt 2 s = CHR ''&'' then
                  (if peekAt 3 s = CHR ''1'' then emit (tokVal tokRedirMerge ''2>&1'') 4
                   else emit (tokVal tokWord ''2>&'') 3)
                else if peekAt 2 s = CHR ''>'' then emit (tok tokRedirErrAppend) 3
                else emit (tok tokRedirErrOut) 2)
             else if c = NL then Returns (tok tokNewline, drainHeredocs (lx\<lparr>lx_src := r\<rparr>))
             else if c = CHR '';'' then emit (tok tokSemi) 1
             else if c = CHR ''<'' then
               (if peek r = CHR ''<'' then Returns (scanHeredocOpener (lx\<lparr>lx_src := s\<rparr>))
                else emit (tokVal tokRedirIn ''<'') 1)
             else if c = CHR ''('' then
               (if peek r = CHR ''('' then
                  map_outcome (\<lambda>rest. (tokVal tokWord ''((...))'', lx\<lparr>lx_src := rest\<rparr>)) (arithSkip 1 (drop 2 s))
                else emit (tok tokLParen) 1)
             else if c = CHR '')'' then emit (tok tokRParen) 1
             else if c = CHR ''{'' then (if blank (peek r) then emit (tok tokLBrace) 1 else word)
             else if c = CHR ''}'' then
               (if blank (peek r) \<or> peek r = CHR '';'' then emit (tok tokRBrace) 1 else word)
             else if c = CHR ''|'' then
               (if peek r = CHR ''|'' then emit (tok tokOrIf) 2
                else if peek r = CHR ''&'' then emit (tok tokPipeAll) 2
                else emit (tok tokPipe) 1)
             else if c = CHR ''&'' then
               (if peek r = CHR ''&'' then emit (tok tokAndIf) 2 else emit (tok tokSemi) 1)
             else if c = CHR ''!'' then (if blank (peek r) then emit (tok tokBang) 1 else word)
             else if c = CHR ''['' then
               (if peek r = CHR ''['' \<and> blank (peekAt 2 s) then emit (tok tokDblLBracket) 2 else word)
             else if c = CHR '']'' then
               (if peek r = CHR '']'' then emit (tok tokDblRBracket) 2 else word)
             else if c = CHR ''>'' then
               (if peek r = CHR ''&'' then word
                else if peek r = CHR ''>'' then emit (tok tokRedirAppend) 2
                else emit (tok tokRedirOut) 1)
             else word)"

text \<open>
  What a token costs in source, at least: the length of its value, and one for the others than the
  end of the source; only one for \<open>((\<dots>))\<close>, whose value is not what was read.
\<close>

definition weight :: "token \<Rightarrow> nat" where
  "weight t =
     (if tk_kind t = tokEOF then length (tk_val t) else if tk_val t = ''((...))'' then 1 else max 1 (length (tk_val t)))"

lemma weight_le: "length (tk_val t) \<le> n \<Longrightarrow> 1 \<le> n \<Longrightarrow> weight t \<le> n"
  by (auto simp: weight_def)

lemma length_while: "length (takeWhile P s) + length (dropWhile P s) = length s"
  by (metis length_append takeWhile_dropWhile_id)

lemma skipSpaces_shorter: "length (skipSpaces s) \<le> length s"
  by (simp add: skipSpaces_def length_dropWhile_le)

lemma skipComment_shorter: "length (skipComment s) \<le> length s"
  by (auto simp: skipComment_def split: list.split intro: order_trans [OF length_dropWhile_le])

lemma heredocDelim_reads: "length (fst (heredocDelim s)) + length (snd (heredocDelim s)) \<le> length s"
  using length_while [of "\<lambda>c. c \<noteq> hd s" "tl s"] length_while [of _ s]
  by (auto simp: heredocDelim_def Let_def)

lemma scanHeredocOpener_reads:
  assumes "scanHeredocOpener lx = (t, lx')" "2 \<le> length (lx_src lx)"
  shows "length (lx_src lx') + weight t \<le> length (lx_src lx)"
proof -
  define s where "s = drop 2 (lx_src lx)"
  define s' where "s' = (if peek s = CHR ''-'' then tl s else s)"
  have "length s' \<le> length s" by (simp add: s'_def)
  with heredocDelim_reads [of "skipSpaces s'"] skipSpaces_shorter [of s']
  have "length (fst (heredocDelim (skipSpaces s'))) + length (snd (heredocDelim (skipSpaces s'))) \<le> length s"
    by linarith
  moreover have "weight t \<le> length (tk_val t) + 1"
    by (rule weight_le) simp_all
  ultimately show ?thesis
    using assms by (auto simp: scanHeredocOpener_def Let_def s_def s'_def)
qed

definition reads :: "nat \<Rightarrow> (token \<times> lexer) outcome \<Rightarrow> bool" where
  "reads n m \<longleftrightarrow> (\<forall>t lx. m = Returns (t, lx) \<longrightarrow> length (lx_src lx) + weight t \<le> n)"

lemma reads_if [simp]: "reads n (if b then m else m') \<longleftrightarrow> (b \<longrightarrow> reads n m) \<and> (\<not> b \<longrightarrow> reads n m')"
  by simp

lemma reads_emit:
  "length (tk_val t) \<le> k \<Longrightarrow> 1 \<le> k \<Longrightarrow> k \<le> length s \<Longrightarrow> reads (length s) (Returns (t, lx\<lparr>lx_src := drop k s\<rparr>))"
  using weight_le [of t k] by (simp add: reads_def)

lemma reads_word:
  assumes "s = c # r" "\<not> ends_word [] c"
  shows "reads (length s) (map_outcome (apsnd (\<lambda>rest. lx\<lparr>lx_src := rest\<rparr>)) (scanWord [] s))"
proof -
  have "length rest + weight t \<le> length s" if w: "scanWord [] s = Returns (t, rest)" for t rest
  proof -
    have "length (tk_val t) + length rest = length s"
      using scanWord_append [OF w] by (metis append_Nil length_append)
    moreover have "tk_val t \<noteq> []" using scanWord_starts w assms by blast
    then have "weight t \<le> length (tk_val t)" by (intro weight_le) (auto simp: Suc_le_eq)
    ultimately show ?thesis by linarith
  qed
  then show ?thesis by (auto simp: reads_def map_outcome_Returns)
qed

lemma peek_length: "peek r = d \<Longrightarrow> d \<noteq> NUL \<Longrightarrow> 1 \<le> length r"
  by (cases r) (auto simp: peek_def peekAt_def)

lemma peekAt_length: "peekAt k s = d \<Longrightarrow> d \<noteq> NUL \<Longrightarrow> Suc k \<le> length s"
  by (auto simp: peekAt_def split: if_splits)

lemma reads_opener: "2 \<le> length s \<Longrightarrow> reads (length s) (Returns (scanHeredocOpener (lx\<lparr>lx_src := s\<rparr>)))"
  using scanHeredocOpener_reads [of "lx\<lparr>lx_src := s\<rparr>"] by (auto simp: reads_def)

lemma reads_arith:
  "2 \<le> length s \<Longrightarrow>
   reads (length s) (map_outcome (\<lambda>rest. (tokVal tokWord ''((...))'', lx\<lparr>lx_src := rest\<rparr>)) (arithSkip d (drop 2 s)))"
  by (auto simp: reads_def map_outcome_Returns tokVal_def weight_def dest!: arithSkip_shorter)

lemma reads_newline: "reads (length (c # r)) (Returns (tok tokNewline, drainHeredocs (lx\<lparr>lx_src := r\<rparr>)))"
  using drainHeredocs_shorter [of "lx\<lparr>lx_src := r\<rparr>"] by (simp add: reads_def tok_def weight_def)

lemma tok_vals [simp]: "tk_val (tok k) = []" "tk_val (tokVal k v) = v" "tk_kind (tok k) = k" "tk_kind (tokVal k v) = k"
  by (simp_all add: tok_def tokVal_def)

lemma skip_not_blank: "skipComment (skipSpaces x) = c # r \<Longrightarrow> c \<noteq> CHR '' '' \<and> c \<noteq> TAB"
  unfolding skipSpaces_def skipComment_def
  by (auto simp: dropWhile_eq_Cons_conv split: list.splits if_splits)

lemma lexNext_reads: "reads (length (lx_src lx)) (lexNext lx)"
proof -
  define s where "s = skipComment (skipSpaces (lx_src lx))"
  have "reads (length s) (lexNext lx)"
  proof (cases s)
    case Nil
    then show ?thesis by (simp add: lexNext_def s_def [symmetric] reads_def weight_def)
  next
    case (Cons c r)
    have lens: "peek r \<noteq> NUL \<longrightarrow> 1 \<le> length r" "peekAt 2 (c # r) \<noteq> NUL \<longrightarrow> 2 \<le> length r"
      "peekAt 3 (c # r) \<noteq> NUL \<longrightarrow> 3 \<le> length r"
      using peek_length [of r] by (auto simp: peekAt_def)
    have "c \<noteq> CHR '' '' \<and> c \<noteq> TAB"
      using skip_not_blank Cons by (simp add: s_def)
    with lens show ?thesis
      unfolding lexNext_def s_def [symmetric] Let_def Cons list.case
      by (intro conjI impI reads_if [THEN iffD2] reads_emit reads_newline reads_opener reads_arith reads_word [OF refl];
          simp add: ends_word_def)
  qed
  moreover have "length s \<le> length (lx_src lx)"
    unfolding s_def using skipComment_shorter skipSpaces_shorter by (rule order_trans)
  ultimately show ?thesis by (fastforce simp: reads_def)
qed

subsection \<open>The tokenizer: one token of lookahead\<close>

record tokenizer =
  tz_lex :: lexer
  tz_peeked :: "token option"
  tz_err :: "string option"

definition newTokenizer :: "string \<Rightarrow> heredoc list \<Rightarrow> tokenizer" where
  "newTokenizer src heap =
     \<lparr>tz_lex = \<lparr>lx_src = src, lx_pending = [], lx_heap = heap\<rparr>, tz_peeked = None, tz_err = None\<rparr>"

definition tzPeek :: "tokenizer \<Rightarrow> (token \<times> tokenizer) outcome" where
  "tzPeek t =
     (case tz_peeked t of
        Some k \<Rightarrow> Returns (k, t)
      | None \<Rightarrow> map_outcome (\<lambda>(k, lx). (k, t\<lparr>tz_lex := lx, tz_peeked := Some k\<rparr>)) (lexNext (tz_lex t)))"

definition tzNext :: "tokenizer \<Rightarrow> (token \<times> tokenizer) outcome" where
  "tzNext t =
     (case tz_peeked t of
        Some k \<Rightarrow> Returns (k, t\<lparr>tz_peeked := None\<rparr>)
      | None \<Rightarrow> map_outcome (\<lambda>(k, lx). (k, t\<lparr>tz_lex := lx\<rparr>)) (lexNext (tz_lex t)))"

text \<open>The source that is left, a token that has been peeked included.\<close>

definition tz_size :: "tokenizer \<Rightarrow> nat" where
  "tz_size t = length (lx_src (tz_lex t)) + (case tz_peeked t of None \<Rightarrow> 0 | Some k \<Rightarrow> weight k)"

lemma tzPeek_reads:
  assumes "tzPeek t = Returns (k, t')"
  shows "tz_peeked t' = Some k" "tz_size t' \<le> tz_size t" "tz_err t' = tz_err t"
  using assms lexNext_reads [of "tz_lex t"]
  by (auto simp: tzPeek_def tz_size_def map_outcome_Returns reads_def split: option.splits)

lemma tzNext_reads:
  assumes "tzNext t = Returns (k, t')"
  shows "tz_size t' + weight k \<le> tz_size t" "tz_peeked t' = None"
  using assms lexNext_reads [of "tz_lex t"]
  by (auto simp: tzNext_def tz_size_def map_outcome_Returns reads_def split: option.splits)

lemma tzNext_peeked: "tz_peeked t = Some k \<Longrightarrow> tzNext t = Returns (k, t\<lparr>tz_peeked := None\<rparr>)"
  by (simp add: tzNext_def)

lemma weight_pos: "tk_kind k \<noteq> tokEOF \<Longrightarrow> 1 \<le> weight k"
  by (auto simp: weight_def)

lemma tzNext_shorter: "tzNext t = Returns (k, t') \<Longrightarrow> tk_kind k \<noteq> tokEOF \<Longrightarrow> tz_size t' < tz_size t"
  using tzNext_reads(1) [of t k t'] weight_pos [of k] by linarith

function skipNewlines :: "tokenizer \<Rightarrow> tokenizer outcome" where
  "skipNewlines t =
     andThen (tzPeek t) (\<lambda>(k, t').
       if tk_kind k = tokNewline then andThen (tzNext t') (\<lambda>(_, t''). skipNewlines t'')
       else Returns t')"
  by auto
termination
proof (relation "measure tz_size", goal_cases)
  case (2 t x k t' x' k' t'')
  then show ?case
    using tzPeek_reads [of t k t'] tzNext_shorter [of t' k t''] tzNext_peeked [of t' k] by auto
qed simp

declare skipNewlines.simps [simp del]

end
