(* ===== verification/Shell_Words.thy ===== *)
theory Shell_Words
  imports Shell_Lexer
begin

text \<open>
  The parser of words (pkg/shell/parser/parser.go, \<open>parseWordString\<close>, \<open>parseWordParts\<close> and
  \<open>parseBraceExpansion\<close>): the raw text of a word becomes its parts. The body of a command
  substitution is parsed by the parser of whole sources, which is an argument here and is tied to
  its definition in the theory of the parser.
\<close>

type_synonym file_parser = "string \<Rightarrow> heredoc list \<Rightarrow> (stmt list \<times> heredoc list) outcome"

subsection \<open>Characters of names\<close>

definition isNameStart :: "char \<Rightarrow> bool" where
  "isNameStart c \<longleftrightarrow>
     between (CHR ''a'') (CHR ''z'') c \<or> between (CHR ''A'') (CHR ''Z'') c \<or> c = CHR ''_''"

definition isNameChar :: "char \<Rightarrow> bool" where
  "isNameChar c \<longleftrightarrow> isNameStart c \<or> is_digit c"

definition isValidName :: "string \<Rightarrow> bool" where
  "isValidName s \<longleftrightarrow> list_all (\<lambda>c. isNameStart c \<or> is_digit c) s"

text \<open>
  Go's \<open>string(b)\<close> for a byte \<open>b\<close> is the UTF-8 encoding of the code point \<open>b\<close>, two bytes from
  0x80 on.
\<close>

definition string_of_byte :: "char \<Rightarrow> string" where
  "string_of_byte c =
     (let n = of_char c :: nat
      in if n < 0x80 then [c] else [char_of (0xC0 + n div 64), char_of (0x80 + n mod 64)])"

subsection \<open>Finding the end of a part\<close>

text \<open>The text of a double-quoted part and what follows its closing quote.\<close>

fun dqInner :: "nat \<Rightarrow> string \<Rightarrow> string \<times> string" where
  "dqInner d [] = ([], [])"
| "dqInner d [c] =
     (if c = CHR '')'' \<and> d > 0 then ([c], []) else if c = DQ \<and> d = 0 then ([], []) else ([c], []))"
| "dqInner d (c # c' # s) =
     (if c = BS then apfst ((@) [c, c']) (dqInner d s)
      else if c = CHR ''$'' \<and> c' = CHR ''('' then apfst ((@) [c, c']) (dqInner (d + 1) s)
      else if c = CHR '')'' \<and> d > 0 then apfst (Cons c) (dqInner (d - 1) (c' # s))
      else if c = DQ \<and> d = 0 then ([], c' # s)
      else apfst (Cons c) (dqInner d (c' # s)))"

text \<open>Double quotes inside a command substitution: up to the closing quote, which is included.\<close>

fun dqBody :: "string \<Rightarrow> string \<times> string" where
  "dqBody [] = ([], [])"
| "dqBody [c] = ([c], [])"
| "dqBody (c # c' # s) =
     (if c = DQ then ([c], c' # s)
      else if c = BS then apfst ((@) [c, c']) (dqBody s)
      else apfst (Cons c) (dqBody (c' # s)))"

lemma dqBody_append: "fst (dqBody s) @ snd (dqBody s) = s"
  by (induction s rule: dqBody.induct) auto

lemma dqBody_shorter: "length (snd (dqBody s)) \<le> length s"
  using arg_cong [OF dqBody_append, of length s] by simp

text \<open>The body of a command substitution; what follows starts with its closing bracket.\<close>

function substBody :: "nat \<Rightarrow> string \<Rightarrow> string \<times> string" where
  "substBody d [] = ([], [])"
| "substBody d (c # s) =
     (if d = 0 then ([], c # s)
      else if c = CHR ''('' then apfst (Cons c) (substBody (d + 1) s)
      else if c = CHR '')'' then
        (if d - 1 = 0 then ([], c # s) else apfst (Cons c) (substBody (d - 1) s))
      else if c = SQ then apfst ((@) (c # fst (quoteEnd SQ s))) (substBody d (snd (quoteEnd SQ s)))
      else if c = DQ then apfst ((@) (c # fst (dqBody s))) (substBody d (snd (dqBody s)))
      else apfst (Cons c) (substBody d s))"
  by pat_completeness auto
termination
  by (relation "measure (length \<circ> snd)") (auto simp: le_imp_less_Suc quoteEnd_shorter dqBody_shorter)

text \<open>The word of a parameter expansion and what follows its closing brace.\<close>

fun braceWord :: "nat \<Rightarrow> string \<Rightarrow> string \<times> string" where
  "braceWord d [] = ([], [])"
| "braceWord d (c # s) =
     (if d = 0 then ([], c # s)
      else if c = CHR ''{'' then apfst (Cons c) (braceWord (d + 1) s)
      else if c = CHR ''}'' then (if d - 1 = 0 then ([], s) else apfst (Cons c) (braceWord (d - 1) s))
      else apfst (Cons c) (braceWord d s))"

definition expOp :: "char \<Rightarrow> bool \<Rightarrow> paramExpOp option" where
  "expOp c colon =
     (if c = CHR ''-'' then Some (if colon then DefaultUnsetOrNull else DefaultUnset)
      else if c = CHR ''+'' then Some (if colon then AlternateUnsetOrNull else AlternateUnset)
      else if c = CHR ''='' then Some (if colon then AssignUnsetOrNull else AssignUnset)
      else if c = CHR ''?'' then Some (if colon then ErrorUnsetOrNull else ErrorUnset)
      else None)"

definition inName :: "char \<Rightarrow> bool" where
  "inName c \<longleftrightarrow> c \<notin> set ''}:-+=?''"

definition closes :: "string \<Rightarrow> bool" where
  "closes s \<longleftrightarrow> s = [] \<or> hd s = CHR ''}''"

text \<open>
  The scan of \<open>parseBraceExpansion\<close>, after \<open>${\<close>: the parameter, whether its length is asked for,
  the operator with the text of its word, and the rest.
\<close>

type_synonym brace = "string \<times> bool \<times> (paramExpOp \<times> string) option \<times> string"

definition skipBrace :: "string \<Rightarrow> string" where
  "skipBrace s = drop 1 (dropWhile (\<lambda>c. c \<noteq> CHR ''}'') s)"

definition scanOp :: "string \<Rightarrow> bool \<Rightarrow> string \<Rightarrow> brace" where
  "scanOp name colon s =
     (if closes s then (name, False, None, drop 1 s)
      else case expOp (hd s) colon of
             None \<Rightarrow> (name, False, None, skipBrace (tl s))
           | Some x \<Rightarrow> (name, False, Some (x, fst (braceWord 1 (tl s))), snd (braceWord 1 (tl s))))"

definition scanBrace :: "string \<Rightarrow> brace" where
  "scanBrace s =
     (if peek s = CHR ''#'' then (takeWhile (\<lambda>c. c \<noteq> CHR ''}'') (tl s), True, None, skipBrace (tl s))
      else let name = takeWhile inName s; s = dropWhile inName s
           in if closes s then (name, False, None, drop 1 s)
              else if hd s = CHR '':'' then scanOp name True (tl s)
              else scanOp name False s)"

subsection \<open>What is found lies within the word\<close>

lemma sublist_tl: "sublist s (tl r) \<Longrightarrow> sublist s r"
  by (cases r) (auto intro: sublist_Cons_right [THEN iffD2])

lemmas suffix_trans = suffix_order.trans

lemma suffix_drop_while: "suffix (drop k (dropWhile P s)) s"
  by (rule suffix_trans [OF suffix_drop suffix_dropWhile])

lemma suffix_tl_trans: "suffix s' (tl s) \<Longrightarrow> suffix s' s"
  by (rule suffix_trans [OF _ suffix_tl])

lemma split_within: "a @ b = s \<Longrightarrow> sublist a s \<and> suffix b s"
  by (auto simp: suffix_def)

lemma dqInner_within: "prefix (fst (dqInner d s)) s \<and> suffix (snd (dqInner d s)) s"
  by (induction d s rule: dqInner.induct) (auto simp: suffix_Cons)

lemma substBody_append: "fst (substBody d s) @ snd (substBody d s) = s"
proof (induction s arbitrary: d rule: length_induct)
  case (1 s)
  show ?case
  proof (cases s)
    case (Cons c r)
    have "fst (substBody d' s') @ snd (substBody d' s') = s'" if "length s' \<le> length r" for d' s'
      using 1 that Cons by simp
    with Cons quoteEnd_shorter [of SQ r] dqBody_shorter [of r] quoteEnd_append [of SQ r] dqBody_append [of r]
    show ?thesis by simp
  qed simp
qed

lemma braceWord_within: "prefix (fst (braceWord d s)) s \<and> suffix (snd (braceWord d s)) s"
  by (induction d s rule: braceWord.induct) (auto simp: suffix_Cons)

definition brace_within :: "string \<Rightarrow> brace \<Rightarrow> bool" where
  "brace_within s b =
     (case b of (n, l, e, rest) \<Rightarrow>
        suffix rest s \<and> (case e of None \<Rightarrow> True | Some (x, w) \<Rightarrow> sublist w s \<and> \<not> l))"

lemma skipBrace_within: "suffix (skipBrace s) s"
  unfolding skipBrace_def by (rule suffix_drop_while)

lemma scanOp_within: "brace_within s (scanOp n colon s)"
  using suffix_tl_trans [OF skipBrace_within [of "tl s"]] braceWord_within [of 1 "tl s"]
  by (auto simp: scanOp_def brace_within_def suffix_drop split: option.split
      intro: suffix_tl_trans sublist_tl prefix_imp_sublist)

lemma brace_within_mono:
  assumes "suffix s' s" "brace_within s' b"
  shows "brace_within s b"
proof -
  have "sublist w s" if "sublist w s'" for w
    using that suffix_imp_sublist [OF assms(1)] by (rule sublist_order.order.trans)
  then show ?thesis
    using assms(2) suffix_trans [OF _ assms(1)]
    by (auto simp: brace_within_def split: option.splits prod.splits)
qed

lemma scanBrace_within: "brace_within s (scanBrace s)"
proof -
  let ?s = "dropWhile inName s"
  have "suffix ?s s" "suffix (tl ?s) s" "suffix (drop 1 ?s) s"
    using suffix_dropWhile [of inName s] suffix_trans [OF suffix_tl] suffix_drop_while by blast+
  moreover from this have "brace_within s (scanOp n True (tl ?s))" "brace_within s (scanOp n False ?s)" for n
    using brace_within_mono scanOp_within by blast+
  ultimately show ?thesis
    using suffix_tl_trans [OF skipBrace_within [of "tl s"]]
    by (auto simp: scanBrace_def Let_def brace_within_def)
qed

subsection \<open>The parts of a word\<close>

definition flushLit :: "string \<Rightarrow> wordPart list \<Rightarrow> wordPart list" where
  "flushLit lit parts = (if lit = [] then parts else parts @ [Lit lit])"

definition setErr :: "string \<Rightarrow> tokenizer \<Rightarrow> tokenizer" where
  "setErr e t = (if tz_err t = None then t\<lparr>tz_err := Some e\<rparr> else t)"

definition tz_heap :: "tokenizer \<Rightarrow> heredoc list" where
  "tz_heap t = lx_heap (tz_lex t)"

definition setHeap :: "heredoc list \<Rightarrow> tokenizer \<Rightarrow> tokenizer" where
  "setHeap h t = t\<lparr>tz_lex := (tz_lex t)\<lparr>lx_heap := h\<rparr>\<rparr>"

definition wordOf :: "wordPart list \<Rightarrow> word" where
  "wordOf ps = Word (if ps = [] then [Lit []] else ps)"

text \<open>The statements of a substitution; an error in them is the first error of the source.\<close>

definition parseSubst :: "file_parser \<Rightarrow> string \<Rightarrow> tokenizer \<Rightarrow> (stmt list \<times> tokenizer) outcome" where
  "parseSubst P body t =
     (case P body (tz_heap t) of
        Returns (stmts, h) \<Rightarrow> Returns (stmts, setHeap h t)
      | Fails e \<Rightarrow> Returns ([], setErr e t)
      | Panics \<Rightarrow> Panics
      | Unfinished \<Rightarrow> Unfinished)"

definition arithmeticError :: string where
  "arithmeticError = ''arithmetic expansion $((...)) is not supported; use expr''"

definition isParamStart :: "char \<Rightarrow> bool" where
  "isParamStart c \<longleftrightarrow> isNameStart c \<or> c \<in> set ''?#0@*''"

text \<open>
  What the loop over a word does at one character, apart from the parsing that it starts: a
  character of a literal, a part with nothing to parse, the text of a double-quoted part, the body
  of a substitution, an arithmetic expansion, or a parameter with an operator and its word. The
  last string is what follows.
\<close>

datatype turn =
    LitChar
  | NewPart wordPart string
  | InDouble string string
  | InSubst string string
  | Arithmetic
  | InExp string paramExpOp string string

definition wordTurn :: "bool \<Rightarrow> char \<Rightarrow> string \<Rightarrow> turn" where
  "wordTurn dq c r =
     (if c = BS \<and> r \<noteq> [] then
        (if dq \<and> hd r \<notin> {CHR ''$'', BQ, DQ, BS, NL} then LitChar
         else NewPart (Escaped (string_of_byte (hd r))) (tl r))
      else if c = SQ \<and> \<not> dq then
        NewPart (SglQuoted (takeWhile (\<lambda>c. c \<noteq> SQ) r)) (drop 1 (dropWhile (\<lambda>c. c \<noteq> SQ) r))
      else if c = DQ \<and> \<not> dq then InDouble (fst (dqInner 0 r)) (snd (dqInner 0 r))
      else if c = CHR ''$'' \<and> peek r = CHR ''('' then
        (let body = fst (substBody 1 (tl r)); rest = snd (substBody 1 (tl r))
         in if peek body = CHR ''('' \<and> (rest = [] \<or> last body = CHR '')'') then Arithmetic
            else InSubst body (drop 1 rest))
      else if c = CHR ''$'' \<and> peek r = CHR ''{'' then
        (case scanBrace (tl r) of
           (name, len, None, rest) \<Rightarrow> NewPart (ParamExp name len None) rest
         | (name, len, Some (x, w), rest) \<Rightarrow> InExp name x w rest)
      else if c = CHR ''$'' \<and> r \<noteq> [] \<and> isParamStart (hd r) then
        (if hd r \<in> set ''?#0@*'' then NewPart (ParamExp [hd r] False None) (tl r)
         else NewPart (ParamExp (takeWhile isNameChar r) False None) (dropWhile isNameChar r))
      else LitChar)"

definition turn_within :: "string \<Rightarrow> turn \<Rightarrow> bool" where
  "turn_within r u =
     (case u of
        LitChar \<Rightarrow> True
      | NewPart p rest \<Rightarrow> suffix rest r
      | InDouble s rest \<Rightarrow> suffix rest r \<and> sublist s r
      | InSubst b rest \<Rightarrow> suffix rest r \<and> sublist b r \<and> length b < length r
      | Arithmetic \<Rightarrow> True
      | InExp n x w rest \<Rightarrow> suffix rest r \<and> sublist w r)"

lemma turn_within_if: "turn_within r (if b then u else v) \<longleftrightarrow> (b \<longrightarrow> turn_within r u) \<and> (\<not> b \<longrightarrow> turn_within r v)"
  by simp

lemma turn_within_plain: "turn_within r LitChar" "turn_within r Arithmetic"
  by (simp_all add: turn_within_def)

lemma turn_within_new: "suffix rest r \<Longrightarrow> turn_within r (NewPart p rest)"
  by (simp add: turn_within_def)

lemma turn_within_double: "turn_within r (InDouble (fst (dqInner 0 r)) (snd (dqInner 0 r)))"
  using dqInner_within [of 0 r] by (auto simp: turn_within_def intro: prefix_imp_sublist)

lemma turn_within_subst:
  assumes "peek r = CHR ''(''"
  shows "turn_within r (InSubst (fst (substBody 1 (tl r))) (drop 1 (snd (substBody 1 (tl r)))))"
proof -
  note split = substBody_append [of 1 "tl r"]
  have "length (tl r) < length r" using assms by (cases r) (auto simp: peek_def peekAt_def)
  then have "length (fst (substBody 1 (tl r))) < length r"
    using arg_cong [OF split, of length] by simp
  moreover have "suffix (drop 1 (snd (substBody 1 (tl r)))) r"
    by (rule suffix_trans [OF suffix_drop suffix_tl_trans]) (use split_within [OF split] in blast)
  ultimately show ?thesis
    using split_within [OF split] by (simp add: turn_within_def sublist_tl)
qed

lemma turn_within_brace: "turn_within r
  (case scanBrace (tl r) of
     (name, len, None, rest) \<Rightarrow> NewPart (ParamExp name len None) rest
   | (name, len, Some (x, w), rest) \<Rightarrow> InExp name x w rest)"
  using scanBrace_within [of "tl r"]
  by (auto simp: turn_within_def brace_within_def split: prod.splits option.splits
      intro: suffix_tl_trans sublist_tl)

lemma wordTurn_within: "turn_within r (wordTurn dq c r)"
  unfolding wordTurn_def Let_def
  by (intro turn_within_if [THEN iffD2] conjI impI turn_within_plain turn_within_new turn_within_double
      turn_within_brace turn_within_subst suffix_drop_while suffix_dropWhile suffix_tl) auto

lemma turn_shorter:
  "wordTurn dq c r = NewPart p rest \<Longrightarrow> length rest \<le> length r"
  "wordTurn dq c r = InDouble s rest \<Longrightarrow> length rest \<le> length r \<and> length s \<le> length r"
  "wordTurn dq c r = InSubst b rest \<Longrightarrow> length rest \<le> length r"
  "wordTurn dq c r = InExp n x w rest \<Longrightarrow> length rest \<le> length r \<and> length w \<le> length r"
  using wordTurn_within [of r dq c]
  by (auto simp: turn_within_def dest: sublist_length_le suffix_length_le)

function wordLoop ::
  "file_parser \<Rightarrow> bool \<Rightarrow> string \<Rightarrow> wordPart list \<Rightarrow> string \<Rightarrow> tokenizer \<Rightarrow> (wordPart list \<times> tokenizer) outcome" where
  "wordLoop P dq lit parts [] t = Returns (flushLit lit parts, t)"
| "wordLoop P dq lit parts (c # r) t =
     (case wordTurn dq c r of
        LitChar \<Rightarrow> wordLoop P dq (lit @ [c]) parts r t
      | NewPart p rest \<Rightarrow> wordLoop P dq [] (flushLit lit parts @ [p]) rest t
      | InDouble s rest \<Rightarrow>
          andThen (wordLoop P True [] [] s t) (\<lambda>(ps, t).
            wordLoop P dq [] (flushLit lit parts @ [DblQuoted ps]) rest t)
      | InSubst body rest \<Rightarrow>
          andThen (parseSubst P body t) (\<lambda>(stmts, t).
            wordLoop P dq [] (flushLit lit parts @ [CmdSubst stmts]) rest t)
      | Arithmetic \<Rightarrow> Returns ([], setErr arithmeticError t)
      | InExp name x w rest \<Rightarrow>
          andThen (wordLoop P False [] [] w t) (\<lambda>(ps, t).
            wordLoop P dq [] (flushLit lit parts @ [ParamExp name False (Some (Expansion x (wordOf ps)))]) rest t))"
  by pat_completeness auto
termination
  by (relation "measure (\<lambda>(P, dq, lit, parts, s, t). length s)")
     (auto simp: le_imp_less_Suc dest: turn_shorter)

subsection \<open>What parsing a word changes\<close>

text \<open>Words are parsed from their own text: the source and the lookahead stay as they are.\<close>

definition same_source :: "tokenizer \<Rightarrow> tokenizer \<Rightarrow> bool" where
  "same_source t t' \<longleftrightarrow> tz_peeked t' = tz_peeked t \<and> lx_src (tz_lex t') = lx_src (tz_lex t)
     \<and> lx_pending (tz_lex t') = lx_pending (tz_lex t)"

lemma same_source_refl [simp]: "same_source t t"
  by (simp add: same_source_def)

lemma same_source_trans: "same_source t t' \<Longrightarrow> same_source t' t'' \<Longrightarrow> same_source t t''"
  by (simp add: same_source_def)

lemma same_source_setErr [simp]: "same_source t (setErr e t)"
  by (simp add: same_source_def setErr_def)

lemma same_source_size: "same_source t t' \<Longrightarrow> tz_size t' = tz_size t"
  by (simp add: same_source_def tz_size_def)

lemma parseSubst_source: "parseSubst P b t = Returns (x, t') \<Longrightarrow> same_source t t'"
  by (auto simp: parseSubst_def setHeap_def same_source_def setErr_def split: outcome.splits)

lemma wordLoop_source: "wordLoop P dq lit parts s t = Returns (ps, t') \<Longrightarrow> same_source t t'"
proof (induction P dq lit parts s t arbitrary: ps t' rule: wordLoop.induct)
  case (2 P dq lit parts c r t)
  from 2(8) show ?case
    by (auto simp: andThen_Returns_iff split: turn.splits
      dest: parseSubst_source 2(1-7) intro: same_source_trans)
qed simp

text \<open>
  Parsing a word neither fails nor panics nor goes on for ever, unless the parser of sources does
  on the body of a substitution in it.
\<close>

lemma parseSubst_avoids: "avoids k (P b (tz_heap t)) \<Longrightarrow> avoids k (parseSubst P b t)"
  by (auto simp: parseSubst_def split: outcome.split)

lemma wordLoop_avoids:
  assumes "\<And>b h. sublist b s \<Longrightarrow> length b + 2 \<le> length s \<Longrightarrow> avoids k (P b h)"
  shows "avoids k (wordLoop P dq lit parts s t)"
  using assms
proof (induction P dq lit parts s t rule: wordLoop.induct)
  case (2 P dq lit parts c r t)
  have whole: "avoids k (P b h)" if "sublist b r" "length b < length r" for b h
    using 2(8) [of b h] that by (simp add: sublist_Cons_right)
  have below: "avoids k (P b h)" if "sublist s r" "sublist b s" "length b + 2 \<le> length s" for b s h
    using whole [of b h] sublist_order.order.trans [OF that(2,1)] sublist_length_le [OF that(1)] that(3) by simp
  show ?case
  proof (cases "wordTurn dq c r")
    case LitChar
    then show ?thesis using 2(1) whole by simp
  next
    case (NewPart p rest)
    then have "sublist rest r" using wordTurn_within [of r dq c] by (simp add: turn_within_def suffix_imp_sublist)
    with 2(2) [OF NewPart below] NewPart show ?thesis by simp
  next
    case (InDouble s rest)
    then have "sublist rest r" "sublist s r"
      using wordTurn_within [of r dq c] by (simp_all add: turn_within_def suffix_imp_sublist)
    with 2(3) [OF InDouble below] 2(4) [OF InDouble _ refl below] InDouble show ?thesis
      by (auto split: prod.split)
  next
    case (InSubst b rest)
    then have "sublist rest r" "sublist b r" "length b < length r"
      using wordTurn_within [of r dq c] by (simp_all add: turn_within_def suffix_imp_sublist)
    with whole [of b] 2(5) [OF InSubst _ refl below] InSubst show ?thesis
      by (auto split: prod.split intro: parseSubst_avoids)
  next
    case (InExp n x w rest)
    then have "sublist rest r" "sublist w r"
      using wordTurn_within [of r dq c] by (simp_all add: turn_within_def suffix_imp_sublist)
    with 2(6) [OF InExp below] 2(7) [OF InExp _ refl below] InExp show ?thesis
      by (auto split: prod.split)
  qed simp
qed simp

subsection \<open>Words\<close>

definition parseWordParts :: "file_parser \<Rightarrow> string \<Rightarrow> bool \<Rightarrow> tokenizer \<Rightarrow> (wordPart list \<times> tokenizer) outcome" where
  "parseWordParts P s dq t = wordLoop P dq [] [] s t"

definition parseWordString :: "file_parser \<Rightarrow> string \<Rightarrow> tokenizer \<Rightarrow> (word \<times> tokenizer) outcome" where
  "parseWordString P s t = map_outcome (apfst wordOf) (parseWordParts P s False t)"

lemma parseWordString_source: "parseWordString P s t = Returns (w, t') \<Longrightarrow> same_source t t'"
  by (auto simp: parseWordString_def parseWordParts_def map_outcome_Returns dest: wordLoop_source)

lemma parseWordString_avoids:
  assumes "\<And>b h. sublist b s \<Longrightarrow> length b + 2 \<le> length s \<Longrightarrow> avoids k (P b h)"
  shows "avoids k (parseWordString P s t)"
  using wordLoop_avoids [of s k P False "[]" "[]" t] assms
  by (simp add: parseWordString_def parseWordParts_def)

end
