(* ===== verification/Shell_Parser.thy ===== *)
theory Shell_Parser
  imports Shell_Words
begin

text \<open>
  The shell's parser (pkg/shell/parser/parser.go). Its functions call each other in a cycle:
  compound commands contain statement lists, \<open>elif\<close> chains contain each other, and a substitution
  in a word contains a whole source. Each function takes those three as an argument, and
  \<open>parse_list\<close>, \<open>parse_if\<close> and \<open>parse_file\<close> tie the knot to a depth, which also bounds the turns of the loops. That the
  depth used by \<open>Parse\<close> is enough is shown in the theory of what the parser promises.
\<close>

record rec_parse =
  rp_list :: "tokenKind \<Rightarrow> tokenizer \<Rightarrow> (stmt list \<times> tokenizer) outcome"
  rp_if :: "tokenizer \<Rightarrow> (ifClause \<times> tokenizer) outcome"
  rp_file :: file_parser

subsection \<open>Tokens and keywords\<close>

definition isWord :: "token \<Rightarrow> string \<Rightarrow> bool" where
  "isWord k w \<longleftrightarrow> tk_kind k = tokWord \<and> tk_val k = w"

definition isStopWord :: "string \<Rightarrow> bool" where
  "isStopWord s \<longleftrightarrow> s \<in> {''then'', ''fi'', ''else'', ''elif'', ''do'', ''done'', ''esac''}"

definition declKeywords :: "string set" where
  "declKeywords = {''export'', ''local'', ''declare'', ''readonly''}"

definition inputRedirection :: string where
  "inputRedirection = ''input redirection '' @ SQ # ''<'' @ SQ # '' is not supported; use '' @ SQ # ''cat file | cmd'' @ [SQ]"

text \<open>Consume the keyword if it is the next token, after any newlines.\<close>

definition keyword :: "string \<Rightarrow> tokenizer \<Rightarrow> tokenizer outcome" where
  "keyword w t =
     andThen (skipNewlines t) (\<lambda>t. andThen (tzPeek t) (\<lambda>(k, t).
       if isWord k w then map_outcome snd (tzNext t) else Returns t))"

subsection \<open>Loops over words\<close>

lemma peek_next_shorter:
  assumes "tzPeek t = Returns (k, t1)" "tzNext t1 = Returns (k', t2)" "tk_kind k \<noteq> tokEOF"
  shows "tz_size t2 < tz_size t"
  using tzPeek_reads [OF assms(1)] tzNext_shorter [of t1 k t2] tzNext_peeked [of t1 k] assms(2,3)
  by auto

lemma peek_next_word_shorter:
  assumes "tzPeek t = Returns (k, t1)" "tzNext t1 = Returns (k', t2)" "tk_kind k \<noteq> tokEOF"
    and "parseWordString P s t2 = Returns (w, t3)"
  shows "tz_size t3 < tz_size t"
  using peek_next_shorter [OF assms(1-3)] same_source_size [OF parseWordString_source [OF assms(4)]] by simp

function testWords :: "file_parser \<Rightarrow> word list \<Rightarrow> tokenizer \<Rightarrow> (word list \<times> tokenizer) outcome" where
  "testWords P ws t =
     andThen (tzPeek t) (\<lambda>(k, t).
       if tk_kind k = tokDblRBracket \<or> tk_kind k = tokEOF then Returns (ws, t)
       else andThen (tzNext t) (\<lambda>(_, t).
         if tk_kind k = tokWord \<or> tk_kind k = tokRedirIn then
           andThen (parseWordString P (tk_val k) t) (\<lambda>(w, t). testWords P (ws @ [w]) t)
         else testWords P ws t))"
  by auto
termination
  by (relation "measure (\<lambda>(P, ws, t). tz_size t)")
     (auto dest: peek_next_word_shorter peek_next_shorter)

function forItems :: "file_parser \<Rightarrow> word list \<Rightarrow> tokenizer \<Rightarrow> (word list \<times> tokenizer) outcome" where
  "forItems P ws t =
     andThen (tzPeek t) (\<lambda>(k, t).
       if tk_kind k = tokSemi \<or> tk_kind k = tokNewline \<or> tk_kind k = tokEOF \<or> isWord k ''do'' then Returns (ws, t)
       else if tk_kind k = tokRedirIn then Fails inputRedirection
       else andThen (tzNext t) (\<lambda>(_, t).
         andThen (parseWordString P (tk_val k) t) (\<lambda>(w, t). forItems P (ws @ [w]) t)))"
  by auto
termination
  by (relation "measure (\<lambda>(P, ws, t). tz_size t)") (auto dest: peek_next_word_shorter)

text \<open>A word split at its first \<open>=\<close>, which is not its first character.\<close>

definition splitAssign :: "string \<Rightarrow> (string \<times> string) option" where
  "splitAssign v =
     (let n = takeWhile (\<lambda>c. c \<noteq> CHR ''='') v; r = dropWhile (\<lambda>c. c \<noteq> CHR ''='') v
      in if n = [] \<or> r = [] then None else Some (n, tl r))"

function declArgs :: "file_parser \<Rightarrow> assign list \<Rightarrow> tokenizer \<Rightarrow> (assign list \<times> tokenizer) outcome" where
  "declArgs P as t =
     andThen (tzPeek t) (\<lambda>(k, t).
       if tk_kind k \<noteq> tokWord \<or> isStopWord (tk_val k) then Returns (as, t)
       else andThen (tzNext t) (\<lambda>(_, t).
         case splitAssign (tk_val k) of
           Some (n, v) \<Rightarrow>
             andThen (parseWordString P v t) (\<lambda>(w, t). declArgs P (as @ [Assign n (Some w) False]) t)
         | None \<Rightarrow> declArgs P (as @ [Assign (tk_val k) None True]) t))"
  by auto
termination
  by (relation "measure (\<lambda>(P, as, t). tz_size t)")
     (auto dest: peek_next_word_shorter peek_next_shorter)

function letWords :: "tokenizer \<Rightarrow> tokenizer outcome" where
  "letWords t =
     andThen (tzPeek t) (\<lambda>(k, t).
       if tk_kind k \<noteq> tokWord then Returns t else andThen (tzNext t) (\<lambda>(_, t). letWords t))"
  by auto
termination
  by (relation "measure tz_size") (auto dest: peek_next_shorter)

declare testWords.simps [simp del] forItems.simps [simp del] declArgs.simps [simp del] letWords.simps [simp del]

subsection \<open>Simple commands\<close>

definition isAssignment :: "string \<Rightarrow> (string \<times> string) option" where
  "isAssignment v =
     (case splitAssign v of
        Some (n, w) \<Rightarrow> if isNameStart (hd v) \<and> isValidName n then Some (n, w) else None
      | None \<Rightarrow> None)"

function leadingAssigns :: "file_parser \<Rightarrow> assign list \<Rightarrow> tokenizer \<Rightarrow> (assign list \<times> tokenizer) outcome" where
  "leadingAssigns P as t =
     andThen (tzPeek t) (\<lambda>(k, t).
       if tk_kind k \<noteq> tokWord then Returns (as, t)
       else case isAssignment (tk_val k) of
              None \<Rightarrow> Returns (as, t)
            | Some (n, v) \<Rightarrow>
                andThen (tzNext t) (\<lambda>(_, t). andThen (parseWordString P v t) (\<lambda>(w, t).
                  leadingAssigns P (as @ [Assign n (Some w) False]) t)))"
  by auto
termination
  by (relation "measure (\<lambda>(P, as, t). tz_size t)") (auto dest: peek_next_word_shorter)

record callBuf =
  cb_Assigns :: "assign list"
  cb_Args :: "word list"
  cb_Heredocs :: "nat list"
  cb_MergeStderr :: bool
  cb_Redirect :: "redirect option"

definition finalizeCall :: "callBuf \<Rightarrow> command option" where
  "finalizeCall c =
     (if cb_Assigns c = [] \<and> cb_Args c = [] then None
      else Some (CallExpr (cb_Assigns c) (cb_Args c) (cb_Heredocs c) (cb_MergeStderr c) (cb_Redirect c)))"

definition redirOpString :: "bool \<Rightarrow> string" where
  "redirOpString a = (if a then BQ # ''>>'' @ [BQ] else BQ # ''>'' @ [BQ])"

definition isRedirOut :: "tokenKind \<Rightarrow> bool" where
  "isRedirOut k \<longleftrightarrow> k \<in> {tokRedirOut, tokRedirAppend, tokRedirErrOut, tokRedirErrAppend}"

function callArgs :: "file_parser \<Rightarrow> callBuf \<Rightarrow> tokenizer \<Rightarrow> (command option \<times> tokenizer) outcome" where
  "callArgs P c t =
     andThen (tzPeek t) (\<lambda>(k, t).
       if tk_kind k = tokWord then
         (if isStopWord (tk_val k) then Returns (finalizeCall c, t)
          else andThen (tzNext t) (\<lambda>(_, t). andThen (parseWordString P (tk_val k) t) (\<lambda>(w, t).
                 callArgs P (c\<lparr>cb_Args := cb_Args c @ [w]\<rparr>) t)))
       else if tk_kind k = tokRedirIn then Fails inputRedirection
       else if tk_kind k = tokHeredoc then
         andThen (tzNext t) (\<lambda>(_, t). callArgs P (c\<lparr>cb_Heredocs := cb_Heredocs c @ [the (tk_hd k)]\<rparr>) t)
       else if tk_kind k = tokRedirMerge then
         andThen (tzNext t) (\<lambda>(_, t). callArgs P (c\<lparr>cb_MergeStderr := True\<rparr>) t)
       else if isRedirOut (tk_kind k) then
         (let app = tk_kind k \<in> {tokRedirAppend, tokRedirErrAppend};
              err = tk_kind k \<in> {tokRedirErrOut, tokRedirErrAppend}
          in andThen (tzNext t) (\<lambda>(_, t1). andThen (tzPeek t1) (\<lambda>(g, t2).
               if tk_kind g \<noteq> tokWord then Fails (''syntax error: expected filename after '' @ redirOpString app)
               else andThen (tzNext t2) (\<lambda>(_, t3). andThen (parseWordString P (tk_val g) t3) (\<lambda>(w, t4).
                      callArgs P (c\<lparr>cb_Redirect := Some (Redirect w app err)\<rparr>) t4)))))
       else Returns (finalizeCall c, t))"
  by auto
termination
proof (relation "measure (\<lambda>(P, c, t). tz_size t)", goal_cases)
  case (5 P c t x k t0 app err y k1 t1 z g t2 u k3 t3 v w t4)
  from 5 have "tz_size t1 < tz_size t" by (auto simp: isRedirOut_def dest: peek_next_shorter)
  moreover from 5 have "tz_size t4 < tz_size t1" by (auto dest: peek_next_word_shorter)
  ultimately show ?case by simp
qed (auto dest: peek_next_word_shorter peek_next_shorter)

declare leadingAssigns.simps [simp del] callArgs.simps [simp del]

definition parseSimpleCommand :: "file_parser \<Rightarrow> tokenizer \<Rightarrow> (command option \<times> tokenizer) outcome" where
  "parseSimpleCommand P t =
     andThen (leadingAssigns P [] t) (\<lambda>(as, t).
       callArgs P \<lparr>cb_Assigns = as, cb_Args = [], cb_Heredocs = [], cb_MergeStderr = False, cb_Redirect = None\<rparr> t)"

subsection \<open>Compound commands\<close>

type_synonym command_parser = "tokenizer \<Rightarrow> (command option \<times> tokenizer) outcome"

definition parseSubshell :: "rec_parse \<Rightarrow> command_parser" where
  "parseSubshell R t =
     andThen (tzNext t) (\<lambda>(_, t). andThen (rp_list R tokRParen t) (\<lambda>(ss, t).
       andThen (tzNext t) (\<lambda>(_, t). Returns (Some (Subshell ss), t))))"

definition parseBlock :: "rec_parse \<Rightarrow> command_parser" where
  "parseBlock R t =
     andThen (tzNext t) (\<lambda>(_, t). andThen (rp_list R tokRBrace t) (\<lambda>(ss, t).
       andThen (tzNext t) (\<lambda>(_, t). Returns (Some (Block ss), t))))"

definition parseTestClause :: "rec_parse \<Rightarrow> command_parser" where
  "parseTestClause R t =
     andThen (tzNext t) (\<lambda>(_, t). andThen (testWords (rp_file R) [] t) (\<lambda>(ws, t).
       andThen (tzNext t) (\<lambda>(_, t). Returns (Some (TestClause ws), t))))"

text \<open>A body that follows a keyword and is closed by another.\<close>

definition bodyUntil :: "rec_parse \<Rightarrow> string \<Rightarrow> tokenizer \<Rightarrow> (stmt list \<times> tokenizer) outcome" where
  "bodyUntil R w t =
     andThen (rp_list R tokEOF t) (\<lambda>(ss, t). andThen (keyword w t) (\<lambda>t. Returns (ss, t)))"

text \<open>The condition and the body of an \<open>if\<close> or \<open>elif\<close>, from that word on.\<close>

definition ifHead :: "rec_parse \<Rightarrow> tokenizer \<Rightarrow> ((stmt list \<times> stmt list) \<times> tokenizer) outcome" where
  "ifHead R t =
     andThen (tzNext t) (\<lambda>(_, t). andThen (skipNewlines t) (\<lambda>t.
       andThen (bodyUntil R ''then'' t) (\<lambda>(cond, t).
         andThen (rp_list R tokEOF t) (\<lambda>(thn, t). andThen (skipNewlines t) (\<lambda>t. Returns ((cond, thn), t))))))"

definition parseElse :: "rec_parse \<Rightarrow> tokenizer \<Rightarrow> (ifClause \<times> tokenizer) outcome" where
  "parseElse R t =
     andThen (tzNext t) (\<lambda>(_, t). andThen (rp_list R tokEOF t) (\<lambda>(ss, t). Returns (IfClause [] ss None, t)))"

definition closeIf :: "ifClause \<Rightarrow> tokenizer \<Rightarrow> (ifClause \<times> tokenizer) outcome" where
  "closeIf c t = andThen (keyword ''fi'' t) (\<lambda>t. Returns (c, t))"

definition parseElif :: "rec_parse \<Rightarrow> stmt list \<Rightarrow> stmt list \<Rightarrow> tokenizer \<Rightarrow> (ifClause \<times> tokenizer) outcome" where
  "parseElif R cond thn t =
     andThen (ifHead R t) (\<lambda>((c2, t2), t). andThen (tzPeek t) (\<lambda>(k, t).
       if isWord k ''else'' then
         andThen (parseElse R t) (\<lambda>(e, t). closeIf (IfClause cond thn (Some (IfClause c2 t2 (Some e)))) t)
       else if isWord k ''elif'' then
         andThen (rp_if R t) (\<lambda>(i, t). Returns (IfClause cond thn (Some (IfClause c2 t2 (Some i))), t))
       else closeIf (IfClause cond thn (Some (IfClause c2 t2 None))) t))"

definition parseIf :: "rec_parse \<Rightarrow> tokenizer \<Rightarrow> (ifClause \<times> tokenizer) outcome" where
  "parseIf R t =
     andThen (ifHead R t) (\<lambda>((cond, thn), t). andThen (tzPeek t) (\<lambda>(k, t).
       if isWord k ''elif'' then parseElif R cond thn t
       else if isWord k ''else'' then
         andThen (parseElse R t) (\<lambda>(e, t). closeIf (IfClause cond thn (Some e)) t)
       else closeIf (IfClause cond thn None) t))"

definition parseWhile :: "rec_parse \<Rightarrow> bool \<Rightarrow> command_parser" where
  "parseWhile R until t =
     andThen (tzNext t) (\<lambda>(_, t). andThen (skipNewlines t) (\<lambda>t.
       andThen (bodyUntil R ''do'' t) (\<lambda>(cond, t). andThen (bodyUntil R ''done'' t) (\<lambda>(body, t).
         Returns (Some (WhileClause until cond body), t)))))"

definition parseFor :: "rec_parse \<Rightarrow> command_parser" where
  "parseFor R t =
     andThen (tzNext t) (\<lambda>(_, t). andThen (skipNewlines t) (\<lambda>t. andThen (tzNext t) (\<lambda>(name, t).
       andThen (skipNewlines t) (\<lambda>t. andThen (tzPeek t) (\<lambda>(k, t).
         andThen (if isWord k ''in'' then andThen (tzNext t) (\<lambda>(_, t). forItems (rp_file R) [] t)
                  else Returns ([], t)) (\<lambda>(items, t).
           andThen (tzPeek t) (\<lambda>(k, t).
             andThen (if tk_kind k = tokSemi \<or> tk_kind k = tokNewline then map_outcome snd (tzNext t) else Returns t)
               (\<lambda>t. andThen (keyword ''do'' t) (\<lambda>t. andThen (bodyUntil R ''done'' t) (\<lambda>(body, t).
                 Returns (Some (ForClause (tk_val name) items body), t)))))))))))"

definition parseDecl :: "rec_parse \<Rightarrow> command_parser" where
  "parseDecl R t =
     andThen (tzNext t) (\<lambda>(k, t). andThen (declArgs (rp_file R) [] t) (\<lambda>(as, t).
       Returns (Some (DeclClause (tk_val k) as), t)))"

definition parseLet :: command_parser where
  "parseLet t = andThen (tzNext t) (\<lambda>(_, t). andThen (letWords t) (\<lambda>t. Returns (Some LetClause, t)))"

definition parseCommand :: "rec_parse \<Rightarrow> command_parser" where
  "parseCommand R t =
     andThen (tzPeek t) (\<lambda>(k, t).
       case tk_kind k of
         tokRedirIn \<Rightarrow> parseSimpleCommand (rp_file R) t
       | tokLParen \<Rightarrow> parseSubshell R t
       | tokLBrace \<Rightarrow> parseBlock R t
       | tokDblLBracket \<Rightarrow> parseTestClause R t
       | tokWord \<Rightarrow>
           if tk_val k = ''if'' then map_outcome (apfst (Some \<circ> IfCmd)) (parseIf R t)
           else if tk_val k = ''while'' then parseWhile R False t
           else if tk_val k = ''until'' then parseWhile R True t
           else if tk_val k = ''for'' then parseFor R t
           else if tk_val k = ''let'' then parseLet t
           else if tk_val k = ''((...))'' then andThen (tzNext t) (\<lambda>(_, t). Returns (Some ArithmCmd, t))
           else if tk_val k \<in> declKeywords then parseDecl R t
           else parseSimpleCommand (rp_file R) t
       | tokEOF \<Rightarrow> Returns (None, t)
       | tokSemi \<Rightarrow> Returns (None, t)
       | tokNewline \<Rightarrow> Returns (None, t)
       | _ \<Rightarrow> Fails (''unexpected token: '' @ tk_val k))"

subsection \<open>Pipelines, lists and sources\<close>

fun pipeLoop :: "nat \<Rightarrow> rec_parse \<Rightarrow> stmt \<Rightarrow> tokenizer \<Rightarrow> (stmt \<times> tokenizer) outcome" where
  "pipeLoop 0 R st t = Unfinished"
| "pipeLoop (Suc n) R st t =
     andThen (tzPeek t) (\<lambda>(k, t).
       if tk_kind k = tokPipe \<or> tk_kind k = tokPipeAll then
         andThen (tzNext t) (\<lambda>(_, t). andThen (skipNewlines t) (\<lambda>t. andThen (parseCommand R t) (\<lambda>(c, t).
           pipeLoop n R
             (Stmt False (Some (BinaryCmd (if tk_kind k = tokPipe then Pipe else PipeAll) st (Some (Stmt False c))))) t)))
       else Returns (st, t))"

text \<open>A pipeline, after its \<open>!\<close> and \<open>time\<close>; after its \<open>!\<close>; and from its start.\<close>

definition parsePiped :: "nat \<Rightarrow> rec_parse \<Rightarrow> bool \<Rightarrow> bool \<Rightarrow> tokenizer \<Rightarrow> (stmt option \<times> tokenizer) outcome" where
  "parsePiped n R neg time t =
     andThen (parseCommand R t) (\<lambda>(c, t).
       case c of
         None \<Rightarrow> Returns (None, t)
       | Some c \<Rightarrow>
           andThen (pipeLoop n R (Stmt neg (Some c)) t) (\<lambda>(st, t).
             Returns (Some (if time then Stmt False (Some (TimeClause st)) else st), t)))"

definition parseTimed :: "nat \<Rightarrow> rec_parse \<Rightarrow> bool \<Rightarrow> tokenizer \<Rightarrow> (stmt option \<times> tokenizer) outcome" where
  "parseTimed n R neg t =
     andThen (tzPeek t) (\<lambda>(k, t).
       if isWord k ''time'' then andThen (tzNext t) (\<lambda>(_, t). parsePiped n R neg True t)
       else parsePiped n R neg False t)"

definition parsePipeline :: "nat \<Rightarrow> rec_parse \<Rightarrow> tokenizer \<Rightarrow> (stmt option \<times> tokenizer) outcome" where
  "parsePipeline n R t =
     andThen (tzPeek t) (\<lambda>(k, t).
       if tk_kind k = tokBang then andThen (tzNext t) (\<lambda>(_, t). parseTimed n R True t)
       else parseTimed n R False t)"

fun andOrLoop :: "nat \<Rightarrow> rec_parse \<Rightarrow> stmt \<Rightarrow> tokenizer \<Rightarrow> (stmt \<times> tokenizer) outcome" where
  "andOrLoop 0 R left t = Unfinished"
| "andOrLoop (Suc n) R left t =
     andThen (tzPeek t) (\<lambda>(k, t).
       if tk_kind k = tokAndIf \<or> tk_kind k = tokOrIf then
         andThen (tzNext t) (\<lambda>(_, t). andThen (skipNewlines t) (\<lambda>t.
           andThen (parsePipeline (Suc n) R t) (\<lambda>(right, t).
             andOrLoop n R
               (Stmt False (Some (BinaryCmd (if tk_kind k = tokAndIf then AndStmt else OrStmt) left right))) t)))
       else Returns (left, t))"

definition parseAndOr :: "nat \<Rightarrow> rec_parse \<Rightarrow> tokenizer \<Rightarrow> (stmt option \<times> tokenizer) outcome" where
  "parseAndOr n R t =
     andThen (parsePipeline n R t) (\<lambda>(st, t).
       case st of
         None \<Rightarrow> Returns (None, t)
       | Some left \<Rightarrow> map_outcome (apfst Some) (andOrLoop n R left t))"

fun stmtLoop :: "nat \<Rightarrow> rec_parse \<Rightarrow> tokenKind \<Rightarrow> stmt list \<Rightarrow> tokenizer \<Rightarrow> (stmt list \<times> tokenizer) outcome" where
  "stmtLoop 0 R stop acc t = Unfinished"
| "stmtLoop (Suc n) R stop acc t =
     andThen (skipNewlines t) (\<lambda>t. andThen (tzPeek t) (\<lambda>(k, t).
       if tk_kind k = stop \<or> tk_kind k = tokEOF \<or> tk_kind k = tokWord \<and> isStopWord (tk_val k) then Returns (acc, t)
       else andThen (parseAndOr (Suc n) R t) (\<lambda>(st, t).
         let acc = (case st of None \<Rightarrow> acc | Some s \<Rightarrow> acc @ [s])
         in andThen (tzPeek t) (\<lambda>(k, t).
           if tk_kind k = tokSemi \<or> tk_kind k = tokNewline then
             andThen (tzNext t) (\<lambda>(_, t). stmtLoop n R stop acc t)
           else stmtLoop n R stop acc t))))"

definition parseFile :: "nat \<Rightarrow> rec_parse \<Rightarrow> file_parser" where
  "parseFile n R src heap =
     andThen (stmtLoop n R tokEOF [] (newTokenizer src heap)) (\<lambda>(ss, t).
       case tz_err t of Some e \<Rightarrow> Fails e | None \<Rightarrow> Returns (ss, tz_heap t))"

fun parse_list :: "nat \<Rightarrow> tokenKind \<Rightarrow> tokenizer \<Rightarrow> (stmt list \<times> tokenizer) outcome"
  and parse_if :: "nat \<Rightarrow> tokenizer \<Rightarrow> (ifClause \<times> tokenizer) outcome"
  and parse_file :: "nat \<Rightarrow> file_parser"
where
  "parse_list 0 stop t = Unfinished"
| "parse_list (Suc n) stop t =
     stmtLoop (Suc n) \<lparr>rp_list = parse_list n, rp_if = parse_if n, rp_file = parse_file n\<rparr> stop [] t"
| "parse_if 0 t = Unfinished"
| "parse_if (Suc n) t = parseIf \<lparr>rp_list = parse_list n, rp_if = parse_if n, rp_file = parse_file n\<rparr> t"
| "parse_file 0 src heap = Unfinished"
| "parse_file (Suc n) src heap =
     parseFile (Suc n) \<lparr>rp_list = parse_list n, rp_if = parse_if n, rp_file = parse_file n\<rparr> src heap"

definition Parse :: "string \<Rightarrow> (stmt list \<times> heredoc list) outcome" where
  "Parse src = parse_file (length src + 2) src []"

end
