(* ===== verification/Shell_Totality.thy ===== *)
theory Shell_Totality
  imports Shell_Parser
begin

text \<open>
  Every source is parsed: the parser returns a tree or an error, or panics, and never loops. That
  it does not loop and that it does not panic on a source without a backslash and without nested
  double brackets are two instances of one argument, the locale \<open>parse_run\<close>: a predicate on
  tokenizers that every token that is read keeps, and that the texts of words inherit.
\<close>

subsection \<open>The contract of the tokenizer\<close>

definition run :: "bool \<Rightarrow> ('a \<Rightarrow> bool) \<Rightarrow> 'a outcome \<Rightarrow> bool" where
  "run k Q m \<longleftrightarrow> avoids k m \<and> (\<forall>y. m = Returns y \<longrightarrow> Q y)"

lemma run_simps [simp]:
  "run k Q (Returns y) \<longleftrightarrow> Q y" "run k Q (Fails e)" "run k Q Panics \<longleftrightarrow> \<not> k" "run k Q Unfinished \<longleftrightarrow> k"
  by (auto simp: run_def)

lemma run_map [simp]: "run k Q (map_outcome f m) \<longleftrightarrow> run k (\<lambda>y. Q (f y)) m"
  by (auto simp: run_def map_outcome_Returns)

lemma run_bind:
  assumes "run k Q' m" "\<And>x t. m = Returns (x, t) \<Longrightarrow> Q' (x, t) \<Longrightarrow> run k Q (f x t)"
  shows "run k Q (andThen m (\<lambda>(x, t). f x t))"
  using assms by (auto simp: run_def andThen_Returns_iff)

lemma run_bind1:
  assumes "run k Q' m" "\<And>t. m = Returns t \<Longrightarrow> Q' t \<Longrightarrow> run k Q (f t)"
  shows "run k Q (andThen m f)"
  using assms by (auto simp: run_def andThen_Returns_iff)

lemma run_weaken: "run k Q' m \<Longrightarrow> (\<And>y. Q' y \<Longrightarrow> Q y) \<Longrightarrow> run k Q m"
  by (auto simp: run_def)

lemma skipNewlines_peeked:
  "skipNewlines t = Returns t' \<Longrightarrow> \<exists>c. tz_peeked t' = Some c \<and> tk_kind c \<noteq> tokNewline"
proof (induction t rule: measure_induct_rule [where f = tz_size])
  case (less t)
  from less(2) obtain c t1 where c: "tzPeek t = Returns (c, t1)"
    "(if tk_kind c = tokNewline then andThen (tzNext t1) (\<lambda>(_, t2). skipNewlines t2) else Returns t1) = Returns t'"
    unfolding skipNewlines.simps [of t] by (auto simp: andThen_Returns_iff)
  show ?case
  proof (cases "tk_kind c = tokNewline")
    case True
    with c obtain c' t2 where t2: "tzNext t1 = Returns (c', t2)" "skipNewlines t2 = Returns t'"
      by (auto simp: andThen_Returns_iff)
    have "tz_size t2 < tz_size t" by (rule peek_next_shorter [OF c(1) t2(1)]) (simp add: True)
    from less(1) [OF this t2(2)] show ?thesis .
  next
    case False
    with c tzPeek_reads(1) [OF c(1)] show ?thesis by simp
  qed
qed

locale parse_run =
  fixes k :: bool
    and fits :: "nat \<Rightarrow> tokenizer \<Rightarrow> bool"
    and text_at :: "nat \<Rightarrow> string \<Rightarrow> bool"
    and source_at :: "nat \<Rightarrow> string \<Rightarrow> bool"
  assumes spent: "fits 0 t \<Longrightarrow> k" "source_at 0 s \<Longrightarrow> k"
    and flat: "fits 0 t \<Longrightarrow> fits n t' \<Longrightarrow> fits 0 t'"
    and up: "fits n t \<Longrightarrow> fits (Suc n) t" "text_at n v \<Longrightarrow> text_at (Suc n) v"
    and lex: "fits n t \<Longrightarrow> tz_peeked t = None \<Longrightarrow> avoids k (lexNext (tz_lex t))"
    and peeked: "fits n t \<Longrightarrow> tzPeek t = Returns (c, t') \<Longrightarrow> fits n t'"
    and took: "fits n t \<Longrightarrow> tzNext t = Returns (c, t') \<Longrightarrow> fits n t'"
    and progress: "fits (Suc n) t \<Longrightarrow> tzNext t = Returns (c, t') \<Longrightarrow> tk_kind c \<noteq> tokEOF \<Longrightarrow> fits n t'"
    and token_text: "fits n t \<Longrightarrow> tz_peeked t = Some c \<Longrightarrow> text_at n (tk_val c)"
    and assign_text: "text_at n v \<Longrightarrow> splitAssign v = Some (x, w) \<Longrightarrow> text_at n w"
    and word: "text_at (Suc n) v \<Longrightarrow> (\<And>b h. source_at n b \<Longrightarrow> avoids k (P b h)) \<Longrightarrow> avoids k (parseWordString P v t)"
    and same: "fits n t \<Longrightarrow> same_source t t' \<Longrightarrow> fits n t'"
    and start: "source_at n s \<Longrightarrow> fits n (newTokenizer s h)"
begin

abbreviation keeps :: "nat \<Rightarrow> ('a \<times> tokenizer) outcome \<Rightarrow> bool" where
  "keeps j m \<equiv> run k (\<lambda>(x, t). fits j t) m"

lemma fits_mono: "fits i t \<Longrightarrow> i \<le> j \<Longrightarrow> fits j t"
  by (rotate_tac 1, induction j rule: dec_induct) (simp_all add: up(1))

lemma text_mono: "text_at i v \<Longrightarrow> i \<le> j \<Longrightarrow> text_at j v"
  by (rotate_tac 1, induction j rule: dec_induct) (simp_all add: up(2))

text \<open>The text of a token, and what is assigned in it, belong to the level of the tokenizer.\<close>

definition token_at :: "nat \<Rightarrow> token \<Rightarrow> bool" where
  "token_at j c \<longleftrightarrow> (\<forall>i \<ge> j. text_at i (tk_val c) \<and> (\<forall>x w. splitAssign (tk_val c) = Some (x, w) \<longrightarrow> text_at i w))"

lemma token_at_text: "token_at j c \<Longrightarrow> j \<le> i \<Longrightarrow> text_at i (tk_val c)"
  by (simp add: token_at_def)

lemma token_at_assign: "splitAssign (tk_val c) = Some (x, w) \<Longrightarrow> token_at j c \<Longrightarrow> j \<le> i \<Longrightarrow> text_at i w"
  by (simp add: token_at_def)

lemma peek_step:
  assumes "fits j t"
  shows "run k (\<lambda>(c, t'). fits j t' \<and> tz_peeked t' = Some c \<and> token_at j c \<and> tz_size t' \<le> tz_size t) (tzPeek t)"
proof -
  have "avoids k (tzPeek t)" using lex assms by (auto simp: tzPeek_def split: option.split)
  moreover have "token_at j c" if "tzPeek t = Returns (c, t')" for c t'
    using token_text [OF peeked [OF assms that] tzPeek_reads(1) [OF that]]
    by (auto simp: token_at_def intro: text_mono text_mono [OF assign_text])
  ultimately show ?thesis using peeked [OF assms] tzPeek_reads [of t] by (auto simp: run_def)
qed

lemma next_step: "fits j t \<Longrightarrow> keeps j (tzNext t)"
  using lex [of j t] took [of j t] by (auto simp: run_def tzNext_def split: option.split)

text \<open>Taking a token that has been peeked shortens the source, unless it was its end.\<close>

lemma take_step:
  assumes "fits j t"
  shows "run k (\<lambda>(c', t'). fits j t' \<and> (\<forall>c. tz_peeked t = Some c \<longrightarrow> c' = c \<and> (tk_kind c \<noteq> tokEOF \<longrightarrow> tz_size t' < tz_size t)))
     (tzNext t)"
  using next_step [OF assms] tzNext_shorter [of t] by (auto simp: run_def tzNext_peeked)

lemma progress_step:
  assumes "fits (Suc j) t"
  shows "run k (\<lambda>(c', t'). \<forall>c. tz_peeked t = Some c \<longrightarrow> c' = c \<and> (tk_kind c \<noteq> tokEOF \<longrightarrow> fits j t')) (tzNext t)"
  using next_step [OF assms] progress [OF assms] by (auto simp: run_def tzNext_peeked)

lemma skipNewlines_step: "fits j t \<Longrightarrow> run k (fits j) (skipNewlines t)"
proof (induction t rule: skipNewlines.induct)
  case (1 t)
  show ?case
    by (subst skipNewlines.simps)
       (use 1 in \<open>auto intro!: run_bind [OF peek_step] run_bind [OF next_step]\<close>)
qed

lemma keyword_step: "fits j t \<Longrightarrow> run k (fits j) (keyword w t)"
  unfolding keyword_def
  by (intro run_bind1 [OF skipNewlines_step] run_bind [OF peek_step])
     (auto intro: run_weaken [OF next_step])

text \<open>What a level of the parser promises: it keeps every level of the tokenizer up to its own.\<close>

definition level :: "nat \<Rightarrow> rec_parse \<Rightarrow> bool" where
  "level n R \<longleftrightarrow>
     (\<forall>i t stop. i \<le> n \<longrightarrow> fits i t \<longrightarrow> keeps i (rp_list R stop t))
     \<and> (\<forall>i t c. i \<le> n \<longrightarrow> fits i t \<longrightarrow> tz_peeked t = Some c \<longrightarrow> tk_kind c \<noteq> tokEOF \<longrightarrow> keeps i (rp_if R t))
     \<and> (\<forall>b h. source_at n b \<longrightarrow> avoids k (rp_file R b h))"

lemma level_list: "level n R \<Longrightarrow> i \<le> n \<Longrightarrow> fits i t \<Longrightarrow> keeps i (rp_list R stop t)"
  by (simp add: level_def)

lemma level_if:
  "level n R \<Longrightarrow> i \<le> n \<Longrightarrow> fits i t \<Longrightarrow> tz_peeked t = Some c \<Longrightarrow> tk_kind c \<noteq> tokEOF \<Longrightarrow> keeps i (rp_if R t)"
  by (simp add: level_def)

lemma word_step:
  assumes "level n R" "text_at (Suc n) v" "fits j t"
  shows "run k (\<lambda>(w, t'). fits j t' \<and> tz_size t' = tz_size t) (parseWordString (rp_file R) v t)"
  using assms word [of n v "rp_file R" t] same [OF assms(3) parseWordString_source]
    same_source_size [OF parseWordString_source]
  by (auto simp: run_def level_def)

subsection \<open>Loops over words\<close>

lemmas word_loop_steps = run_bind [OF peek_step] run_bind [OF take_step]

lemma testWords_step:
  assumes "level n R" "j \<le> Suc n"
  shows "fits j t \<Longrightarrow> keeps j (testWords (rp_file R) ws t)"
proof (induction t arbitrary: ws rule: measure_induct_rule [where f = tz_size])
  case (less t)
  show ?case
    by (subst testWords.simps)
       (use assms less(2) in \<open>auto intro!: word_loop_steps run_bind [OF word_step [OF assms(1)]] less(1) token_at_text [OF _ assms(2)]\<close>)
qed

lemma forItems_step:
  assumes "level n R" "j \<le> Suc n"
  shows "fits j t \<Longrightarrow> keeps j (forItems (rp_file R) ws t)"
proof (induction t arbitrary: ws rule: measure_induct_rule [where f = tz_size])
  case (less t)
  show ?case
    by (subst forItems.simps)
       (use assms less(2) in \<open>auto intro!: word_loop_steps run_bind [OF word_step [OF assms(1)]] less(1) token_at_text [OF _ assms(2)]\<close>)
qed

lemma declArgs_step:
  assumes "level n R" "j \<le> Suc n"
  shows "fits j t \<Longrightarrow> keeps j (declArgs (rp_file R) as t)"
proof (induction t arbitrary: "as" rule: measure_induct_rule [where f = tz_size])
  case (less t)
  show ?case
    by (subst declArgs.simps)
       (use assms less(2) in \<open>auto split: option.split
          intro!: word_loop_steps run_bind [OF word_step [OF assms(1)]] less(1) token_at_text [OF _ assms(2)] token_at_assign [OF _ _ assms(2)]\<close>)
qed

lemma leadingAssigns_step:
  assumes "level n R" "j \<le> Suc n"
  shows "fits j t \<Longrightarrow> keeps j (leadingAssigns (rp_file R) as t)"
proof (induction t arbitrary: "as" rule: measure_induct_rule [where f = tz_size])
  case (less t)
  show ?case
    by (subst leadingAssigns.simps)
       (use assms less(2) in \<open>auto simp: isAssignment_def split: option.split
          intro!: word_loop_steps run_bind [OF word_step [OF assms(1)]] less(1) token_at_text [OF _ assms(2)] token_at_assign [OF _ _ assms(2)]\<close>)
qed

lemma callArgs_step:
  assumes "level n R" "j \<le> Suc n"
  shows "fits j t \<Longrightarrow> keeps j (callArgs (rp_file R) c t)"
proof (induction t arbitrary: c rule: measure_induct_rule [where f = tz_size])
  case (less t)
  show ?case
    by (subst callArgs.simps)
       (use assms less(2) in \<open>auto simp: isRedirOut_def Let_def
          intro!: word_loop_steps run_bind [OF word_step [OF assms(1)]] less(1) token_at_text [OF _ assms(2)] token_at_assign [OF _ _ assms(2)]\<close>)
qed

lemma letWords_step: "fits j t \<Longrightarrow> run k (fits j) (letWords t)"
proof (induction t rule: measure_induct_rule [where f = tz_size])
  case (less t)
  show ?case
    by (subst letWords.simps) (use less(2) in \<open>auto intro!: word_loop_steps less(1)\<close>)
qed

lemma parseSimpleCommand_step:
  "level n R \<Longrightarrow> j \<le> Suc n \<Longrightarrow> fits j t \<Longrightarrow> keeps j (parseSimpleCommand (rp_file R) t)"
  unfolding parseSimpleCommand_def
  by (rule run_bind [OF leadingAssigns_step]) (auto intro: callArgs_step)

subsection \<open>Commands\<close>

text \<open>A command that starts with a token takes it, and so fits the next lower level.\<close>

lemma peek_peeked: "tz_peeked t = Some c \<Longrightarrow> tzPeek t = Returns (c, t)"
  by (simp add: tzPeek_def)

lemma take_first:
  assumes "tz_peeked t = Some c" "fits (Suc j) t" "tk_kind c \<noteq> tokEOF"
    and "\<And>t'. fits j t' \<Longrightarrow> run k Q (f c t')"
  shows "run k Q (andThen (tzNext t) (\<lambda>(c, t). f c t))"
  using run_bind [OF progress_step [OF assms(2)], of Q f] assms(1,3,4) by simp

lemma callArgs_first:
  assumes "level n R" "j \<le> n" "fits (Suc j) t" "tz_peeked t = Some c" "tk_kind c = tokWord" "\<not> isStopWord (tk_val c)"
  shows "keeps j (callArgs (rp_file R) b t)"
proof -
  have "token_at (Suc j) c"
    using peek_step [OF assms(3)] assms(4) by (simp add: peek_peeked)
  then show ?thesis
    by (subst callArgs.simps)
       (use assms in \<open>auto simp: peek_peeked intro!: take_first [OF assms(4,3)]
          run_bind [OF word_step [OF assms(1)]] callArgs_step token_at_text\<close>)
qed

lemma leadingAssigns_first:
  assumes "level n R" "j \<le> n" "fits (Suc j) t" "tz_peeked t = Some c" "tk_kind c = tokWord"
  shows "run k (\<lambda>(as', t'). fits j t' \<or> as' = as \<and> t' = t) (leadingAssigns (rp_file R) as t)"
proof -
  have "token_at (Suc j) c"
    using peek_step [OF assms(3)] assms(4) by (simp add: peek_peeked)
  moreover have "run k (\<lambda>(as', t'). fits j t' \<or> as' = as \<and> t' = t) (leadingAssigns (rp_file R) as'' t')"
    if "fits j t'" for as'' t'
    using assms(2) by (intro run_weaken [OF leadingAssigns_step [OF assms(1) _ that]]) auto
  ultimately show ?thesis
    by (subst leadingAssigns.simps)
       (use assms in \<open>auto simp: peek_peeked isAssignment_def split: option.split intro!: take_first [OF assms(4,3)]
          run_bind [OF word_step [OF assms(1)]] intro: token_at_assign\<close>)
qed

lemma parseSimpleCommand_first:
  assumes "level n R" "j \<le> n" "fits (Suc j) t" "tz_peeked t = Some c"
    and "tk_kind c = tokRedirIn \<or> tk_kind c = tokWord \<and> \<not> isStopWord (tk_val c)"
  shows "keeps j (parseSimpleCommand (rp_file R) t)"
proof (cases "tk_kind c = tokWord")
  case True
  then show ?thesis
    unfolding parseSimpleCommand_def using assms
    by (intro run_bind [OF leadingAssigns_first [OF assms(1-4) True]])
       (auto intro: callArgs_step callArgs_first)
next
  case False
  with assms show ?thesis
    by (simp add: parseSimpleCommand_def leadingAssigns.simps callArgs.simps peek_peeked)
qed

lemma bodyUntil_step:
  "level n R \<Longrightarrow> j \<le> n \<Longrightarrow> fits j t \<Longrightarrow> keeps j (bodyUntil R w t)"
  unfolding bodyUntil_def
  by (intro run_bind [OF level_list] run_bind1 [OF keyword_step]) auto

lemma ifHead_first:
  assumes "level n R" "j \<le> n" "fits (Suc j) t" "tz_peeked t = Some c" "tk_kind c \<noteq> tokEOF"
  shows "keeps j (ifHead R t)"
  unfolding ifHead_def
  by (rule take_first [OF assms(4,3,5)])
     (auto intro!: run_bind1 [OF skipNewlines_step] run_bind [OF bodyUntil_step [OF assms(1,2)]]
       run_bind [OF level_list [OF assms(1,2)]])

lemma closeIf_step: "fits j t \<Longrightarrow> keeps j (closeIf c t)"
  unfolding closeIf_def by (rule run_bind1 [OF keyword_step]) auto

lemma parseElse_step:
  "level n R \<Longrightarrow> j \<le> n \<Longrightarrow> fits j t \<Longrightarrow> keeps j (parseElse R t)"
  unfolding parseElse_def
  by (intro run_bind [OF next_step] run_bind [OF level_list]) auto

lemma parseElif_step:
  assumes "level n R" "j \<le> n" "fits j t" "tz_peeked t = Some c" "tk_kind c \<noteq> tokEOF"
  shows "keeps j (parseElif R cond thn t)"
  unfolding parseElif_def
  by (rule run_bind [OF ifHead_first [OF assms(1,2) up(1) [OF assms(3)] assms(4,5)]])
     (auto simp: isWord_def intro!: run_bind [OF peek_step] run_bind [OF parseElse_step [OF assms(1,2)]] closeIf_step
       run_bind [OF level_if [OF assms(1,2)]])

lemma parseIf_first:
  assumes "level n R" "j \<le> n" "fits (Suc j) t" "tz_peeked t = Some c" "tk_kind c \<noteq> tokEOF"
  shows "keeps j (parseIf R t)"
  unfolding parseIf_def
  by (rule run_bind [OF ifHead_first [OF assms]])
     (auto simp: isWord_def intro!: run_bind [OF peek_step] run_bind [OF parseElse_step [OF assms(1,2)]] closeIf_step
       parseElif_step [OF assms(1,2)])

lemma parseWhile_first:
  assumes "level n R" "j \<le> n" "fits (Suc j) t" "tz_peeked t = Some c" "tk_kind c \<noteq> tokEOF"
  shows "keeps j (parseWhile R u t)"
  unfolding parseWhile_def
  by (rule take_first [OF assms(4,3,5)])
     (auto intro!: run_bind1 [OF skipNewlines_step] run_bind [OF bodyUntil_step [OF assms(1,2)]])

lemma parseFor_first:
  assumes "level n R" "j \<le> n" "fits (Suc j) t" "tz_peeked t = Some c" "tk_kind c \<noteq> tokEOF"
  shows "keeps j (parseFor R t)"
proof -
  have items: "keeps j (if b then andThen (tzNext t) (\<lambda>(_, t). forItems (rp_file R) [] t) else Returns ([], t))"
    if "fits j t" for b t
    using that assms(2) by (auto intro!: run_bind [OF next_step] forItems_step [OF assms(1)])
  have sep: "run k (fits j) (if b then map_outcome snd (tzNext t) else Returns t)" if "fits j t" for b t
    using next_step [OF that] that by (simp add: case_prod_beta')
  show ?thesis
    unfolding parseFor_def
    by (rule take_first [OF assms(4,3,5)])
       (auto intro!: run_bind1 [OF skipNewlines_step] run_bind [OF next_step] run_bind [OF peek_step] run_bind [OF items]
         run_bind1 [OF sep] run_bind1 [OF keyword_step] run_bind [OF bodyUntil_step [OF assms(1,2)]])
qed

lemma parseSubshell_first:
  assumes "level n R" "j \<le> n" "fits (Suc j) t" "tz_peeked t = Some c" "tk_kind c \<noteq> tokEOF"
  shows "keeps j (parseSubshell R t)"
  unfolding parseSubshell_def
  by (rule take_first [OF assms(4,3,5)])
     (auto intro!: run_bind [OF level_list [OF assms(1,2)]] run_bind [OF next_step])

lemma parseBlock_first:
  assumes "level n R" "j \<le> n" "fits (Suc j) t" "tz_peeked t = Some c" "tk_kind c \<noteq> tokEOF"
  shows "keeps j (parseBlock R t)"
  unfolding parseBlock_def
  by (rule take_first [OF assms(4,3,5)])
     (auto intro!: run_bind [OF level_list [OF assms(1,2)]] run_bind [OF next_step])

lemma parseTestClause_first:
  assumes "level n R" "j \<le> n" "fits (Suc j) t" "tz_peeked t = Some c" "tk_kind c \<noteq> tokEOF"
  shows "keeps j (parseTestClause R t)"
  unfolding parseTestClause_def
  by (rule take_first [OF assms(4,3,5)])
     (use assms(2) in \<open>auto intro!: run_bind [OF testWords_step [OF assms(1), of j]] run_bind [OF next_step]\<close>)

lemma parseDecl_first:
  assumes "level n R" "j \<le> n" "fits (Suc j) t" "tz_peeked t = Some c" "tk_kind c \<noteq> tokEOF"
  shows "keeps j (parseDecl R t)"
  unfolding parseDecl_def
  by (rule take_first [OF assms(4,3,5)])
     (use assms(2) in \<open>auto intro!: run_bind [OF declArgs_step [OF assms(1), of j]]\<close>)

lemma parseLet_first:
  assumes "fits (Suc j) t" "tz_peeked t = Some c" "tk_kind c \<noteq> tokEOF"
  shows "keeps j (parseLet t)"
  unfolding parseLet_def
  by (rule take_first [OF assms(2,1,3)]) (auto intro!: run_bind1 [OF letWords_step])

lemma arith_first:
  assumes "fits (Suc j) t" "tz_peeked t = Some c" "tk_kind c \<noteq> tokEOF"
  shows "keeps j (andThen (tzNext t) (\<lambda>(_, t). Returns (Some ArithmCmd, t)))"
  by (rule take_first [OF assms(2,1,3)]) simp

lemma parseCommand_first:
  assumes "level n R" "j \<le> n" "fits (Suc j) t" "tz_peeked t = Some c"
    and "tk_kind c \<notin> {tokEOF, tokNewline}" "\<not> (tk_kind c = tokWord \<and> isStopWord (tk_val c))"
  shows "run k (\<lambda>(x, t'). fits j t' \<or> tk_kind c = tokSemi \<and> x = None \<and> t' = t) (parseCommand R t)"
proof (cases "tk_kind c = tokSemi")
  case True
  with assms(3,4) show ?thesis by (simp add: parseCommand_def peek_peeked)
next
  case False
  have eof: "tk_kind c \<noteq> tokEOF" using assms(5) by simp
  note firsts = parseSubshell_first [OF assms(1-4) eof] parseBlock_first [OF assms(1-4) eof]
    parseLet_first [OF assms(3,4) eof] arith_first [OF assms(3,4) eof] parseTestClause_first [OF assms(1-4) eof]
    parseDecl_first [OF assms(1-4) eof] parseWhile_first [OF assms(1-4) eof] parseFor_first [OF assms(1-4) eof]
    parseIf_first [OF assms(1-4) eof] parseSimpleCommand_first [OF assms(1-4)]
  have "keeps j (parseCommand R t)"
    using firsts assms(4-6) False
    by (cases "tk_kind c") (simp_all add: parseCommand_def peek_peeked case_prod_beta' apfst_def)
  then show ?thesis by (rule run_weaken) auto
qed

lemma parseCommand_peek: "parseCommand R t = andThen (tzPeek t) (\<lambda>(c, t). parseCommand R t)"
  using tzPeek_reads(1) [of t]
  by (cases "tzPeek t") (auto simp: parseCommand_def peek_peeked)

lemma parseCommand_suc:
  assumes "level n R" "j \<le> n" "fits (Suc j) t"
  shows "keeps (Suc j) (parseCommand R t)"
proof (subst parseCommand_peek, rule run_bind [OF peek_step [OF assms(3)]], clarify)
  fix c t' assume t': "fits (Suc j) t'" "tz_peeked t' = Some c"
  consider "tk_kind c \<in> {tokEOF, tokNewline}" | "tk_kind c = tokWord" "isStopWord (tk_val c)"
    | "tk_kind c \<notin> {tokEOF, tokNewline}" "\<not> (tk_kind c = tokWord \<and> isStopWord (tk_val c))" by blast
  then show "keeps (Suc j) (parseCommand R t')"
  proof cases
    case 1
    with t' show ?thesis by (auto simp: parseCommand_def peek_peeked)
  next
    case 2
    with t' have "parseCommand R t' = parseSimpleCommand (rp_file R) t'"
      by (auto simp: parseCommand_def peek_peeked isStopWord_def declKeywords_def)
    with parseSimpleCommand_step [OF assms(1) _ t'(1)] assms(2) show ?thesis by simp
  next
    case 3
    show ?thesis
      by (rule run_weaken [OF parseCommand_first [OF assms(1,2) t' 3]]) (use t' in \<open>auto intro: up\<close>)
  qed
qed

lemma parseCommand_step:
  assumes "level n R" "i \<le> Suc n" "fits i t"
  shows "keeps i (parseCommand R t)"
proof (cases i)
  case 0
  have "keeps (Suc 0) (parseCommand R t)"
    using parseCommand_suc [OF assms(1), of 0] up(1) [OF assms(3)] 0 by simp
  then show ?thesis
    by (rule run_weaken) (use assms(3) flat 0 in auto)
next
  case (Suc j)
  with assms parseCommand_suc show ?thesis by simp
qed

subsection \<open>Pipelines, lists and sources\<close>

text \<open>A token that is not the end of the source is taken down one level, if there is one.\<close>

lemma down: "fits i t \<Longrightarrow> fits (Suc (i - 1)) t"
  by (cases i) (auto intro: up)

lemma take_down:
  assumes "tz_peeked t = Some c" "fits i t" "tk_kind c \<noteq> tokEOF"
    and "\<And>t'. fits (i - 1) t' \<Longrightarrow> run k Q (f c t')"
  shows "run k Q (andThen (tzNext t) (\<lambda>(c, t). f c t))"
  using assms(4) by (rule take_first [OF assms(1) down [OF assms(2)] assms(3)])

lemma keeps_up: "keeps j m \<Longrightarrow> j \<le> i \<Longrightarrow> keeps i m"
  by (erule run_weaken) (auto intro: fits_mono)

lemma pipeLoop_step:
  assumes "level n R"
  shows "i \<le> f \<Longrightarrow> i \<le> Suc n \<Longrightarrow> fits i t \<Longrightarrow> keeps i (pipeLoop f R st t)"
proof (induction f arbitrary: i st t)
  case 0
  then show ?case by (simp add: spent(1))
next
  case (Suc f)
  show ?case
    unfolding pipeLoop.simps
  proof (rule run_bind [OF peek_step [OF Suc.prems(3)]], clarify)
    fix c t' assume t': "fits i t'" "tz_peeked t' = Some c"
    have "keeps i (andThen (tzNext t') (\<lambda>(_, t). andThen (skipNewlines t) (\<lambda>t. andThen (parseCommand R t) (\<lambda>(x, t). pipeLoop f R (g x) t))))"
      if "tk_kind c \<noteq> tokEOF" for g
      by (rule take_down [OF t'(2,1) that], rule run_bind1 [OF skipNewlines_step], assumption,
          rule run_bind [OF parseCommand_step [OF assms]])
         (use Suc in \<open>auto intro!: keeps_up [OF Suc.IH [of "i - 1"]]\<close>)
    with t' show "keeps i (if tk_kind c = tokPipe \<or> tk_kind c = tokPipeAll then
         andThen (tzNext t') (\<lambda>(_, t). andThen (skipNewlines t) (\<lambda>t. andThen (parseCommand R t) (\<lambda>(x, t).
           pipeLoop f R (Stmt False (Some (BinaryCmd (if tk_kind c = tokPipe then Pipe else PipeAll) st (Some (Stmt False x))))) t)))
       else Returns (st, t'))"
      by auto
  qed
qed

lemma parsePiped_step:
  assumes "level n R" "i \<le> f" "i \<le> Suc n" "fits i t"
  shows "keeps i (parsePiped f R neg time t)"
  unfolding parsePiped_def
  by (rule run_bind [OF parseCommand_step [OF assms(1,3,4)]])
     (auto intro!: run_bind [OF pipeLoop_step [OF assms(1-3)]] split: option.split)

lemma parseTimed_step:
  assumes "level n R" "i \<le> f" "i \<le> Suc n" "fits i t"
  shows "keeps i (parseTimed f R neg t)"
  unfolding parseTimed_def
  by (rule run_bind [OF peek_step [OF assms(4)]])
     (auto intro!: run_bind [OF next_step] parsePiped_step [OF assms(1-3)])

lemma parsePipeline_step:
  assumes "level n R" "i \<le> f" "i \<le> Suc n" "fits i t"
  shows "keeps i (parsePipeline f R t)"
  unfolding parsePipeline_def
  by (rule run_bind [OF peek_step [OF assms(4)]])
     (auto intro!: run_bind [OF next_step] parseTimed_step [OF assms(1-3)])

text \<open>A pipeline takes its first token, unless it is empty and the next token ends it.\<close>

abbreviation takes_first :: "nat \<Rightarrow> token \<Rightarrow> tokenizer \<Rightarrow> ('a option \<times> tokenizer) outcome \<Rightarrow> bool" where
  "takes_first j c t m \<equiv> run k (\<lambda>(x, t'). fits j t' \<or> tk_kind c = tokSemi \<and> x = None \<and> t' = t) m"

lemma takes_first_keeps: "keeps j m \<Longrightarrow> takes_first j c t m"
  by (erule run_weaken) auto

lemma parsePiped_first:
  assumes "level n R" "j \<le> f" "j \<le> n" "fits (Suc j) t" "tz_peeked t = Some c"
    and "tk_kind c \<notin> {tokEOF, tokNewline}" "\<not> (tk_kind c = tokWord \<and> isStopWord (tk_val c))"
  shows "takes_first j c t (parsePiped f R neg time t)"
  unfolding parsePiped_def
proof (rule run_bind [OF parseCommand_first [OF assms(1,3-7)]], clarify)
  fix x :: "command option" and t' assume x: "fits j t' \<or> tk_kind c = tokSemi \<and> x = None \<and> t' = t"
  have "takes_first j c t (andThen (pipeLoop f R st t') (\<lambda>(st, t). Returns (Some (g st), t)))" if "fits j t'" for st g
    using assms(3) by (intro run_bind [OF pipeLoop_step [OF assms(1,2) _ that]]) auto
  with x show "takes_first j c t (case x of
         None \<Rightarrow> Returns (None, t')
       | Some c \<Rightarrow>
           andThen (pipeLoop f R (Stmt neg (Some c)) t') (\<lambda>(st, t).
             Returns (Some (if time then Stmt False (Some (TimeClause st)) else st), t)))"
    by (auto split: option.split)
qed

lemma parseTimed_first:
  assumes "level n R" "j \<le> f" "j \<le> n" "fits (Suc j) t" "tz_peeked t = Some c"
    and "tk_kind c \<notin> {tokEOF, tokNewline}" "\<not> (tk_kind c = tokWord \<and> isStopWord (tk_val c))"
  shows "takes_first j c t (parseTimed f R neg t)"
  unfolding parseTimed_def peek_peeked [OF assms(5)]
  using assms(3,6) parsePiped_first [OF assms]
  by (auto intro!: take_first [OF assms(5,4)] takes_first_keeps parsePiped_step [OF assms(1,2)])

lemma parsePipeline_first:
  assumes "level n R" "j \<le> f" "j \<le> n" "fits (Suc j) t" "tz_peeked t = Some c"
    and "tk_kind c \<notin> {tokEOF, tokNewline}" "\<not> (tk_kind c = tokWord \<and> isStopWord (tk_val c))"
  shows "takes_first j c t (parsePipeline f R t)"
  unfolding parsePipeline_def peek_peeked [OF assms(5)]
  using assms(3,6) parseTimed_first [OF assms]
  by (auto intro!: take_first [OF assms(5,4)] takes_first_keeps parseTimed_step [OF assms(1,2)])

lemma andOrLoop_step:
  assumes "level n R"
  shows "i \<le> f \<Longrightarrow> i \<le> Suc n \<Longrightarrow> fits i t \<Longrightarrow> keeps i (andOrLoop f R st t)"
proof (induction f arbitrary: i st t)
  case 0
  then show ?case by (simp add: spent(1))
next
  case (Suc f)
  have i1: "i - 1 \<le> Suc f" "i - 1 \<le> Suc n" "i - 1 \<le> f" "i - 1 \<le> i" using Suc.prems by simp_all
  show ?case
    unfolding andOrLoop.simps
  proof (rule run_bind [OF peek_step [OF Suc.prems(3)]], clarify)
    fix c t' assume t': "fits i t'" "tz_peeked t' = Some c"
    have "keeps i (andThen (tzNext t') (\<lambda>(_, t). andThen (skipNewlines t) (\<lambda>t.
        andThen (parsePipeline (Suc f) R t) (\<lambda>(x, t). andOrLoop f R (g x) t))))"
      if "tk_kind c \<noteq> tokEOF" for g
      by (rule take_down [OF t'(2,1) that], rule run_bind1 [OF skipNewlines_step], assumption,
          rule run_bind [OF parsePipeline_step [OF assms i1(1,2)]])
         (auto intro!: keeps_up [OF Suc.IH [OF i1(3,2)] i1(4)])
    with t' show "keeps i (if tk_kind c = tokAndIf \<or> tk_kind c = tokOrIf then
         andThen (tzNext t') (\<lambda>(_, t). andThen (skipNewlines t) (\<lambda>t.
           andThen (parsePipeline (Suc f) R t) (\<lambda>(right, t).
             andOrLoop f R
               (Stmt False (Some (BinaryCmd (if tk_kind c = tokAndIf then AndStmt else OrStmt) st right))) t)))
       else Returns (st, t'))"
      by auto
  qed
qed

lemma parseAndOr_first:
  assumes "level n R" "j \<le> f" "j \<le> n" "fits (Suc j) t" "tz_peeked t = Some c"
    and "tk_kind c \<notin> {tokEOF, tokNewline}" "\<not> (tk_kind c = tokWord \<and> isStopWord (tk_val c))"
  shows "takes_first j c t (parseAndOr f R t)"
  unfolding parseAndOr_def
proof (rule run_bind [OF parsePipeline_first [OF assms]], clarify)
  fix x :: "stmt option" and t' assume x: "fits j t' \<or> tk_kind c = tokSemi \<and> x = None \<and> t' = t"
  have "takes_first j c t (map_outcome (apfst Some) (andOrLoop f R st t'))" if "fits j t'" for st
    using andOrLoop_step [OF assms(1,2) _ that, of st] assms(3) by (auto elim!: run_weaken)
  with x show "takes_first j c t (case x of None \<Rightarrow> Returns (None, t')
       | Some left \<Rightarrow> map_outcome (apfst Some) (andOrLoop f R left t'))"
    by (auto split: option.split)
qed

lemma stmtLoop_step:
  assumes "level n R"
  shows "i \<le> f \<Longrightarrow> i \<le> Suc n \<Longrightarrow> fits i t \<Longrightarrow> keeps i (stmtLoop f R stop acc t)"
proof (induction f arbitrary: i acc t)
  case 0
  then show ?case by (simp add: spent(1))
next
  case (Suc f)
  define j where "j = i - 1"
  have j: "j \<le> Suc f" "j \<le> n" "j \<le> f" "j \<le> Suc n" "j \<le> i" using Suc.prems by (simp_all add: j_def)
  have loop: "keeps i (stmtLoop f R stop acc t)" if "fits j t" for acc t
    by (rule keeps_up [OF Suc.IH [OF j(3,4) that] j(5)])
  have separator: "keeps i (andThen (tzPeek t) (\<lambda>(k, t).
        if tk_kind k = tokSemi \<or> tk_kind k = tokNewline then andThen (tzNext t) (\<lambda>(_, t). stmtLoop f R stop acc t)
        else stmtLoop f R stop acc t))"
    if "fits j t \<or> fits i t \<and> tz_peeked t = Some c \<and> tk_kind c = tokSemi" for acc t c
    using that
  proof
    assume "fits j t"
    then show ?thesis
      by (auto intro!: run_bind [OF peek_step] run_bind [OF next_step] loop)
  next
    assume semi: "fits i t \<and> tz_peeked t = Some c \<and> tk_kind c = tokSemi"
    have "keeps i (andThen (tzNext t) (\<lambda>(_, t). stmtLoop f R stop acc t))"
      by (rule take_down [of t c i]) (use semi loop in \<open>auto simp: j_def\<close>)
    with semi show ?thesis by (simp add: peek_peeked)
  qed
  show ?case
    unfolding stmtLoop.simps Let_def
  proof (rule run_bind1 [OF skipNewlines_step [OF Suc.prems(3)]])
    fix t1 assume t1: "skipNewlines t = Returns t1" "fits i t1"
    obtain c where c: "tz_peeked t1 = Some c" "tk_kind c \<noteq> tokNewline"
      using skipNewlines_peeked [OF t1(1)] by blast
    have "keeps i (andThen (parseAndOr (Suc f) R t1) (\<lambda>(st, t).
         andThen (tzPeek t) (\<lambda>(k, t).
           if tk_kind k = tokSemi \<or> tk_kind k = tokNewline then
             andThen (tzNext t) (\<lambda>(_, t). stmtLoop f R stop (case st of None \<Rightarrow> acc | Some s \<Rightarrow> acc @ [s]) t)
           else stmtLoop f R stop (case st of None \<Rightarrow> acc | Some s \<Rightarrow> acc @ [s]) t)))"
      if "tk_kind c \<noteq> tokEOF" "\<not> (tk_kind c = tokWord \<and> isStopWord (tk_val c))"
    proof (rule run_bind [OF parseAndOr_first [OF assms j(1,2) _ c(1)]])
      show "fits (Suc j) t1" unfolding j_def by (rule down [OF t1(2)])
    qed (use that c t1 in \<open>auto intro!: separator\<close>)
    with t1 c show "keeps i (andThen (tzPeek t1) (\<lambda>(k, t).
         if tk_kind k = stop \<or> tk_kind k = tokEOF \<or> tk_kind k = tokWord \<and> isStopWord (tk_val k) then Returns (acc, t)
         else andThen (parseAndOr (Suc f) R t) (\<lambda>(st, t).
           andThen (tzPeek t) (\<lambda>(k, t).
             if tk_kind k = tokSemi \<or> tk_kind k = tokNewline then
               andThen (tzNext t) (\<lambda>(_, t). stmtLoop f R stop (case st of None \<Rightarrow> acc | Some s \<Rightarrow> acc @ [s]) t)
             else stmtLoop f R stop (case st of None \<Rightarrow> acc | Some s \<Rightarrow> acc @ [s]) t))))"
      by (auto simp: peek_peeked)
  qed
qed

text \<open>Every depth keeps its level.\<close>

lemma level_parse_at: "level n \<lparr>rp_list = parse_list n, rp_if = parse_if n, rp_file = parse_file n\<rparr>"
proof (induction n)
  case 0
  then show ?case by (auto simp: level_def dest: spent)
next
  case (Suc n)
  let ?R = "\<lparr>rp_list = parse_list n, rp_if = parse_if n, rp_file = parse_file n\<rparr>"
  have list: "keeps i (parse_list (Suc n) stop t)" if "i \<le> Suc n" "fits i t" for i t stop
    unfolding parse_list.simps using that by (intro stmtLoop_step [OF Suc])
  have if': "keeps i (parse_if (Suc n) t)"
    if "i \<le> Suc n" "fits i t" "tz_peeked t = Some c" "tk_kind c \<noteq> tokEOF" for i t c
    unfolding parse_if.simps
    by (rule keeps_up [OF parseIf_first [OF Suc _ down [OF that(2)] that(3,4)]]) (use that in auto)
  have src: "avoids k (parse_file (Suc n) b h)" if "source_at (Suc n) b" for b h
  proof -
    have "keeps (Suc n) (stmtLoop (Suc n) ?R tokEOF [] (newTokenizer b h))"
      by (rule stmtLoop_step [OF Suc _ _ start [OF that]]) simp_all
    then show ?thesis
      by (auto simp: parseFile_def run_def split: option.split)
  qed
  show ?case
    unfolding level_def rec_parse.select_convs using list if' src by blast
qed

lemma parse_file_avoids: "source_at n b \<Longrightarrow> avoids k (parse_file n b h)"
  using level_parse_at [of n] by (simp add: level_def)

end

subsection \<open>The parser ends\<close>

text \<open>The source left, with room for one more token than it can hold.\<close>

definition text_fits :: "nat \<Rightarrow> string \<Rightarrow> bool" where
  "text_fits n v \<longleftrightarrow> length v < n \<or> v = ''((...))''"

lemma arith_word: "parseWordString P ''((...))'' t = Returns (Word [Lit ''((...))''], t)"
  by (simp add: parseWordString_def parseWordParts_def wordTurn_def wordOf_def flushLit_def)

lemma splitAssign_length: "splitAssign v = Some (x, w) \<Longrightarrow> length w < length v"
  using length_dropWhile_le [of "\<lambda>c. c \<noteq> CHR ''=''" v]
  by (cases "dropWhile (\<lambda>c. c \<noteq> CHR ''='') v") (auto simp: splitAssign_def Let_def split: if_splits)

lemma dqSkip_ends: "avoids False (dqSkip s)"
  by (induction s rule: dqSkip.induct) (auto split: list.split)

lemma substStretch_ends: "avoids False (substStretch d s)"
  by (induction d s rule: substStretch.induct) (auto simp: dqSkip_ends)

lemma wordStretch_ends: "avoids False (wordStretch c r)"
  by (simp add: wordStretch_def substStretch_ends)

lemma scanWord_ends: "avoids False (scanWord sb s)"
  by (induction sb s rule: scanWord.induct) (auto simp: wordStretch_ends split: prod.split)

lemma arithSkip_ends: "avoids False (arithSkip d s)"
  by (induction d s rule: arithSkip.induct) (subst arithSkip.simps, auto)

lemma lexNext_ends: "avoids False (lexNext lx)"
  unfolding lexNext_def Let_def
  by (cases "skipComment (skipSpaces (lx_src lx))")
     (simp_all only: list.case avoids_if avoids_simps avoids_map scanWord_ends arithSkip_ends simp_thms)

lemma weight_text: "weight c < n \<Longrightarrow> text_fits n (tk_val c)"
  by (auto simp: weight_def text_fits_def split: if_splits)

lemma text_fits_word:
  assumes "text_fits (Suc n) v" "\<And>b h. length b < n \<Longrightarrow> avoids k (P b h)"
  shows "avoids k (parseWordString P v t)"
proof (cases "v = ''((...))''")
  case False
  with assms(1) have "length v \<le> n" by (simp add: text_fits_def)
  then show ?thesis by (intro parseWordString_avoids assms(2)) simp
qed (simp add: arith_word)

interpretation ending: parse_run False "\<lambda>n t. tz_size t < n" text_fits "\<lambda>n s. length s < n"
proof
  show "text_fits n w" if "text_fits n v" "splitAssign v = Some (x, w)" for n v x w
    using that splitAssign_length [OF that(2)] by (auto simp: text_fits_def splitAssign_def Let_def)
  show "text_fits n (tk_val c)" if "tz_size t < n" "tz_peeked t = Some c" for n t c
    using that by (intro weight_text) (simp add: tz_size_def)
qed (auto simp: text_fits_def lexNext_ends newTokenizer_def tz_size_def
      dest: tzPeek_reads tzNext_reads tzNext_shorter same_source_size intro: text_fits_word)

end
