(* ===== verification/Shell_Depth.thy ===== *)
theory Shell_Depth
  imports Shell_Totality
begin

text \<open>
  The depth of the parser's recursion is only a means: a deeper parser gives the same result
  wherever a shallower one ends. Each function is monotone in the functions it is given, in the
  order in which a computation that has not ended is below every other.
\<close>

definition below :: "'a outcome \<Rightarrow> 'a outcome \<Rightarrow> bool" where
  "below m m' \<longleftrightarrow> m = Unfinished \<or> m = m'"

named_theorems mono_parse "monotonicity of the parser's functions"

lemma below_refl [simp, mono_parse]: "below m m"
  by (simp add: below_def)

lemma below_Unfinished [simp]: "below Unfinished m"
  by (simp add: below_def)

lemma below_andThen [mono_parse]: "below m m' \<Longrightarrow> (\<And>x. below (f x) (f' x)) \<Longrightarrow> below (andThen m f) (andThen m' f')"
  by (cases m; cases m') (simp_all add: below_def)

lemma below_map [mono_parse]: "below m m' \<Longrightarrow> below (map_outcome f m) (map_outcome f m')"
  by (auto simp: below_def)

definition shallower :: "rec_parse \<Rightarrow> rec_parse \<Rightarrow> bool" where
  "shallower R R' \<longleftrightarrow> (\<forall>stop t. below (rp_list R stop t) (rp_list R' stop t))
     \<and> (\<forall>t. below (rp_if R t) (rp_if R' t)) \<and> (\<forall>b h. below (rp_file R b h) (rp_file R' b h))"

lemma shallower_calls [mono_parse]:
  assumes "shallower R R'"
  shows "below (rp_list R stop t) (rp_list R' stop t)" "below (rp_if R t) (rp_if R' t)"
  using assms by (simp_all add: shallower_def)

lemma parseSubst_mono:
  assumes "\<And>b h. below (P b h) (P' b h)"
  shows "below (parseSubst P b t) (parseSubst P' b t)"
  using assms [of b "tz_heap t"]
  by (cases "P b (tz_heap t)") (auto simp: below_def parseSubst_def)

lemma wordLoop_mono:
  assumes "\<And>b h. below (P b h) (P' b h)"
  shows "below (wordLoop P dq lit parts s t) (wordLoop P' dq lit parts s t)"
proof (induction s arbitrary: dq lit parts t rule: length_induct)
  case (1 s)
  show ?case
  proof (cases s)
    case (Cons c r)
    have IH: "below (wordLoop P dq lit parts s' t) (wordLoop P' dq lit parts s' t)"
      if "length s' \<le> length r" for s' dq lit parts t
      using 1 Cons that by simp
    show ?thesis
      using turn_shorter [of dq c r]
      by (auto simp: Cons split: turn.split intro!: IH below_andThen parseSubst_mono assms)
  qed simp
qed

lemma word_mono [mono_parse]:
  "shallower R R' \<Longrightarrow> below (parseWordString (rp_file R) v t) (parseWordString (rp_file R') v t)"
  unfolding parseWordString_def parseWordParts_def
  by (intro below_map wordLoop_mono) (simp add: shallower_def)

lemma below_bind:
  assumes "below m m'" "\<And>x t. m = Returns (x, t) \<Longrightarrow> below (f x t) (f' x t)"
  shows "below (andThen m (\<lambda>(x, t). f x t)) (andThen m' (\<lambda>(x, t). f' x t))"
  using assms by (cases m; cases m') (auto simp: below_def)

text \<open>The steps over tokens and words, with what they leave of the source.\<close>

lemma below_peek:
  assumes "\<And>k t'. tz_peeked t' = Some k \<Longrightarrow> tz_size t' \<le> tz_size t \<Longrightarrow> below (f k t') (f' k t')"
  shows "below (andThen (tzPeek t) (\<lambda>(k, t). f k t)) (andThen (tzPeek t) (\<lambda>(k, t). f' k t))"
  by (rule below_bind) (auto intro: assms dest: tzPeek_reads)

lemma below_next:
  assumes "\<And>k t'. (\<And>c. tz_peeked t = Some c \<Longrightarrow> k = c \<and> (tk_kind c \<noteq> tokEOF \<longrightarrow> tz_size t' < tz_size t)) \<Longrightarrow> below (f k t') (f' k t')"
  shows "below (andThen (tzNext t) (\<lambda>(k, t). f k t)) (andThen (tzNext t) (\<lambda>(k, t). f' k t))"
proof (rule below_bind)
  fix k t' assume "tzNext t = Returns (k, t')"
  then show "below (f k t') (f' k t')"
    using tzNext_shorter [of t k t'] by (intro assms) (auto simp: tzNext_peeked)
qed simp

lemma below_word:
  assumes "shallower R R'" "\<And>w t'. tz_size t' = tz_size t \<Longrightarrow> below (f w t') (f' w t')"
  shows "below (andThen (parseWordString (rp_file R) v t) (\<lambda>(w, t). f w t))
    (andThen (parseWordString (rp_file R') v t) (\<lambda>(w, t). f' w t))"
  by (rule below_bind [OF word_mono [OF assms(1)]])
     (auto intro: assms(2) dest: parseWordString_source same_source_size)

text \<open>The functions of the parser, one after the other.\<close>

lemma testWords_mono [mono_parse]:
  assumes "shallower R R'"
  shows "below (testWords (rp_file R) ws t) (testWords (rp_file R') ws t)"
proof (induction t arbitrary: ws rule: measure_induct_rule [where f = tz_size])
  case (less t)
  show ?case
    by (subst (1 2) testWords.simps)
       (auto intro!: below_peek below_next below_word [OF assms] less)
qed

lemma forItems_mono [mono_parse]:
  assumes "shallower R R'"
  shows "below (forItems (rp_file R) ws t) (forItems (rp_file R') ws t)"
proof (induction t arbitrary: ws rule: measure_induct_rule [where f = tz_size])
  case (less t)
  show ?case
    by (subst (1 2) forItems.simps)
       (auto intro!: below_peek below_next below_word [OF assms] less)
qed

lemma declArgs_mono [mono_parse]:
  assumes "shallower R R'"
  shows "below (declArgs (rp_file R) as t) (declArgs (rp_file R') as t)"
proof (induction t arbitrary: "as" rule: measure_induct_rule [where f = tz_size])
  case (less t)
  show ?case
    by (subst (1 2) declArgs.simps)
       (auto intro!: below_peek below_next below_word [OF assms] less split: option.split)
qed

lemma leadingAssigns_mono [mono_parse]:
  assumes "shallower R R'"
  shows "below (leadingAssigns (rp_file R) as t) (leadingAssigns (rp_file R') as t)"
proof (induction t arbitrary: "as" rule: measure_induct_rule [where f = tz_size])
  case (less t)
  show ?case
    by (subst (1 2) leadingAssigns.simps)
       (auto intro!: below_peek below_next below_word [OF assms] less split: option.split)
qed

lemma callArgs_mono [mono_parse]:
  assumes "shallower R R'"
  shows "below (callArgs (rp_file R) c t) (callArgs (rp_file R') c t)"
proof (induction t arbitrary: c rule: measure_induct_rule [where f = tz_size])
  case (less t)
  show ?case
    by (subst (1 2) callArgs.simps)
       (auto simp: Let_def isRedirOut_def intro!: below_peek below_next below_word [OF assms] less)
qed

lemma below_if: "(b \<Longrightarrow> below m m') \<Longrightarrow> (\<not> b \<Longrightarrow> below l l') \<Longrightarrow> below (if b then m else l) (if b then m' else l')"
  by simp

lemma below_bind1: "below m m' \<Longrightarrow> (\<And>x. below (f x) (f' x)) \<Longrightarrow> below (andThen m f) (andThen m' f')"
  by (rule below_andThen)

lemmas below_steps = below_bind below_bind1 below_if

lemma parseSimpleCommand_mono [mono_parse]:
  "shallower R R' \<Longrightarrow> below (parseSimpleCommand (rp_file R) t) (parseSimpleCommand (rp_file R') t)"
  unfolding parseSimpleCommand_def by (intro below_steps mono_parse)

lemma bodyUntil_mono [mono_parse]: "shallower R R' \<Longrightarrow> below (bodyUntil R w t) (bodyUntil R' w t)"
  unfolding bodyUntil_def by (intro below_steps mono_parse)

lemma ifHead_mono [mono_parse]: "shallower R R' \<Longrightarrow> below (ifHead R t) (ifHead R' t)"
  unfolding ifHead_def by (intro below_steps mono_parse)

lemma parseElse_mono [mono_parse]: "shallower R R' \<Longrightarrow> below (parseElse R t) (parseElse R' t)"
  unfolding parseElse_def by (intro below_steps mono_parse)

lemma parseElif_mono [mono_parse]: "shallower R R' \<Longrightarrow> below (parseElif R c b t) (parseElif R' c b t)"
  unfolding parseElif_def by (auto intro!: below_bind mono_parse)

lemma parseIf_mono [mono_parse]: "shallower R R' \<Longrightarrow> below (parseIf R t) (parseIf R' t)"
  unfolding parseIf_def by (auto intro!: below_bind mono_parse)

lemma parseSubshell_mono [mono_parse]: "shallower R R' \<Longrightarrow> below (parseSubshell R t) (parseSubshell R' t)"
  unfolding parseSubshell_def by (intro below_steps mono_parse)

lemma parseBlock_mono [mono_parse]: "shallower R R' \<Longrightarrow> below (parseBlock R t) (parseBlock R' t)"
  unfolding parseBlock_def by (intro below_steps mono_parse)

lemma parseTestClause_mono [mono_parse]: "shallower R R' \<Longrightarrow> below (parseTestClause R t) (parseTestClause R' t)"
  unfolding parseTestClause_def by (intro below_steps mono_parse)

lemma parseDecl_mono [mono_parse]: "shallower R R' \<Longrightarrow> below (parseDecl R t) (parseDecl R' t)"
  unfolding parseDecl_def by (intro below_steps mono_parse)

lemma parseWhile_mono [mono_parse]: "shallower R R' \<Longrightarrow> below (parseWhile R u t) (parseWhile R' u t)"
  unfolding parseWhile_def by (intro below_steps mono_parse)

lemma parseFor_mono [mono_parse]: "shallower R R' \<Longrightarrow> below (parseFor R t) (parseFor R' t)"
  unfolding parseFor_def by (intro below_steps mono_parse)

lemma parseCommand_mono [mono_parse]: "shallower R R' \<Longrightarrow> below (parseCommand R t) (parseCommand R' t)"
  unfolding parseCommand_def by (auto intro!: below_bind mono_parse split: tokenKind.split)

lemma pipeLoop_mono: "shallower R R' \<Longrightarrow> n \<le> n' \<Longrightarrow> below (pipeLoop n R st t) (pipeLoop n' R' st t)"
proof (induction n arbitrary: n' st t)
  case (Suc n)
  then obtain n'' where n': "n' = Suc n''" "n \<le> n''" by (cases n') auto
  show ?case
    unfolding n'(1) pipeLoop.simps by (auto intro!: below_bind below_bind1 mono_parse Suc n'(2))
qed simp

lemma parsePiped_mono [mono_parse]:
  "shallower R R' \<Longrightarrow> n \<le> n' \<Longrightarrow> below (parsePiped n R neg time t) (parsePiped n' R' neg time t)"
  unfolding parsePiped_def by (auto intro!: below_bind mono_parse pipeLoop_mono split: option.split)

lemma parseTimed_mono [mono_parse]:
  "shallower R R' \<Longrightarrow> n \<le> n' \<Longrightarrow> below (parseTimed n R neg t) (parseTimed n' R' neg t)"
  unfolding parseTimed_def by (auto intro!: below_bind mono_parse)

lemma parsePipeline_mono [mono_parse]:
  "shallower R R' \<Longrightarrow> n \<le> n' \<Longrightarrow> below (parsePipeline n R t) (parsePipeline n' R' t)"
  unfolding parsePipeline_def by (auto intro!: below_bind mono_parse)

lemma andOrLoop_mono: "shallower R R' \<Longrightarrow> n \<le> n' \<Longrightarrow> below (andOrLoop n R st t) (andOrLoop n' R' st t)"
proof (induction n arbitrary: n' st t)
  case (Suc n)
  then obtain n'' where n': "n' = Suc n''" "n \<le> n''" by (cases n') auto
  show ?case
    unfolding n'(1) andOrLoop.simps
    by (auto intro!: below_bind below_bind1 parsePipeline_mono Suc n'(2))
qed simp

lemma parseAndOr_mono: "shallower R R' \<Longrightarrow> n \<le> n' \<Longrightarrow> below (parseAndOr n R t) (parseAndOr n' R' t)"
  unfolding parseAndOr_def by (auto intro!: below_bind below_map parsePipeline_mono andOrLoop_mono split: option.split)

lemma stmtLoop_mono: "shallower R R' \<Longrightarrow> n \<le> n' \<Longrightarrow> below (stmtLoop n R stop acc t) (stmtLoop n' R' stop acc t)"
proof (induction n arbitrary: n' acc t)
  case (Suc n)
  then obtain n'' where n': "n' = Suc n''" "n \<le> n''" by (cases n') auto
  show ?case
    unfolding n'(1) stmtLoop.simps Let_def
    by (auto intro!: below_bind below_bind1 parseAndOr_mono Suc n'(2))
qed simp

lemma parse_mono:
  "n \<le> n' \<Longrightarrow> shallower \<lparr>rp_list = parse_list n, rp_if = parse_if n, rp_file = parse_file n\<rparr>
     \<lparr>rp_list = parse_list n', rp_if = parse_if n', rp_file = parse_file n'\<rparr>"
proof (induction n arbitrary: n')
  case 0
  then show ?case by (simp add: shallower_def)
next
  case (Suc n)
  then obtain n'' where n': "n' = Suc n''" "n \<le> n''" by (cases n') auto
  note IH = Suc.IH [OF n'(2)]
  have m: "Suc n \<le> Suc n''" using n'(2) by simp
  have whole: "below (parseFile (Suc n) \<lparr>rp_list = parse_list n, rp_if = parse_if n, rp_file = parse_file n\<rparr> src h)
      (parseFile (Suc n'') \<lparr>rp_list = parse_list n'', rp_if = parse_if n'', rp_file = parse_file n''\<rparr> src h)" for src h
    unfolding parseFile_def by (rule below_bind [OF stmtLoop_mono [OF IH m]]) simp
  show ?case
    unfolding n'(1) shallower_def rec_parse.select_convs parse_list.simps parse_if.simps parse_file.simps
    by (intro conjI allI stmtLoop_mono [OF IH m] parseIf_mono [OF IH] whole below_map)
qed

lemma parse_file_ends: "length src < n \<Longrightarrow> parse_file n src h \<noteq> Unfinished"
  using ending.parse_file_avoids [of src n h] by (simp add: avoids_def)

text \<open>
  C40. The parser ends on every source, in a tree, an error or a panic, and what it ends in does
  not depend on the depth of its recursion once that exceeds the source's length.
\<close>

theorem parser_ends:
  assumes "length src < n"
  shows "parse_file n src [] = Parse src \<and> Parse src \<noteq> Unfinished"
proof -
  have "below (parse_file m src []) (parse_file m' src [])" if "m \<le> m'" for m m'
    using parse_mono [OF that] by (simp add: shallower_def)
  then have "parse_file m src [] = parse_file m' src []" if "length src < m" "m \<le> m'" for m m'
    using parse_file_ends [OF that(1)] that(2) unfolding below_def by blast
  then have "parse_file n src [] = parse_file (length src + 2) src []"
    using assms nat_le_linear [of n "length src + 2"] by (metis less_add_same_cancel1 zero_less_numeral)
  moreover have "parse_file n src [] \<noteq> Unfinished" by (rule parse_file_ends [OF assms])
  ultimately show ?thesis by (simp only: Parse_def simp_thms)
qed

theorem parser_ends_witness: "parse_file 3 ''ls'' [] = Parse ''ls''"
  using parser_ends [of "''ls''" 3] by (simp del: parse_file.simps)

end
