(* ===== verification/Shell_Glob.thy ===== *)
theory Shell_Glob
  imports Go_Strings Vfs
begin

text \<open>
  Globbing (pkg/shell/shell.go, \<open>globExpand\<close> and \<open>escapeGlobPattern\<close>) over \<open>path.Match\<close> of the
  standard library. An ill-formed pattern is an error there that the shell ignores, so it counts
  as no match; whether a chunk is ill-formed does not depend on the name.
\<close>

subsection \<open>path.Match\<close>

text \<open>A character of a class, perhaps escaped, and what follows; there must be something.\<close>

definition getEsc :: "string \<Rightarrow> (nat \<times> string) option" where
  "getEsc chunk =
     (if chunk = [] \<or> hd chunk = CHR ''-'' \<or> hd chunk = CHR '']'' then None
      else let c = (if hd chunk = CHR 0x5C then tl chunk else chunk)
           in if c = [] then None
              else case decodeRune c of (r, n) \<Rightarrow>
                     if r = 0xFFFD \<and> n = 1 \<or> length c \<le> n then None else Some (r, drop n c))"

lemma decodeRune_pos: "s \<noteq> [] \<Longrightarrow> 1 \<le> snd (decodeRune s)"
  by (simp add: decodeRune_def Let_def)

lemma getEsc_shorter: "getEsc c = Some (r, c') \<Longrightarrow> length c' < length c \<and> c' \<noteq> []"
  using decodeRune_pos [of c] decodeRune_pos [of "tl c"]
  by (auto simp: getEsc_def Let_def split: if_splits prod.splits)

text \<open>The ranges of a class, up to its closing bracket: whether one holds the rune, and what follows.\<close>

function ranges :: "nat \<Rightarrow> bool \<Rightarrow> bool \<Rightarrow> string \<Rightarrow> (bool \<times> string) option" where
  "ranges r found some chunk =
     (if chunk \<noteq> [] \<and> hd chunk = CHR '']'' \<and> some then Some (found, tl chunk)
      else case getEsc chunk of
             None \<Rightarrow> None
           | Some (lo, c) \<Rightarrow>
               if hd c = CHR ''-'' then
                 (case getEsc (tl c) of
                    None \<Rightarrow> None
                  | Some (hi, c') \<Rightarrow> ranges r (found \<or> lo \<le> r \<and> r \<le> hi) True c')
               else ranges r (found \<or> lo = r) True c)"
  by auto
termination
proof (relation "measure (\<lambda>(r, found, some, c). length c)", goal_cases)
  case (2 r found some chunk x lo c y hi c')
  then have "length c < length chunk" "length c' < length (tl c)" by (auto dest: getEsc_shorter)
  then show ?case by simp
qed (auto dest: getEsc_shorter)

declare ranges.simps [simp del]

lemma ranges_shorter: "ranges r found some chunk = Some (b, c) \<Longrightarrow> length c < length chunk"
proof (induction chunk arbitrary: found some rule: length_induct)
  case (1 chunk)
  have IH: "length c < length chunk" if "ranges r found some s = Some (b, c)" "length s < length chunk" for found some s
    using 1(1) that by (meson order_less_trans)
  have esc: "length c' < length chunk \<and> length (tl c') < length chunk" if "getEsc chunk = Some (lo, c')" for lo c'
    using getEsc_shorter [OF that] by auto
  have one: "length c < length chunk" if "getEsc chunk = Some (lo, c')" "ranges r found' True c' = Some (b, c)"
    for lo c' found'
    using IH [OF that(2)] esc [OF that(1)] by blast
  have two: "length c < length chunk"
    if "getEsc chunk = Some (lo, c')" "getEsc (tl c') = Some (hi, c'')" "ranges r found' True c'' = Some (b, c)"
    for lo hi c' c'' found'
    using IH [OF that(3)] esc [OF that(1)] getEsc_shorter [OF that(2)] by simp
  have nil: "getEsc [] = None" by (simp add: getEsc_def)
  from 1(2) show ?case
    by (subst (asm) ranges.simps) (auto simp: nil split: if_splits option.splits intro: one two)
qed

definition negated :: "string \<Rightarrow> bool" where
  "negated c \<longleftrightarrow> c \<noteq> [] \<and> hd c = CHR ''^''"

text \<open>
  \<open>matchChunk\<close>: what is left of the name after a chunk without stars. Without a name left the
  loop only looks for errors.
\<close>

function matchChunk :: "string \<Rightarrow> string \<Rightarrow> string option" where
  "matchChunk [] s = Some s"
| "matchChunk (c # chunk) s =
     (if s = [] then None
      else if c = CHR ''['' then
        (case ranges (fst (decodeRune s)) False False (if negated chunk then tl chunk else chunk) of
           None \<Rightarrow> None
         | Some (found, rest) \<Rightarrow>
             if found = negated chunk then None else matchChunk rest (drop (snd (decodeRune s)) s))
      else if c = CHR ''?'' then
        (if hd s = CHR ''/'' then None else matchChunk chunk (drop (snd (decodeRune s)) s))
      else if c = CHR 0x5C then
        (case chunk of [] \<Rightarrow> None | d # chunk' \<Rightarrow> if d = hd s then matchChunk chunk' (tl s) else None)
      else if c = hd s then matchChunk chunk (tl s) else None)"
  by pat_completeness auto
termination
proof (relation "measure (length \<circ> fst)", goal_cases)
  case (2 c chunk s x found rest)
  then have "length rest < length (if negated chunk then tl chunk else chunk)"
    using ranges_shorter by metis
  then show ?case by (auto split: if_splits)
qed auto

text \<open>A chunk ends at a star outside a class.\<close>

fun scanChunk :: "bool \<Rightarrow> string \<Rightarrow> string \<times> string" where
  "scanChunk inrange [] = ([], [])"
| "scanChunk inrange [c] = (if c = CHR ''*'' \<and> \<not> inrange then ([], [c]) else ([c], []))"
| "scanChunk inrange (c # d # p) =
     (if c = CHR 0x5C then apfst ((@) [c, d]) (scanChunk inrange p)
      else if c = CHR ''*'' \<and> \<not> inrange then ([], c # d # p)
      else apfst (Cons c)
        (scanChunk (if c = CHR ''['' then True else if c = CHR '']'' then False else inrange) (d # p)))"

lemma scanChunk_append: "fst (scanChunk b p) @ snd (scanChunk b p) = p"
  by (induction b p rule: scanChunk.induct) auto

lemma scanChunk_progress: "p \<noteq> [] \<Longrightarrow> hd p \<noteq> CHR ''*'' \<Longrightarrow> length (snd (scanChunk False p)) < length p"
proof -
  assume p: "p \<noteq> []" "hd p \<noteq> CHR ''*''"
  then have "fst (scanChunk False p) \<noteq> []"
    by (cases p; cases "tl p") auto
  then show ?thesis
    using arg_cong [OF scanChunk_append [of False p], of length] by (cases "fst (scanChunk False p)") auto
qed

text \<open>The first place where the chunk matches, skipping no slash; the last chunk ends the name.\<close>

fun skipTo :: "bool \<Rightarrow> string \<Rightarrow> string \<Rightarrow> string option" where
  "skipTo final chunk [] = None"
| "skipTo final chunk (c # s) =
     (if c = CHR ''/'' then None
      else case matchChunk chunk s of
             Some t \<Rightarrow> if final \<and> t \<noteq> [] then skipTo final chunk s else Some t
           | None \<Rightarrow> skipTo final chunk s)"

definition stars :: "string \<Rightarrow> string" where
  "stars p = dropWhile (\<lambda>c. c = CHR ''*'') p"

function path_Match :: "string \<Rightarrow> string \<Rightarrow> bool" where
  "path_Match p s =
     (if p = [] then s = []
      else let star = (hd p = CHR ''*''); (chunk, rest) = scanChunk False (stars p)
           in if star \<and> chunk = [] then CHR ''/'' \<notin> set s
              else case matchChunk chunk s of
                     Some t \<Rightarrow>
                       if t = [] \<or> rest \<noteq> [] then path_Match rest t
                       else if star then (case skipTo True chunk s of Some u \<Rightarrow> path_Match rest u | None \<Rightarrow> False)
                       else False
                   | None \<Rightarrow>
                       if star then (case skipTo (rest = []) chunk s of Some u \<Rightarrow> path_Match rest u | None \<Rightarrow> False)
                       else False)"
  by auto

lemma chunk_shorter:
  assumes "p \<noteq> []" "scanChunk False (stars p) = (chunk, rest)" "\<not> (hd p = CHR ''*'' \<and> chunk = [])"
  shows "length rest < length p"
proof (cases "stars p = []")
  case True
  with assms show ?thesis by simp
next
  case False
  then have "hd (stars p) \<noteq> CHR ''*''" unfolding stars_def by (rule hd_dropWhile)
  with scanChunk_progress [OF False] have "length rest < length (stars p)" using assms(2) by simp
  then show ?thesis using length_dropWhile_le [of "\<lambda>c. c = CHR ''*''" p] by (simp add: stars_def)
qed

termination path_Match
  by (relation "measure (length \<circ> fst)") (auto dest!: sym [of "(_, _)"] dest: chunk_shorter)

declare path_Match.simps [simp del]

subsection \<open>Escaped patterns\<close>

definition escapeGlobPattern :: "string \<Rightarrow> string" where
  "escapeGlobPattern v = concat (map (\<lambda>c. if c \<in> {CHR 0x5C, CHR ''*'', CHR ''?'', CHR ''[''} then [CHR 0x5C, c] else [c]) v)"

lemma escapeGlobPattern_simps [simp]:
  "escapeGlobPattern [] = []"
  "escapeGlobPattern (c # v) =
     (if c \<in> {CHR 0x5C, CHR ''*'', CHR ''?'', CHR ''[''} then CHR 0x5C # c # escapeGlobPattern v
      else c # escapeGlobPattern v)"
  by (simp_all add: escapeGlobPattern_def)

lemma scanChunk_escaped: "scanChunk False (escapeGlobPattern v) = (escapeGlobPattern v, [])"
proof (induction v)
  case (Cons c v)
  then show ?case by (cases "escapeGlobPattern v") auto
qed simp

lemma matchChunk_escaped: "matchChunk (escapeGlobPattern v) s = (if prefix v s then Some (drop (length v) s) else None)"
proof (induction v arbitrary: s)
  case (Cons c v)
  then show ?case by (cases s) auto
qed simp

lemma escaped_starts: "v \<noteq> [] \<Longrightarrow> escapeGlobPattern v \<noteq> [] \<and> hd (escapeGlobPattern v) \<noteq> CHR ''*''"
  by (cases v) auto

text \<open>An escaped text matches itself only.\<close>

lemma escaped_matches_itself: "path_Match (escapeGlobPattern v) s \<longleftrightarrow> s = v"
proof (cases "v = []")
  case True
  then show ?thesis by (simp add: path_Match.simps)
next
  case False
  have "stars (escapeGlobPattern v) = escapeGlobPattern v"
    using escaped_starts [OF False] by (cases "escapeGlobPattern v") (auto simp: stars_def)
  with escaped_starts [OF False] show ?thesis
    by (subst path_Match.simps)
       (auto simp: scanChunk_escaped matchChunk_escaped path_Match.simps [of "[]"] prefix_def)
qed

subsection \<open>Expansion\<close>

text \<open>
  \<open>s.resolvePath\<close>, and the matches of a pattern in its directory; the reading of the directory is an
  argument, since it may advance the state of the filesystem.
\<close>

definition resolvePath :: "string \<Rightarrow> string \<Rightarrow> string" where
  "resolvePath cwd p = (if prefix ''/'' p then path_clean p else path_clean (path_join cwd p))"

definition hidden :: "string \<Rightarrow> string \<Rightarrow> bool" where
  "hidden base name \<longleftrightarrow> prefix ''.'' name \<and> \<not> prefix ''.'' base"

definition glob_matches :: "string \<Rightarrow> string \<Rightarrow> file_info list \<Rightarrow> string list" where
  "glob_matches dir base entries =
     sort (map (\<lambda>e. path_join dir (FileName e))
       (filter (\<lambda>e. \<not> hidden base (FileName e) \<and> path_Match base (FileName e)) entries))"

definition globExpand :: "(string \<Rightarrow> 's \<Rightarrow> file_info list vres \<times> 's) \<Rightarrow> string \<Rightarrow> string \<Rightarrow> 's \<Rightarrow> string list \<times> 's" where
  "globExpand readDir cwd pattern s =
     (let dir = path_dir (resolvePath cwd pattern); base = path_base pattern
      in case readDir dir s of
           (Inl e, s) \<Rightarrow> ([], s)
         | (Inr entries, s) \<Rightarrow> (glob_matches dir base entries, s))"

end
