(* ===== verification/Shell_Actions.thy ===== *)
theory Shell_Actions
  imports Prelude
begin

text \<open>
  The classes of commands (pkg/shell/cmds/actions.go): what kind of effect an invocation has, by
  which a session's shell hides what it may not do. \<open>RegisterAction\<close>, with which a host adds
  commands of its own and which nothing in the repository calls, is left out.
\<close>

type_synonym action = string

definition ActionRead :: action where "ActionRead = ''read''"
definition ActionWrite :: action where "ActionWrite = ''write''"
definition ActionPublish :: action where "ActionPublish = ''publish''"
definition ActionSpawn :: action where "ActionSpawn = ''spawn''"
definition ActionAdmin :: action where "ActionAdmin = ''admin''"

definition commandActions :: "(string \<times> action) list" where
  "commandActions =
     [(''write'', ActionWrite), (''patch'', ActionWrite), (''replace'', ActionWrite), (''tee'', ActionWrite),
      (''mkdir'', ActionWrite), (''mv'', ActionWrite), (''rm'', ActionWrite),
      (''publish'', ActionPublish), (''spawn'', ActionSpawn)]"

definition ActionFor :: "string \<Rightarrow> action" where
  "ActionFor name = (case map_of commandActions name of Some a \<Rightarrow> a | None \<Rightarrow> ActionRead)"

fun hasInPlaceFlag :: "string list \<Rightarrow> bool" where
  "hasInPlaceFlag [] = False"
| "hasInPlaceFlag (a # args) =
     (if a = ''--'' then False
      else if length a < 2 \<or> hd a \<noteq> CHR ''-'' then False
      else if CHR ''i'' \<in> set (tl a) then True
      else hasInPlaceFlag args)"

definition InvocationAction :: "string \<Rightarrow> string list \<Rightarrow> action" where
  "InvocationAction name args =
     (if name = ''lore'' \<and> length args \<ge> 2 \<and> args ! 0 = ''config'' \<and> args ! 1 = ''reload'' then ActionAdmin
      else if name = ''lore'' \<and> length args \<ge> 2 \<and> args ! 0 = ''meta'' \<and> (args ! 1 = ''set'' \<or> args ! 1 = ''unset'')
        then ActionWrite
      else if name = ''sed'' \<and> hasInPlaceFlag args then ActionWrite
      else ActionFor name)"

subsection \<open>The options of sed\<close>

text \<open>
  The options of \<open>sed\<close> (cmds/sed.go): whether it is quiet, whether it edits in place, the
  expressions and the files. The error is the option it does not know.
\<close>

record sed_options =
  so_quiet :: bool
  so_inPlace :: bool
  so_expressions :: "string list"
  so_files :: "string list"

definition sedOperand :: "string \<Rightarrow> sed_options \<Rightarrow> sed_options" where
  "sedOperand arg opts =
     (if so_expressions opts = [] \<and> so_files opts = [] then opts\<lparr>so_expressions := so_expressions opts @ [arg]\<rparr>
      else opts\<lparr>so_files := so_files opts @ [arg]\<rparr>)"

fun sedOptions :: "bool \<Rightarrow> string list \<Rightarrow> sed_options \<Rightarrow> string + sed_options" where
  "sedOptions flagsDone [] opts = Inr opts"
| "sedOptions flagsDone (arg # args) opts =
     (if flagsDone then sedOptions True args (sedOperand arg opts)
      else if arg = ''--'' then sedOptions True args opts
      else if arg = ''-n'' then sedOptions False args (opts\<lparr>so_quiet := True\<rparr>)
      else if arg = ''-i'' \<or> arg = ''--in-place'' then sedOptions False args (opts\<lparr>so_inPlace := True\<rparr>)
      else if arg = ''-e'' then
        (case args of
           [] \<Rightarrow> sedOptions False args opts
         | e # args' \<Rightarrow> sedOptions False args' (opts\<lparr>so_expressions := so_expressions opts @ [e]\<rparr>))
      else if length arg > 1 \<and> hd arg = CHR ''-'' then Inl arg
      else sedOptions False args (sedOperand arg opts))"

definition parseSedOptions :: "string list \<Rightarrow> string + sed_options" where
  "parseSedOptions args =
     sedOptions False args \<lparr>so_quiet = False, so_inPlace = False, so_expressions = [], so_files = []\<rparr>"

text \<open>
  The class of an invocation of \<open>sed\<close> is that of a write only when the flag comes first, while
  \<open>sed\<close> takes its flags anywhere: an invocation classified as a read edits a file in place.
\<close>

lemma sed_class_misses_flag:
  "InvocationAction ''sed'' [''s/a/b/'', ''-i'', ''f''] = ActionRead"
  "parseSedOptions [''s/a/b/'', ''-i'', ''f''] =
     Inr \<lparr>so_quiet = False, so_inPlace = True, so_expressions = [''s/a/b/''], so_files = [''f'']\<rparr>"
  by (simp_all add: InvocationAction_def ActionFor_def commandActions_def parseSedOptions_def sedOperand_def)

end
