(* ===== verification/Shell_Exec.thy ===== *)
theory Shell_Exec
  imports Shell_Parser Shell_Glob Shell_Actions
begin

text \<open>
  The interpreter of the shell (pkg/shell/shell.go). A statement is executed on the shell's state
  and its standard input, and gives a status, what it wrote and the new state. Each function of
  the interpreter takes what its subtrees mean as arguments, and \<open>runStmt\<close>, \<open>runCmd\<close> and
  \<open>runPart\<close> tie them to the trees. The observation of commands (spans, events) has no part in a
  result and is left out.
\<close>

subsection \<open>State, output and surroundings\<close>

record 's shell =
  sh_fs :: 's
  sh_cwd :: string
  sh_env :: "string \<Rightarrow> string option"
  sh_lastExit :: int
  sh_exitRequested :: bool

text \<open>
  What is written goes to one of two writers, in an order that matters where both lead to the
  same place. The standard input is the text left to read, or nil.
\<close>

datatype chunk = Out (chunk_text: string) | Err (chunk_text: string)

fun is_err :: "chunk \<Rightarrow> bool" where
  "is_err (Out _) = False"
| "is_err (Err _) = True"

type_synonym 's io = "'s shell \<times> string option"
type_synonym 's run = "'s io \<Rightarrow> (int \<times> chunk list \<times> 's io) outcome"
type_synonym 's expand = "'s shell \<Rightarrow> (string \<times> 's shell) outcome"

definition outs :: "chunk list \<Rightarrow> string" where
  "outs cs = concat (map chunk_text (filter (\<lambda>c. \<not> is_err c) cs))"

definition errs :: "chunk list \<Rightarrow> string" where
  "errs cs = concat (map chunk_text (filter is_err cs))"

text \<open>
  The commands that are registered, what the session may do, and the calls of the filesystem:
  listing a directory, and the write of a redirection (its status, its error output and the new
  state). How long a timed statement took is read from a clock.
\<close>

record 's world =
  wo_Registry :: "string \<Rightarrow> (string list \<Rightarrow> 's run) option"
  wo_allowedActions :: "action set option"
  wo_actionAuthorizer :: "(action \<Rightarrow> bool) option"
  wo_actionDeniedMessage :: string
  wo_writeDenialReason :: "(string \<Rightarrow> string option) option"
  wo_ReadDir :: "string \<Rightarrow> 's \<Rightarrow> file_info list vres \<times> 's"
  wo_WriteFileMsg :: "string \<Rightarrow> string \<Rightarrow> bool \<Rightarrow> 's shell \<Rightarrow> int \<times> string \<times> 's shell"
  wo_elapsed :: "'s shell \<Rightarrow> string"
  wo_heredocs :: "heredoc list"

definition GetEnv :: "'s shell \<Rightarrow> string \<Rightarrow> string" where
  "GetEnv sh key = (case sh_env sh key of Some v \<Rightarrow> v | None \<Rightarrow> [])"

definition SetEnv :: "string \<Rightarrow> string \<Rightarrow> 's shell \<Rightarrow> 's shell" where
  "SetEnv key v sh = sh\<lparr>sh_env := (sh_env sh)(key \<mapsto> v)\<rparr>"

definition SetAllowedActions :: "action list \<Rightarrow> 's world \<Rightarrow> 's world" where
  "SetAllowedActions as W = W\<lparr>wo_allowedActions := Some (insert ActionRead (set as))\<rparr>"

definition ActionAllowed :: "'s world \<Rightarrow> action \<Rightarrow> bool" where
  "ActionAllowed W a \<longleftrightarrow>
     (case wo_actionAuthorizer W of Some f \<Rightarrow> f a | None \<Rightarrow> True)
     \<and> (case wo_allowedActions W of None \<Rightarrow> True | Some as \<Rightarrow> a \<in> as)"

subsection \<open>Runs\<close>

definition ends :: "int \<Rightarrow> 's run" where
  "ends c io = Returns (c, [], io)"

definition after :: "'s run \<Rightarrow> (int \<Rightarrow> 's run) \<Rightarrow> 's run" where
  "after m f io =
     andThen (m io) (\<lambda>(c, out, io'). map_outcome (apsnd (apfst ((@) out))) (f c io'))"

definition writes :: "(chunk list \<Rightarrow> chunk list) \<Rightarrow> 's run \<Rightarrow> 's run" where
  "writes f m io = map_outcome (apsnd (apfst f)) (m io)"

definition discard_out :: "'s run \<Rightarrow> 's run" where
  "discard_out = writes (filter is_err)"

definition discard_err :: "'s run \<Rightarrow> 's run" where
  "discard_err = writes (filter (\<lambda>c. \<not> is_err c))"

text \<open>Both writers are the one of the output.\<close>

definition merge_err :: "'s run \<Rightarrow> 's run" where
  "merge_err = writes (map (\<lambda>c. Out (chunk_text c)))"

definition exiting :: "'s io \<Rightarrow> bool" where
  "exiting io \<longleftrightarrow> sh_exitRequested (fst io)"

definition with_shell :: "('s shell \<Rightarrow> 's shell) \<Rightarrow> 's io \<Rightarrow> 's io" where
  "with_shell f io = (f (fst io), snd io)"

subsection \<open>Statements\<close>

text \<open>A list of statements, up to one that ran \<open>exit\<close>.\<close>

fun execStmts :: "'s run list \<Rightarrow> 's run" where
  "execStmts [] = ends 0"
| "execStmts [m] = m"
| "execStmts (m # ms) = after m (\<lambda>c io. if exiting io then ends c io else execStmts ms io)"

definition execIsolated :: "'s run list \<Rightarrow> 's run" where
  "execIsolated ms =
     after (execStmts ms) (\<lambda>c io. ends c (with_shell (\<lambda>sh. sh\<lparr>sh_exitRequested := False\<rparr>) io))"

definition execStmt :: "bool \<Rightarrow> 's run option \<Rightarrow> 's run" where
  "execStmt neg cmd =
     (case cmd of
        None \<Rightarrow> ends 0
      | Some m \<Rightarrow>
          after m (\<lambda>c io.
            let c = (if neg \<and> \<not> exiting io then (if c = 0 then 1 else 0) else c)
            in ends c (with_shell (\<lambda>sh. sh\<lparr>sh_lastExit := c\<rparr>) io)))"

text \<open>A statement that is nil: its execution reads a field of it.\<close>

definition orPanic :: "'s run option \<Rightarrow> 's run" where
  "orPanic y = (case y of Some m \<Rightarrow> m | None \<Rightarrow> (\<lambda>io. Panics))"

text \<open>
  The right operand of a pipe reads what the left one wrote; \<open>route\<close> is what of the left operand's
  output goes to the pipe, and the rest is written outside.
\<close>

definition pipe :: "(chunk \<Rightarrow> bool) \<Rightarrow> 's run \<Rightarrow> 's run option \<Rightarrow> 's run" where
  "pipe route x y io =
     andThen (execIsolated [x] io) (\<lambda>(c, out, io1).
       map_outcome (\<lambda>(c', out', io2). (c', filter (\<lambda>k. \<not> route k) out @ out', (fst io2, snd io1)))
         (execIsolated [orPanic y]
           ((fst io1)\<lparr>sh_lastExit := sh_lastExit (fst io)\<rparr>, Some (concat (map chunk_text (filter route out))))))"

definition execBinary :: "binaryOp \<Rightarrow> 's run \<Rightarrow> 's run option \<Rightarrow> 's run" where
  "execBinary opr x y =
     (case opr of
        Pipe \<Rightarrow> pipe (\<lambda>k. \<not> is_err k) x y
      | PipeAll \<Rightarrow> pipe (\<lambda>k. True) x y
      | AndStmt \<Rightarrow> after x (\<lambda>c io. if c \<noteq> 0 \<or> exiting io then ends c io else orPanic y io)
      | OrStmt \<Rightarrow> after x (\<lambda>c io. if c = 0 \<or> exiting io then ends c io else orPanic y io))"

text \<open>An \<open>else\<close> has no condition; an empty list of statements is nil.\<close>

definition execIf :: "'s run list \<Rightarrow> 's run list \<Rightarrow> 's run option \<Rightarrow> 's run" where
  "execIf cond thn els =
     (if cond = [] then execStmts thn
      else after (discard_out (execStmts cond)) (\<lambda>c io.
             if exiting io then ends c io
             else if c = 0 then execStmts thn io
             else case els of Some m \<Rightarrow> m io | None \<Rightarrow> ends 0 io))"

function while_turns :: "nat \<Rightarrow> bool \<Rightarrow> 's run \<Rightarrow> 's run \<Rightarrow> int \<Rightarrow> 's run" where
  "while_turns n until cond body code =
     (if n = 0 then ends code
      else after cond (\<lambda>c io.
             if exiting io then ends c io
             else if (c = 0) = until then ends code io
             else after body (\<lambda>c io. if exiting io then ends c io else while_turns (n - 1) until cond body c io) io))"
  by auto
termination
  by (relation "measure fst") auto

declare while_turns.simps [simp del]

definition execWhile :: "bool \<Rightarrow> 's run list \<Rightarrow> 's run list \<Rightarrow> 's run" where
  "execWhile until cond body = while_turns 10000 until (discard_out (execStmts cond)) (execStmts body) 0"

fun for_turns :: "string \<Rightarrow> 's run \<Rightarrow> int \<Rightarrow> string list \<Rightarrow> 's run" where
  "for_turns name body code [] = ends code"
| "for_turns name body code (x # xs) =
     (\<lambda>io. after body (\<lambda>c io. if exiting io then ends c io else for_turns name body c xs io)
            (with_shell (SetEnv name x) io))"

text \<open>A list of expansions, from the left.\<close>

fun expandAll :: "('s shell \<Rightarrow> ('a \<times> 's shell) outcome) list \<Rightarrow> 's shell \<Rightarrow> ('a list \<times> 's shell) outcome" where
  "expandAll [] sh = Returns ([], sh)"
| "expandAll (e # es) sh =
     andThen (e sh) (\<lambda>(x, sh). map_outcome (apfst (Cons x)) (expandAll es sh))"

definition expanding :: "('s shell \<Rightarrow> ('a \<times> 's shell) outcome) \<Rightarrow> ('a \<Rightarrow> 's run) \<Rightarrow> 's run" where
  "expanding e f io = andThen (e (fst io)) (\<lambda>(x, sh). f x (sh, snd io))"

definition execFor :: "string \<Rightarrow> ('s shell \<Rightarrow> (string list \<times> 's shell) outcome) list \<Rightarrow> 's run list \<Rightarrow> 's run" where
  "execFor name items body =
     expanding (expandAll items) (\<lambda>words. for_turns name (execStmts body) 0 (concat words))"

definition execTime :: "'s world \<Rightarrow> 's run \<Rightarrow> 's run" where
  "execTime W m io =
     after m (\<lambda>c io'. Returns (c, [Err (NL # ''real'' @ TAB # wo_elapsed W (fst io) @ [NL])], io')) io"

subsection \<open>Calls\<close>

definition Fprintln :: "string \<Rightarrow> string" where
  "Fprintln s = s @ [NL]"

definition sends :: "int \<Rightarrow> chunk list \<Rightarrow> 's run" where
  "sends c out io = Returns (c, out, io)"

definition notFound :: "string \<Rightarrow> 's run" where
  "notFound name =
     sends 127 [Err (Fprintln (name @ '': command not found'')),
                Err (Fprintln (''Type '' @ [SQ] @ ''help'' @ [SQ] @ '' for available commands.''))]"

definition exit_call :: "string \<Rightarrow> string list \<Rightarrow> 's run" where
  "exit_call name args io =
     (let io' = with_shell (\<lambda>sh. sh\<lparr>sh_exitRequested := True\<rparr>) io
      in case args of
           [] \<Rightarrow> ends (sh_lastExit (fst io)) io'
         | a # rest \<Rightarrow>
             (case Atoi a of
                None \<Rightarrow> sends 2 [Err (Fprintln (name @ '': '' @ a @ '': numeric argument required''))] io'
              | Some n \<Rightarrow>
                  if rest \<noteq> [] then sends 1 [Err (Fprintln (name @ '': too many arguments''))] io'
                  else ends (n mod 256) io'))"

definition execArgs :: "'s world \<Rightarrow> string list \<Rightarrow> 's run" where
  "execArgs W args io =
     (case args of
        [] \<Rightarrow> ends 0 io
      | name # rest \<Rightarrow>
          if name = ''pwd'' then sends 0 [Out (Fprintln (sh_cwd (fst io)))] io
          else if name = ''exit'' \<or> name = ''quit'' then exit_call name rest io
          else case wo_Registry W name of
                 None \<Rightarrow> notFound name io
               | Some cmd \<Rightarrow>
                   if ActionAllowed W (InvocationAction name rest) then cmd rest io
                   else if wo_actionDeniedMessage W \<noteq> [] then
                     sends 1 [Err (Fprintln (name @ '': '' @ wo_actionDeniedMessage W))] io
                   else notFound name io)"

fun assignAll :: "(string \<times> 's expand) list \<Rightarrow> 's shell \<Rightarrow> (unit \<times> 's shell) outcome" where
  "assignAll [] sh = Returns ((), sh)"
| "assignAll ((n, e) # as) sh = andThen (e sh) (\<lambda>(v, sh). assignAll as (SetEnv n v sh))"

text \<open>A call without its output redirection; its here-documents are its standard input.\<close>

definition with_stdin :: "string option \<Rightarrow> 's run \<Rightarrow> 's run" where
  "with_stdin inp m io =
     (case inp of
        None \<Rightarrow> m io
      | Some s \<Rightarrow> map_outcome (\<lambda>(c, out, io'). (c, out, (fst io', snd io))) (m (fst io, Some s)))"

definition bodies :: "'s world \<Rightarrow> nat list \<Rightarrow> string option" where
  "bodies W hds = (if hds = [] then None else Some (concat (map (\<lambda>i. hd_Body (wo_heredocs W ! i)) hds)))"

definition execCallInner ::
  "'s world \<Rightarrow> (string \<times> 's expand) list \<Rightarrow> ('s shell \<Rightarrow> (string list \<times> 's shell) outcome) list
     \<Rightarrow> nat list \<Rightarrow> bool \<Rightarrow> 's run" where
  "execCallInner W assigns words hds mergeStderr =
     (if words = [] then expanding (assignAll assigns) (\<lambda>_. ends 0)
      else expanding (expandAll words) (\<lambda>args.
             with_stdin (bodies W hds) ((if mergeStderr then merge_err else id) (execArgs W (concat args)))))"

definition redirectDenied :: "'s world \<Rightarrow> string \<Rightarrow> 's run" where
  "redirectDenied W target io =
     (let because = (\<lambda>m. sends 1 [Err (Fprintln (''redirect: '' @ target @ '': '' @ m))] io)
      in if wo_actionDeniedMessage W \<noteq> [] then because (wo_actionDeniedMessage W)
         else case wo_writeDenialReason W of
                Some reason \<Rightarrow>
                  (case reason (resolvePath (sh_cwd (fst io)) target) of
                     Some e \<Rightarrow> because e
                   | None \<Rightarrow> because ''read-only filesystem'')
              | None \<Rightarrow> because ''read-only filesystem'')"

definition commit :: "'s world \<Rightarrow> string \<Rightarrow> string \<Rightarrow> bool \<Rightarrow> 's run" where
  "commit W target data app io =
     (case wo_WriteFileMsg W target data app (fst io) of
        (c, e, sh) \<Rightarrow> Returns (c, (if e = [] then [] else [Err e]), (sh, snd io)))"

text \<open>A redirection: its target, and whether it appends and is of the error output.\<close>

definition execRedirected :: "'s world \<Rightarrow> 's expand \<Rightarrow> bool \<Rightarrow> bool \<Rightarrow> 's run \<Rightarrow> 's run" where
  "execRedirected W target app stderr inner =
     expanding target (\<lambda>target.
       if target = ''/dev/null'' then (if stderr then discard_err inner else discard_out inner)
       else if \<not> ActionAllowed W ActionWrite then redirectDenied W target
       else if stderr then
         (\<lambda>io. andThen (inner io) (\<lambda>(c, out, io).
            map_outcome (\<lambda>(c', out', io). (if c' \<noteq> 0 then c' else c, filter (\<lambda>k. \<not> is_err k) out @ out', io))
              (commit W target (errs out) app io)))
       else
         (\<lambda>io. andThen (inner io) (\<lambda>(c, out, io).
            if c \<noteq> 0 then Returns (c, filter is_err out, io)
            else map_outcome (apsnd (apfst ((@) (filter is_err out)))) (commit W target (outs out) app io))))"

definition execCall ::
  "'s world \<Rightarrow> (string \<times> 's expand) list \<Rightarrow> ('s shell \<Rightarrow> (string list \<times> 's shell) outcome) list
     \<Rightarrow> nat list \<Rightarrow> bool \<Rightarrow> ('s expand \<times> bool \<times> bool) option \<Rightarrow> 's run" where
  "execCall W assigns words hds mergeStderr redir =
     (case redir of
        None \<Rightarrow> execCallInner W assigns words hds mergeStderr
      | Some (target, app, stderr) \<Rightarrow>
          execRedirected W target app stderr (execCallInner W assigns words hds mergeStderr))"

text \<open>
  A declaration: its arguments, each with its value unless it is a bare name. Without a registered
  command the values are expanded once more and assigned.
\<close>

definition declArg :: "string \<times> 's expand option \<Rightarrow> 's expand" where
  "declArg a =
     (case a of
        (n, Some e) \<Rightarrow> (\<lambda>sh. map_outcome (apfst (\<lambda>v. n @ ''='' @ v)) (e sh))
      | (n, None) \<Rightarrow> (\<lambda>sh. Returns (n, sh)))"

definition declAssigns :: "(string \<times> 's expand option) list \<Rightarrow> (string \<times> 's expand) list" where
  "declAssigns as = concat (map (\<lambda>(n, e). case e of Some e \<Rightarrow> [(n, e)] | None \<Rightarrow> []) as)"

definition execDecl :: "'s world \<Rightarrow> string \<Rightarrow> (string \<times> 's expand option) list \<Rightarrow> 's run" where
  "execDecl W name as =
     expanding (expandAll (map declArg as)) (\<lambda>args.
       case wo_Registry W name of
         Some cmd \<Rightarrow> cmd args
       | None \<Rightarrow> expanding (assignAll (declAssigns as)) (\<lambda>_. ends 0))"

definition execTestClause :: "'s world \<Rightarrow> 's expand list \<Rightarrow> 's run" where
  "execTestClause W words =
     expanding (expandAll words) (\<lambda>args.
       case wo_Registry W ''test'' of Some cmd \<Rightarrow> cmd args | None \<Rightarrow> ends 1)"

subsection \<open>Expansion\<close>

definition expandTilde :: "'s shell \<Rightarrow> string \<Rightarrow> string" where
  "expandTilde sh v =
     (let home = GetEnv sh ''HOME''
      in if home = [] then v
         else if v = ''~'' then home
         else if prefix ''~/'' v then home @ tl v
         else v)"

text \<open>A part with its kind: a literal, quoted or escaped text, or a substitution.\<close>

datatype part_kind = LitPart | QuotedPart | SubstPart

type_synonym 's parts = "(part_kind \<times> 's expand) list"

fun expandConcat :: "'s expand list \<Rightarrow> 's expand" where
  "expandConcat [] sh = Returns ([], sh)"
| "expandConcat (e # es) sh =
     andThen (e sh) (\<lambda>(v, sh). map_outcome (apfst ((@) v)) (expandConcat es sh))"

text \<open>A leading literal has its tilde expanded.\<close>

definition tildePart :: "part_kind \<times> 's expand \<Rightarrow> 's expand" where
  "tildePart p sh =
     map_outcome (\<lambda>(v, sh). (if fst p = LitPart then expandTilde sh v else v, sh)) (snd p sh)"

definition expandWord :: "'s parts \<Rightarrow> 's expand" where
  "expandWord ps = expandConcat (case ps of [] \<Rightarrow> [] | p # ps \<Rightarrow> tildePart p # map snd ps)"

record globbing =
  gw_words :: "string list"
  gw_expanded :: string
  gw_pattern :: string
  gw_hasGlob :: bool
  gw_present :: bool

definition flush :: "'s world \<Rightarrow> globbing \<Rightarrow> 's shell \<Rightarrow> globbing \<times> 's shell" where
  "flush W g sh =
     (if \<not> gw_present g then (g, sh)
      else case (if gw_hasGlob g then globExpand (wo_ReadDir W) (sh_cwd sh) (gw_pattern g) (sh_fs sh)
                 else ([], sh_fs sh)) of
             (matches, fs) \<Rightarrow>
               (\<lparr>gw_words = gw_words g @ (if matches \<noteq> [] then matches else [gw_expanded g]),
                 gw_expanded = [], gw_pattern = [], gw_hasGlob = False, gw_present = False\<rparr>,
                sh\<lparr>sh_fs := fs\<rparr>))"

definition addQuoted :: "string \<Rightarrow> globbing \<Rightarrow> globbing" where
  "addQuoted v g =
     g\<lparr>gw_expanded := gw_expanded g @ v, gw_pattern := gw_pattern g @ escapeGlobPattern v, gw_present := True\<rparr>"

definition addPlain :: "string \<Rightarrow> globbing \<Rightarrow> globbing" where
  "addPlain v g =
     g\<lparr>gw_expanded := gw_expanded g @ v, gw_pattern := gw_pattern g @ v,
       gw_hasGlob := gw_hasGlob g \<or> CHR ''*'' \<in> set v \<or> CHR ''?'' \<in> set v,
       gw_present := gw_present g \<or> v \<noteq> []\<rparr>"

text \<open>\<open>strings.IndexFunc(s, unicode.IsSpace)\<close>.\<close>

fun space_at :: "string \<Rightarrow> nat option" where
  "space_at [] = None"
| "space_at (c # s) =
     (if list_ex (\<lambda>e. prefix e (c # s)) space_encodings then Some 0 else map_option Suc (space_at s))"

lemma space_at_starts: "space_at s = Some n \<Longrightarrow> \<exists>e \<in> set space_encodings. prefix e (drop n s)"
  by (induction s arbitrary: n) (auto simp: list_ex_iff split: if_splits)

lemma trim_encodings_le: "length (trim_encodings es s) \<le> length s"
proof (induction s rule: length_induct)
  case (1 s)
  show ?case
  proof (cases "find (\<lambda>e. e \<noteq> [] \<and> prefix e s) es")
    case (Some e)
    then have "e \<noteq> []" "prefix e s" by (auto simp: find_Some_iff)
    then have "length (drop (length e) s) < length s" by (cases s) auto
    with 1 have "length (trim_encodings es (drop (length e) s)) \<le> length (drop (length e) s)" by blast
    with Some show ?thesis by (simp add: trim_encodings.simps [of es s])
  qed (simp add: trim_encodings.simps [of es s])
qed

lemma TrimSpaceLeft_shorter:
  assumes "e \<in> set space_encodings" "prefix e s"
  shows "length (TrimSpaceLeft s) < length s"
proof -
  have "find (\<lambda>e. e \<noteq> [] \<and> prefix e s) space_encodings \<noteq> None"
    using assms space_encodings_nonempty by (auto simp: find_None_iff)
  then obtain e' where e': "find (\<lambda>e. e \<noteq> [] \<and> prefix e s) space_encodings = Some e'" by blast
  then have "e' \<noteq> []" "prefix e' s" by (auto simp: find_Some_iff)
  then have "length (drop (length e') s) < length s" by (cases s) auto
  then show ?thesis
    using trim_encodings_le [of space_encodings "drop (length e') s"] e'
    unfolding TrimSpaceLeft_def by (subst trim_encodings.simps) simp
qed

lemma field_shorter: "space_at v = Some n \<Longrightarrow> length (TrimSpaceLeft (drop n v)) < length v"
  by (drule space_at_starts) (force dest: TrimSpaceLeft_shorter)

function splitFields :: "'s world \<Rightarrow> string \<Rightarrow> globbing \<Rightarrow> 's shell \<Rightarrow> string \<times> globbing \<times> 's shell" where
  "splitFields W v g sh =
     (case space_at v of
        None \<Rightarrow> (v, g, sh)
      | Some n \<Rightarrow>
          (case flush W (addPlain (take n v) g) sh of
             (g, sh) \<Rightarrow> splitFields W (TrimSpaceLeft (drop n v)) g sh))"
  by auto
termination
  by (relation "measure (\<lambda>(W, v, g, sh). length v)") (auto dest: field_shorter)

declare splitFields.simps [simp del]

fun globParts :: "'s world \<Rightarrow> bool \<Rightarrow> 's parts \<Rightarrow> globbing \<Rightarrow> 's shell \<Rightarrow> (globbing \<times> 's shell) outcome" where
  "globParts W split [] g sh = Returns (g, sh)"
| "globParts W split ((k, e) # ps) g sh =
     andThen (e sh) (\<lambda>(v, sh).
       if k = QuotedPart then globParts W split ps (addQuoted v g) sh
       else case (if split \<and> k = SubstPart then splitFields W v g sh else (v, g, sh)) of
              (v, g, sh) \<Rightarrow> globParts W split ps (addPlain v g) sh)"

definition expandGlobWords :: "'s world \<Rightarrow> bool \<Rightarrow> 's parts \<Rightarrow> 's shell \<Rightarrow> (string list \<times> 's shell) outcome" where
  "expandGlobWords W split ps sh =
     map_outcome (\<lambda>(g, sh). apfst gw_words (flush W g sh))
       (globParts W split (case ps of [] \<Rightarrow> [] | p # ps \<Rightarrow> (fst p, tildePart p) # ps)
         \<lparr>gw_words = [], gw_expanded = [], gw_pattern = [], gw_hasGlob = False, gw_present = \<not> split\<rparr> sh)"

definition expandParam :: "string \<Rightarrow> bool \<Rightarrow> (paramExpOp \<times> 's expand) option \<Rightarrow> 's expand" where
  "expandParam name len exp sh =
     (let val = GetEnv sh name
      in if name = ''?'' then Returns (decimal (sh_lastExit sh), sh)
         else if name = ''#'' then Returns (GetEnv sh ''#'', sh)
         else if name = ''0'' then Returns (''lore-shell'', sh)
         else if len then Returns (decimal (int (length val)), sh)
         else case exp of
                None \<Rightarrow> Returns (val, sh)
              | Some (opr, word) \<Rightarrow>
                  map_outcome (\<lambda>(w, sh).
                    if opr \<in> {DefaultUnset, DefaultUnsetOrNull} then (if val = [] then w else val, sh)
                    else if opr \<in> {AlternateUnset, AlternateUnsetOrNull} then (if val \<noteq> [] then w else [], sh)
                    else if opr \<in> {AssignUnset, AssignUnsetOrNull} then
                      (if val = [] then (w, SetEnv name w sh) else (val, sh))
                    else (val, sh)) (word sh))"

definition substitute :: "'s run list \<Rightarrow> 's expand" where
  "substitute ms sh =
     map_outcome (\<lambda>(c, out, io). (trim_right NL (outs out), fst io)) (execIsolated ms (sh, None))"

subsection \<open>Trees\<close>

fun kind_of :: "wordPart \<Rightarrow> part_kind" where
  "kind_of (Lit _) = LitPart"
| "kind_of (Escaped _) = QuotedPart"
| "kind_of (SglQuoted _) = QuotedPart"
| "kind_of (DblQuoted _) = QuotedPart"
| "kind_of (ParamExp _ _ _) = SubstPart"
| "kind_of (CmdSubst _) = SubstPart"

function runPart :: "'s world \<Rightarrow> wordPart \<Rightarrow> 's expand"
  and runWord :: "'s world \<Rightarrow> Shell_Ast.word \<Rightarrow> 's parts"
  and runStmt :: "'s world \<Rightarrow> stmt \<Rightarrow> 's run"
  and runIf :: "'s world \<Rightarrow> ifClause \<Rightarrow> 's run"
  and runCmd :: "'s world \<Rightarrow> command \<Rightarrow> 's run"
where
  "runPart W (Lit v) = (\<lambda>sh. Returns (v, sh))"
| "runPart W (Escaped v) = (\<lambda>sh. Returns (v, sh))"
| "runPart W (SglQuoted v) = (\<lambda>sh. Returns (v, sh))"
| "runPart W (DblQuoted ps) = expandConcat (map (runPart W) ps)"
| "runPart W (ParamExp n len exp) =
     expandParam n len (map_option (\<lambda>x. case x of Expansion opr w \<Rightarrow> (opr, expandWord (runWord W w))) exp)"
| "runPart W (CmdSubst ss) = substitute (map (runStmt W) ss)"
| "runWord W (Word ps) = map (\<lambda>p. (kind_of p, runPart W p)) ps"
| "runStmt W (Stmt neg cmd) = execStmt neg (map_option (runCmd W) cmd)"
| "runIf W (IfClause cond thn els) =
     execIf (map (runStmt W) cond) (map (runStmt W) thn) (map_option (runIf W) els)"
| "runCmd W (CallExpr as ws hds mergeStderr redir) =
     execCall W
       (map (\<lambda>a. case a of Assign n v _ \<Rightarrow>
          (n, case v of Some w \<Rightarrow> expandWord (runWord W w) | None \<Rightarrow> (\<lambda>sh. Returns ([], sh)))) as)
       (map (\<lambda>w. expandGlobWords W False (runWord W w)) ws) hds mergeStderr
       (map_option (\<lambda>r. case r of Redirect w app stderr \<Rightarrow> (expandWord (runWord W w), app, stderr)) redir)"
| "runCmd W (BinaryCmd opr x y) = execBinary opr (runStmt W x) (map_option (runStmt W) y)"
| "runCmd W (Subshell ss) = execIsolated (map (runStmt W) ss)"
| "runCmd W (Block ss) = execStmts (map (runStmt W) ss)"
| "runCmd W (IfCmd i) = runIf W i"
| "runCmd W (WhileClause until cond body) = execWhile until (map (runStmt W) cond) (map (runStmt W) body)"
| "runCmd W (ForClause name items body) =
     execFor name (map (\<lambda>w. expandGlobWords W True (runWord W w)) items) (map (runStmt W) body)"
| "runCmd W (DeclClause name as) =
     execDecl W name
       (map (\<lambda>a. case a of Assign n v naked \<Rightarrow>
          (n, if naked then None else map_option (\<lambda>w. expandWord (runWord W w)) v)) as)"
| "runCmd W (TestClause ws) = execTestClause W (map (\<lambda>w. expandWord (runWord W w)) ws)"
| "runCmd W (TimeClause st) = execTime W (runStmt W st)"
| "runCmd W LetClause = ends 0"
| "runCmd W ArithmCmd = ends 0"
  by pat_completeness auto
termination
  by size_change

text \<open>A line.\<close>

definition execLine :: "'s world \<Rightarrow> string \<Rightarrow> 's run" where
  "execLine W line io =
     (let io = with_shell (\<lambda>sh. sh\<lparr>sh_exitRequested := False\<rparr>) io; line = TrimSpace line
      in if line = [] then ends 0 io
         else case Parse line of
                Fails e \<Rightarrow>
                  sends 2 [Err (Fprintln (''parse error: '' @ e))] (with_shell (\<lambda>sh. sh\<lparr>sh_lastExit := 2\<rparr>) io)
              | Panics \<Rightarrow> Panics
              | Unfinished \<Rightarrow> Unfinished
              | Returns (ss, heap) \<Rightarrow> execStmts (map (runStmt (W\<lparr>wo_heredocs := heap\<rparr>)) ss) io)"

end
