(* ===== verification/Shell_Panics.thy ===== *)
theory Shell_Panics
  imports Shell_Totality
begin

text \<open>
  Where the parser can panic, and where it cannot. The lexer reads past the end of the source in
  two places: where an inner \<open>))\<close> that does not close the outermost \<open>((\<close> ends the source, and
  where a backslash inside the double quotes of a substitution does. A source with no backslash
  and no double bracket has neither, and is parsed without a panic.
\<close>

definition plain :: "string \<Rightarrow> bool" where
  "plain s \<longleftrightarrow> BS \<notin> set s \<and> \<not> sublist ''(('' s"

lemma plain_sublist: "sublist a b \<Longrightarrow> plain b \<Longrightarrow> plain a"
  using set_mono_sublist [of a b] sublist_order.order.trans [of _ a b] by (auto simp: plain_def)

lemma plain_suffix: "suffix a b \<Longrightarrow> plain b \<Longrightarrow> plain a"
  by (auto intro: plain_sublist suffix_imp_sublist)

lemma plain_split: "plain (a @ b) \<Longrightarrow> plain a" "plain (a @ b) \<Longrightarrow> plain b"
  by (auto elim!: plain_sublist [rotated])

lemma plain_brackets: "plain (CHR ''('' # r) \<Longrightarrow> peek r \<noteq> CHR ''(''"
proof
  assume "plain (CHR ''('' # r)" "peek r = CHR ''(''"
  moreover from this(2) have "sublist ''(('' (CHR ''('' # r)"
    by (cases r) (auto simp: peek_def peekAt_def intro: prefix_imp_sublist)
  ultimately show False by (simp add: plain_def)
qed

subsection \<open>Words\<close>

lemma dqSkip_no_panic: "BS \<notin> set s \<Longrightarrow> avoids True (dqSkip s)"
  by (induction s rule: dqSkip.induct) auto

lemma substStretch_no_panic: "BS \<notin> set s \<Longrightarrow> avoids True (substStretch d s)"
proof (induction s arbitrary: d rule: length_induct)
  case (1 s)
  show ?case
  proof (cases s)
    case (Cons c r)
    have IH: "avoids True (substStretch d' s')" if "suffix s' r" for d' s'
      using 1(1) [rule_format, of s' d'] 1(2) set_mono_suffix [OF that] suffix_length_le [OF that] Cons by auto
    have "suffix (snd (quoteEnd SQ r)) r"
      using split_within [OF quoteEnd_append [of SQ r]] by simp
    moreover have "suffix rest r" if "dqSkip r = Returns (b, rest)" for b rest
      using split_within [OF dqSkip_append [OF that]] by simp
    ultimately show ?thesis
      using 1(2) Cons dqSkip_no_panic [of r] by (auto intro!: IH split: prod.split)
  qed simp
qed

lemma wordStretch_no_panic: "BS \<notin> set r \<Longrightarrow> avoids True (wordStretch c r)"
  using set_mono_suffix [OF suffix_tl [of r]] by (auto simp: wordStretch_def intro: substStretch_no_panic)

lemma scanWord_no_panic: "BS \<notin> set s \<Longrightarrow> avoids True (scanWord sb s)"
proof (induction sb s rule: scanWord.induct)
  case (2 sb c r)
  have "avoids True (scanWord (sb @ b) rest)"
    if "wordStretch c r = Returns (b, rest)" "\<not> ends_word sb c"
      "\<not> (c = CHR ''&'' \<and> wordEndsWithRedirOp sb \<and> is_digit (peek r))" for b rest
  proof (rule 2(1) [OF that(3,2,1) refl])
    show "BS \<notin> set rest"
      using arg_cong [of _ _ set, OF wordStretch_append [OF that(1), THEN conjunct1]] 2(2) by auto
  qed
  then show ?case
    using 2(2) wordStretch_no_panic [of r c] by (auto split: prod.split)
qed simp

subsection \<open>Tokens\<close>

text \<open>The values of tokens come from the source, and what is left is its end.\<close>

definition yields :: "string \<Rightarrow> (token \<times> lexer) outcome \<Rightarrow> bool" where
  "yields s m \<longleftrightarrow> (\<forall>t lx. m = Returns (t, lx) \<longrightarrow>
     suffix (lx_src lx) s \<and> (sublist (tk_val t) s \<or> tk_val t = ''((...))'' \<and> sublist ''(('' s))"

lemma yields_if [simp]: "yields s (if b then m else m') \<longleftrightarrow> (b \<longrightarrow> yields s m) \<and> (\<not> b \<longrightarrow> yields s m')"
  by simp

lemma yields_emit: "sublist (tk_val t) s \<Longrightarrow> yields s (Returns (t, lx\<lparr>lx_src := drop k s\<rparr>))"
  by (simp add: yields_def suffix_drop)

lemma yields_word: "yields s (map_outcome (apsnd (\<lambda>rest. lx\<lparr>lx_src := rest\<rparr>)) (scanWord [] s))"
  using split_within scanWord_append [of "[]" s] by (fastforce simp: yields_def map_outcome_Returns)

lemma arithSkip_suffix: "arithSkip d s = Returns rest \<Longrightarrow> suffix rest s"
proof (induction d s rule: arithSkip.induct)
  case (1 d s)
  then show ?case
    by (subst (asm) (5) arithSkip.simps)
       (auto split: if_splits intro: suffix_trans [OF _ suffix_drop] suffix_tl_trans)
qed

lemma readBody_suffix: "suffix (snd (readBody h s)) s"
proof (induction s rule: length_induct)
  case (1 s)
  let ?rest = "drop 1 (dropWhile (\<lambda>c. c \<noteq> NL) s)"
  have "suffix ?rest s" by (rule suffix_drop_while)
  moreover have "suffix (snd (readBody h ?rest)) s" if "s \<noteq> []"
    using suffix_trans [OF 1 [rule_format, OF next_line_shorter [OF that]] \<open>suffix ?rest s\<close>] .
  ultimately show ?case
    unfolding readBody.simps [of h s] Let_def by (simp del: drop_Suc drop_Suc_Cons One_nat_def)
qed

lemma drainPending_suffix: "suffix (lx_src (drainPending is lx)) (lx_src lx)"
proof (induction "is" lx rule: drainPending.induct)
  case (2 i "is" lx)
  let ?h = "lx_heap lx ! i"
  show ?case
    using 2 [of ?h "readBody ?h (lx_src lx)" "fst (readBody ?h (lx_src lx))" "snd (readBody ?h (lx_src lx))"]
      suffix_trans [OF _ readBody_suffix [of ?h "lx_src lx"]]
    by (simp add: Let_def case_prod_beta)
qed simp

lemma yields_newline: "yields (c # r) (Returns (tok tokNewline, drainHeredocs (lx\<lparr>lx_src := r\<rparr>)))"
  using drainPending_suffix [of "lx_pending lx" "lx\<lparr>lx_src := r, lx_pending := []\<rparr>"]
  by (simp add: yields_def drainHeredocs_def suffix_Cons)

lemma heredocDelim_within: "sublist (fst (heredocDelim s)) s \<and> suffix (snd (heredocDelim s)) s"
proof -
  have "sublist (takeWhile P s) s" "sublist (takeWhile P (tl s)) s" for P
    using sublist_tl [OF prefix_imp_sublist [OF takeWhile_is_prefix]]
    by (simp_all add: prefix_imp_sublist takeWhile_is_prefix)
  moreover have "suffix (dropWhile P s) s" "suffix (drop 1 (dropWhile P (tl s))) s" for P
    by (rule suffix_dropWhile, rule suffix_tl_trans [OF suffix_drop_while])
  ultimately show ?thesis by (simp add: heredocDelim_def Let_def del: drop_Suc drop_Suc_Cons One_nat_def)
qed

lemma yields_opener: "yields s (Returns (scanHeredocOpener (lx\<lparr>lx_src := s\<rparr>)))"
proof -
  define s' where "s' = skipSpaces (if peek (drop 2 s) = CHR ''-'' then tl (drop 2 s) else drop 2 s)"
  have "suffix s' s"
    unfolding s'_def skipSpaces_def
    by (rule suffix_trans [OF suffix_dropWhile]) (auto intro: suffix_trans [OF suffix_tl suffix_drop] suffix_drop)
  with heredocDelim_within [of s']
  show ?thesis
    using suffix_trans [of _ s' s] sublist_order.order.trans [of _ s' s] suffix_imp_sublist [of s' s]
    by (simp add: yields_def scanHeredocOpener_def Let_def s'_def [symmetric])
qed

lemma yields_arith:
  "peek r = CHR ''('' \<Longrightarrow> s = CHR ''('' # r \<Longrightarrow>
   yields s (map_outcome (\<lambda>rest. (tokVal tokWord ''((...))'', lx\<lparr>lx_src := rest\<rparr>)) (arithSkip d (drop 2 s)))"
  by (cases r) (auto simp: yields_def map_outcome_Returns peek_def peekAt_def
      dest!: arithSkip_suffix intro: suffix_trans [OF _ suffix_drop [of 2, simplified]] prefix_imp_sublist suffix_ConsI)

lemma merge_sublist:
  "peek r = CHR ''>'' \<Longrightarrow> peekAt 2 (c # r) = CHR ''&'' \<Longrightarrow> sublist ''2>&'' (CHR ''2'' # r)"
  "peek r = CHR ''>'' \<Longrightarrow> peekAt 2 (c # r) = CHR ''&'' \<Longrightarrow> peekAt 3 (c # r) = CHR ''1'' \<Longrightarrow> sublist ''2>&1'' (CHR ''2'' # r)"
  by (auto simp: peek_def peekAt_def numeral_eq_Suc less_Suc_eq_le Suc_le_length_iff length_greater_0_conv [symmetric] Suc_le_eq [symmetric]
      split: if_splits intro!: prefix_imp_sublist)

lemma yields_mono: "yields s m \<Longrightarrow> suffix s s' \<Longrightarrow> yields s' m"
  using suffix_trans [of _ s s'] sublist_order.order.trans [of _ s s'] suffix_imp_sublist [of s s']
  unfolding yields_def by metis

lemma lexNext_yields: "yields (lx_src lx) (lexNext lx)"
proof -
  define s where "s = skipComment (skipSpaces (lx_src lx))"
  have "yields s (lexNext lx)"
  proof (cases s)
    case Nil
    then show ?thesis by (simp add: lexNext_def s_def [symmetric] yields_def)
  next
    case (Cons c r)
    show ?thesis
      unfolding lexNext_def s_def [symmetric] Let_def Cons list.case
      by (intro conjI impI yields_if [THEN iffD2] yields_emit yields_newline yields_opener yields_word yields_arith)
         (simp_all add: merge_sublist)
  qed
  moreover have "suffix s (lx_src lx)"
    unfolding s_def skipComment_def skipSpaces_def
    by (auto split: list.split intro: suffix_trans [OF _ suffix_dropWhile] simp: suffix_dropWhile)
  ultimately show ?thesis by (rule yields_mono)
qed

lemma lexNext_no_panic:
  assumes "plain (lx_src lx)"
  shows "avoids True (lexNext lx)"
proof -
  define s where "s = skipComment (skipSpaces (lx_src lx))"
  have "suffix s (lx_src lx)"
    unfolding s_def skipComment_def skipSpaces_def
    by (auto split: list.split intro: suffix_trans [OF _ suffix_dropWhile] simp: suffix_dropWhile)
  then have s: "plain s" using plain_suffix assms by blast
  then have "avoids True (scanWord [] s)" by (intro scanWord_no_panic) (simp add: plain_def)
  with s show ?thesis
    unfolding lexNext_def s_def [symmetric] Let_def
    by (cases s) (simp_all only: list.case avoids_if avoids_simps avoids_map simp_thms, use plain_brackets in blast)
qed

subsection \<open>The parser does not panic\<close>

definition plain_tokens :: "tokenizer \<Rightarrow> bool" where
  "plain_tokens t \<longleftrightarrow> plain (lx_src (tz_lex t)) \<and> (\<forall>c. tz_peeked t = Some c \<longrightarrow> plain (tk_val c))"

lemma plain_next:
  assumes "plain (lx_src lx)" "lexNext lx = Returns (c, lx')"
  shows "plain (lx_src lx') \<and> plain (tk_val c)"
  using lexNext_yields [of lx] assms plain_sublist [of "tk_val c"] plain_suffix [of "lx_src lx'"]
  by (auto simp: yields_def plain_def [of "lx_src lx"])

lemma splitAssign_sublist: "splitAssign v = Some (x, w) \<Longrightarrow> sublist w v"
  using suffix_drop_while [of 1 "\<lambda>c. c \<noteq> CHR ''=''" v] suffix_imp_sublist
  by (auto simp: splitAssign_def Let_def drop_Suc split: if_splits)

interpretation unpanicked: parse_run True "\<lambda>n. plain_tokens" "\<lambda>n. plain" "\<lambda>n. plain"
proof
  show "plain w" if "plain v" "splitAssign v = Some (x, w)" for v x w and n :: nat
    using plain_sublist [OF splitAssign_sublist [OF that(2)] that(1)] .
  show "avoids True (parseWordString P v t)"
    if "plain v" "\<And>b h. plain b \<Longrightarrow> avoids True (P b h)" for v P t and n :: nat
    using that(2) plain_sublist [OF _ that(1)] by (intro parseWordString_avoids) blast
qed (auto simp: plain_tokens_def lexNext_no_panic newTokenizer_def same_source_def tzPeek_def tzNext_def
      map_outcome_Returns dest: plain_next split: option.splits)

text \<open>
  A source without a backslash and without a double bracket is parsed without a panic.
\<close>

theorem parser_does_not_panic:
  assumes "BS \<notin> set src" "\<not> sublist ''(('' src"
  shows "Parse src \<noteq> Panics"
  using unpanicked.parse_file_avoids [of src "length src + 2" "[]"] assms
  unfolding Parse_def avoids_def plain_def by simp

theorem parser_does_not_panic_witness: "Parse ''(ls | cat)'' \<noteq> Panics"
proof (rule parser_does_not_panic)
  show "BS \<notin> set ''(ls | cat)''" by simp
  show "\<not> sublist ''(('' ''(ls | cat)''" by (simp add: sublist_Cons_right)
qed

text \<open>
  Both exclusions are needed: a source of seven characters and one of nine make the parser panic,
  and no caller recovers.
\<close>

lemma parser_panics: "Parse ''((((a))'' = Panics \<and> Parse (''echo $('' @ [DQ, BS]) = Panics"
  by code_simp

end
