(* ===== verification/Shell_Runs.thy ===== *)
theory Shell_Runs
  imports Shell_Exec Shell_Panics
begin

text \<open>
  The execution of any line ends when the registered commands do, whatever its loops, and panics
  only where a command does, the parser does, or a right operand is missing. As for the parser
  (\<open>Shell_Totality\<close>), ending and not panicking are two instances of one argument, over the flag
  \<open>k\<close> of \<open>avoids\<close>.
\<close>

subsection \<open>Runs\<close>

definition runs :: "bool \<Rightarrow> 's run \<Rightarrow> bool" where
  "runs k m \<longleftrightarrow> (\<forall>io. avoids k (m io))"

definition expands :: "bool \<Rightarrow> ('s shell \<Rightarrow> ('a \<times> 's shell) outcome) \<Rightarrow> bool" where
  "expands k e \<longleftrightarrow> (\<forall>sh. avoids k (e sh))"

lemma runsD: "runs k m \<Longrightarrow> avoids k (m io)"
  unfolding runs_def by blast

named_theorems run_intros "combinators that keep the outcome"

lemma runs_ends [run_intros, simp]: "runs k (ends c)" "runs k (sends c out)"
  by (simp_all add: runs_def ends_def sends_def)

lemma runs_after [run_intros]: "runs k m \<Longrightarrow> (\<And>c. runs k (f c)) \<Longrightarrow> runs k (after m f)"
  by (auto simp: runs_def after_def split: prod.split)

lemma runs_choose [run_intros]: "runs k m \<Longrightarrow> runs k m' \<Longrightarrow> runs k (\<lambda>io. if b io then m io else m' io)"
  by (simp add: runs_def)

lemma runs_ends_at [run_intros]: "runs k (\<lambda>io. ends (g io) (h io))"
  by (simp add: runs_def ends_def)

lemma runs_with: "runs k m \<Longrightarrow> runs k (\<lambda>io. m (f io))"
  unfolding runs_def by blast

lemma runs_writes [run_intros]:
  "runs k m \<Longrightarrow> runs k (writes f m)" "runs k m \<Longrightarrow> runs k (discard_out m)"
  "runs k m \<Longrightarrow> runs k (discard_err m)" "runs k m \<Longrightarrow> runs k (merge_err m)"
  by (simp_all add: runs_def writes_def discard_out_def discard_err_def merge_err_def)

lemma runs_if [run_intros]: "runs k m \<Longrightarrow> runs k m' \<Longrightarrow> runs k (if b then m else m')"
  by simp

lemma runs_stmts [run_intros]: "list_all (runs k) ms \<Longrightarrow> runs k (execStmts ms)"
proof (induction ms)
  case (Cons m ms)
  then show ?case by (cases ms) (simp_all add: run_intros)
qed simp

lemma runs_isolated [run_intros]: "list_all (runs k) ms \<Longrightarrow> runs k (execIsolated ms)"
  unfolding execIsolated_def by (intro run_intros)

lemma runs_stmt [run_intros]: "pred_option (runs k) c \<Longrightarrow> runs k (execStmt neg c)"
  unfolding execStmt_def Let_def by (cases c) (simp_all add: run_intros)

lemma runs_pipe: "runs k x \<Longrightarrow> runs k (orPanic y) \<Longrightarrow> runs k (pipe route x y)"
  using runs_isolated [of k "[x]"] runs_isolated [of k "[orPanic y]"]
  by (auto simp: runs_def pipe_def split: prod.split)

lemma runs_binary [run_intros]: "runs k x \<Longrightarrow> runs k (orPanic y) \<Longrightarrow> runs k (execBinary opr x y)"
  by (cases opr) (simp_all add: execBinary_def runs_pipe run_intros)

lemma runs_orPanic: "(y = None \<Longrightarrow> \<not> k) \<Longrightarrow> pred_option (runs k) y \<Longrightarrow> runs k (orPanic y)"
  by (cases y) (simp_all add: orPanic_def runs_def)

lemma runs_execIf [run_intros]:
  assumes "list_all (runs k) c" "list_all (runs k) b" "pred_option (runs k) e"
  shows "runs k (execIf c b e)"
proof -
  have "runs k (\<lambda>io. case e of Some m \<Rightarrow> m io | None \<Rightarrow> ends 0 io)"
    using assms(3) by (cases e) (simp_all add: runs_def ends_def)
  then show ?thesis
    unfolding execIf_def by (intro run_intros assms)
qed

lemma runs_turns: "runs k c \<Longrightarrow> runs k b \<Longrightarrow> runs k (while_turns n u c b code)"
proof (induction n arbitrary: code)
  case (Suc n)
  then show ?case by (subst while_turns.simps) (simp add: run_intros)
qed (simp add: while_turns.simps)

lemma runs_while [run_intros]: "list_all (runs k) c \<Longrightarrow> list_all (runs k) b \<Longrightarrow> runs k (execWhile u c b)"
  unfolding execWhile_def by (intro runs_turns runs_writes runs_stmts)

lemma runs_for_turns: "runs k b \<Longrightarrow> runs k (for_turns x b code ws)"
proof (induction ws arbitrary: code)
  case (Cons w ws)
  have "runs k (\<lambda>io. after b (\<lambda>c io. if exiting io then ends c io else for_turns x b c ws io) (with_shell (SetEnv x w) io))"
    by (rule runs_with) (intro run_intros Cons)
  then show ?case by simp
qed simp

lemma expands_all [run_intros]: "list_all (expands k) es \<Longrightarrow> expands k (expandAll es)"
  unfolding expands_def by (induction es) (auto split: prod.split)

lemma runs_expanding [run_intros]: "expands k e \<Longrightarrow> (\<And>x. runs k (f x)) \<Longrightarrow> runs k (expanding e f)"
  by (auto simp: runs_def expanding_def expands_def split: prod.split)

lemma runs_for [run_intros]: "list_all (expands k) es \<Longrightarrow> list_all (runs k) b \<Longrightarrow> runs k (execFor x es b)"
  unfolding execFor_def by (intro run_intros runs_for_turns)

lemma runs_time [run_intros]: "runs k m \<Longrightarrow> runs k (execTime W m)"
  by (auto simp: runs_def execTime_def after_def split: prod.split)

text \<open>Every registered command keeps the outcome.\<close>

definition commands_run :: "bool \<Rightarrow> 's world \<Rightarrow> bool" where
  "commands_run k W \<longleftrightarrow> (\<forall>name cmd args. wo_Registry W name = Some cmd \<longrightarrow> runs k (cmd args))"

lemma runs_exit_call [run_intros]: "runs k (exit_call name args)"
  by (auto simp: runs_def exit_call_def ends_def sends_def Let_def split: list.split option.split)

lemma runs_execArgs [run_intros]:
  assumes "commands_run k W"
  shows "runs k (execArgs W args)"
proof -
  have "avoids k (exit_call name as io)" "wo_Registry W name = Some cmd \<Longrightarrow> avoids k (cmd as io)" for name as cmd io
    using runsD [OF runs_exit_call] runsD assms unfolding commands_run_def by blast+
  then show ?thesis
    by (auto simp: runs_def execArgs_def ends_def sends_def notFound_def split: list.split option.split)
qed

definition parts_expand :: "bool \<Rightarrow> ('a \<times> 's expand) list \<Rightarrow> bool" where
  "parts_expand k ps \<longleftrightarrow> (\<forall>p \<in> set ps. expands k (snd p))"

lemma parts_expand_simps [simp]:
  "parts_expand k []" "parts_expand k (p # ps) \<longleftrightarrow> expands k (snd p) \<and> parts_expand k ps"
  by (simp_all add: parts_expand_def)

lemma expands_assigns [run_intros]: "parts_expand k as \<Longrightarrow> expands k (assignAll as)"
  unfolding expands_def
proof (intro allI)
  fix sh assume "parts_expand k as"
  then show "avoids k (assignAll as sh)"
    by (induction "as" arbitrary: sh) (auto simp: expands_def split: prod.split)
qed

lemma runs_stdin [run_intros]: "runs k m \<Longrightarrow> runs k (with_stdin inp m)"
  by (cases inp) (simp_all add: runs_def with_stdin_def)

lemma runs_inner [run_intros]:
  assumes "commands_run k W" "parts_expand k as" "list_all (expands k) ws"
  shows "runs k (execCallInner W as ws hds m)"
  using assms by (auto simp: execCallInner_def intro!: run_intros)

lemma runs_commit: "runs k (commit W target data app)"
  by (simp add: runs_def commit_def split: prod.split)

lemma runs_denied: "runs k (redirectDenied W target)"
  by (auto simp: runs_def redirectDenied_def Let_def sends_def split: option.split)

lemma runs_redirected [run_intros]:
  assumes "expands k e" "runs k m"
  shows "runs k (execRedirected W e app stderr m)"
proof -
  have "avoids k (commit W t d a io)" for t d a io by (rule runsD [OF runs_commit])
  then have "runs k (\<lambda>io. andThen (m io) (\<lambda>(c, out, io).
            map_outcome (\<lambda>(c', out', io). (if c' \<noteq> 0 then c' else c, filter (\<lambda>k. \<not> is_err k) out @ out', io))
              (commit W target (errs out) app io)))"
    "runs k (\<lambda>io. andThen (m io) (\<lambda>(c, out, io).
            if c \<noteq> 0 then Returns (c, filter is_err out, io)
            else map_outcome (apsnd (apfst ((@) (filter is_err out)))) (commit W target (outs out) app io)))" for target
    using assms(2) by (auto simp: runs_def split: prod.split)
  then show ?thesis
    unfolding execRedirected_def using assms by (intro run_intros runs_denied) simp_all
qed

lemma runs_call [run_intros]:
  assumes "commands_run k W" "parts_expand k as" "list_all (expands k) ws" "pred_option (expands k \<circ> fst) r"
  shows "runs k (execCall W as ws hds m r)"
  using assms by (cases r) (auto simp: execCall_def intro!: run_intros)

lemma runs_decl [run_intros]:
  assumes "commands_run k W" "list_all (pred_option (expands k) \<circ> snd) as"
  shows "runs k (execDecl W name as)"
proof -
  have "expands k (declArg a)" if "pred_option (expands k) (snd a)" for a
    using that by (cases a; cases "snd a") (auto simp: declArg_def expands_def)
  then have "list_all (expands k) (map declArg as)" using assms(2) by (auto simp: list_all_iff)
  moreover have "parts_expand k (declAssigns as)"
    using assms(2) by (induction "as") (auto simp: declAssigns_def split: option.split)
  ultimately show ?thesis
    using assms(1) unfolding execDecl_def commands_run_def
    by (cases "wo_Registry W name") (auto intro!: run_intros)
qed

lemma runs_test [run_intros]:
  assumes "commands_run k W" "list_all (expands k) ws"
  shows "runs k (execTestClause W ws)"
  using assms unfolding execTestClause_def commands_run_def
  by (cases "wo_Registry W ''test''") (auto intro!: run_intros)

subsection \<open>Expansions end\<close>

lemma expands_Returns [run_intros, simp]: "expands k (\<lambda>sh. Returns (f sh, g sh))"
  by (simp add: expands_def)

lemma expands_concat [run_intros]: "list_all (expands k) es \<Longrightarrow> expands k (expandConcat es)"
  unfolding expands_def
proof (intro allI)
  fix sh assume "list_all (\<lambda>e. \<forall>sh. avoids k (e sh)) es"
  then show "avoids k (expandConcat es sh)" by (induction es arbitrary: sh) (auto split: prod.split)
qed

lemma expands_tilde [run_intros]: "expands k (snd p) \<Longrightarrow> expands k (tildePart p)"
  by (simp add: expands_def tildePart_def)

lemma expands_word [run_intros]: "parts_expand k ps \<Longrightarrow> expands k (expandWord ps)"
  unfolding expandWord_def by (cases ps) (auto intro!: run_intros simp: list_all_iff parts_expand_def)

lemma globParts_avoids: "parts_expand k ps \<Longrightarrow> avoids k (globParts W split ps g sh)"
proof (induction ps arbitrary: g sh)
  case (Cons p ps)
  then show ?case by (cases p) (auto simp: expands_def split: prod.split)
qed simp

lemma expands_glob [run_intros]: "parts_expand k ps \<Longrightarrow> expands k (expandGlobWords W split ps)"
proof -
  assume "parts_expand k ps"
  then have "parts_expand k (case ps of [] \<Rightarrow> [] | p # ps \<Rightarrow> (fst p, tildePart p) # ps)"
    by (cases ps) (auto intro: expands_tilde)
  from globParts_avoids [OF this] show ?thesis by (simp add: expands_def expandGlobWords_def)
qed

lemma expands_param [run_intros]: "pred_option (expands k \<circ> snd) e \<Longrightarrow> expands k (expandParam name len e)"
  by (cases e) (auto simp: expands_def expandParam_def Let_def)

lemma expands_substitute [run_intros]: "list_all (runs k) ms \<Longrightarrow> expands k (substitute ms)"
  using runs_isolated [of k ms] by (auto simp: expands_def substitute_def runs_def)

subsection \<open>Trees\<close>

text \<open>A tree without a \<open>&&\<close> or \<open>||\<close> that lacks its right operand.\<close>

fun full_part :: "wordPart \<Rightarrow> bool"
  and full_word :: "Shell_Ast.word \<Rightarrow> bool"
  and full_stmt :: "stmt \<Rightarrow> bool"
  and full_if :: "ifClause \<Rightarrow> bool"
  and full_assign :: "assign \<Rightarrow> bool"
  and full_cmd :: "command \<Rightarrow> bool"
where
  "full_part (Lit v) = True"
| "full_part (Escaped v) = True"
| "full_part (SglQuoted v) = True"
| "full_part (DblQuoted ps) = list_all full_part ps"
| "full_part (ParamExp x len e) = (case e of None \<Rightarrow> True | Some (Expansion opr w) \<Rightarrow> full_word w)"
| "full_part (CmdSubst ss) = list_all full_stmt ss"
| "full_word (Word ps) = list_all full_part ps"
| "full_stmt (Stmt neg c) = (case c of None \<Rightarrow> True | Some c \<Rightarrow> full_cmd c)"
| "full_if (IfClause cond thn els) =
     (list_all full_stmt cond \<and> list_all full_stmt thn \<and> (case els of None \<Rightarrow> True | Some i \<Rightarrow> full_if i))"
| "full_assign (Assign x v naked) = (case v of None \<Rightarrow> True | Some w \<Rightarrow> full_word w)"
| "full_cmd (CallExpr as ws hds m r) =
     (list_all full_assign as \<and> list_all full_word ws
      \<and> (case r of None \<Rightarrow> True | Some (Redirect w app stderr) \<Rightarrow> full_word w))"
| "full_cmd (BinaryCmd opr x y) = (full_stmt x \<and> (case y of None \<Rightarrow> False | Some y \<Rightarrow> full_stmt y))"
| "full_cmd (Subshell ss) = list_all full_stmt ss"
| "full_cmd (Block ss) = list_all full_stmt ss"
| "full_cmd (IfCmd i) = full_if i"
| "full_cmd (WhileClause u cond body) = (list_all full_stmt cond \<and> list_all full_stmt body)"
| "full_cmd (ForClause x ws body) = (list_all full_word ws \<and> list_all full_stmt body)"
| "full_cmd (DeclClause x as) = list_all full_assign as"
| "full_cmd (TestClause ws) = list_all full_word ws"
| "full_cmd (TimeClause st) = full_stmt st"
| "full_cmd LetClause = True"
| "full_cmd ArithmCmd = True"

lemma list_allI: "(\<And>x. x \<in> set xs \<Longrightarrow> P x) \<Longrightarrow> list_all P xs"
  by (simp add: list_all_iff)

lemma trees_run:
  assumes W: "commands_run k W"
  shows "(k \<longrightarrow> full_part p) \<Longrightarrow> expands k (runPart W p)"
    and "(k \<longrightarrow> full_word w) \<Longrightarrow> parts_expand k (runWord W w)"
    and "(k \<longrightarrow> full_stmt st) \<Longrightarrow> runs k (runStmt W st)"
    and "(k \<longrightarrow> full_if i) \<Longrightarrow> runs k (runIf W i)"
    and "(k \<longrightarrow> full_cmd c) \<Longrightarrow> runs k (runCmd W c)"
  using W
proof (induction W p and W w and W st and W i and W c rule: runPart_runWord_runStmt_runIf_runCmd.induct)
  case (5 W n len exp)
  then show ?case
    by (cases exp) (auto intro!: run_intros split: expansion.splits)
next
  case (8 W neg cmd)
  then show ?case by (cases cmd) (auto intro!: run_intros)
next
  case (9 W cond thn els)
  then show ?case by (cases els) (auto simp: list_all_iff intro!: run_intros)
next
  case (10 W as ws hds mergeStderr redir)
  have "expands k (case v of Some w \<Rightarrow> expandWord (runWord W w) | None \<Rightarrow> (\<lambda>sh. Returns ([], sh)))"
    if "Assign x v naked \<in> set as" for x v naked
    using that 10 by (cases v) (force simp: list_all_iff intro!: run_intros)+
  moreover have "pred_option (expands k \<circ> fst)
      (map_option (\<lambda>r. case r of Redirect w app stderr \<Rightarrow> (expandWord (runWord W w), app, stderr)) redir)"
    using 10 by (cases redir) (auto intro!: run_intros split: redirect.splits)
  ultimately show ?case
    using 10 by (auto simp: list_all_iff parts_expand_def intro!: run_intros split: assign.splits)
next
  case (11 W opr x y)
  then show ?case by (cases y) (auto intro!: run_intros runs_orPanic)
next
  case (17 W name as)
  have "pred_option (expands k) (if naked then None else map_option (\<lambda>w. expandWord (runWord W w)) v)"
    if "Assign x v naked \<in> set as" for x v naked
    using that 17 by (cases v) (force simp: list_all_iff intro!: run_intros)+
  then have "pred_option (expands k) (snd (case a of Assign n v naked \<Rightarrow>
      (n, if naked then None else map_option (\<lambda>w. expandWord (runWord W w)) v)))" if "a \<in> set as" for a
    using that by (cases a) (simp del: if_split)
  then have "list_all (pred_option (expands k) \<circ> snd) (map (\<lambda>a. case a of Assign n v naked \<Rightarrow>
      (n, if naked then None else map_option (\<lambda>w. expandWord (runWord W w)) v)) as)"
    by (intro list_allI) auto
  from runs_decl [OF 17(3) this] show ?case by simp
qed (auto simp: list_all_iff parts_expand_def intro!: run_intros)

subsection \<open>Lines\<close>

lemma commands_run_heredocs [simp]: "commands_run k (W\<lparr>wo_heredocs := h\<rparr>) \<longleftrightarrow> commands_run k W"
  by (simp add: commands_run_def)

lemma runs_line:
  assumes "commands_run k W" "avoids k (Parse (TrimSpace line))"
    and "\<And>ss heap. Parse (TrimSpace line) = Returns (ss, heap) \<Longrightarrow> k \<Longrightarrow> list_all full_stmt ss"
  shows "avoids k (execLine W line io)"
proof (cases "Parse (TrimSpace line)")
  case (Returns p)
  obtain ss heap where p: "p = (ss, heap)" by (cases p)
  let ?W = "W\<lparr>wo_heredocs := heap\<rparr>"
  have "list_all (runs k) (map (runStmt ?W) ss)"
    using assms(1,3) Returns p by (auto simp: list_all_iff intro!: trees_run)
  then have "avoids k (execStmts (map (runStmt ?W) ss) io)" for io
    by (intro runsD [OF runs_stmts])
  with Returns p show ?thesis by (simp add: execLine_def Let_def ends_def)
qed (use assms(2) in \<open>auto simp: execLine_def Let_def ends_def sends_def\<close>)

text \<open>
  C36. A line ends if the registered commands do, whatever its loops and substitutions.
\<close>

theorem line_ends:
  assumes "commands_run False W"
  shows "execLine W line io \<noteq> Unfinished"
proof -
  have "avoids False (Parse (TrimSpace line))"
    using ending.parse_file_avoids [of "TrimSpace line" "length (TrimSpace line) + 2" "[]"] by (simp add: Parse_def)
  with assms have "avoids False (execLine W line io)" by (intro runs_line) simp_all
  then show ?thesis by auto
qed

text \<open>A small surrounding: \<open>echo\<close>, \<open>cat\<close>, \<open>true\<close> and a filesystem that takes every write.\<close>

definition sample_registry :: "string \<Rightarrow> (string list \<Rightarrow> 's run) option" where
  "sample_registry =
     [''echo'' \<mapsto> (\<lambda>args. sends 0 [Out (Fprintln (concat args))]),
      ''cat'' \<mapsto> (\<lambda>args io. Returns (0, [Out (case snd io of Some s \<Rightarrow> s | None \<Rightarrow> [])], io)),
      ''true'' \<mapsto> (\<lambda>args. ends 0)]"

definition sample_world :: "unit world" where
  "sample_world =
     \<lparr>wo_Registry = sample_registry, wo_allowedActions = None, wo_actionAuthorizer = None,
      wo_actionDeniedMessage = [], wo_writeDenialReason = None,
      wo_ReadDir = (\<lambda>d s. (Inr [], s)), wo_WriteFileMsg = (\<lambda>t d a sh. (0, [], sh)),
      wo_elapsed = (\<lambda>sh. ''0s''), wo_heredocs = []\<rparr>"

definition sample_io :: "unit io" where
  "sample_io =
     (\<lparr>sh_fs = (), sh_cwd = ''/'', sh_env = (\<lambda>x. None), sh_lastExit = 0, sh_exitRequested = False\<rparr>, None)"

lemma sample_commands_run: "commands_run k sample_world"
  by (auto simp: commands_run_def sample_world_def sample_registry_def runs_def sends_def ends_def)

theorem line_ends_witness: "execLine sample_world ''while true; do echo a; done'' sample_io \<noteq> Unfinished"
  using line_ends [OF sample_commands_run] .

text \<open>
  C38. A line without a backslash and without a double bracket whose conditional lists have all their
  operands does not panic if the registered commands do not.
\<close>

theorem line_does_not_panic:
  assumes "commands_run True W" "BS \<notin> set line" "\<not> sublist ''(('' line"
    and "\<And>ss heap. Parse (TrimSpace line) = Returns (ss, heap) \<Longrightarrow> list_all full_stmt ss"
  shows "execLine W line io \<noteq> Panics"
proof -
  have "plain (TrimSpace line)"
    using assms(2,3) by (intro plain_sublist [OF TrimSpace_sublist]) (simp add: plain_def)
  then have "avoids True (Parse (TrimSpace line))"
    using unpanicked.parse_file_avoids [of "TrimSpace line" "length (TrimSpace line) + 2" "[]"] by (simp add: Parse_def)
  with assms(1,4) have "avoids True (execLine W line io)" by (intro runs_line) simp_all
  then show ?thesis by auto
qed

theorem line_does_not_panic_witness: "execLine sample_world ''echo a | cat && echo b'' sample_io \<noteq> Panics"
proof (rule line_does_not_panic [OF sample_commands_run])
  show "BS \<notin> set ''echo a | cat && echo b''" "\<not> sublist ''(('' ''echo a | cat && echo b''"
    by (simp_all add: sublist_Cons_right)
  fix ss heap
  have "case Parse (TrimSpace ''echo a | cat && echo b'') of Returns (ss, heap) \<Rightarrow> list_all full_stmt ss | _ \<Rightarrow> True"
    by code_simp
  then show "list_all full_stmt ss" if "Parse (TrimSpace ''echo a | cat && echo b'') = Returns (ss, heap)"
    using that by simp
qed

text \<open>The operand is needed: a line that ends in \<open>&&\<close> is accepted, and the missing statement is read.\<close>

lemma hanging_operand_panics: "execLine sample_world ''true &&'' sample_io = Panics"
proof -
  have "case execLine sample_world ''true &&'' sample_io of Panics \<Rightarrow> True | _ \<Rightarrow> False" by code_simp
  then show ?thesis by (auto split: outcome.splits)
qed

end
