(* ===== verification/Shell_Wellformed.thy ===== *)
theory Shell_Wellformed
  imports Shell_Parser
begin

text \<open>
  What the parser's trees look like, whatever the source: the shape that the interpreter relies on.
  A word has a part; a call has an argument or an assignment; the assignments of a call have a
  name of the shell's alphabet and a value; a declaration is by one of the four keywords, and its
  arguments are bare names or have a value; the right operand of a pipe is there; an expansion
  with an operator asks for no length; and a here-document refers to one that has been allocated.
  The right operand of \<open>&&\<close> and \<open>||\<close> may be missing.
\<close>

definition call_assign :: "assign \<Rightarrow> bool" where
  "call_assign a \<longleftrightarrow> \<not> as_Naked a \<and> isNameStart (hd (as_Name a)) \<and> isValidName (as_Name a)"

fun wf_part :: "nat \<Rightarrow> wordPart \<Rightarrow> bool"
  and wf_word :: "nat \<Rightarrow> word \<Rightarrow> bool"
  and wf_stmt :: "nat \<Rightarrow> stmt \<Rightarrow> bool"
  and wf_if :: "nat \<Rightarrow> ifClause \<Rightarrow> bool"
  and wf_assign :: "nat \<Rightarrow> assign \<Rightarrow> bool"
  and wf_redirect :: "nat \<Rightarrow> redirect \<Rightarrow> bool"
  and wf_cmd :: "nat \<Rightarrow> command \<Rightarrow> bool"
where
  "wf_part n (Lit v) = True"
| "wf_part n (Escaped v) = True"
| "wf_part n (SglQuoted v) = True"
| "wf_part n (DblQuoted ps) = list_all (wf_part n) ps"
| "wf_part n (ParamExp x len e) = (case e of None \<Rightarrow> True | Some (Expansion opr w) \<Rightarrow> \<not> len \<and> wf_word n w)"
| "wf_part n (CmdSubst ss) = list_all (wf_stmt n) ss"
| "wf_word n (Word ps) = (ps \<noteq> [] \<and> list_all (wf_part n) ps)"
| "wf_stmt n (Stmt neg c) = (case c of None \<Rightarrow> True | Some c \<Rightarrow> wf_cmd n c)"
| "wf_if n (IfClause cond thn els) =
     (list_all (wf_stmt n) cond \<and> list_all (wf_stmt n) thn \<and> (case els of None \<Rightarrow> True | Some i \<Rightarrow> wf_if n i))"
| "wf_assign n (Assign x v naked) = (case v of None \<Rightarrow> naked | Some w \<Rightarrow> \<not> naked \<and> x \<noteq> [] \<and> wf_word n w)"
| "wf_redirect n (Redirect w app stderr) = wf_word n w"
| "wf_cmd n (CallExpr as ws hds m r) =
     ((as \<noteq> [] \<or> ws \<noteq> []) \<and> list_all call_assign as \<and> list_all (wf_assign n) as
      \<and> list_all (wf_word n) ws \<and> list_all (\<lambda>i. i < n) hds
      \<and> (case r of None \<Rightarrow> True | Some r \<Rightarrow> wf_redirect n r))"
| "wf_cmd n (BinaryCmd opr x y) =
     (wf_stmt n x \<and> (case y of None \<Rightarrow> opr = AndStmt \<or> opr = OrStmt | Some y \<Rightarrow> wf_stmt n y))"
| "wf_cmd n (Subshell ss) = list_all (wf_stmt n) ss"
| "wf_cmd n (Block ss) = list_all (wf_stmt n) ss"
| "wf_cmd n (IfCmd i) = wf_if n i"
| "wf_cmd n (WhileClause u cond body) = (list_all (wf_stmt n) cond \<and> list_all (wf_stmt n) body)"
| "wf_cmd n (ForClause x ws body) = (list_all (wf_word n) ws \<and> list_all (wf_stmt n) body)"
| "wf_cmd n (DeclClause x as) = (x \<in> declKeywords \<and> list_all (wf_assign n) as)"
| "wf_cmd n (TestClause ws) = list_all (wf_word n) ws"
| "wf_cmd n (TimeClause st) = wf_stmt n st"
| "wf_cmd n LetClause = True"
| "wf_cmd n ArithmCmd = True"

text \<open>Allocating more here-documents keeps a tree well-formed.\<close>

lemma wf_mono:
  "wf_part n p \<Longrightarrow> n \<le> m \<Longrightarrow> wf_part m p"
  "wf_word n w \<Longrightarrow> n \<le> m \<Longrightarrow> wf_word m w"
  "wf_stmt n st \<Longrightarrow> n \<le> m \<Longrightarrow> wf_stmt m st"
  "wf_if n i \<Longrightarrow> n \<le> m \<Longrightarrow> wf_if m i"
  "wf_assign n a \<Longrightarrow> n \<le> m \<Longrightarrow> wf_assign m a"
  "wf_redirect n r \<Longrightarrow> n \<le> m \<Longrightarrow> wf_redirect m r"
  "wf_cmd n c \<Longrightarrow> n \<le> m \<Longrightarrow> wf_cmd m c"
  by (induction n p and n w and n st and n i and n a and n r and n c
      rule: wf_part_wf_word_wf_stmt_wf_if_wf_assign_wf_redirect_wf_cmd.induct)
     (auto simp: list_all_iff split: option.splits expansion.splits)

subsection \<open>What a step of the parser gives\<close>

text \<open>
  The heap of here-documents only grows, and a token of one refers into it. A result is judged
  against the heap at the end of the step.
\<close>

definition hl :: "tokenizer \<Rightarrow> nat" where
  "hl t = length (tz_heap t)"

definition sound_tok :: "nat \<Rightarrow> token \<Rightarrow> bool" where
  "sound_tok n c \<longleftrightarrow> (tk_kind c = tokHeredoc \<longrightarrow> (\<exists>i. tk_hd c = Some i \<and> i < n))"

definition sound :: "tokenizer \<Rightarrow> bool" where
  "sound t \<longleftrightarrow> (\<forall>c. tz_peeked t = Some c \<longrightarrow> sound_tok (hl t) c)"

lemma sound_tok_mono: "sound_tok n c \<Longrightarrow> n \<le> m \<Longrightarrow> sound_tok m c"
  by (auto simp: sound_tok_def)

definition gives :: "nat \<Rightarrow> (nat \<Rightarrow> 'a \<Rightarrow> bool) \<Rightarrow> ('a \<times> tokenizer) outcome \<Rightarrow> bool" where
  "gives n Q m \<longleftrightarrow> (\<forall>x t. m = Returns (x, t) \<longrightarrow> n \<le> hl t \<and> sound t \<and> Q (hl t) x)"

definition goes :: "nat \<Rightarrow> tokenizer outcome \<Rightarrow> bool" where
  "goes n m \<longleftrightarrow> (\<forall>t. m = Returns t \<longrightarrow> n \<le> hl t \<and> sound t)"

lemma gives_simps [simp]:
  "gives n Q (Returns (x, t)) \<longleftrightarrow> n \<le> hl t \<and> sound t \<and> Q (hl t) x"
  "gives n Q (Fails e)" "gives n Q Panics" "gives n Q Unfinished"
  "goes n (Returns t) \<longleftrightarrow> n \<le> hl t \<and> sound t"
  "goes n (Fails e)" "goes n Panics" "goes n Unfinished"
  by (simp_all add: gives_def goes_def)

lemma gives_if [simp]: "gives n Q (if b then m else m') \<longleftrightarrow> (b \<longrightarrow> gives n Q m) \<and> (\<not> b \<longrightarrow> gives n Q m')"
  by simp

lemma gives_map: "gives n (\<lambda>m x. Q m (f x)) m \<Longrightarrow> gives n Q (map_outcome (apfst f) m)"
  by (auto simp: gives_def map_outcome_Returns)

lemma goes_snd: "gives n Q m \<Longrightarrow> goes n (map_outcome snd m)"
  by (auto simp: gives_def goes_def map_outcome_Returns)

lemma gives_weaken: "gives n Q m \<Longrightarrow> (\<And>m x. n \<le> m \<Longrightarrow> Q m x \<Longrightarrow> Q' m x) \<Longrightarrow> n' \<le> n \<Longrightarrow> gives n' Q' m"
  by (force simp: gives_def)

lemma gives_bind:
  assumes "gives n Q' m" "\<And>x t. m = Returns (x, t) \<Longrightarrow> n \<le> hl t \<Longrightarrow> sound t \<Longrightarrow> Q' (hl t) x \<Longrightarrow> gives n Q (f x t)"
  shows "gives n Q (andThen m (\<lambda>(x, t). f x t))"
  using assms unfolding gives_def by (simp add: andThen_Returns_iff) blast

lemma goes_bind:
  assumes "goes n m" "\<And>t. n \<le> hl t \<Longrightarrow> sound t \<Longrightarrow> gives n Q (f t)"
  shows "gives n Q (andThen m f)"
  using assms unfolding gives_def goes_def by (simp add: andThen_Returns_iff) blast

lemma bind_goes:
  assumes "gives n Q' m" "\<And>x t. m = Returns (x, t) \<Longrightarrow> n \<le> hl t \<Longrightarrow> sound t \<Longrightarrow> Q' (hl t) x \<Longrightarrow> goes n (f x t)"
  shows "goes n (andThen m (\<lambda>(x, t). f x t))"
  using assms unfolding gives_def goes_def by (simp add: andThen_Returns_iff) blast

lemma goes_goes:
  assumes "goes n m" "\<And>t. n \<le> hl t \<Longrightarrow> sound t \<Longrightarrow> goes n (f t)"
  shows "goes n (andThen m f)"
  using assms unfolding goes_def by (simp add: andThen_Returns_iff) blast

subsection \<open>Tokens\<close>

lemma drainPending_heap: "length (lx_heap (drainPending is lx)) = length (lx_heap lx)"
  by (induction "is" lx rule: drainPending.induct) (auto simp: Let_def split: prod.splits)

text \<open>What a lexer's result refers to.\<close>

definition refers :: "nat \<Rightarrow> (token \<times> lexer) outcome \<Rightarrow> bool" where
  "refers n m \<longleftrightarrow> (\<forall>c lx. m = Returns (c, lx) \<longrightarrow> n \<le> length (lx_heap lx) \<and> sound_tok (length (lx_heap lx)) c)"

lemma refers_if [simp]: "refers n (if b then m else m') \<longleftrightarrow> (b \<longrightarrow> refers n m) \<and> (\<not> b \<longrightarrow> refers n m')"
  by simp

lemma refers_emit: "tk_kind c \<noteq> tokHeredoc \<Longrightarrow> n \<le> length (lx_heap lx) \<Longrightarrow> refers n (Returns (c, lx))"
  by (simp add: refers_def sound_tok_def)

lemma scanWord_kind: "scanWord sb s = Returns (c, rest) \<Longrightarrow> tk_kind c \<noteq> tokHeredoc"
  by (induction sb s rule: scanWord.induct)
     (auto simp: andThen_Returns_iff mergeToken_def split: if_splits)

lemma refers_word:
  "n \<le> length (lx_heap lx) \<Longrightarrow> refers n (map_outcome (apsnd (\<lambda>rest. lx\<lparr>lx_src := rest\<rparr>)) (scanWord sb s))"
  by (auto simp: refers_def map_outcome_Returns sound_tok_def dest: scanWord_kind)

lemma refers_arith:
  "n \<le> length (lx_heap lx) \<Longrightarrow> refers n (map_outcome (\<lambda>rest. (tokVal tokWord v, lx\<lparr>lx_src := rest\<rparr>)) m)"
  by (auto simp: refers_def map_outcome_Returns sound_tok_def)

lemma refers_opener: "n \<le> length (lx_heap lx) \<Longrightarrow> refers n (Returns (scanHeredocOpener lx))"
  by (auto simp: refers_def scanHeredocOpener_def Let_def sound_tok_def)

lemma lexNext_refers: "refers (length (lx_heap lx)) (lexNext lx)"
proof (cases "skipComment (skipSpaces (lx_src lx))")
  case Nil
  then show ?thesis by (simp add: lexNext_def refers_def sound_tok_def)
next
  case (Cons c r)
  show ?thesis
    unfolding lexNext_def Let_def Cons list.case
    by (intro conjI impI refers_if [THEN iffD2] refers_emit refers_opener refers_word refers_arith)
       (simp_all add: drainHeredocs_def drainPending_heap)
qed

lemma gives_peek: "sound t \<Longrightarrow> n \<le> hl t \<Longrightarrow> gives n sound_tok (tzPeek t)"
  using lexNext_refers [of "tz_lex t"]
  by (auto simp: gives_def tzPeek_def sound_def refers_def hl_def tz_heap_def map_outcome_Returns split: option.splits)

lemma gives_next: "sound t \<Longrightarrow> n \<le> hl t \<Longrightarrow> gives n sound_tok (tzNext t)"
  using lexNext_refers [of "tz_lex t"]
  by (auto simp: gives_def tzNext_def sound_def refers_def hl_def tz_heap_def map_outcome_Returns split: option.splits)

lemma skipNewlines_goes: "sound t \<Longrightarrow> n \<le> hl t \<Longrightarrow> goes n (skipNewlines t)"
proof (induction t rule: skipNewlines.induct)
  case (1 t)
  show ?case
    by (subst skipNewlines.simps)
       (use 1 in \<open>auto intro!: bind_goes [OF gives_peek] bind_goes [OF gives_next]\<close>)
qed

lemma keyword_goes: "sound t \<Longrightarrow> n \<le> hl t \<Longrightarrow> goes n (keyword w t)"
  unfolding keyword_def
  by (intro goes_goes [OF skipNewlines_goes] bind_goes [OF gives_peek])
     (auto intro: goes_snd [OF gives_next])

lemma letWords_goes: "sound t \<Longrightarrow> n \<le> hl t \<Longrightarrow> goes n (letWords t)"
proof (induction t rule: letWords.induct)
  case (1 t)
  show ?case
    by (subst letWords.simps)
       (use 1 in \<open>auto intro!: bind_goes [OF gives_peek] bind_goes [OF gives_next]\<close>)
qed

text \<open>The steps of a loop, with what they leave of the source.\<close>

lemma bind_peek:
  assumes "sound t" "n \<le> hl t"
    and "\<And>k t'. sound t' \<Longrightarrow> hl t \<le> hl t' \<Longrightarrow> sound_tok (hl t') k \<Longrightarrow> tz_peeked t' = Some k
       \<Longrightarrow> tz_size t' \<le> tz_size t \<Longrightarrow> gives n Q (f k t')"
  shows "gives n Q (andThen (tzPeek t) (\<lambda>(k, t). f k t))"
  using gives_peek [OF assms(1), of "hl t"] assms(2,3) tzPeek_reads [of t]
  by (intro gives_bind [of n "\<lambda>m k. sound_tok m k \<and> hl t \<le> m"]) (auto simp: gives_def)

lemma bind_take:
  assumes "sound t" "n \<le> hl t"
    and "\<And>k t'. sound t' \<Longrightarrow> hl t \<le> hl t' \<Longrightarrow> sound_tok (hl t') k \<Longrightarrow>
       (\<forall>c. tz_peeked t = Some c \<longrightarrow> k = c \<and> (tk_kind c \<noteq> tokEOF \<longrightarrow> tz_size t' < tz_size t)) \<Longrightarrow> gives n Q (f k t')"
  shows "gives n Q (andThen (tzNext t) (\<lambda>(k, t). f k t))"
  using gives_next [OF assms(1), of "hl t"] assms(2,3) tzNext_shorter [of t] tzNext_peeked [of t]
  by (intro gives_bind [of n "\<lambda>m k. sound_tok m k \<and> hl t \<le> m"]) (auto simp: gives_def)

subsection \<open>Words\<close>

text \<open>The parser of sources that the functions are given.\<close>

definition gives_file :: "file_parser \<Rightarrow> bool" where
  "gives_file P \<longleftrightarrow> (\<forall>b h ss h'. P b h = Returns (ss, h') \<longrightarrow> length h \<le> length h' \<and> list_all (wf_stmt (length h')) ss)"

lemma list_all_mono: "list_all P xs \<Longrightarrow> (\<And>x. P x \<Longrightarrow> Q x) \<Longrightarrow> list_all Q xs"
  by (simp add: list_all_iff)

lemma wf_parts_mono: "list_all (wf_part n) ps \<Longrightarrow> n \<le> m \<Longrightarrow> list_all (wf_part m) ps"
  by (auto intro: list_all_mono wf_mono)

lemma wf_words_mono: "list_all (wf_word n) ws \<Longrightarrow> n \<le> m \<Longrightarrow> list_all (wf_word m) ws"
  by (auto intro: list_all_mono wf_mono)

lemma wf_stmts_mono: "list_all (wf_stmt n) ss \<Longrightarrow> n \<le> m \<Longrightarrow> list_all (wf_stmt m) ss"
  by (auto intro: list_all_mono wf_mono)

lemma wf_assigns_mono: "list_all (wf_assign n) as \<Longrightarrow> n \<le> m \<Longrightarrow> list_all (wf_assign m) as"
  by (auto intro: list_all_mono wf_mono)

lemmas wf_monos = wf_mono wf_parts_mono wf_words_mono wf_stmts_mono wf_assigns_mono

lemma sound_changes [simp]:
  "hl (setErr e t) = hl t" "sound (setErr e t) = sound t" "hl (setHeap h t) = length h"
  "length h \<ge> hl t \<Longrightarrow> sound t \<Longrightarrow> sound (setHeap h t)"
  by (auto simp: hl_def tz_heap_def setErr_def sound_def setHeap_def intro: sound_tok_mono)

lemma parseSubst_gives:
  "gives_file P \<Longrightarrow> sound t \<Longrightarrow> n \<le> hl t \<Longrightarrow> gives n (\<lambda>m. list_all (wf_stmt m)) (parseSubst P b t)"
  by (cases "P b (tz_heap t)")
     (force simp: parseSubst_def gives_file_def hl_def [symmetric] split: prod.split)+

lemma wf_flush: "list_all (wf_part n) (flushLit lit parts) \<longleftrightarrow> list_all (wf_part n) parts"
  by (simp add: flushLit_def)

lemma wf_wordOf: "wf_word n (wordOf ps) \<longleftrightarrow> list_all (wf_part n) ps"
  by (simp add: wordOf_def)

lemma new_part_wf: "wordTurn dq c r = NewPart p rest \<Longrightarrow> wf_part n p"
  by (auto simp: wordTurn_def Let_def split: if_splits prod.splits option.splits)

lemma wordLoop_gives:
  assumes "gives_file P"
  shows "sound t \<Longrightarrow> n \<le> hl t \<Longrightarrow> list_all (wf_part n) parts
    \<Longrightarrow> gives n (\<lambda>m. list_all (wf_part m)) (wordLoop P dq lit parts s t)"
proof (induction s arbitrary: dq lit parts t n rule: length_induct)
  case (1 s)
  show ?case
  proof (cases s)
    case Nil
    with 1(2-) show ?thesis by (simp add: wf_flush wf_monos)
  next
    case (Cons c r)
    have IH: "gives n (\<lambda>m. list_all (wf_part m)) (wordLoop P dq lit parts s' t)"
      if "length s' \<le> length r" "sound t" "n \<le> hl t" "list_all (wf_part n) parts" for s' dq lit parts t n
      using 1(1) Cons that by simp
    have later: "gives n (\<lambda>m. list_all (wf_part m)) (wordLoop P dq [] (flushLit lit parts @ [p]) rest t')"
      if "length rest \<le> length r" "sound t'" "n \<le> hl t'" "wf_part (hl t') p" for p rest t'
      by (rule gives_weaken [OF IH [of rest t' "hl t'"]])
         (use that 1(4) in \<open>auto simp: wf_flush intro: wf_monos\<close>)
    show ?thesis
    proof (cases "wordTurn dq c r")
      case LitChar
      with IH [of r t n parts] 1(2-) Cons show ?thesis by simp
    next
      case (NewPart p rest)
      with later [of rest t p] 1(2-) Cons turn_shorter(1) [OF NewPart] new_part_wf [OF NewPart] show ?thesis by simp
    next
      case (InDouble s' rest)
      from turn_shorter(2) [OF this] have "length s' \<le> length r" "length rest \<le> length r" by simp_all
      with 1(2-) Cons InDouble show ?thesis
        by (auto intro!: gives_bind [OF IH] later)
    next
      case (InSubst b rest)
      from turn_shorter(3) [OF this] 1(2-) Cons InSubst show ?thesis
        by (auto intro!: gives_bind [OF parseSubst_gives [OF assms]] later)
    next
      case Arithmetic
      with 1(2-) Cons show ?thesis by simp
    next
      case (InExp x opr w rest)
      from turn_shorter(4) [OF this] have "length w \<le> length r" "length rest \<le> length r" by simp_all
      with 1(2-) Cons InExp show ?thesis
        by (auto intro!: gives_bind [OF IH] later simp: wf_wordOf)
    qed
  qed
qed

lemma word_gives: "gives_file P \<Longrightarrow> sound t \<Longrightarrow> n \<le> hl t \<Longrightarrow> gives n wf_word (parseWordString P v t)"
  unfolding parseWordString_def parseWordParts_def
  by (rule gives_map) (use wordLoop_gives [of P t n "[]" False "[]" v] in \<open>simp add: wf_wordOf\<close>)

subsection \<open>Loops over words\<close>

lemma bind_word:
  assumes "gives_file P" "sound t" "n \<le> hl t"
    and "\<And>w t'. sound t' \<Longrightarrow> hl t \<le> hl t' \<Longrightarrow> wf_word (hl t') w \<Longrightarrow> tz_size t' = tz_size t \<Longrightarrow> gives n Q (f w t')"
  shows "gives n Q (andThen (parseWordString P v t) (\<lambda>(w, t). f w t))"
  using word_gives [OF assms(1,2), of "hl t" v] assms(3,4) parseWordString_source [of P v t] same_source_size
  by (intro gives_bind [of n "\<lambda>m w. wf_word m w \<and> hl t \<le> m"]) (auto simp: gives_def)

lemmas loop_binds = bind_peek bind_take

lemma testWords_gives:
  assumes "gives_file P"
  shows "sound t \<Longrightarrow> n \<le> hl t \<Longrightarrow> list_all (wf_word (hl t)) ws \<Longrightarrow> gives n (\<lambda>m. list_all (wf_word m)) (testWords P ws t)"
proof (induction t arbitrary: ws rule: measure_induct_rule [where f = tz_size])
  case (less t)
  note acc = wf_words_mono [OF less(4)]
  show ?case
    by (subst testWords.simps)
       (use less(2,3) in \<open>auto intro!: loop_binds bind_word [OF assms] less(1) simp: acc\<close>)
qed

lemma forItems_gives:
  assumes "gives_file P"
  shows "sound t \<Longrightarrow> n \<le> hl t \<Longrightarrow> list_all (wf_word (hl t)) ws \<Longrightarrow> gives n (\<lambda>m. list_all (wf_word m)) (forItems P ws t)"
proof (induction t arbitrary: ws rule: measure_induct_rule [where f = tz_size])
  case (less t)
  note acc = wf_words_mono [OF less(4)]
  show ?case
    by (subst forItems.simps)
       (use less(2,3) in \<open>auto intro!: loop_binds bind_word [OF assms] less(1) simp: acc\<close>)
qed

lemma splitAssign_name: "splitAssign v = Some (x, w) \<Longrightarrow> x \<noteq> [] \<and> hd x = hd v"
  by (cases v) (auto simp: splitAssign_def Let_def split: if_splits)

lemma declArgs_gives:
  assumes "gives_file P"
  shows "sound t \<Longrightarrow> n \<le> hl t \<Longrightarrow> list_all (wf_assign (hl t)) as
    \<Longrightarrow> gives n (\<lambda>m. list_all (wf_assign m)) (declArgs P as t)"
proof (induction t arbitrary: "as" rule: measure_induct_rule [where f = tz_size])
  case (less t)
  note acc = wf_assigns_mono [OF less(4)]
  show ?case
    by (subst declArgs.simps)
       (use less(2,3) in \<open>auto intro!: loop_binds bind_word [OF assms] less(1) simp: acc splitAssign_name split: option.split\<close>)
qed

lemma isAssignment_name:
  "isAssignment v = Some (x, w) \<Longrightarrow> x \<noteq> [] \<and> isNameStart (hd x) \<and> isValidName x"
  using splitAssign_name by (fastforce simp: isAssignment_def split: option.splits if_splits)

lemma call_assign_simp [simp]:
  "call_assign (Assign x v naked) \<longleftrightarrow> \<not> naked \<and> isNameStart (hd x) \<and> isValidName x"
  by (simp add: call_assign_def)

lemma leadingAssigns_gives:
  assumes "gives_file P"
  shows "sound t \<Longrightarrow> n \<le> hl t \<Longrightarrow> list_all (wf_assign (hl t)) as \<Longrightarrow> list_all call_assign as
    \<Longrightarrow> gives n (\<lambda>m as. list_all (wf_assign m) as \<and> list_all call_assign as) (leadingAssigns P as t)"
proof (induction t arbitrary: "as" rule: measure_induct_rule [where f = tz_size])
  case (less t)
  note acc = wf_assigns_mono [OF less(4)]
  show ?case
    by (subst leadingAssigns.simps)
       (use less(2,3,5) in \<open>auto intro!: loop_binds bind_word [OF assms] less(1)
          simp: acc isAssignment_name split: option.split\<close>)
qed

definition wf_buf :: "nat \<Rightarrow> callBuf \<Rightarrow> bool" where
  "wf_buf n c \<longleftrightarrow> list_all call_assign (cb_Assigns c) \<and> list_all (wf_assign n) (cb_Assigns c)
     \<and> list_all (wf_word n) (cb_Args c) \<and> list_all (\<lambda>i. i < n) (cb_Heredocs c)
     \<and> (case cb_Redirect c of None \<Rightarrow> True | Some r \<Rightarrow> wf_redirect n r)"

lemma wf_buf_mono: "wf_buf n c \<Longrightarrow> n \<le> m \<Longrightarrow> wf_buf m c"
  using wf_assigns_mono [of n "cb_Assigns c" m] wf_words_mono [of n "cb_Args c" m] wf_mono(6) [of n _ m]
  by (auto simp: wf_buf_def list_all_iff split: option.splits)

lemma wf_finalize: "wf_buf n c \<Longrightarrow> pred_option (wf_cmd n) (finalizeCall c)"
  by (auto simp: finalizeCall_def wf_buf_def)

lemma wf_buf_changes:
  "wf_buf n c \<Longrightarrow> wf_word n w \<Longrightarrow> wf_buf n (c\<lparr>cb_Args := cb_Args c @ [w]\<rparr>)"
  "wf_buf n c \<Longrightarrow> i < n \<Longrightarrow> wf_buf n (c\<lparr>cb_Heredocs := cb_Heredocs c @ [i]\<rparr>)"
  "wf_buf n c \<Longrightarrow> wf_buf n (c\<lparr>cb_MergeStderr := b\<rparr>)"
  "wf_buf n c \<Longrightarrow> wf_word n w \<Longrightarrow> wf_buf n (c\<lparr>cb_Redirect := Some (Redirect w app stderr)\<rparr>)"
  by (simp_all add: wf_buf_def)

lemma callArgs_gives:
  assumes "gives_file P"
  shows "sound t \<Longrightarrow> n \<le> hl t \<Longrightarrow> wf_buf (hl t) c \<Longrightarrow> gives n (\<lambda>m. pred_option (wf_cmd m)) (callArgs P c t)"
proof (induction t arbitrary: c rule: measure_induct_rule [where f = tz_size])
  case (less t)
  note acc = wf_buf_mono [OF less(4)]
  have hd: "the (tk_hd k) < m" if "sound_tok m k" "tk_kind k = tokHeredoc" for k m
    using that by (auto simp: sound_tok_def)
  show ?case
    by (subst callArgs.simps)
       (use less(2,3) in \<open>auto simp: isRedirOut_def Let_def acc wf_finalize wf_buf_changes hd
          intro!: loop_binds bind_word [OF assms] less(1)\<close>)
qed

lemma parseSimpleCommand_gives:
  "gives_file P \<Longrightarrow> sound t \<Longrightarrow> n \<le> hl t \<Longrightarrow> gives n (\<lambda>m. pred_option (wf_cmd m)) (parseSimpleCommand P t)"
  unfolding parseSimpleCommand_def
  by (rule gives_bind [OF leadingAssigns_gives]) (auto intro!: callArgs_gives simp: wf_buf_def)

subsection \<open>Commands\<close>

text \<open>What a level of the parser promises.\<close>

definition gives_all :: "rec_parse \<Rightarrow> bool" where
  "gives_all R \<longleftrightarrow>
     (\<forall>stop t. sound t \<longrightarrow> gives (hl t) (\<lambda>m. list_all (wf_stmt m)) (rp_list R stop t))
     \<and> (\<forall>t. sound t \<longrightarrow> gives (hl t) wf_if (rp_if R t)) \<and> gives_file (rp_file R)"

lemma gives_all_file: "gives_all R \<Longrightarrow> gives_file (rp_file R)"
  by (simp add: gives_all_def)

text \<open>A step that ends in a tokenizer with at least the heap it started from.\<close>

lemma grow_bind:
  assumes "sound t \<Longrightarrow> gives (hl t) Q' m" "sound t" "n \<le> hl t"
    and "\<And>x t'. sound t' \<Longrightarrow> hl t \<le> hl t' \<Longrightarrow> Q' (hl t') x \<Longrightarrow> gives n Q (f x t')"
  shows "gives n Q (andThen m (\<lambda>(x, t). f x t))"
  using assms by (intro gives_bind [of n "\<lambda>m x. Q' m x \<and> hl t \<le> m"]) (auto simp: gives_def)

lemma grow_goes:
  assumes "goes (hl t) m" "n \<le> hl t"
    and "\<And>t'. sound t' \<Longrightarrow> hl t \<le> hl t' \<Longrightarrow> gives n Q (f t')"
  shows "gives n Q (andThen m f)"
  using assms unfolding gives_def goes_def by (fastforce simp: andThen_Returns_iff)

lemma bind_list:
  assumes "gives_all R" "sound t" "n \<le> hl t"
    and "\<And>ss t'. sound t' \<Longrightarrow> hl t \<le> hl t' \<Longrightarrow> list_all (wf_stmt (hl t')) ss \<Longrightarrow> gives n Q (f ss t')"
  shows "gives n Q (andThen (rp_list R stop t) (\<lambda>(ss, t). f ss t))"
  using assms by (intro grow_bind [of t "\<lambda>m. list_all (wf_stmt m)"]) (auto simp: gives_all_def)

lemma bind_if:
  assumes "gives_all R" "sound t" "n \<le> hl t"
    and "\<And>i t'. sound t' \<Longrightarrow> hl t \<le> hl t' \<Longrightarrow> wf_if (hl t') i \<Longrightarrow> gives n Q (f i t')"
  shows "gives n Q (andThen (rp_if R t) (\<lambda>(i, t). f i t))"
  using assms by (intro grow_bind [of t wf_if]) (auto simp: gives_all_def)

lemma bind_next:
  assumes "sound t" "n \<le> hl t" "\<And>k t'. sound t' \<Longrightarrow> hl t \<le> hl t' \<Longrightarrow> gives n Q (f k t')"
  shows "gives n Q (andThen (tzNext t) (\<lambda>(k, t). f k t))"
  using assms by (intro bind_take) auto

lemma bind_look:
  assumes "sound t" "n \<le> hl t" "\<And>k t'. sound t' \<Longrightarrow> hl t \<le> hl t' \<Longrightarrow> gives n Q (f k t')"
  shows "gives n Q (andThen (tzPeek t) (\<lambda>(k, t). f k t))"
  using assms by (intro bind_peek) auto

lemma bind_skip:
  assumes "sound t" "n \<le> hl t" "\<And>t'. sound t' \<Longrightarrow> hl t \<le> hl t' \<Longrightarrow> gives n Q (f t')"
  shows "gives n Q (andThen (skipNewlines t) f)"
  using assms by (intro grow_goes [of t]) (auto intro: skipNewlines_goes)

lemma bind_keyword:
  assumes "sound t" "n \<le> hl t" "\<And>t'. sound t' \<Longrightarrow> hl t \<le> hl t' \<Longrightarrow> gives n Q (f t')"
  shows "gives n Q (andThen (keyword w t) f)"
  using assms by (intro grow_goes [of t]) (auto intro: keyword_goes)

lemmas step_binds = bind_next bind_look bind_skip bind_keyword

lemma parseSubshell_gives:
  "gives_all R \<Longrightarrow> sound t \<Longrightarrow> n \<le> hl t \<Longrightarrow> gives n (\<lambda>m. pred_option (wf_cmd m)) (parseSubshell R t)"
  unfolding parseSubshell_def by (auto intro!: step_binds bind_list simp: wf_stmts_mono)

lemma parseBlock_gives:
  "gives_all R \<Longrightarrow> sound t \<Longrightarrow> n \<le> hl t \<Longrightarrow> gives n (\<lambda>m. pred_option (wf_cmd m)) (parseBlock R t)"
  unfolding parseBlock_def by (auto intro!: step_binds bind_list simp: wf_stmts_mono)

lemma bind_tests:
  assumes "gives_all R" "sound t" "n \<le> hl t"
    and "\<And>ws t'. sound t' \<Longrightarrow> hl t \<le> hl t' \<Longrightarrow> list_all (wf_word (hl t')) ws \<Longrightarrow> gives n Q (f ws t')"
  shows "gives n Q (andThen (testWords (rp_file R) [] t) (\<lambda>(ws, t). f ws t))"
  using assms by (intro grow_bind [of t "\<lambda>m. list_all (wf_word m)"]) (auto simp: gives_all_def intro: testWords_gives)

lemma parseTestClause_gives:
  "gives_all R \<Longrightarrow> sound t \<Longrightarrow> n \<le> hl t \<Longrightarrow> gives n (\<lambda>m. pred_option (wf_cmd m)) (parseTestClause R t)"
  unfolding parseTestClause_def by (auto intro!: step_binds bind_tests simp: wf_words_mono)

lemma bind_until:
  assumes "gives_all R" "sound t" "n \<le> hl t"
    and "\<And>ss t'. sound t' \<Longrightarrow> hl t \<le> hl t' \<Longrightarrow> list_all (wf_stmt (hl t')) ss \<Longrightarrow> gives n Q (f ss t')"
  shows "gives n Q (andThen (bodyUntil R w t) (\<lambda>(ss, t). f ss t))"
proof (rule grow_bind [of t "\<lambda>m. list_all (wf_stmt m)"])
  show "gives (hl t) (\<lambda>m. list_all (wf_stmt m)) (bodyUntil R w t)"
    unfolding bodyUntil_def using assms(1,2) by (auto intro!: bind_list bind_keyword simp: wf_stmts_mono)
qed (use assms(2-) in auto)

lemma bind_head:
  assumes "gives_all R" "sound t" "n \<le> hl t"
    and "\<And>c b t'. sound t' \<Longrightarrow> hl t \<le> hl t' \<Longrightarrow> list_all (wf_stmt (hl t')) c \<Longrightarrow> list_all (wf_stmt (hl t')) b
       \<Longrightarrow> gives n Q (f c b t')"
  shows "gives n Q (andThen (ifHead R t) (\<lambda>((c, b), t). f c b t))"
proof -
  have "gives (hl t) (\<lambda>m (c, b). list_all (wf_stmt m) c \<and> list_all (wf_stmt m) b) (ifHead R t)"
    unfolding ifHead_def using assms(1,2)
    by (auto intro!: step_binds bind_list bind_until simp: wf_stmts_mono)
  then show ?thesis
    using grow_bind [of t "\<lambda>m (c, b). list_all (wf_stmt m) c \<and> list_all (wf_stmt m) b" "ifHead R t" n Q "\<lambda>(c, b). f c b"] assms(2-)
    by (auto simp: case_prod_beta')
qed

lemma bind_else:
  assumes "gives_all R" "sound t" "n \<le> hl t"
    and "\<And>i t'. sound t' \<Longrightarrow> hl t \<le> hl t' \<Longrightarrow> wf_if (hl t') i \<Longrightarrow> gives n Q (f i t')"
  shows "gives n Q (andThen (parseElse R t) (\<lambda>(i, t). f i t))"
proof (rule grow_bind [of t wf_if])
  show "gives (hl t) wf_if (parseElse R t)"
    unfolding parseElse_def using assms(1,2) by (auto intro!: step_binds bind_list)
qed (use assms(2-) in auto)

lemma closeIf_gives: "sound t \<Longrightarrow> n \<le> hl t \<Longrightarrow> wf_if (hl t) i \<Longrightarrow> gives n wf_if (closeIf i t)"
  unfolding closeIf_def by (rule bind_keyword) (simp_all add: wf_mono(4) [of "hl t"])

lemma parseElif_gives:
  "gives_all R \<Longrightarrow> sound t \<Longrightarrow> n \<le> hl t \<Longrightarrow> list_all (wf_stmt (hl t)) c \<Longrightarrow> list_all (wf_stmt (hl t)) b
    \<Longrightarrow> gives n wf_if (parseElif R c b t)"
  unfolding parseElif_def
  by (auto intro!: bind_head bind_look bind_else bind_if closeIf_gives simp: wf_stmts_mono)

lemma parseIf_gives: "gives_all R \<Longrightarrow> sound t \<Longrightarrow> n \<le> hl t \<Longrightarrow> gives n wf_if (parseIf R t)"
  unfolding parseIf_def
  by (auto intro!: bind_head bind_look bind_else parseElif_gives closeIf_gives simp: wf_stmts_mono)

lemma parseWhile_gives:
  "gives_all R \<Longrightarrow> sound t \<Longrightarrow> n \<le> hl t \<Longrightarrow> gives n (\<lambda>m. pred_option (wf_cmd m)) (parseWhile R u t)"
  unfolding parseWhile_def by (auto intro!: step_binds bind_until simp: wf_stmts_mono)

lemma bind_items:
  assumes "gives_all R" "sound t" "n \<le> hl t"
    and "\<And>ws t'. sound t' \<Longrightarrow> hl t \<le> hl t' \<Longrightarrow> list_all (wf_word (hl t')) ws \<Longrightarrow> gives n Q (f ws t')"
  shows "gives n Q (andThen (if b then andThen (tzNext t) (\<lambda>(_, t). forItems (rp_file R) [] t) else Returns ([], t))
     (\<lambda>(ws, t). f ws t))"
proof (rule grow_bind [of t "\<lambda>m. list_all (wf_word m)"])
  show "gives (hl t) (\<lambda>m. list_all (wf_word m))
      (if b then andThen (tzNext t) (\<lambda>(_, t). forItems (rp_file R) [] t) else Returns ([], t))"
    using assms(1,2) by (auto intro!: bind_next forItems_gives simp: gives_all_def)
qed (use assms(2-) in auto)

lemma bind_separator:
  assumes "sound t" "n \<le> hl t" "\<And>t'. sound t' \<Longrightarrow> hl t \<le> hl t' \<Longrightarrow> gives n Q (f t')"
  shows "gives n Q (andThen (if b then map_outcome snd (tzNext t) else Returns t) f)"
  using assms by (intro grow_goes [of t]) (auto intro: goes_snd gives_next)

lemma parseFor_gives:
  "gives_all R \<Longrightarrow> sound t \<Longrightarrow> n \<le> hl t \<Longrightarrow> gives n (\<lambda>m. pred_option (wf_cmd m)) (parseFor R t)"
  unfolding parseFor_def
  by (intro step_binds bind_items bind_separator bind_until) (simp_all add: wf_stmts_mono wf_words_mono)

lemma parseDecl_gives:
  assumes "gives_all R" "sound t" "n \<le> hl t" "tz_peeked t = Some k" "tk_val k \<in> declKeywords"
  shows "gives n (\<lambda>m. pred_option (wf_cmd m)) (parseDecl R t)"
  unfolding parseDecl_def
proof (rule bind_take [OF assms(2,3)])
  fix k' t' assume t': "sound t'" "hl t \<le> hl t'"
    "\<forall>c. tz_peeked t = Some c \<longrightarrow> k' = c \<and> (tk_kind c \<noteq> tokEOF \<longrightarrow> tz_size t' < tz_size t)"
  have "gives n (\<lambda>m. list_all (wf_assign m)) (declArgs (rp_file R) [] t')"
    using t' assms(1,3) by (intro declArgs_gives) (auto simp: gives_all_def)
  then show "gives n (\<lambda>m. pred_option (wf_cmd m)) (andThen (declArgs (rp_file R) [] t') (\<lambda>(as, t).
      Returns (Some (DeclClause (tk_val k') as), t)))"
    using t'(3) assms(4,5) by (auto intro: gives_bind)
qed

lemma parseLet_gives: "sound t \<Longrightarrow> n \<le> hl t \<Longrightarrow> gives n (\<lambda>m. pred_option (wf_cmd m)) (parseLet t)"
  unfolding parseLet_def
proof (rule bind_next, assumption+)
  fix t' assume "n \<le> hl t" "sound t'" "hl t \<le> hl t'"
  then show "gives n (\<lambda>m. pred_option (wf_cmd m)) (andThen (letWords t') (\<lambda>t. Returns (Some LetClause, t)))"
    by (intro grow_goes [of t' "letWords t'"] letWords_goes) simp_all
qed

lemma parseCommand_gives:
  assumes "gives_all R" "sound t" "n \<le> hl t"
  shows "gives n (\<lambda>m. pred_option (wf_cmd m)) (parseCommand R t)"
  unfolding parseCommand_def
proof (rule bind_peek [OF assms(2,3)])
  fix k t' assume t': "sound t'" "hl t \<le> hl t'" "tz_peeked t' = Some k"
  then have n: "n \<le> hl t'" using assms(3) by simp
  have "gives n (\<lambda>m. pred_option (wf_cmd m)) (map_outcome (apfst (Some \<circ> IfCmd)) (parseIf R t'))"
    by (rule gives_map) (use parseIf_gives [OF assms(1) t'(1) n] in simp)
  with assms(1) t' n show "gives n (\<lambda>m. pred_option (wf_cmd m))
     (case tk_kind k of
         tokRedirIn \<Rightarrow> parseSimpleCommand (rp_file R) t'
       | tokLParen \<Rightarrow> parseSubshell R t'
       | tokLBrace \<Rightarrow> parseBlock R t'
       | tokDblLBracket \<Rightarrow> parseTestClause R t'
       | tokWord \<Rightarrow>
           if tk_val k = ''if'' then map_outcome (apfst (Some \<circ> IfCmd)) (parseIf R t')
           else if tk_val k = ''while'' then parseWhile R False t'
           else if tk_val k = ''until'' then parseWhile R True t'
           else if tk_val k = ''for'' then parseFor R t'
           else if tk_val k = ''let'' then parseLet t'
           else if tk_val k = ''((...))'' then andThen (tzNext t') (\<lambda>(_, t). Returns (Some ArithmCmd, t))
           else if tk_val k \<in> declKeywords then parseDecl R t'
           else parseSimpleCommand (rp_file R) t'
       | tokEOF \<Rightarrow> Returns (None, t')
       | tokSemi \<Rightarrow> Returns (None, t')
       | tokNewline \<Rightarrow> Returns (None, t')
       | _ \<Rightarrow> Fails (''unexpected token: '' @ tk_val k))"
    by (cases "tk_kind k")
       (simp_all add: gives_all_file parseSimpleCommand_gives parseSubshell_gives parseBlock_gives parseTestClause_gives
          parseWhile_gives parseFor_gives parseLet_gives parseDecl_gives bind_next)
qed

subsection \<open>Lists and sources\<close>

lemma bind_command:
  assumes "gives_all R" "sound t" "n \<le> hl t"
    and "\<And>c t'. sound t' \<Longrightarrow> hl t \<le> hl t' \<Longrightarrow> pred_option (wf_cmd (hl t')) c \<Longrightarrow> gives n Q (f c t')"
  shows "gives n Q (andThen (parseCommand R t) (\<lambda>(c, t). f c t))"
  using assms by (intro grow_bind [of t "\<lambda>m. pred_option (wf_cmd m)"]) (auto intro: parseCommand_gives)

lemma wf_stmt_command: "wf_stmt n (Stmt neg c) \<longleftrightarrow> pred_option (wf_cmd n) c"
  by (cases c) simp_all

lemma pipeLoop_gives:
  assumes "gives_all R"
  shows "sound t \<Longrightarrow> m \<le> hl t \<Longrightarrow> wf_stmt (hl t) st \<Longrightarrow> gives m wf_stmt (pipeLoop n R st t)"
proof (induction n arbitrary: st t)
  case (Suc n)
  note acc = wf_mono(3) [OF Suc.prems(3)]
  show ?case
    unfolding pipeLoop.simps using Suc.prems(1,2)
    by (auto intro!: step_binds bind_command [OF assms] Suc.IH simp: acc wf_stmt_command simp del: wf_stmt.simps)
qed simp

lemma parsePiped_gives:
  "gives_all R \<Longrightarrow> sound t \<Longrightarrow> m \<le> hl t \<Longrightarrow> gives m (\<lambda>m. pred_option (wf_stmt m)) (parsePiped n R neg time t)"
  unfolding parsePiped_def
  by (rule bind_command, assumption+)
     (auto split: option.split intro!: gives_bind [OF pipeLoop_gives])

lemma parseTimed_gives:
  "gives_all R \<Longrightarrow> sound t \<Longrightarrow> m \<le> hl t \<Longrightarrow> gives m (\<lambda>m. pred_option (wf_stmt m)) (parseTimed n R neg t)"
  unfolding parseTimed_def by (auto intro!: step_binds parsePiped_gives)

lemma parsePipeline_gives:
  "gives_all R \<Longrightarrow> sound t \<Longrightarrow> m \<le> hl t \<Longrightarrow> gives m (\<lambda>m. pred_option (wf_stmt m)) (parsePipeline n R t)"
  unfolding parsePipeline_def by (auto intro!: step_binds parseTimed_gives)

lemma bind_pipeline:
  assumes "gives_all R" "sound t" "n \<le> hl t"
    and "\<And>st t'. sound t' \<Longrightarrow> hl t \<le> hl t' \<Longrightarrow> pred_option (wf_stmt (hl t')) st \<Longrightarrow> gives n Q (f st t')"
  shows "gives n Q (andThen (parsePipeline k R t) (\<lambda>(st, t). f st t))"
  using assms by (intro grow_bind [of t "\<lambda>m. pred_option (wf_stmt m)"]) (auto intro: parsePipeline_gives)

lemma andOrLoop_gives:
  assumes "gives_all R"
  shows "sound t \<Longrightarrow> m \<le> hl t \<Longrightarrow> wf_stmt (hl t) st \<Longrightarrow> gives m wf_stmt (andOrLoop n R st t)"
proof (induction n arbitrary: st t)
  case (Suc n)
  note acc = wf_mono(3) [OF Suc.prems(3)]
  show ?case
    unfolding andOrLoop.simps using Suc.prems(1,2)
    by (auto intro!: step_binds bind_pipeline [OF assms] Suc.IH simp: acc split: option.split)
qed simp

lemma parseAndOr_gives:
  "gives_all R \<Longrightarrow> sound t \<Longrightarrow> m \<le> hl t \<Longrightarrow> gives m (\<lambda>m. pred_option (wf_stmt m)) (parseAndOr n R t)"
  unfolding parseAndOr_def
  by (rule bind_pipeline, assumption+)
     (auto split: option.split intro!: gives_map andOrLoop_gives)

lemma bind_andor:
  assumes "gives_all R" "sound t" "n \<le> hl t"
    and "\<And>st t'. sound t' \<Longrightarrow> hl t \<le> hl t' \<Longrightarrow> pred_option (wf_stmt (hl t')) st \<Longrightarrow> gives n Q (f st t')"
  shows "gives n Q (andThen (parseAndOr k R t) (\<lambda>(st, t). f st t))"
  using assms by (intro grow_bind [of t "\<lambda>m. pred_option (wf_stmt m)"]) (auto intro: parseAndOr_gives)

lemma stmtLoop_gives:
  assumes "gives_all R"
  shows "sound t \<Longrightarrow> m \<le> hl t \<Longrightarrow> list_all (wf_stmt (hl t)) acc
    \<Longrightarrow> gives m (\<lambda>m. list_all (wf_stmt m)) (stmtLoop n R stop acc t)"
proof (induction n arbitrary: acc t)
  case (Suc n)
  note acc = wf_stmts_mono [OF Suc.prems(3)]
  show ?case
    unfolding stmtLoop.simps Let_def using Suc.prems(1,2)
    by (auto intro!: step_binds bind_andor [OF assms] Suc.IH simp: acc wf_mono(3) split: option.split)
qed simp

lemma parse_gives: "gives_all \<lparr>rp_list = parse_list n, rp_if = parse_if n, rp_file = parse_file n\<rparr>"
proof (induction n)
  case 0
  then show ?case by (simp add: gives_all_def gives_file_def)
next
  case (Suc n)
  have "length h \<le> length h' \<and> list_all (wf_stmt (length h')) ss" if "parse_file (Suc n) b h = Returns (ss, h')" for b h ss h'
  proof -
    have "sound (newTokenizer b h)" "hl (newTokenizer b h) = length h"
      by (simp_all add: newTokenizer_def sound_def hl_def tz_heap_def)
    then show ?thesis
      using that stmtLoop_gives [OF Suc, of "newTokenizer b h" "length h" "[]" "Suc n" tokEOF]
      by (auto simp: parseFile_def andThen_Returns_iff gives_def hl_def split: option.splits)
  qed
  moreover have "gives (hl t) (\<lambda>m. list_all (wf_stmt m)) (parse_list (Suc n) stop t)" if "sound t" for stop t
    unfolding parse_list.simps using that by (intro stmtLoop_gives [OF Suc]) simp_all
  moreover have "gives (hl t) wf_if (parse_if (Suc n) t)" if "sound t" for t
    unfolding parse_if.simps using that by (intro parseIf_gives [OF Suc]) simp_all
  ultimately show ?case
    unfolding gives_all_def rec_parse.select_convs gives_file_def by blast
qed

text \<open>
  C39. Whatever the source, the tree that the parser returns is well-formed, and the here-documents
  it refers to have been allocated.
\<close>

theorem parsed_trees_well_formed:
  assumes "Parse src = Returns (ss, heap)"
  shows "list_all (wf_stmt (length heap)) ss"
  using parse_gives [of "length src + 2"] assms unfolding Parse_def gives_all_def gives_file_def by auto

theorem parsed_trees_well_formed_witness:
  "\<exists>ss heap. Parse ''cat a | tee b && X=1'' = Returns (ss, heap) \<and> list_all (wf_stmt (length heap)) ss"
proof -
  have "case Parse ''cat a | tee b && X=1'' of Returns _ \<Rightarrow> True | _ \<Rightarrow> False" by code_simp
  then have "\<exists>ss heap. Parse ''cat a | tee b && X=1'' = Returns (ss, heap)" by (auto split: outcome.splits)
  then show ?thesis using parsed_trees_well_formed by blast
qed

end
