(* ===== verification/Shell_Gate.thy ===== *)
theory Shell_Gate
  imports Shell_Runs Shell_Wellformed
begin

text \<open>
  What the session may not do is not done: the execution of a line does not depend on the commands
  whose invocations the session's classes exclude, nor, without the class of writes, on the write
  that a redirection ends in. Two surroundings that differ only there give the same result.
\<close>

subsection \<open>Surroundings that agree on what is allowed\<close>

text \<open>
  The exceptions are the calls that \<open>execDecl\<close> and \<open>execTestClause\<close> make without asking for the
  class of the command.
\<close>

definition may_run :: "'s world \<Rightarrow> string \<Rightarrow> string list \<Rightarrow> bool" where
  "may_run W name args \<longleftrightarrow>
     ActionAllowed W (InvocationAction name args) \<or> name \<in> declKeywords \<or> name = ''test''"

definition agree :: "'s world \<Rightarrow> 's world \<Rightarrow> bool" where
  "agree W W' \<longleftrightarrow>
     wo_allowedActions W' = wo_allowedActions W \<and> wo_actionAuthorizer W' = wo_actionAuthorizer W
     \<and> wo_actionDeniedMessage W' = wo_actionDeniedMessage W \<and> wo_writeDenialReason W' = wo_writeDenialReason W
     \<and> wo_ReadDir W' = wo_ReadDir W \<and> wo_elapsed W' = wo_elapsed W \<and> wo_heredocs W' = wo_heredocs W
     \<and> (ActionAllowed W ActionWrite \<longrightarrow> wo_WriteFileMsg W' = wo_WriteFileMsg W)
     \<and> (\<forall>name. case (wo_Registry W name, wo_Registry W' name) of
           (None, None) \<Rightarrow> True
         | (Some f, Some g) \<Rightarrow> \<forall>args. may_run W name args \<longrightarrow> g args = f args
         | _ \<Rightarrow> False)"

lemma agreeD:
  assumes "agree W W'"
  shows "wo_actionDeniedMessage W' = wo_actionDeniedMessage W" "wo_writeDenialReason W' = wo_writeDenialReason W"
    "wo_ReadDir W' = wo_ReadDir W" "wo_elapsed W' = wo_elapsed W" "wo_heredocs W' = wo_heredocs W"
    "ActionAllowed W' = ActionAllowed W" "ActionAllowed W ActionWrite \<Longrightarrow> wo_WriteFileMsg W' = wo_WriteFileMsg W"
  using assms by (auto simp: agree_def ActionAllowed_def fun_eq_iff)

lemma agree_registry:
  assumes "agree W W'"
  obtains "wo_Registry W name = None" "wo_Registry W' name = None"
  | f g where "wo_Registry W name = Some f" "wo_Registry W' name = Some g"
      "\<And>args. may_run W name args \<Longrightarrow> g args = f args"
proof -
  have "case (wo_Registry W name, wo_Registry W' name) of (None, None) \<Rightarrow> True
         | (Some f, Some g) \<Rightarrow> \<forall>args. may_run W name args \<longrightarrow> g args = f args | _ \<Rightarrow> False"
    using assms by (simp add: agree_def)
  with that show ?thesis by (auto split: option.splits)
qed

lemma allowed_heredocs [simp]:
  "ActionAllowed (W\<lparr>wo_heredocs := h\<rparr>) = ActionAllowed W" "may_run (W\<lparr>wo_heredocs := h\<rparr>) = may_run W"
  by (simp_all add: ActionAllowed_def may_run_def fun_eq_iff)

lemma agree_heredocs: "agree W W' \<Longrightarrow> agree (W\<lparr>wo_heredocs := h\<rparr>) (W'\<lparr>wo_heredocs := h\<rparr>)"
  by (simp add: agree_def cong: option.case_cong)

named_theorems agrees "steps of the interpreter that only use what is allowed"

lemma agree_execArgs [agrees]:
  assumes "agree W W'"
  shows "execArgs W' args = execArgs W args"
proof
  fix io show "execArgs W' args io = execArgs W args io"
  proof (cases args)
    case (Cons name rest)
    then show ?thesis
      by (cases rule: agree_registry [OF assms, of name])
         (simp_all add: execArgs_def agreeD [OF assms] may_run_def)
  qed (simp add: execArgs_def)
qed

lemma agree_inner [agrees]: "agree W W' \<Longrightarrow> execCallInner W' as ws hds m = execCallInner W as ws hds m"
  by (simp add: execCallInner_def agree_execArgs bodies_def agreeD)

lemma agree_call [agrees]:
  assumes "agree W W'"
  shows "execCall W' as ws hds m r = execCall W as ws hds m r"
proof -
  have "ActionAllowed W ActionWrite \<Longrightarrow> commit W' t d a = commit W t d a" for t d a
    using assms by (simp add: commit_def fun_eq_iff agreeD)
  moreover have "redirectDenied W' t = redirectDenied W t" for t
    using assms by (simp add: redirectDenied_def fun_eq_iff agreeD)
  ultimately have "execRedirected W' e a s inner = execRedirected W e a s inner" for e a s inner
    by (cases "ActionAllowed W ActionWrite") (simp_all add: execRedirected_def agreeD [OF assms] cong: if_cong)
  with assms show ?thesis by (simp add: execCall_def agree_inner split: option.split)
qed

lemma agree_decl [agrees]:
  assumes "agree W W'" "name \<in> declKeywords"
  shows "execDecl W' name as = execDecl W name as"
  by (cases rule: agree_registry [OF assms(1), of name]) (simp_all add: execDecl_def may_run_def assms(2))

lemma agree_test [agrees]:
  assumes "agree W W'"
  shows "execTestClause W' ws = execTestClause W ws"
  by (cases rule: agree_registry [OF assms, of "''test''"]) (simp_all add: execTestClause_def may_run_def)

lemma agree_time [agrees]: "agree W W' \<Longrightarrow> execTime W' m = execTime W m"
  by (simp add: execTime_def fun_eq_iff agreeD)

lemma agree_flush: "agree W W' \<Longrightarrow> flush W' = flush W"
  by (simp add: flush_def fun_eq_iff agreeD)

lemma agree_fields: "agree W W' \<Longrightarrow> splitFields W' v g sh = splitFields W v g sh"
proof (induction W v g sh rule: splitFields.induct)
  case (1 W v g sh)
  then show ?case
    by (auto simp: splitFields.simps [of W' v g sh] splitFields.simps [of W v g sh] agree_flush
        split: option.split prod.split)
qed

lemma agree_globs [agrees]:
  assumes "agree W W'"
  shows "expandGlobWords W' split ps = expandGlobWords W split ps"
proof -
  have "globParts W' split ps g sh = globParts W split ps g sh" for ps g sh
    by (induction ps arbitrary: g sh) (auto simp: agree_fields [OF assms] split: prod.split intro!: andThen_cong)
  then show ?thesis by (simp add: expandGlobWords_def fun_eq_iff agree_flush [OF assms])
qed

subsection \<open>Trees and lines\<close>

lemma trees_agree:
  "wf_part n p \<Longrightarrow> agree W W' \<Longrightarrow> runPart W' p = runPart W p"
  "wf_word n w \<Longrightarrow> agree W W' \<Longrightarrow> runWord W' w = runWord W w"
  "wf_stmt n st \<Longrightarrow> agree W W' \<Longrightarrow> runStmt W' st = runStmt W st"
  "wf_if n i \<Longrightarrow> agree W W' \<Longrightarrow> runIf W' i = runIf W i"
  "wf_cmd n c \<Longrightarrow> agree W W' \<Longrightarrow> runCmd W' c = runCmd W c"
proof (induction W p and W w and W st and W i and W c rule: runPart_runWord_runStmt_runIf_runCmd.induct)
  case (5 W x len e)
  then show ?case by (cases e) (auto split: expansion.splits)
next
  case (8 W neg c)
  then show ?case by (cases c) simp_all
next
  case (9 W cond thn els)
  then show ?case by (cases els) (auto simp: list_all_iff cong: map_cong)
next
  case (10 W as ws hds m r)
  have "(case a of Assign n v _ \<Rightarrow> (n, case v of Some w \<Rightarrow> expandWord (runWord W' w) | None \<Rightarrow> (\<lambda>sh. Returns ([], sh)))) =
        (case a of Assign n v _ \<Rightarrow> (n, case v of Some w \<Rightarrow> expandWord (runWord W w) | None \<Rightarrow> (\<lambda>sh. Returns ([], sh))))"
    if "a \<in> set as" for a
    using 10 that by (cases a; cases "as_Value a") (force simp: list_all_iff)+
  moreover have "map_option (\<lambda>r. case r of Redirect w app stderr \<Rightarrow> (expandWord (runWord W' w), app, stderr)) r =
      map_option (\<lambda>r. case r of Redirect w app stderr \<Rightarrow> (expandWord (runWord W w), app, stderr)) r"
    using 10 by (cases r) (auto split: redirect.splits)
  ultimately show ?case
    using 10 by (simp add: list_all_iff agrees cong: map_cong)
next
  case (11 W opr x y)
  then show ?case by (cases y) simp_all
next
  case (17 W name as)
  have "(case a of Assign n v naked \<Rightarrow> (n, if naked then None else map_option (\<lambda>w. expandWord (runWord W' w)) v)) =
        (case a of Assign n v naked \<Rightarrow> (n, if naked then None else map_option (\<lambda>w. expandWord (runWord W w)) v))"
    if "a \<in> set as" for a
    using 17 that by (cases a; cases "as_Value a") (force simp: list_all_iff)+
  then show ?case
    using 17 by (simp add: agrees cong: map_cong)
qed (auto simp: list_all_iff agrees cong: map_cong)

text \<open>
  C34. A line gives the same status, output and state in two surroundings that differ only in the
  invocations the session may not make and, if it may not write, in what a redirection writes.
\<close>

theorem denied_is_not_done:
  assumes "agree W W'"
  shows "execLine W' line io = execLine W line io"
proof (cases "Parse (TrimSpace line)")
  case (Returns p)
  obtain ss heap where p: "p = (ss, heap)" by (cases p)
  have "list_all (wf_stmt (length heap)) ss"
    using parse_gives [of "length (TrimSpace line) + 2"] Returns p
    unfolding Parse_def gives_all_def gives_file_def by auto
  then have "map (runStmt (W'\<lparr>wo_heredocs := heap\<rparr>)) ss = map (runStmt (W\<lparr>wo_heredocs := heap\<rparr>)) ss"
    using trees_agree(3) [where n = "length heap", OF _ agree_heredocs [OF assms]] by (simp add: list_all_iff)
  with Returns p show ?thesis by (simp add: execLine_def Let_def del: map_eq_conv)
qed (simp_all add: execLine_def Let_def)

text \<open>A session that may only read: what \<open>rm\<close> and a write would do has no part in its lines.\<close>

definition read_only :: "unit run \<Rightarrow> int \<Rightarrow> unit world" where
  "read_only removal status =
     SetAllowedActions [] (sample_world\<lparr>wo_Registry := sample_registry(''rm'' \<mapsto> (\<lambda>args. removal)),
       wo_WriteFileMsg := (\<lambda>t d a sh. (status, [], sh))\<rparr>)"

theorem denied_is_not_done_witness:
  "execLine (read_only (\<lambda>io. Panics) 7) ''echo a | rm -r x; echo b > f'' sample_io =
   execLine (read_only (ends 0) 0) ''echo a | rm -r x; echo b > f'' sample_io"
proof (rule denied_is_not_done)
  show "agree (read_only (ends 0) 0) (read_only (\<lambda>io. Panics) 7)"
    by (auto simp: agree_def read_only_def may_run_def SetAllowedActions_def ActionAllowed_def sample_world_def
        InvocationAction_def ActionFor_def commandActions_def ActionRead_def ActionWrite_def declKeywords_def
        split: option.splits)
qed

end
