(* ===== verification/Shell_Quoting.thy ===== *)
theory Shell_Quoting
  imports Shell_Parser Go_Strings
begin

text \<open>
  The quoting of completions (pkg/shell/completion.go, \<open>quoteCompletion\<close>) against the parser: what
  the two quoted forms produce is read back as the value it was made from, whatever its bytes, and
  a line of quoted words is one call of exactly those arguments.
\<close>

subsection \<open>Quoting\<close>

definition escape_single :: "string \<Rightarrow> string" where
  "escape_single v = concat (map (\<lambda>c. if c = SQ then [SQ, BS, SQ, SQ] else [c]) v)"

definition escape_double :: "string \<Rightarrow> string" where
  "escape_double v = concat (map (\<lambda>c. if c \<in> {BS, DQ, CHR ''$'', BQ} then [BS, c] else [c]) v)"

text \<open>Which runes are letters or digits is Unicode's table, an argument.\<close>

definition quoteCompletion :: "(nat \<Rightarrow> bool) \<Rightarrow> string \<Rightarrow> char \<Rightarrow> string" where
  "quoteCompletion letter_or_digit v preferred =
     (if preferred = SQ then SQ # escape_single v @ [SQ]
      else if preferred = DQ then DQ # escape_double v @ [DQ]
      else concat (map (\<lambda>r. if letter_or_digit r \<or> r \<in> set (map byte ''/_-.~'') then encodeRune r
                            else BS # encodeRune r) (runes v)))"

subsection \<open>What a quoted word means\<close>

text \<open>The text of a part that depends on nothing but the source.\<close>

fun part_text :: "wordPart \<Rightarrow> string option" and parts_text :: "wordPart list \<Rightarrow> string option" where
  "part_text (Lit v) = Some v"
| "part_text (Escaped v) = Some v"
| "part_text (SglQuoted v) = Some v"
| "part_text (DblQuoted ps) = parts_text ps"
| "part_text (ParamExp _ _ _) = None"
| "part_text (CmdSubst _) = None"
| "parts_text [] = Some []"
| "parts_text (p # ps) = (case part_text p of None \<Rightarrow> None | Some u \<Rightarrow> map_option ((@) u) (parts_text ps))"

text \<open>A part that is neither globbed, nor split, nor has a tilde; the text of a word of such parts.\<close>

fun is_quoted :: "wordPart \<Rightarrow> bool" where
  "is_quoted (Escaped _) = True"
| "is_quoted (SglQuoted _) = True"
| "is_quoted (DblQuoted _) = True"
| "is_quoted _ = False"

definition word_text :: "word \<Rightarrow> string option" where
  "word_text w = (if Parts w \<noteq> [] \<and> list_all is_quoted (Parts w) then parts_text (Parts w) else None)"

subsection \<open>Reading quoted words\<close>

lemma not_ends_quote [simp]: "\<not> ends_word sb SQ" "\<not> ends_word sb DQ" "\<not> ends_word sb BS"
  by (simp_all add: ends_word_def)

lemma first_quote:
  assumes "SQ \<notin> set a"
  shows "takeWhile (\<lambda>c. c \<noteq> SQ) (a @ SQ # r) = a" "dropWhile (\<lambda>c. c \<noteq> SQ) (a @ SQ # r) = SQ # r"
  using assms by (induction a) auto

lemma scan_quoted: "SQ \<notin> set a \<Longrightarrow> scanWord sb (SQ # a @ SQ # rest) = scanWord (sb @ SQ # a @ [SQ]) rest"
  by (simp add: wordStretch_def quoteEnd_def first_quote)

lemma scan_escaped: "scanWord sb (BS # c # rest) = scanWord (sb @ [BS, c]) rest"
  by (simp add: wordStretch_def)

lemma escape_single_plain: "SQ \<notin> set a \<Longrightarrow> escape_single (a @ v) = a @ escape_single v"
  by (induction a) (auto simp: escape_single_def)

lemma escape_single_simps [simp]:
  "escape_single [] = []" "escape_single (SQ # v) = SQ # BS # SQ # SQ # escape_single v"
  by (simp_all add: escape_single_def)

lemma escape_double_simps [simp]:
  "escape_double [] = []"
  "escape_double (c # v) =
     (if c \<in> {BS, DQ, CHR ''$'', BQ} then BS # c # escape_double v else c # escape_double v)"
  by (simp_all add: escape_double_def)

text \<open>A value without a quote, or one split at its first.\<close>

lemma single_cases:
  obtains "escape_single v = v" "SQ \<notin> set v"
  | a b where "v = a @ SQ # b" "SQ \<notin> set a" "escape_single v = a @ SQ # BS # SQ # SQ # escape_single b"
proof (cases "SQ \<in> set v")
  case True
  then show ?thesis using that(2) by (metis split_list_first escape_single_plain escape_single_simps(2))
next
  case False
  then show ?thesis using that(1) escape_single_plain [of v "[]"] by simp
qed

lemma scan_single: "scanWord sb (SQ # escape_single v @ SQ # rest) = scanWord (sb @ SQ # escape_single v @ [SQ]) rest"
proof (induction v arbitrary: sb rule: length_induct)
  case (1 v)
  show ?case
  proof (rule single_cases [of v])
    fix a b assume v: "v = a @ SQ # b" "SQ \<notin> set a" "escape_single v = a @ SQ # BS # SQ # SQ # escape_single b"
    from v(3) have "scanWord sb (SQ # escape_single v @ SQ # rest) =
        scanWord ((sb @ SQ # a @ [SQ]) @ [BS, SQ]) (SQ # escape_single b @ SQ # rest)"
      by (simp only: scan_quoted [OF v(2)] scan_escaped append.simps append_assoc)
    also have "\<dots> = scanWord (((sb @ SQ # a @ [SQ]) @ [BS, SQ]) @ SQ # escape_single b @ [SQ]) rest"
      using 1 v(1) by (simp del: scanWord.simps)
    finally show ?thesis
      using v(3) by (simp del: scanWord.simps)
  qed (simp add: scan_quoted del: scanWord.simps)
qed

lemma dqStretch_escaped: "dqStretch (escape_double v @ DQ # rest) = (escape_double v @ [DQ], rest)"
proof (induction v)
  case (Cons c v)
  then show ?case
    by (auto simp: bracketed_def take_Suc split: if_splits)
qed simp

lemma scan_double: "scanWord sb (DQ # escape_double v @ DQ # rest) = scanWord (sb @ DQ # escape_double v @ [DQ]) rest"
  by (simp add: wordStretch_def dqStretch_escaped)

lemma scan_end: "rest = [] \<or> (\<exists>r. rest = CHR '' '' # r) \<Longrightarrow> scanWord sb rest = Returns (tokVal tokWord sb, rest)"
  by (auto simp: ends_word_def)

subsection \<open>Parsing quoted words\<close>

lemma loop_quoted:
  "SQ \<notin> set a \<Longrightarrow> wordLoop P False [] parts (SQ # a @ SQ # rest) t = wordLoop P False [] (parts @ [SglQuoted a]) rest t"
  by (simp add: wordTurn_def flushLit_def first_quote)

lemma loop_escaped:
  "wordLoop P False [] parts (BS # SQ # rest) t = wordLoop P False [] (parts @ [Escaped [SQ]]) rest t"
  by (simp add: wordTurn_def flushLit_def string_of_byte_def)

lemma parse_single:
  "\<exists>ps. wordLoop P False [] parts (SQ # escape_single v @ [SQ]) t = Returns (parts @ ps, t)
     \<and> ps \<noteq> [] \<and> list_all is_quoted ps \<and> parts_text ps = Some v"
proof (induction v arbitrary: parts rule: length_induct)
  case (1 v)
  show ?case
  proof (rule single_cases [of v])
    fix a b assume v: "v = a @ SQ # b" "SQ \<notin> set a" "escape_single v = a @ SQ # BS # SQ # SQ # escape_single b"
    from v(1) have "length b < length v" by simp
    with 1 obtain ps where ps:
      "wordLoop P False [] ((parts @ [SglQuoted a]) @ [Escaped [SQ]]) (SQ # escape_single b @ [SQ]) t =
         Returns (((parts @ [SglQuoted a]) @ [Escaped [SQ]]) @ ps, t)" "list_all is_quoted ps" "parts_text ps = Some b"
      by blast
    from v have "wordLoop P False [] parts (SQ # escape_single v @ [SQ]) t =
        wordLoop P False [] ((parts @ [SglQuoted a]) @ [Escaped [SQ]]) (SQ # escape_single b @ [SQ]) t"
      by (simp only: loop_quoted [OF v(2)] loop_escaped append.simps append_assoc)
    with ps v(1) show ?thesis
      by (intro exI [of _ "SglQuoted a # Escaped [SQ] # ps"]) (simp del: wordLoop.simps)
  next
    assume "escape_single v = v" "SQ \<notin> set v"
    then show ?thesis
      using loop_quoted [of v P parts "[]" t] by (intro exI [of _ "[SglQuoted v]"]) (simp add: flushLit_def)
  qed
qed

lemma dqInner_escaped: "dqInner 0 (escape_double v @ [DQ]) = (escape_double v, [])"
proof (induction v)
  case (Cons c v)
  obtain d s where "escape_double v @ [DQ] = d # s" by (cases "escape_double v") auto
  with Cons show ?case by auto
qed simp

lemma parse_inner:
  "\<exists>ps. wordLoop P True lit parts (escape_double v) t = Returns (parts @ ps, t) \<and> parts_text ps = Some (lit @ v)"
proof (induction v arbitrary: lit parts)
  case Nil
  show ?case
    by (intro exI [of _ "flushLit lit []"]) (simp add: flushLit_def)
next
  case (Cons c v)
  show ?case
  proof (cases "c \<in> {BS, DQ, CHR ''$'', BQ}")
    case True
    from Cons [of "[]" "flushLit lit parts @ [Escaped [c]]"] obtain ps where ps:
      "wordLoop P True [] (flushLit lit parts @ [Escaped [c]]) (escape_double v) t =
         Returns ((flushLit lit parts @ [Escaped [c]]) @ ps, t)" "parts_text ps = Some v"
      by auto
    have "string_of_byte c = [c]" using True by (auto simp: string_of_byte_def)
    with True ps show ?thesis
      by (intro exI [of _ "flushLit lit [] @ Escaped [c] # ps"])
         (auto simp: wordTurn_def flushLit_def)
  next
    case False
    from Cons [of "lit @ [c]" parts] False show ?thesis
      by (auto simp: wordTurn_def)
  qed
qed

lemma parse_double:
  "\<exists>ps. wordLoop P False [] [] (DQ # escape_double v @ [DQ]) t = Returns ([DblQuoted ps], t)
     \<and> parts_text ps = Some v"
proof -
  obtain ps where "wordLoop P True [] [] (escape_double v) t = Returns (ps, t)" "parts_text ps = Some v"
    using parse_inner [of P "[]" "[]" v t] by auto
  then show ?thesis
    by (simp add: wordTurn_def dqInner_escaped flushLit_def)
qed

subsection \<open>A line of quoted words\<close>

text \<open>A quoted argument: its value and the quote; the source of a list of them.\<close>

definition quotes :: "char set" where
  "quotes = {SQ, DQ}"

definition quoted_tail :: "(nat \<Rightarrow> bool) \<Rightarrow> (string \<times> char) list \<Rightarrow> string" where
  "quoted_tail L qs = concat (map (\<lambda>(v, q). CHR '' '' # quoteCompletion L v q) qs)"

definition quoted_line :: "(nat \<Rightarrow> bool) \<Rightarrow> (string \<times> char) list \<Rightarrow> string" where
  "quoted_line L qs = join_with '' '' (map (\<lambda>(v, q). quoteCompletion L v q) qs)"

lemma quoted_line_Cons: "quoted_line L ((v, q) # qs) = quoteCompletion L v q @ quoted_tail L qs"
proof (induction qs arbitrary: v q)
  case (Cons x qs)
  then show ?case by (cases x) (simp add: quoted_line_def quoted_tail_def)
qed (simp add: quoted_line_def quoted_tail_def)

lemma tail_shape: "quoted_tail L qs = [] \<or> (\<exists>r. quoted_tail L qs = CHR '' '' # r)"
  by (cases qs) (auto simp: quoted_tail_def)

lemma quoted_starts:
  assumes "q \<in> quotes"
  obtains r where "quoteCompletion L v q = q # r"
  using assms by (auto simp: quotes_def quoteCompletion_def)

lemma scan_word:
  assumes "q \<in> quotes"
  shows "scanWord [] (quoteCompletion L v q @ quoted_tail L qs) =
    Returns (tokVal tokWord (quoteCompletion L v q), quoted_tail L qs)"
  using assms scan_single [of "[]" v "quoted_tail L qs"] scan_double [of "[]" v "quoted_tail L qs"]
    scan_end [OF tail_shape [of L qs]]
  by (auto simp: quotes_def quoteCompletion_def simp del: scanWord.simps)

lemma parse_word:
  assumes "q \<in> quotes"
  shows "\<exists>w. parseWordString P (quoteCompletion L v q) t = Returns (w, t) \<and> word_text w = Some v"
proof (cases "q = SQ")
  case True
  then show ?thesis
    using parse_single [of P "[]" v t]
    by (auto simp: parseWordString_def parseWordParts_def quoteCompletion_def wordOf_def word_text_def)
next
  case False
  then show ?thesis
    using assms parse_double [of P v t]
    by (auto simp: parseWordString_def parseWordParts_def quoteCompletion_def wordOf_def word_text_def quotes_def)
qed

lemma lexNext_quote:
  assumes "skipComment (skipSpaces (lx_src lx)) = q # r" "q \<in> quotes"
  shows "lexNext lx = map_outcome (apsnd (\<lambda>rest. lx\<lparr>lx_src := rest\<rparr>)) (scanWord [] (q # r))"
proof -
  consider "q = SQ" | "q = DQ" using assms(2) by (auto simp: quotes_def)
  then show ?thesis
    unfolding lexNext_def Let_def assms(1) list.case by cases (simp_all del: scanWord.simps)
qed

lemma lex_word:
  assumes "q \<in> quotes" "lx_src lx = sp @ quoteCompletion L v q @ quoted_tail L qs" "sp = [] \<or> sp = '' ''"
  shows "lexNext lx = Returns (tokVal tokWord (quoteCompletion L v q), lx\<lparr>lx_src := quoted_tail L qs\<rparr>)"
proof -
  obtain r where r: "quoteCompletion L v q = q # r" using quoted_starts [OF assms(1)] .
  have "skipComment (skipSpaces (lx_src lx)) = quoteCompletion L v q @ quoted_tail L qs"
    using assms r by (auto simp: skipSpaces_def skipComment_def quotes_def)
  then have "lexNext lx = map_outcome (apsnd (\<lambda>rest. lx\<lparr>lx_src := rest\<rparr>)) (scanWord [] (quoteCompletion L v q @ quoted_tail L qs))"
    using lexNext_quote [OF _ assms(1)] r by (simp del: scanWord.simps)
  then show ?thesis by (simp add: scan_word [OF assms(1)])
qed

lemma lex_end: "lx_src lx = [] \<Longrightarrow> lexNext lx = Returns (tok tokEOF, lx)"
  by (simp add: lexNext_def skipSpaces_def skipComment_def)

lemma quoted_not_keyword:
  assumes "q \<in> quotes"
  shows "\<not> isStopWord (quoteCompletion L v q)" "quoteCompletion L v q \<notin> declKeywords"
    "quoteCompletion L v q \<notin> {''if'', ''while'', ''until'', ''for'', ''let'', ''time'', ''((...))''}"
    "isAssignment (quoteCompletion L v q) = None"
proof -
  obtain r where r: "quoteCompletion L v q = q # r" using quoted_starts [OF assms] .
  with assms show "\<not> isStopWord (quoteCompletion L v q)" "quoteCompletion L v q \<notin> declKeywords"
    "quoteCompletion L v q \<notin> {''if'', ''while'', ''until'', ''for'', ''let'', ''time'', ''((...))''}"
    by (auto simp: quotes_def isStopWord_def declKeywords_def)
  have "\<not> isNameStart q" using assms by (auto simp: quotes_def isNameStart_def between_def)
  with r show "isAssignment (quoteCompletion L v q) = None"
    by (auto simp: isAssignment_def splitAssign_def Let_def split: option.split)
qed

text \<open>The arguments that are left are read to the end of the line.\<close>

definition at_end :: "tokenizer \<Rightarrow> tokenizer" where
  "at_end t = t\<lparr>tz_lex := (tz_lex t)\<lparr>lx_src := []\<rparr>, tz_peeked := Some (tok tokEOF)\<rparr>"

lemma callArgs_quoted:
  assumes "tz_peeked t = None" "lx_src (tz_lex t) = quoted_tail L qs" "snd ` set qs \<subseteq> quotes"
  shows "\<exists>ws. callArgs P c t = Returns (finalizeCall (c\<lparr>cb_Args := cb_Args c @ ws\<rparr>), at_end t)
     \<and> map word_text ws = map (\<lambda>(v, q). Some v) qs"
  using assms
proof (induction qs arbitrary: c t)
  case Nil
  then show ?case
    by (subst callArgs.simps) (simp add: tzPeek_def lex_end quoted_tail_def at_end_def isRedirOut_def)
next
  case (Cons x qs)
  obtain v q where x: "x = (v, q)" by (cases x)
  then have q: "q \<in> quotes" using Cons.prems(3) by simp
  let ?t = "t\<lparr>tz_lex := (tz_lex t)\<lparr>lx_src := quoted_tail L qs\<rparr>, tz_peeked := None\<rparr>"
  have "lexNext (tz_lex t) = Returns (tokVal tokWord (quoteCompletion L v q), (tz_lex t)\<lparr>lx_src := quoted_tail L qs\<rparr>)"
    using Cons.prems(2) x by (intro lex_word [OF q, of _ "'' ''"]) (simp_all add: quoted_tail_def)
  moreover obtain w where w: "parseWordString P (quoteCompletion L v q) ?t = Returns (w, ?t)" "word_text w = Some v"
    using parse_word [OF q] by blast
  ultimately have step: "callArgs P c t = callArgs P (c\<lparr>cb_Args := cb_Args c @ [w]\<rparr>) ?t"
    using Cons.prems(1) quoted_not_keyword(1) [OF q]
    by (subst callArgs.simps) (simp add: tzPeek_def tzNext_def)
  from Cons.IH [of ?t "c\<lparr>cb_Args := cb_Args c @ [w]\<rparr>"] Cons.prems obtain ws where
    "callArgs P c t = Returns (finalizeCall (c\<lparr>cb_Args := cb_Args c @ w # ws\<rparr>), at_end t)"
    "map word_text ws = map (\<lambda>(v, q). Some v) qs"
    by (auto simp: step at_end_def)
  with w(2) x show ?case by (intro exI [of _ "w # ws"]) simp
qed

lemma parse_call:
  assumes "q \<in> quotes" "snd ` set qs \<subseteq> quotes"
    and t: "tz_peeked t = Some (tokVal tokWord (quoteCompletion L v q))" "lx_src (tz_lex t) = quoted_tail L qs"
  shows "\<exists>ws. parseCommand R t = Returns (Some (CallExpr [] ws [] False None), at_end t)
     \<and> map word_text ws = map (\<lambda>(v, q). Some v) ((v, q) # qs)"
proof -
  let ?c = "\<lparr>cb_Assigns = [], cb_Args = [], cb_Heredocs = [], cb_MergeStderr = False, cb_Redirect = None\<rparr>"
  let ?t = "t\<lparr>tz_peeked := None\<rparr>"
  obtain w where w: "parseWordString (rp_file R) (quoteCompletion L v q) ?t = Returns (w, ?t)" "word_text w = Some v"
    using parse_word [OF assms(1)] by blast
  obtain ws where ws: "callArgs (rp_file R) (?c\<lparr>cb_Args := [w]\<rparr>) ?t =
      Returns (finalizeCall (?c\<lparr>cb_Args := [w] @ ws\<rparr>), at_end ?t)" "map word_text ws = map (\<lambda>(v, q). Some v) qs"
    using callArgs_quoted [of ?t L qs "rp_file R" "?c\<lparr>cb_Args := [w]\<rparr>"] assms(2) t(2) by auto
  have "parseSimpleCommand (rp_file R) t = Returns (finalizeCall (?c\<lparr>cb_Args := [w] @ ws\<rparr>), at_end ?t)"
    using t(1) w ws(1) quoted_not_keyword [OF assms(1), of L v]
    by (simp add: parseSimpleCommand_def leadingAssigns.simps [of _ _ t] callArgs.simps [of _ _ t] tzPeek_def tzNext_def)
  then show ?thesis
    using t(1) w(2) ws(2) quoted_not_keyword [OF assms(1), of L v]
    by (intro exI [of _ "w # ws"]) (simp add: parseCommand_def tzPeek_def finalizeCall_def at_end_def)
qed

text \<open>A line of quoted values is parsed as one call whose words are exactly those values.\<close>

lemma quoted_line_is_one_call:
  assumes "qs \<noteq> []" "snd ` set qs \<subseteq> {SQ, DQ}"
  shows "\<exists>ws. Parse (quoted_line L qs) = Returns ([Stmt False (Some (CallExpr [] ws [] False None))], [])
     \<and> map word_text ws = map (\<lambda>(v, q). Some v) qs"
proof -
  obtain v q qs' where qs: "qs = (v, q) # qs'" using assms(1) by (cases qs) auto
  then have q: "q \<in> quotes" "snd ` set qs' \<subseteq> quotes" using assms(2) by (auto simp: quotes_def)
  define src where "src = quoted_line L qs"
  define n where "n = length src"
  let ?k = "tokVal tokWord (quoteCompletion L v q)"
  let ?t = "\<lparr>tz_lex = \<lparr>lx_src = quoted_tail L qs', lx_pending = [], lx_heap = []\<rparr>, tz_peeked = Some ?k, tz_err = None\<rparr>"
  have peek0: "tzPeek (newTokenizer src []) = Returns (?k, ?t)"
    using lex_word [OF q(1), of "\<lparr>lx_src = src, lx_pending = [], lx_heap = []\<rparr>" "[]" L v qs']
    by (simp add: tzPeek_def newTokenizer_def src_def qs quoted_line_Cons)
  have peek1: "tzPeek ?t = Returns (?k, ?t)" and peek2: "tzPeek (at_end ?t) = Returns (tok tokEOF, at_end ?t)"
    by (simp_all add: tzPeek_def at_end_def)
  have skip: "skipNewlines (newTokenizer src []) = Returns ?t" "skipNewlines (at_end ?t) = Returns (at_end ?t)"
    by (subst skipNewlines.simps, simp add: peek0, subst skipNewlines.simps, simp add: peek2)
  define R where "R = \<lparr>rp_list = parse_list (Suc n), rp_if = parse_if (Suc n), rp_file = parse_file (Suc n)\<rparr>"
  obtain ws where ws: "parseCommand R ?t = Returns (Some (CallExpr [] ws [] False None), at_end ?t)"
    "map word_text ws = map (\<lambda>(v, q). Some v) qs"
    using parse_call [OF q, of ?t L v R] qs by auto
  let ?st = "Stmt False (Some (CallExpr [] ws [] False None))"
  have "parsePipeline (Suc (Suc n)) R ?t = Returns (Some ?st, at_end ?t)"
    using ws(1) quoted_not_keyword(3) [OF q(1), of L v]
    by (simp add: parsePipeline_def parseTimed_def parsePiped_def peek1 isWord_def peek2)
  then have "parseAndOr (Suc (Suc n)) R ?t = Returns (Some ?st, at_end ?t)"
    by (simp add: parseAndOr_def peek2)
  then have "stmtLoop (Suc (Suc n)) R tokEOF [] (newTokenizer src []) = Returns ([?st], at_end ?t)"
    using quoted_not_keyword(1) [OF q(1), of L v] by (simp add: skip peek1 peek2)
  then have "Parse src = Returns ([?st], [])"
    unfolding Parse_def n_def [symmetric] add_2_eq_Suc' parse_file.simps R_def [symmetric]
    by (simp add: parseFile_def at_end_def tz_heap_def)
  with ws(2) show ?thesis by (auto simp: src_def)
qed

text \<open>
  The unquoted form is not read back: the parser turns each byte after a backslash into the rune of
  that number, so a name with an en dash (U+2013) is completed to the name of another file.
\<close>

lemma bare_completion_mangles:
  "quoteCompletion (\<lambda>r. r < 128) [CHR 0xE2, CHR 0x80, CHR 0x93] NUL = [BS, CHR 0xE2, CHR 0x80, CHR 0x93]"
  "Parse (''cat '' @ [BS, CHR 0xE2, CHR 0x80, CHR 0x93]) =
     Returns ([Stmt False (Some (CallExpr [] [Word [Lit ''cat''],
       Word [Escaped [CHR 0xC3, CHR 0xA2], Lit [CHR 0x80, CHR 0x93]]] [] False None))], [])"
proof -
  show "quoteCompletion (\<lambda>r. r < 128) [CHR 0xE2, CHR 0x80, CHR 0x93] NUL = [BS, CHR 0xE2, CHR 0x80, CHR 0x93]"
    by (simp add: quoteCompletion_def decodeRune_def encodeRune_def byte_def byte_at_def cont_def second_ok_def Let_def char_of_def bit_0)
qed code_simp

end
