(* ===== verification/Shell_Lines.thy ===== *)
theory Shell_Lines
  imports Shell_Gate Shell_Quoting
begin

text \<open>
  The execution of particular lines: a line of quoted values is one call of exactly those values,
  and a loop ends after its ten thousandth turn.
\<close>

subsection \<open>Quoted values\<close>

lemma text_of_parts:
  "part_text p = Some v \<Longrightarrow> runPart W p sh = Returns (v, sh)"
  "parts_text ps = Some v \<Longrightarrow> expandConcat (map (runPart W) ps) sh = Returns (v, sh)"
  by (induction p and ps arbitrary: v and v rule: part_text_parts_text.induct) (auto split: option.splits)

lemma addQuoted_twice: "addQuoted w (addQuoted v g) = addQuoted (v @ w) g"
  by (simp add: addQuoted_def escapeGlobPattern_def)

lemma quoted_parts:
  assumes "gw_present g" "list_all is_quoted ps" "parts_text ps = Some v"
  shows "globParts W False (map (\<lambda>p. (kind_of p, runPart W p)) ps) g sh = Returns (addQuoted v g, sh)"
  using assms
proof (induction ps arbitrary: v g)
  case Nil
  then show ?case by (simp add: addQuoted_def escapeGlobPattern_def)
next
  case (Cons p ps)
  then obtain a b where ab: "part_text p = Some a" "parts_text ps = Some b" "v = a @ b"
    by (auto split: option.splits)
  have "kind_of p = QuotedPart" using Cons.prems(2) by (cases p) simp_all
  moreover have "globParts W False (map (\<lambda>p. (kind_of p, runPart W p)) ps) (addQuoted a g) sh =
      Returns (addQuoted b (addQuoted a g), sh)"
    using Cons.prems ab by (intro Cons.IH) (simp_all add: addQuoted_def)
  ultimately show ?case
    using ab text_of_parts(1) [OF ab(1), of W sh] by (simp add: addQuoted_twice)
qed

lemma word_values:
  assumes "word_text w = Some v"
  shows "expandGlobWords W False (runWord W w) sh = Returns ([v], sh)"
proof -
  obtain p ps where w: "w = Word (p # ps)" "list_all is_quoted (p # ps)" "parts_text (p # ps) = Some v"
    using assms by (cases w; cases "Parts w") (auto simp: word_text_def simp del: parts_text.simps split: if_splits)
  then have "kind_of p = QuotedPart" by (cases p) simp_all
  then have "tildePart (kind_of p, runPart W p) = runPart W p"
    by (simp add: tildePart_def fun_eq_iff outcome.map_ident case_prod_unfold)
  with w quoted_parts [OF _ w(2,3), of _ W sh] show ?thesis
    by (simp add: expandGlobWords_def flush_def addQuoted_def)
qed

lemma words_values:
  "map word_text ws = map Some vs \<Longrightarrow>
   expandAll (map (\<lambda>w. expandGlobWords W False (runWord W w)) ws) sh = Returns (map (\<lambda>v. [v]) vs, sh)"
  by (induction ws arbitrary: vs) (auto simp: word_values)

lemma execArgs_heredocs [simp]: "execArgs (W\<lparr>wo_heredocs := h\<rparr>) = execArgs W"
  by (intro ext) (simp add: execArgs_def split: list.split option.split)

lemma call_of_values:
  assumes "map word_text ws = map Some vs" "ws \<noteq> []"
  shows "runCmd W (CallExpr [] ws [] False None) = execArgs W vs"
proof -
  have "concat (map (\<lambda>v. [v]) vs) = vs" by (induction vs) simp_all
  with assms show ?thesis
    by (intro ext) (simp add: execCall_def execCallInner_def expanding_def words_values with_stdin_def bodies_def)
qed

text \<open>A quoted line has no white space at its ends.\<close>

lemma quoteCompletion_ends: "q \<in> quotes \<Longrightarrow> \<exists>r. quoteCompletion L v q = q # r @ [q]"
  by (auto simp: quotes_def quoteCompletion_def)

lemma quoted_line_ends:
  assumes "qs \<noteq> []" "snd ` set qs \<subseteq> quotes"
  shows "quoted_line L qs \<noteq> [] \<and> hd (quoted_line L qs) \<in> quotes \<and> last (quoted_line L qs) \<in> quotes"
proof -
  have "quoted_tail L qs = [] \<or> last (quoted_tail L qs) \<in> quotes" if "snd ` set qs \<subseteq> quotes" for qs
    using that
  proof (induction qs)
    case (Cons x qs)
    obtain v q where x: "x = (v, q)" by (cases x)
    with Cons.prems obtain r where "quoteCompletion L v q = q # r @ [q]" using quoteCompletion_ends [of q L v] by auto
    with Cons x show ?case by (auto simp: quoted_tail_def)
  qed (simp add: quoted_tail_def)
  moreover obtain v q qs' where qs: "qs = (v, q) # qs'" using assms(1) by (cases qs) auto
  moreover from qs assms(2) obtain r where "quoteCompletion L v q = q # r @ [q]"
    using quoteCompletion_ends [of q L v] by auto
  ultimately show ?thesis
    using assms(2) by (auto simp: quoted_line_Cons last_append)
qed

lemma quote_no_space:
  assumes "q \<in> quotes" "e \<in> set space_encodings"
  shows "hd e \<noteq> q \<and> last e \<noteq> q"
proof -
  have "list_all (\<lambda>e. hd e \<noteq> SQ \<and> hd e \<noteq> DQ \<and> last e \<noteq> SQ \<and> last e \<noteq> DQ) space_encodings" by code_simp
  with assms show ?thesis by (auto simp: list_all_iff quotes_def)
qed

lemma TrimSpace_quoted_line:
  assumes "qs \<noteq> []" "snd ` set qs \<subseteq> quotes"
  shows "TrimSpace (quoted_line L qs) = quoted_line L qs"
  using quoted_line_ends [OF assms] quote_no_space by (intro TrimSpace_id) metis+

text \<open>
  C35. A line of values quoted for the shell, whatever bytes they hold, runs exactly one command: the
  one named by the first value, with the others as its arguments.
\<close>

theorem quoted_line_runs:
  assumes "qs \<noteq> []" "snd ` set qs \<subseteq> {SQ, DQ}"
  shows "execLine W (quoted_line L qs) (sh, inp) =
    map_outcome (\<lambda>(c, out, io). (c, out, (fst io)\<lparr>sh_lastExit := c\<rparr>, snd io))
      (execArgs W (map fst qs) (sh\<lparr>sh_exitRequested := False\<rparr>, inp))"
proof -
  have q: "snd ` set qs \<subseteq> quotes" using assms(2) by (simp add: quotes_def)
  obtain ws where ws: "Parse (quoted_line L qs) = Returns ([Stmt False (Some (CallExpr [] ws [] False None))], [])"
    "map word_text ws = map (\<lambda>(v, q). Some v) qs"
    using quoted_line_is_one_call [OF assms] by blast
  from ws(2) have vs: "map word_text ws = map Some (map fst qs)" by (simp add: comp_def case_prod_beta)
  from vs assms(1) have "ws \<noteq> []" by auto
  note call = call_of_values [OF vs this, of "W\<lparr>wo_heredocs := []\<rparr>"]
  show ?thesis
    using quoted_line_ends [OF assms(1) q, of L] TrimSpace_quoted_line [OF assms(1) q]
    by (cases "execArgs W (map fst qs) (sh\<lparr>sh_exitRequested := False\<rparr>, inp)")
       (auto simp: execLine_def Let_def ws(1) call execStmt_def after_def ends_def with_shell_def
         simp del: runCmd.simps)
qed

theorem quoted_line_runs_witness:
  "execLine sample_world (quoted_line (\<lambda>r. False) [(''echo'', SQ), ([SQ, CHR '';''], SQ), (''$(exit)'', DQ)]) sample_io =
   Returns (0, [Out ([SQ, CHR '';''] @ ''$(exit)'' @ [NL])], sample_io)"
  unfolding sample_io_def
  by (subst quoted_line_runs)
     (auto simp: execArgs_def sample_world_def sample_registry_def ActionAllowed_def sends_def Fprintln_def)

subsection \<open>Loops\<close>

text \<open>A run that adds at most \<open>n\<close> to a count that the session's state and input determine.\<close>

definition counts :: "('s io \<Rightarrow> nat) \<Rightarrow> nat \<Rightarrow> 's run \<Rightarrow> bool" where
  "counts f n m \<longleftrightarrow> (\<forall>io c out io'. m io = Returns (c, out, io') \<longrightarrow> f io' \<le> f io + n)"

lemma counts_ends: "counts f n (ends c)"
  by (simp add: counts_def ends_def)

lemma counts_after:
  assumes "counts f n m" "\<And>c. counts f k (g c)"
  shows "counts f (n + k) (after m g)"
proof -
  have "f io'' \<le> f io + (n + k)"
    if "m io = Returns (c, out, io')" "g c io' = Returns (d, out', io'')" for io c out io' d out' io''
    using assms that unfolding counts_def by (metis add.assoc add_le_mono1 order_trans)
  then show ?thesis
    by (auto simp: counts_def after_def andThen_Returns_iff map_outcome_Returns)
qed

lemma counts_choose: "counts f n m \<Longrightarrow> counts f n m' \<Longrightarrow> counts f n (\<lambda>io. if b io then m io else m' io)"
  by (simp add: counts_def)

lemma counts_writes: "counts f n m \<Longrightarrow> counts f n (writes g m)"
  by (fastforce simp: counts_def writes_def map_outcome_Returns)

lemma counts_turns: "counts f 0 cond \<Longrightarrow> counts f k body \<Longrightarrow> counts f (n * k) (while_turns n until cond body code)"
proof (induction n arbitrary: code)
  case (Suc n)
  have "counts f (k + n * k) (after body (\<lambda>c io. if exiting io then ends c io else while_turns n until cond body c io))"
    by (rule counts_after [OF Suc.prems(2)]) (intro counts_choose counts_ends Suc)
  then have "counts f (0 + (k + n * k)) (after cond (\<lambda>c io. if exiting io then ends c io
      else if (c = 0) = until then ends code io
      else after body (\<lambda>c io. if exiting io then ends c io else while_turns n until cond body c io) io))"
    by (intro counts_after [OF Suc.prems(1)] counts_choose counts_ends) (simp_all add: counts_def ends_def)
  then show ?case by (subst while_turns.simps) (simp cong: if_cong)
qed (simp add: while_turns.simps counts_ends)

text \<open>
  C37. A loop runs its body at most ten thousand times: what each run of it adds to a count at most
  \<open>k\<close> times, and its condition not at all, the loop adds at most \<open>10000 * k\<close> times.
\<close>

theorem loop_is_bounded:
  fixes f :: "'s io \<Rightarrow> nat"
  assumes "\<And>io c out io'. execStmts cond io = Returns (c, out, io') \<Longrightarrow> f io' \<le> f io"
    and "\<And>io c out io'. execStmts body io = Returns (c, out, io') \<Longrightarrow> f io' \<le> f io + k"
    and "execWhile until cond body io = Returns (c, out, io')"
  shows "f io' \<le> f io + 10000 * k"
proof -
  have "counts f 0 (discard_out (execStmts cond))" "counts f k (execStmts body)"
    using assms(1,2) unfolding discard_out_def by (intro counts_writes, auto simp: counts_def)
  from counts_turns [OF this] assms(3) show ?thesis
    unfolding execWhile_def counts_def by blast
qed

definition bump :: "unit run" where
  "bump io = Returns (0, [Out ''+''], with_shell (\<lambda>sh. sh\<lparr>sh_lastExit := sh_lastExit sh + 1\<rparr>) io)"

definition below :: "int \<Rightarrow> unit run" where
  "below n io = ends (if sh_lastExit (fst io) < n then 0 else 1) io"

theorem loop_is_bounded_witness:
  "\<exists>io'. execWhile False [below 3] [bump] sample_io = Returns (0, [Out ''+'', Out ''+'', Out ''+''], io')
     \<and> nat (sh_lastExit (fst io')) \<le> nat (sh_lastExit (fst sample_io)) + 10000 * 1"
proof -
  have "\<exists>io'. execWhile False [below 3] [bump] sample_io = Returns (0, [Out ''+'', Out ''+'', Out ''+''], io')"
    by (simp add: execWhile_def while_turns.simps after_def discard_out_def writes_def below_def bump_def ends_def
        exiting_def with_shell_def sample_io_def)
  moreover have "nat (sh_lastExit (fst io')) \<le> nat (sh_lastExit (fst io)) + 10000 * 1"
    if "execWhile False [below 3] [bump] io = Returns (c, out, io')" for io c out io'
    using _ _ that by (rule loop_is_bounded) (auto simp: below_def bump_def ends_def with_shell_def)
  ultimately show ?thesis by blast
qed

text \<open>A loop without an end runs its body that often, and its status is the last one's.\<close>

lemma turns_of_endless_loop:
  fixes body :: "'s run"
  assumes "\<And>io. \<exists>out io'. body io = Returns (c, out, io') \<and> (\<not> exiting io \<longrightarrow> \<not> exiting io')"
  shows "\<not> exiting io \<Longrightarrow> 0 < n \<Longrightarrow> while_turns n False (ends 0) body code io = execStmts (replicate n body) io"
proof (induction n arbitrary: code io)
  case (Suc n)
  obtain out io' where b: "body io = Returns (c, out, io')" "\<not> exiting io'" using assms Suc.prems(1) by blast
  show ?case
  proof (cases n)
    case 0
    with b Suc.prems show ?thesis by (simp add: while_turns.simps after_def ends_def)
  next
    case (Suc m)
    have ends: "ends code io = Returns (code, [], io)" for code and io :: "'s io" by (simp add: ends_def)
    have "while_turns (Suc n) False (ends 0) body code io =
        map_outcome (apsnd (apfst ((@) out))) (while_turns n False (ends 0) body c io')"
      using b Suc.prems(1) by (subst while_turns.simps) (cases "while_turns n False (ends 0) body c io'"; auto simp: after_def ends)
    moreover have "execStmts (replicate (Suc n) body) io = map_outcome (apsnd (apfst ((@) out))) (execStmts (replicate n body) io')"
      using b Suc by (simp add: after_def)
    ultimately show ?thesis using Suc Suc.IH [OF b(2)] by simp
  qed
qed simp

end
