(* ===== verification/Session_Reads.thy ===== *)
theory Session_Reads
  imports Session_Fs Commit
begin

text \<open>
  The read side of a session: the gate in front of every read (read_chain_fs.go), the hashes of
  what the session has read or written (read_tracking_fs.go), the transforms that change what a
  reader is shown (read_transform_fs.go), and the whole stack (server.go,
  \<open>buildCanonicalSessionFS\<close> and \<open>buildSessionFS\<close>). The reads with a limit on their size, and what
  the skills plugin exposes through the stack, are left out.
\<close>

subsection \<open>The gate of reads\<close>

datatype read_kind = ReadKindStat | ReadKindDir | ReadKindFile

type_synonym read_gate = "read_kind \<Rightarrow> string \<Rightarrow> vfs_error option"

definition chain_fs :: "read_gate \<Rightarrow> fs \<Rightarrow> fs" where
  "chain_fs gate F =
     \<lparr>fs_Stat = (\<lambda>p. case gate ReadKindStat p of Some e \<Rightarrow> Inl e | None \<Rightarrow> fs_Stat F p),
      fs_ReadDir = (\<lambda>p. case gate ReadKindDir p of Some e \<Rightarrow> Inl e | None \<Rightarrow> fs_ReadDir F p),
      fs_ReadFile = (\<lambda>p. case gate ReadKindFile p of Some e \<Rightarrow> Inl e | None \<Rightarrow> fs_ReadFile F p)\<rparr>"

definition newReadChainFS :: "read_gate \<Rightarrow> 's wfs \<Rightarrow> 's wfs" where
  "newReadChainFS gate w = w\<lparr>w_fs := (\<lambda>s. chain_fs gate (w_fs w s))\<rparr>"

subsection \<open>A session's filesystem\<close>

text \<open>
  What a session calls: reading a file changes the session's state where reads are tracked. A
  filesystem that is not writable has no \<open>sf_mutate\<close>, one that does not track reads no
  \<open>sf_LastReadHash\<close>.
\<close>

record 's sfs =
  sf_view :: "'s \<Rightarrow> fs"
  sf_ReadFile :: "string \<Rightarrow> 's \<Rightarrow> string vres \<times> 's"
  sf_mutate :: "(mutation \<Rightarrow> 's \<Rightarrow> string vres \<times> 's) option"
  sf_admitter :: "(changeset \<Rightarrow> 's op) option"
  sf_LastReadHash :: "(string \<Rightarrow> 's \<Rightarrow> string option) option"

subsection \<open>Tracking\<close>

text \<open>The backend's state with the hashes, by cleaned path.\<close>

record 's tracked =
  tr_backend :: 's
  tr_reads :: "string \<Rightarrow> string option"

definition note_hash :: "string \<Rightarrow> string \<Rightarrow> 's tracked \<Rightarrow> 's tracked" where
  "note_hash p h t = t\<lparr>tr_reads := (tr_reads t)(CleanPath p \<mapsto> h)\<rparr>"

definition forget :: "string \<Rightarrow> 's tracked \<Rightarrow> 's tracked" where
  "forget p t = t\<lparr>tr_reads := (tr_reads t)(CleanPath p := None)\<rparr>"

definition forgetSubtree :: "string \<Rightarrow> 's tracked \<Rightarrow> 's tracked" where
  "forgetSubtree p t =
     t\<lparr>tr_reads := (\<lambda>q. if q = CleanPath p \<or> prefix (CleanPath p @ ''/'') q then None else tr_reads t q)\<rparr>"

definition LastReadHash :: "string \<Rightarrow> 's tracked \<Rightarrow> string option" where
  "LastReadHash p t = tr_reads t (CleanPath p)"

definition tracked_ReadFile :: "(string \<Rightarrow> string) \<Rightarrow> 's wfs \<Rightarrow> string \<Rightarrow> 's tracked \<Rightarrow> string vres \<times> 's tracked" where
  "tracked_ReadFile sha w p t =
     (case fs_ReadFile (w_fs w (tr_backend t)) p of
        Inl e \<Rightarrow> (Inl e, t)
      | Inr data \<Rightarrow> (Inr data, note_hash p (sha data) t))"

text \<open>What a mutation that has succeeded leaves of the hashes.\<close>

fun mutated :: "mutation \<Rightarrow> string \<Rightarrow> 's tracked \<Rightarrow> 's tracked" where
  "mutated (MWrite p _ _) h = note_hash p h"
| "mutated (MRemove p) h = forget p"
| "mutated (MRemoveAll p _) h = forgetSubtree p"
| "mutated _ h = id"

definition tracked_mutate :: "'s wfs \<Rightarrow> mutation \<Rightarrow> 's tracked \<Rightarrow> string vres \<times> 's tracked" where
  "tracked_mutate w m t =
     (case mutate w m (tr_backend t) of
        (Inl e, s) \<Rightarrow> (Inl e, t\<lparr>tr_backend := s\<rparr>)
      | (Inr h, s) \<Rightarrow> (Inr h, mutated m h (t\<lparr>tr_backend := s\<rparr>)))"

definition tracked_AdmitChangeSet :: "'s wfs \<Rightarrow> changeset \<Rightarrow> 's tracked op" where
  "tracked_AdmitChangeSet w cs t =
     (case w_admitter w of
        None \<Rightarrow> (Some ENOTSUP, t)
      | Some admit \<Rightarrow> (case admit cs (tr_backend t) of (e, s) \<Rightarrow> (e, t\<lparr>tr_backend := s\<rparr>)))"

definition newReadTrackingFS :: "(string \<Rightarrow> string) \<Rightarrow> 's wfs \<Rightarrow> 's tracked sfs" where
  "newReadTrackingFS sha w =
     \<lparr>sf_view = (\<lambda>t. w_fs w (tr_backend t)), sf_ReadFile = tracked_ReadFile sha w,
      sf_mutate = Some (tracked_mutate w), sf_admitter = Some (tracked_AdmitChangeSet w),
      sf_LastReadHash = Some LastReadHash\<rparr>"

text \<open>A server in read-only mode does not track.\<close>

definition untracked :: "'s wfs \<Rightarrow> 's tracked sfs" where
  "untracked w =
     \<lparr>sf_view = (\<lambda>t. w_fs w (tr_backend t)),
      sf_ReadFile = (\<lambda>p t. (fs_ReadFile (w_fs w (tr_backend t)) p, t)),
      sf_mutate = Some (\<lambda>m t. apsnd (\<lambda>s. t\<lparr>tr_backend := s\<rparr>) (mutate w m (tr_backend t))),
      sf_admitter = map_option (\<lambda>admit cs t. apsnd (\<lambda>s. t\<lparr>tr_backend := s\<rparr>) (admit cs (tr_backend t))) (w_admitter w),
      sf_LastReadHash = None\<rparr>"

subsection \<open>Transforms\<close>

type_synonym content_transform = "string \<Rightarrow> string \<Rightarrow> string"

definition transformed :: "content_transform list \<Rightarrow> string \<Rightarrow> string \<Rightarrow> string" where
  "transformed ts p b = fold (\<lambda>t. t p) ts b"

text \<open>This layer and the next always answer for the hashes, with none where nothing below tracks.\<close>

definition last_hash :: "'s sfs \<Rightarrow> string \<Rightarrow> 's \<Rightarrow> string option" where
  "last_hash F p s = (case sf_LastReadHash F of None \<Rightarrow> None | Some look \<Rightarrow> look p s)"

definition admit_of :: "'s sfs \<Rightarrow> changeset \<Rightarrow> 's op" where
  "admit_of F = (case sf_admitter F of None \<Rightarrow> (\<lambda>cs. unsupported) | Some admit \<Rightarrow> admit)"

definition transform_sfs :: "content_transform list \<Rightarrow> 's sfs \<Rightarrow> 's sfs" where
  "transform_sfs ts F =
     \<lparr>sf_view = (\<lambda>s. let V = sf_view F s
                  in V\<lparr>fs_ReadFile := (\<lambda>p. map_sum id (transformed ts p) (fs_ReadFile V p))\<rparr>),
      sf_ReadFile = (\<lambda>p s. apfst (map_sum id (transformed ts p)) (sf_ReadFile F p s)),
      sf_mutate = sf_mutate F,
      sf_admitter = (if sf_mutate F = None then None else Some (admit_of F)),
      sf_LastReadHash = Some (last_hash F)\<rparr>"

subsection \<open>The stack\<close>

text \<open>The aliases outermost (alias_fs.go), over any session filesystem.\<close>

definition alias_sfs :: "path_alias list \<Rightarrow> 's sfs \<Rightarrow> 's sfs" where
  "alias_sfs as F =
     (let canonical = (\<lambda>p. fst (alias_canonical as p)); writable = (sf_mutate F \<noteq> None)
      in \<lparr>sf_view = (\<lambda>s. alias_fs as (sf_view F s)),
          sf_ReadFile = (\<lambda>p. sf_ReadFile F (canonical p)),
          sf_mutate = map_option (\<lambda>mut m. mut (m_resolve canonical m)) (sf_mutate F),
          sf_admitter = (if writable then Some (\<lambda>cs. admit_of F (alias_change_set as cs)) else None),
          sf_LastReadHash = (if writable then Some (\<lambda>p. last_hash F (canonical p)) else None)\<rparr>)"

definition buildCanonicalSessionFS ::
  "(string \<Rightarrow> string) \<Rightarrow> bool \<Rightarrow> content_transform list \<Rightarrow> 's wfs \<Rightarrow> 's tracked sfs" where
  "buildCanonicalSessionFS sha readonly ts raw =
     (let F = (if readonly then untracked raw else newReadTrackingFS sha raw)
      in if ts = [] then F else transform_sfs ts F)"

definition buildSessionFS ::
  "(string \<Rightarrow> string) \<Rightarrow> bool \<Rightarrow> content_transform list \<Rightarrow> path_alias list \<Rightarrow> 's wfs \<Rightarrow> 's tracked sfs" where
  "buildSessionFS sha readonly ts as raw =
     alias_sfs (currentAliases as) (buildCanonicalSessionFS sha readonly ts raw)"

text \<open>
  The raw stack of an identity where access is enforced (\<open>buildCanonicalRawSessionFS\<close>): reads are
  those of the live view and pass the gate, if there is one; mutations are authorized and
  submitted.
\<close>

definition liveReadFS :: "server \<Rightarrow> identity \<Rightarrow> 's wfs \<Rightarrow> 's wfs" where
  "liveReadFS s i w = w\<lparr>w_fs := (\<lambda>st. scoped_fs (live_view (s\<lparr>merge := w_fs w st\<rparr>) i))\<rparr>"

definition raw_session :: "(string \<Rightarrow> string) \<Rightarrow> read_gate option \<Rightarrow> server \<Rightarrow> identity \<Rightarrow> 's wfs \<Rightarrow> 's admit \<Rightarrow> 's wfs" where
  "raw_session sha gate s i w admit =
     (let view = liveReadFS s i w;
          view = (case gate of None \<Rightarrow> view | Some g \<Rightarrow> newReadChainFS g view);
          sink = newMiddlewareFS view admit
      in newScopedWriteFS sha sink (Some sink) (session_authorizer s i))"

text \<open>
  Admission without middlewares, by a log that is idle: the change set is committed at once, and a
  failure of the backend is the reply.
\<close>

fun commit_failure :: "commit_error \<Rightarrow> vfs_error" where
  "commit_failure (CLeaf e) = e"
| "commit_failure _ = OtherError ''commit failed''"

definition commit_at_once :: "(string \<Rightarrow> string) \<Rightarrow> 's wfs \<Rightarrow> 's admit" where
  "commit_at_once sha w cs s =
     (case CommitChangeSet sha w cs s of
        None \<Rightarrow> (Inl (OtherError ''commit does not return''), s)
      | Some (Inl e, s) \<Rightarrow> (Inl (commit_failure e), s)
      | Some (Inr r, s) \<Rightarrow> (Inr (CommitHash r), s))"

definition session_sfs ::
  "(string \<Rightarrow> string) \<Rightarrow> bool \<Rightarrow> content_transform list \<Rightarrow> read_gate option \<Rightarrow> server \<Rightarrow> identity \<Rightarrow> 's wfs \<Rightarrow> 's tracked sfs" where
  "session_sfs sha readonly ts gate s i w =
     buildSessionFS sha readonly ts (aliasesForIdentity s i) (raw_session sha gate s i w (commit_at_once sha w))"

subsection \<open>Stores that compare and swap\<close>

text \<open>
  What a writer relies on: a write that succeeds puts its content in place of what the
  precondition names, one that fails changes no content, and what is read is there. Several paths
  may name one file; \<open>fit\<close> is what the host must provide for a write.
\<close>

locale cas_store =
  fixes mut :: "mutation \<Rightarrow> 's \<Rightarrow> string vres \<times> 's"
    and read :: "string \<Rightarrow> 's \<Rightarrow> string vres \<times> 's"
    and content :: "'s \<Rightarrow> string \<Rightarrow> string option"
    and same :: "string \<Rightarrow> string \<Rightarrow> bool"
    and fit :: "string \<Rightarrow> 's \<Rightarrow> bool"
    and sha :: "string \<Rightarrow> string"
  assumes written: "fit p s \<Longrightarrow> mut (MWrite p d opts) s = (Inr h, s') \<Longrightarrow>
      h = sha d \<and> (\<forall>q. content s' q = (if same p q then Some d else content s q))"
    and compared: "fit p s \<Longrightarrow> mut (MWrite p d opts) s = (Inr h, s') \<Longrightarrow> IfMatch opts = Some want \<Longrightarrow>
      \<exists>old. content s p = Some old \<and> sha old = want"
    and created: "fit p s \<Longrightarrow> mut (MWrite p d opts) s = (Inr h, s') \<Longrightarrow> IfNoneMatch opts \<Longrightarrow> content s p = None"
    and refused: "fit p s \<Longrightarrow> mut (MWrite p d opts) s = (Inl e, s') \<Longrightarrow> content s' = content s"
    and seen: "read p s = (Inr c, s') \<Longrightarrow> content s p = Some c"
    and looked: "read p s = (r, s') \<Longrightarrow> content s' = content s"

text \<open>Every layer of a session keeps the contract of what it wraps.\<close>

definition pure_read :: "'s wfs \<Rightarrow> string \<Rightarrow> 's \<Rightarrow> string vres \<times> 's" where
  "pure_read w p s = (fs_ReadFile (w_fs w s) p, s)"

lemma live_read:
  "fs_ReadFile (w_fs (case gate of None \<Rightarrow> liveReadFS s i w | Some g \<Rightarrow> newReadChainFS g (liveReadFS s i w)) st) p = Inr c
    \<Longrightarrow> fs_ReadFile (w_fs w st) p = Inr c"
  by (auto simp: newReadChainFS_def chain_fs_def liveReadFS_def scoped_fs_def sr_ReadFile_def live_view_def
      newScopedReadFS_def split: option.splits if_splits)

lemma commit_of_write:
  assumes "commit_at_once sha w (change_of (MWrite p d opts)) s = (r, s')"
  shows "mutate w (MWrite p d opts) s = (r, s') \<or> (\<exists>e. r = Inl e) \<and> s' = s"
proof -
  have "Changes (change_of (MWrite p d opts)) = []" "Action (change_of (MWrite p d opts)) = ChangeActionWrite"
    "Write (change_of (MWrite p d opts)) = Some \<lparr>wc_Bytes = d, wc_Opts = opts, wc_Generated = False\<rparr>"
    "Target (change_of (MWrite p d opts)) = p"
    by (simp_all add: change_of_def empty_change_def)
  with assms show ?thesis
    by (auto simp: commit_at_once_def CommitChangeSet_def commit_action_def Let_def
        split: option.splits prod.splits sum.splits)
qed

lemma raw_mutate:
  "mutate (raw_session sha gate s i w admit) (MWrite p d opts) st =
     (case session_authorizer s i ChangeActionWrite p of
        Some e \<Rightarrow> (Inl e, st) | None \<Rightarrow> admit (change_of (MWrite p d opts)) st)"
  unfolding raw_session_def Let_def scoped_mutate
  by (simp add: refusal_def sink_mutate del: mutate.simps split: option.split)

lemma raw_write:
  assumes "mutate (raw_session sha gate s i w (commit_at_once sha w)) (MWrite p d opts) st = (r, st')"
  shows "mutate w (MWrite p d opts) st = (r, st') \<or> (\<exists>e. r = Inl e) \<and> st' = st"
  using assms commit_of_write [of sha w p d opts st r st'] unfolding raw_mutate
  by (auto split: option.splits)

lemma raw_read: "fs_ReadFile (w_fs (raw_session sha gate s i w admit) st) p = Inr c \<Longrightarrow> fs_ReadFile (w_fs w st) p = Inr c"
  using live_read [where gate = gate and s = s and i = i and w = w]
  by (simp add: raw_session_def newScopedWriteFS_def newMiddlewareFS_def Let_def)

lemma cas_store_raw:
  assumes "cas_store (mutate w) (pure_read w) content same fit sha"
  shows "cas_store (mutate (raw_session sha gate s i w (commit_at_once sha w)))
    (pure_read (raw_session sha gate s i w (commit_at_once sha w))) content same fit sha"
proof -
  let ?raw = "raw_session sha gate s i w (commit_at_once sha w)"
  have ok: "mutate ?raw (MWrite p d opts) st = (Inr h, st') \<Longrightarrow> mutate w (MWrite p d opts) st = (Inr h, st')"
    for p d opts st h st'
    using raw_write [of sha gate s i w p d opts st "Inr h" st'] by simp
  note law = cas_store.written [OF assms _ ok] cas_store.compared [OF assms _ ok] cas_store.created [OF assms _ ok]
  show ?thesis
  proof (rule cas_store.intro)
    show "content st' = content st" if "fit p st" "mutate ?raw (MWrite p d opts) st = (Inl e, st')" for p st d opts e st'
      using raw_write [OF that(2)] cas_store.refused [OF assms that(1)] by auto
    show "content st p = Some c" if "pure_read ?raw p st = (Inr c, st')" for p st c st'
      using that raw_read [of sha gate s i w _ st p c] cas_store.seen [OF assms, of p st c st]
      by (auto simp: pure_read_def)
  qed (use law in \<open>auto simp: pure_read_def\<close>)
qed

lemma cas_store_tracked:
  assumes "cas_store (mutate w) (pure_read w) content same fit sha"
  shows "cas_store (tracked_mutate w) (tracked_ReadFile sha w) (\<lambda>t. content (tr_backend t)) same
    (\<lambda>p t. fit p (tr_backend t)) sha"
proof -
  have step: "mutate w (MWrite p d opts) (tr_backend t) = (r, tr_backend t')"
    if "tracked_mutate w (MWrite p d opts) t = (r, t')" for p d opts t r t'
    using that by (auto simp: tracked_mutate_def note_hash_def split: prod.splits sum.splits)
  note law = cas_store.written [OF assms _ step] cas_store.compared [OF assms _ step]
    cas_store.created [OF assms _ step] cas_store.refused [OF assms _ step]
  have look: "tr_backend t' = tr_backend t \<and> pure_read w p (tr_backend t) = (r, tr_backend t)"
    if "tracked_ReadFile sha w p t = (r, t')" for p t r t'
    using that by (auto simp: tracked_ReadFile_def pure_read_def note_hash_def split: sum.splits)
  show ?thesis
    using law look cas_store.seen [OF assms] by unfold_locales (blast | metis)+
qed

lemma cas_store_alias:
  assumes "cas_store mut read content same fit sha"
  shows "cas_store (\<lambda>m. mut (m_resolve f m)) (\<lambda>p. read (f p)) (\<lambda>s p. content s (f p))
    (\<lambda>p q. same (f p) (f q)) (\<lambda>p. fit (f p)) sha"
proof -
  note law = cas_store.written [OF assms] cas_store.compared [OF assms] cas_store.created [OF assms]
    cas_store.refused [OF assms] cas_store.seen [OF assms] cas_store.looked [OF assms]
  show ?thesis by unfold_locales (auto dest: law)
qed

end
