(* ===== verification/Shell_Write.thy ===== *)
theory Shell_Write
  imports Session_Reads Shell_Exec
begin

text \<open>
  The writes of the shell's commands (pkg/shell/cmds/write.go), over a session's filesystem. A
  command reads and then writes, and other sessions may write in between: \<open>env k\<close> is what happens
  to the state before the \<open>k\<close>-th call that a command makes. The text of an error is an argument.
\<close>

subsection \<open>What a command knows of its session\<close>

record 's write_ctx =
  cx_fs :: "'s sfs"
  cx_policy :: "(string \<Rightarrow> write_conflict_policy) option"
  cx_sha :: "string \<Rightarrow> string"
  cx_error :: "vfs_error \<Rightarrow> string"

definition WriteConflictPolicy :: "'s write_ctx \<Rightarrow> string \<Rightarrow> write_conflict_policy" where
  "WriteConflictPolicy C p = (case cx_policy C of None \<Rightarrow> DefaultWriteConflictPolicy | Some f \<Rightarrow> f p)"

type_synonym 's env = "nat \<Rightarrow> 's \<Rightarrow> 's"

subsection \<open>Preconditions\<close>

definition if_match :: "string \<Rightarrow> write_opts" where
  "if_match h = unconditional\<lparr>IfMatch := Some h\<rparr>"

definition if_none_match :: write_opts where
  "if_none_match = unconditional\<lparr>IfNoneMatch := True\<rparr>"

definition overwriteOpts :: "'s write_ctx \<Rightarrow> string \<Rightarrow> string \<Rightarrow> bool \<Rightarrow> write_opts" where
  "overwriteOpts C p base exists =
     (if WriteConflictPolicy C p = PolicyLastWriteWins then unconditional
      else if \<not> exists then if_none_match
      else if_match (cx_sha C base))"

definition content_or_empty :: "string vres \<Rightarrow> string" where
  "content_or_empty r = (case r of Inl _ \<Rightarrow> [] | Inr c \<Rightarrow> c)"

definition overwritePreconditions :: "'s write_ctx \<Rightarrow> string \<Rightarrow> 's \<Rightarrow> write_opts \<times> 's" where
  "overwritePreconditions C p s =
     (if WriteConflictPolicy C p = PolicyLastWriteWins then (unconditional, s)
      else case last_hash (cx_fs C) p s of
             Some h \<Rightarrow> (if_match h, s)
           | None \<Rightarrow>
               (case sf_ReadFile (cx_fs C) p s of
                  (r, s) \<Rightarrow> (overwriteOpts C p (content_or_empty r) (\<not> isl r), s)))"

subsection \<open>Writing\<close>

text \<open>
  An append reads, appends and writes if nothing has changed, and starts again if something has.
  \<open>k\<close> counts the calls.
\<close>

definition maxAppendRetries :: nat where
  "maxAppendRetries = 64"

definition is_precondition :: "vfs_error \<Rightarrow> bool" where
  "is_precondition e \<longleftrightarrow> (case e of PreconditionError _ _ \<Rightarrow> True | _ \<Rightarrow> False)"

definition append_opts :: "'s write_ctx \<Rightarrow> string vres \<Rightarrow> write_opts" where
  "append_opts C r = (case r of Inr cur \<Rightarrow> if_match (cx_sha C cur) | Inl _ \<Rightarrow> if_none_match)"

fun append_turns ::
  "nat \<Rightarrow> 's write_ctx \<Rightarrow> (mutation \<Rightarrow> 's \<Rightarrow> string vres \<times> 's) \<Rightarrow> 's env \<Rightarrow> nat \<Rightarrow> string \<Rightarrow> string \<Rightarrow> string
     \<Rightarrow> 's \<Rightarrow> string vres \<times> 's" where
  "append_turns 0 C mut env k name p data s =
     (Inl (OtherError (''append: too much write contention on '' @ name)), s)"
| "append_turns (Suc n) C mut env k name p data s =
     (case sf_ReadFile (cx_fs C) p (env k s) of
        (r, s) \<Rightarrow>
          (case mut (MWrite p (content_or_empty r @ data) (append_opts C r)) (env (Suc k) s) of
             (Inr h, s) \<Rightarrow> (Inr h, s)
           | (Inl e, s) \<Rightarrow>
               if is_precondition e then append_turns n C mut env (Suc (Suc k)) name p data s
               else (Inl e, s)))"

definition WriteFile :: "'s write_ctx \<Rightarrow> 's env \<Rightarrow> string \<Rightarrow> string \<Rightarrow> string \<Rightarrow> bool \<Rightarrow> 's \<Rightarrow> string vres \<times> 's" where
  "WriteFile C env cwd name data app s =
     (case sf_mutate (cx_fs C) of
        None \<Rightarrow> (Inl (ErrReadOnly ''''), s)
      | Some mut \<Rightarrow>
          (let p = resolvePath cwd name
           in if app then append_turns maxAppendRetries C mut env 0 name p data s
              else case overwritePreconditions C p (env 0 s) of
                     (opts, s) \<Rightarrow> mut (MWrite p data opts) (env 1 s)))"

definition WriteFileCAS :: "'s write_ctx \<Rightarrow> string \<Rightarrow> string \<Rightarrow> string \<Rightarrow> string \<Rightarrow> 's \<Rightarrow> string vres \<times> 's" where
  "WriteFileCAS C cwd name data base s =
     (case sf_mutate (cx_fs C) of
        None \<Rightarrow> (Inl (ErrReadOnly ''''), s)
      | Some mut \<Rightarrow>
          (let p = resolvePath cwd name in mut (MWrite p data (overwriteOpts C p base True)) s))"

subsection \<open>What the caller is told\<close>

definition pendingChangeLine :: "string \<Rightarrow> string \<Rightarrow> string \<Rightarrow> string" where
  "pendingChangeLine cmd target ref =
     (if ref \<noteq> [] then cmd @ '': '' @ target @ '' change pending as '' @ ref
      else cmd @ '': '' @ target @ '' change pending'')"

text \<open>A status and a line of error output. The dash is the em dash of the source, in UTF-8.\<close>

definition changed_concurrently :: string where
  "changed_concurrently =
     ''file changed concurrently '' @ [CHR 0xE2, CHR 0x80, CHR 0x94] @ '' re-read and retry''"

definition writeResultMsg :: "'s write_ctx \<Rightarrow> string \<Rightarrow> string \<Rightarrow> vfs_error option \<Rightarrow> int \<times> string" where
  "writeResultMsg C cmd name err =
     (case err of
        None \<Rightarrow> (0, [])
      | Some (RuleRejection m) \<Rightarrow> (1, Fprintln (cx_error C (RuleRejection m)))
      | Some (PendingChangeError t ref) \<Rightarrow> (0, Fprintln (pendingChangeLine cmd name ref))
      | Some (PreconditionError q cur) \<Rightarrow> (1, Fprintln (cmd @ '': '' @ name @ '': '' @ changed_concurrently))
      | Some e \<Rightarrow> (1, Fprintln (cmd @ '': '' @ name @ '': '' @ cx_error C e)))"

definition err_of :: "string vres \<Rightarrow> vfs_error option" where
  "err_of r = (case r of Inl e \<Rightarrow> Some e | Inr _ \<Rightarrow> None)"

definition WriteFileMsg ::
  "'s write_ctx \<Rightarrow> 's env \<Rightarrow> string \<Rightarrow> string \<Rightarrow> string \<Rightarrow> string \<Rightarrow> bool \<Rightarrow> 's \<Rightarrow> int \<times> string \<times> 's" where
  "WriteFileMsg C env cmd cwd name data app s =
     (case WriteFile C env cwd name data app s of
        (r, s) \<Rightarrow> (case writeResultMsg C cmd name (err_of r) of (c, m) \<Rightarrow> (c, m, s)))"

definition WriteFileCASMsg ::
  "'s write_ctx \<Rightarrow> string \<Rightarrow> string \<Rightarrow> string \<Rightarrow> string \<Rightarrow> string \<Rightarrow> 's \<Rightarrow> int \<times> string \<times> 's" where
  "WriteFileCASMsg C cmd cwd name data base s =
     (case WriteFileCAS C cwd name data base s of
        (r, s) \<Rightarrow> (case writeResultMsg C cmd name (err_of r) of (c, m) \<Rightarrow> (c, m, s)))"

text \<open>The redirections of a session's shell write in this way.\<close>

definition session_world :: "'s write_ctx \<Rightarrow> 's env \<Rightarrow> 's world \<Rightarrow> 's world" where
  "session_world C env W =
     W\<lparr>wo_WriteFileMsg := (\<lambda>target data app sh.
          case WriteFileMsg C env ''redirect'' (sh_cwd sh) target data app (sh_fs sh) of
            (c, m, s) \<Rightarrow> (c, m, sh\<lparr>sh_fs := s\<rparr>)),
       wo_ReadDir := (\<lambda>p s. (fs_ReadDir (sf_view (cx_fs C) s) p, s))\<rparr>"

end
