(* ===== verification/Shell_Updates.thy ===== *)
theory Shell_Updates
  imports Shell_Write Dir_Writes
begin

text \<open>
  What the shell's writes promise to sessions that write the same files at the same time: an append
  extends the content of the moment it is committed, and an overwrite replaces only what the session
  has seen. Both hold of a session's whole stack over a directory, and rest on the contract
  \<open>cas_store\<close> alone.
\<close>

subsection \<open>Clients of a store that compares and swaps\<close>

definition present :: "string option \<Rightarrow> string" where
  "present c = (case c of None \<Rightarrow> [] | Some c \<Rightarrow> c)"

context cas_store
begin

lemma append_commits:
  assumes "inj sha" "\<And>s. fit p s" "sf_ReadFile (cx_fs C) = read" "cx_sha C = sha"
    and "append_turns n C mut env k name p data s = (Inr h, s')"
  shows "\<exists>s0 opts. mut (MWrite p (present (content s0 p) @ data) opts) s0 = (Inr h, s')"
  using assms(5)
proof (induction n arbitrary: k s)
  case (Suc n)
  obtain r s1 where r: "read p (env k s) = (r, s1)" by force
  let ?s2 = "env (Suc k) s1"
  obtain q s3 where q: "mut (MWrite p (content_or_empty r @ data) (append_opts C r)) ?s2 = (q, s3)" by force
  show ?case
  proof (cases q)
    case (Inl e)
    with Suc r q assms(3) show ?thesis by (auto split: if_splits)
  next
    case (Inr h')
    have won: "mut (MWrite p (content_or_empty r @ data) (append_opts C r)) ?s2 = (Inr h, s')"
      using Suc.prems r q Inr assms(3) by simp
    have "present (content ?s2 p) = content_or_empty r"
    proof (cases r)
      case (Inl e)
      then have "content ?s2 p = None"
        using created [OF assms(2) won] by (simp add: append_opts_def if_none_match_def)
      with Inl show ?thesis by (simp add: present_def content_or_empty_def)
    next
      case (Inr cur)
      then obtain old where "content ?s2 p = Some old" "sha old = sha cur"
        using compared [OF assms(2) won, of "sha cur"] assms(4) by (auto simp: append_opts_def if_match_def)
      with Inr assms(1) show ?thesis by (auto simp: present_def content_or_empty_def dest: injD)
    qed
    with won show ?thesis by (intro exI [of _ ?s2] exI [of _ "append_opts C r"]) simp
  qed
qed simp

lemma overwrite_compares:
  assumes "inj sha" "fit p s" "content s p \<noteq> Some c" "mut (MWrite p d (if_match (sha c))) s = (r, s')"
  shows "(\<exists>e. r = Inl e) \<and> content s' = content s"
proof (cases r)
  case (Inl e)
  with assms refused [OF assms(2)] show ?thesis by blast
next
  case (Inr h)
  with assms(4) obtain old where "content s p = Some old" "sha old = sha c"
    using compared [OF assms(2), of d "if_match (sha c)" h s' "sha c"] by (auto simp: if_match_def)
  with assms(1,3) show ?thesis by (auto dest: injD)
qed

end

subsection \<open>A session's stack over a directory\<close>

lemma os_ReadFile_file: "os_ReadFile h q = Inr c \<Longrightarrow> file_at h q = Some c"
  by (auto simp: os_ReadFile_def os_Stat_def file_at_def split: option.splits node.splits sum.splits if_splits)

text \<open>A directory keeps the contract where the temporary file of a write is a new one.\<close>

interpretation dir_store: cas_store "mutate (dir_wfs d)" "pure_read (dir_wfs d)"
    "\<lambda>s p. file_at (ds_host s) (segs p)" "\<lambda>p q. segs p = segs q"
    "\<lambda>p s. tmp_fresh d (write_host p s) (segs p)" "df_sha d" for d
proof (unfold_locales, goal_cases)
  case (1 p s c opts h s')
  then show ?case using dir_write_cases [of d p c opts s "Inr h" s'] by (auto simp: dir_wfs_def)
next
  case (2 p s c opts h s' want)
  then show ?case using write_compares [of d p c opts s h s'] by (simp add: dir_wfs_def)
next
  case (3 p s c opts h s')
  then show ?case using write_compares [of d p c opts s h s'] by (simp add: dir_wfs_def file_at_def)
next
  case (4 p s c opts e s')
  then show ?case using dir_write_cases [of d p c opts s "Inl e" s'] by (auto simp: dir_wfs_def fun_eq_iff)
next
  case (5 p s c s')
  then show ?case by (auto simp: pure_read_def dir_wfs_def dir_ReadFile_def os_ReadFile_file split: if_splits)
qed (auto simp: pure_read_def)

definition canonical_of :: "server \<Rightarrow> identity \<Rightarrow> string \<Rightarrow> string" where
  "canonical_of s i p = fst (alias_canonical (currentAliases (aliasesForIdentity s i)) p)"

definition dir_session :: "read_gate option \<Rightarrow> server \<Rightarrow> identity \<Rightarrow> dir_fs \<Rightarrow> dir_state tracked sfs" where
  "dir_session gate s i d = session_sfs (df_sha d) False [] gate s i (dir_wfs d)"

definition dir_raw :: "read_gate option \<Rightarrow> server \<Rightarrow> identity \<Rightarrow> dir_fs \<Rightarrow> dir_state wfs" where
  "dir_raw gate s i d = raw_session (df_sha d) gate s i (dir_wfs d) (commit_at_once (df_sha d) (dir_wfs d))"

lemma dir_session_simps:
  "sf_mutate (dir_session gate s i d) = Some (\<lambda>m. tracked_mutate (dir_raw gate s i d) (m_resolve (canonical_of s i) m))"
  "sf_ReadFile (dir_session gate s i d) = (\<lambda>p. tracked_ReadFile (df_sha d) (dir_raw gate s i d) (canonical_of s i p))"
  "last_hash (dir_session gate s i d) = (\<lambda>p. LastReadHash (canonical_of s i p))"
  by (simp_all add: dir_session_def session_sfs_def buildSessionFS_def buildCanonicalSessionFS_def alias_sfs_def
      newReadTrackingFS_def Let_def dir_raw_def last_hash_def fun_eq_iff canonical_of_def [abs_def])

interpretation session_store: cas_store "\<lambda>m. tracked_mutate (dir_raw gate s i d) (m_resolve (canonical_of s i) m)"
    "\<lambda>p. tracked_ReadFile (df_sha d) (dir_raw gate s i d) (canonical_of s i p)"
    "\<lambda>t p. file_at (ds_host (tr_backend t)) (segs (canonical_of s i p))"
    "\<lambda>p q. segs (canonical_of s i p) = segs (canonical_of s i q)"
    "\<lambda>p t. tmp_fresh d (write_host (canonical_of s i p) (tr_backend t)) (segs (canonical_of s i p))"
    "df_sha d" for gate s i d
  unfolding dir_raw_def
  by (rule cas_store_alias [OF cas_store_tracked [OF cas_store_raw [OF dir_store.cas_store_axioms]]])

subsection \<open>Appending\<close>

text \<open>
  The host gives every temporary file a new name, whatever is there (\<open>os.CreateTemp\<close>).
\<close>

definition tmp_names_new :: "dir_fs \<Rightarrow> bool" where
  "tmp_names_new d \<longleftrightarrow> (\<forall>h full. tmp_fresh d h full)"

definition session_file :: "server \<Rightarrow> identity \<Rightarrow> string \<Rightarrow> dir_state tracked \<Rightarrow> string option" where
  "session_file s i p t = file_at (ds_host (tr_backend t)) (segs (canonical_of s i p))"

lemma WriteFile_session:
  assumes "cx_fs C = dir_session gate s i d"
  shows "WriteFile C env cwd name data True t =
      append_turns maxAppendRetries C (\<lambda>m. tracked_mutate (dir_raw gate s i d) (m_resolve (canonical_of s i) m))
        env 0 name (resolvePath cwd name) data t"
    and "WriteFile C env cwd name data False t =
      (case overwritePreconditions C (resolvePath cwd name) (env 0 t) of (opts, t) \<Rightarrow>
         tracked_mutate (dir_raw gate s i d)
           (m_resolve (canonical_of s i) (MWrite (resolvePath cwd name) data opts)) (env 1 t))"
  by (simp_all add: WriteFile_def assms dir_session_simps Let_def)

subsection \<open>A session over the small directory\<close>

definition new_name :: "host \<Rightarrow> string \<Rightarrow> string" where
  "new_name h name = CHR ''t'' # concat (concat (map fst h)) @ name"

definition shared_dir :: dir_fs where
  "shared_dir = sample_dir\<lparr>df_tmp := new_name\<rparr>"

lemma part_shorter: "x \<in> set xs \<Longrightarrow> length x \<le> length (concat xs)"
  by (induction xs) auto

lemma shared_names_new: "tmp_names_new shared_dir"
proof -
  have "map_of h (butlast full @ [new_name h (last full)]) = None" for h :: host and full
  proof (rule ccontr)
    assume "map_of h (butlast full @ [new_name h (last full)]) \<noteq> None"
    then have "butlast full @ [new_name h (last full)] \<in> fst ` set h"
      by (simp add: map_of_eq_None_iff)
    then have "new_name h (last full) \<in> set (concat (map fst h))" by force
    from part_shorter [OF this] show False by (simp add: new_name_def)
  qed
  moreover have "butlast full @ [new_name h (last full)] \<noteq> full" for h full
  proof
    assume "butlast full @ [new_name h (last full)] = full"
    then have "new_name h (last full) = last full" by (metis last_snoc)
    then have "length (new_name h (last full)) = length (last full)" by simp
    then show False by (simp add: new_name_def)
  qed
  ultimately show ?thesis by (simp add: tmp_names_new_def tmp_fresh_def shared_dir_def)
qed

text \<open>A server with one docset, whose editor \<open>ann\<close> is known to a store of the host.\<close>

definition ann_edits :: policy where
  "ann_edits = \<lparr>po_IdentityName = ''ann'', po_Roles = [''editor''], po_HomeDocset = '''', po_DenyDocsets = [],
     po_DenyCapabilities = []\<rparr>"

definition small_server :: server where
  "small_server = sample_server\<lparr>sv_auth :=
     \<lparr>ac_AllowKeyless = None, ac_UnknownIdentity = ''deny'', ac_DefaultCwd = '''', Docsets = [(''docs'', sample_docset ''/d'' [(''editor'', ''rw'')] [])],
      ac_Roles = [(''editor'', \<lparr>rs_Allow = no_rules, rs_Deny = no_rules\<rparr>)], Identities = []\<rparr>,
     store := CustomStore (\<lambda>p. Inr ann_edits)\<rparr>"

definition ann :: identity where
  "ann = (anonymousIdentity False)\<lparr>IdentityName := ''ann'', policySnapshot := Some ann_edits, Scopes := [ScopeFull]\<rparr>"

definition shared_ctx :: "dir_state tracked write_ctx" where
  "shared_ctx = \<lparr>cx_fs = dir_session None small_server ann shared_dir,
     cx_policy = None, cx_sha = (\<lambda>b. b), cx_error = (\<lambda>e. ''error'')\<rparr>"

definition shared_start :: "dir_state tracked" where
  "shared_start = \<lparr>tr_backend = sample_host, tr_reads = Map.empty\<rparr>"

text \<open>Another session puts a content in place of the file's.\<close>

definition other_writes :: "string \<Rightarrow> dir_state \<Rightarrow> dir_state" where
  "other_writes c b = b\<lparr>ds_host := AList.update [''d'', ''a''] (HFile c) (ds_host b)\<rparr>"

lemma small_canonical: "canonical_of small_server ann ''/d/a'' = ''/d/a''"
  by code_simp

lemma small_allows: "session_authorizer small_server ann ChangeActionWrite ''/d/a'' = None"
  by code_simp

lemma small_read: "fs_ReadFile (w_fs (dir_raw None small_server ann shared_dir) sample_host) ''/d/a'' = Inr ''old''"
proof -
  have "fs_ReadFile (w_fs (liveReadFS small_server ann (dir_wfs shared_dir)) sample_host) ''/d/a'' = Inr ''old''"
    by code_simp
  then show ?thesis
    by (simp add: dir_raw_def raw_session_def newScopedWriteFS_def newMiddlewareFS_def Let_def)
qed

lemma small_path: "resolvePath ''/d'' ''a'' = ''/d/a''"
  by code_simp


lemma small_append:
  assumes "cx_fs C = dir_session None small_server ann shared_dir" "cx_sha C = (\<lambda>b. b)" "resolvePath cwd name = ''/d/a''"
  shows "\<exists>t'. WriteFile C (\<lambda>k t. t) cwd name ''+'' True shared_start = (Inr ''old+'', t')"
proof -
  have sha: "df_sha shared_dir = (\<lambda>b. b)" by (simp add: shared_dir_def sample_dir_def)
  have "fst (commit_at_once (\<lambda>b. b) (dir_wfs shared_dir) (change_of (MWrite ''/d/a'' ''old+'' (if_match ''old''))) sample_host) = Inr ''old+''"
    by code_simp
  then obtain st where "mutate (dir_raw None small_server ann shared_dir) (MWrite ''/d/a'' ''old+'' (if_match ''old'')) sample_host = (Inr ''old+'', st)"
    unfolding dir_raw_def raw_mutate sha small_allows by (metis option.case(1) prod.collapse)
  then show ?thesis
    unfolding WriteFile_session(1) [OF assms(1)] maxAppendRetries_def assms(3)
    by (simp add: numeral_eq_Suc assms(1,2) dir_session_simps small_canonical tracked_ReadFile_def shared_start_def small_read
        content_or_empty_def append_opts_def sha note_hash_def tracked_mutate_def del: mutate.simps)
qed


text \<open>
  An append whose precondition cannot hold is tried to the end and reported as contention, whoever
  writes: so it is for a directory, which is not read but exists, and for a file whose transform
  changes what is read, so that its hash is not that of the file.
\<close>

lemma append_spins:
  assumes "\<And>s. I s \<Longrightarrow> \<exists>r s1 e s2. sf_ReadFile (cx_fs C) p s = (r, s1)
      \<and> mut (MWrite p (content_or_empty r @ data) (append_opts C r)) s1 = (Inl e, s2) \<and> is_precondition e \<and> I s2"
  shows "I s \<Longrightarrow> fst (append_turns n C mut (\<lambda>k s. s) k name p data s) =
    Inl (OtherError (''append: too much write contention on '' @ name))"
proof (induction n arbitrary: k s)
  case (Suc n)
  from assms [OF Suc.prems] obtain r s1 e s2 where
    "sf_ReadFile (cx_fs C) p s = (r, s1)"
    "mut (MWrite p (content_or_empty r @ data) (append_opts C r)) s1 = (Inl e, s2)" "is_precondition e" "I s2"
    by blast
  with Suc.IH [of s2] show ?case by simp
qed simp

lemma append_to_directory_contends:
  "fst (WriteFile shared_ctx (\<lambda>k t. t) ''/d'' ''t'' ''+'' True shared_start) =
   Inl (OtherError (''append: too much write contention on '' @ ''t''))"
proof -
  have ctx: "cx_fs shared_ctx = dir_session None small_server ann shared_dir" "cx_sha shared_ctx = (\<lambda>b. b)"
    by (simp_all add: shared_ctx_def)
  have sha: "df_sha shared_dir = (\<lambda>b. b)" by (simp add: shared_dir_def sample_dir_def)
  have path: "resolvePath ''/d'' ''t'' = ''/d/t''" "canonical_of small_server ann ''/d/t'' = ''/d/t''"
    and allowed: "session_authorizer small_server ann ChangeActionWrite ''/d/t'' = None"
    by code_simp+
  have "isl (fs_ReadFile (w_fs (liveReadFS small_server ann (dir_wfs shared_dir)) sample_host) ''/d/t'')"
    by code_simp
  then obtain e where read: "fs_ReadFile (w_fs (dir_raw None small_server ann shared_dir) sample_host) ''/d/t'' = Inl e"
    by (auto simp: dir_raw_def raw_session_def newScopedWriteFS_def newMiddlewareFS_def Let_def isl_def)
  have "commit_at_once (\<lambda>b. b) (dir_wfs shared_dir) (change_of (MWrite ''/d/t'' ''+'' if_none_match)) sample_host =
      (Inl (PreconditionError ''/d/t'' []), sample_host)"
    by code_simp
  then have stuck: "mutate (dir_raw None small_server ann shared_dir) (MWrite ''/d/t'' ''+'' if_none_match) sample_host =
      (Inl (PreconditionError ''/d/t'' []), sample_host)"
    unfolding dir_raw_def raw_mutate sha allowed by simp
  show ?thesis
    unfolding WriteFile_session(1) [OF ctx(1)] path
    by (rule append_spins [of "\<lambda>t. t = shared_start"])
       (simp_all add: ctx dir_session_simps path tracked_ReadFile_def shared_start_def read content_or_empty_def
          append_opts_def stuck tracked_mutate_def is_precondition_def del: mutate.simps)
qed

subsection \<open>Overwriting\<close>

text \<open>
  What happens to a session: its own reads and mutations, and what others do to the backend. The
  session knows the last content it has read or written of each file, until it removes it.
\<close>

datatype 's event = Reads string | Mutates mutation | Others "'s \<Rightarrow> 's"

type_synonym knowledge = "string \<Rightarrow> string option"

text \<open>The path by which hashes and knowledge are kept.\<close>

definition kept_at :: "(string \<Rightarrow> string) \<Rightarrow> string \<Rightarrow> string" where
  "kept_at f p = CleanPath (f p)"

fun learns :: "(string \<Rightarrow> string) \<Rightarrow> mutation \<Rightarrow> knowledge \<Rightarrow> knowledge" where
  "learns f (MWrite p d opts) K = K(kept_at f p \<mapsto> d)"
| "learns f (MRemove p) K = K(kept_at f p := None)"
| "learns f (MRemoveAll p opts) K =
     (\<lambda>q. if q = kept_at f p \<or> prefix (kept_at f p @ ''/'') q then None else K q)"
| "learns f m K = K"

definition occurs :: "(string \<Rightarrow> string) \<Rightarrow> 's tracked sfs \<Rightarrow> 's event \<Rightarrow> knowledge \<times> 's tracked \<Rightarrow> knowledge \<times> 's tracked" where
  "occurs f F ev Kt =
     (case Kt of (K, t) \<Rightarrow>
        (case ev of
           Reads p \<Rightarrow> (case sf_ReadFile F p t of (Inr c, t') \<Rightarrow> (K(kept_at f p \<mapsto> c), t') | (Inl _, t') \<Rightarrow> (K, t'))
         | Mutates m \<Rightarrow> (case the (sf_mutate F) m t of (Inr _, t') \<Rightarrow> (learns f m K, t') | (Inl _, t') \<Rightarrow> (K, t'))
         | Others g \<Rightarrow> (K, t\<lparr>tr_backend := g (tr_backend t)\<rparr>)))"

definition after_events :: "(string \<Rightarrow> string) \<Rightarrow> 's tracked sfs \<Rightarrow> 's event list \<Rightarrow> knowledge \<times> 's tracked \<Rightarrow> knowledge \<times> 's tracked" where
  "after_events f F evs = fold (occurs f F) evs"

text \<open>The tracked hashes are those of what the session knows.\<close>

definition tracks :: "(string \<Rightarrow> string) \<Rightarrow> knowledge \<times> 's tracked \<Rightarrow> bool" where
  "tracks sha Kt \<longleftrightarrow> (\<forall>q. tr_reads (snd Kt) q = map_option sha (fst Kt q))"

lemma occurs_tracks:
  assumes "tmp_names_new d" "tracks (df_sha d) Kt"
  shows "tracks (df_sha d) (occurs (canonical_of s i) (dir_session gate s i d) ev Kt)"
proof -
  obtain K t where Kt: "Kt = (K, t)" by (cases Kt)
  have fit: "tmp_fresh d h full" for h full using assms(1) by (simp add: tmp_names_new_def)
  have hash: "h = df_sha d c" if "mutate (dir_raw gate s i d) (MWrite (canonical_of s i p) c opts) (tr_backend t) = (Inr h, b)"
    for p c opts h b
  proof -
    have "tracked_mutate (dir_raw gate s i d) (m_resolve (canonical_of s i) (MWrite p c opts)) t =
        (Inr h, mutated (MWrite (canonical_of s i p) c opts) h (t\<lparr>tr_backend := b\<rparr>))"
      using that by (simp add: tracked_mutate_def del: mutate.simps)
    from session_store.written [OF fit this] show ?thesis by simp
  qed
  show ?thesis
  proof (cases ev)
    case (Mutates m)
    with assms(2) Kt show ?thesis
      by (cases m)
         (auto simp: occurs_def dir_session_simps tracks_def tracked_mutate_def kept_at_def note_hash_def forget_def
            forgetSubtree_def split: prod.splits sum.splits simp del: mutate.simps dest: hash)
  qed (use assms(2) Kt in \<open>auto simp: occurs_def dir_session_simps tracks_def tracked_ReadFile_def kept_at_def
         note_hash_def split: prod.splits sum.splits\<close>)
qed

lemma events_track:
  assumes "tmp_names_new d"
  shows "tracks (df_sha d) Kt \<Longrightarrow> tracks (df_sha d) (after_events (canonical_of s i) (dir_session gate s i d) evs Kt)"
  by (induction evs arbitrary: Kt) (simp_all add: after_events_def occurs_tracks [OF assms])

text \<open>
  C7. An overwrite under the hash policy fails, and leaves every file of the session as it is, if the file no
  longer has the content that the session last saw of it: no change by another session is
  overwritten unseen, whatever the session and the others have done before.
\<close>

theorem no_lost_update:
  assumes "tmp_names_new d" "inj (df_sha d)"
    and "cx_fs C = dir_session gate s i d" "WriteConflictPolicy C (resolvePath cwd name) = PolicyHash"
    and "after_events (canonical_of s i) (dir_session gate s i d) evs (Map.empty, \<lparr>tr_backend = b, tr_reads = Map.empty\<rparr>) = (K, t)"
    and "K (kept_at (canonical_of s i) (resolvePath cwd name)) = Some c"
    and "\<And>k t. \<exists>b. env k t = t\<lparr>tr_backend := b\<rparr>"
    and "session_file s i (resolvePath cwd name) (env 1 (env 0 t)) \<noteq> Some c"
    and "WriteFile C env cwd name data False t = (r, t')"
  shows "(\<exists>e. r = Inl e) \<and> (\<forall>q. session_file s i q t' = session_file s i q (env 1 (env 0 t)))"
proof -
  let ?p = "resolvePath cwd name"
  have fit: "tmp_fresh d h full" for h full using assms(1) by (simp add: tmp_names_new_def)
  have "tracks (df_sha d) (K, t)"
    using events_track [OF assms(1), of "(Map.empty, \<lparr>tr_backend = b, tr_reads = Map.empty\<rparr>)" s i gate evs]
    by (simp add: assms(5)) (simp add: tracks_def)
  moreover have "tr_reads (env 0 t) = tr_reads t" using assms(7) [of 0 t] by auto
  ultimately have "last_hash (cx_fs C) ?p (env 0 t) = Some (df_sha d c)"
    using assms(6) by (simp add: assms(3) dir_session_simps LastReadHash_def tracks_def kept_at_def)
  then have pre: "overwritePreconditions C ?p (env 0 t) = (if_match (df_sha d c), env 0 t)"
    using assms(4) by (simp add: overwritePreconditions_def)
  from assms(9) have w: "tracked_mutate (dir_raw gate s i d)
      (m_resolve (canonical_of s i) (MWrite ?p data (if_match (df_sha d c)))) (env 1 (env 0 t)) = (r, t')"
    unfolding WriteFile_session(2) [OF assms(3)] pre by simp
  have "(\<exists>e. r = Inl e) \<and> (\<lambda>q. session_file s i q t') = (\<lambda>q. session_file s i q (env 1 (env 0 t)))"
    using session_store.overwrite_compares [OF assms(2) fit _ w] assms(8) unfolding session_file_def by blast
  then show ?thesis by (auto simp: fun_eq_iff)
qed

theorem no_lost_update_witness:
  "\<exists>t t' e. snd (after_events (canonical_of small_server ann) (dir_session None small_server ann shared_dir)
        [Reads ''/d/a'', Others (other_writes ''other'')] (Map.empty, shared_start)) = t
     \<and> WriteFile shared_ctx (\<lambda>k t. t) ''/d'' ''a'' ''new'' False t = (Inl e, t')
     \<and> session_file small_server ann ''/d/a'' t' = Some ''other''"
proof -
  let ?F = "dir_session None small_server ann shared_dir" and ?f = "canonical_of small_server ann"
  let ?evs = "[Reads ''/d/a'', Others (other_writes ''other'')]"
  obtain K t where Kt: "after_events ?f ?F ?evs (Map.empty, shared_start) = (K, t)" by force
  have clean: "CleanPath ''/d/a'' = ''/d/a''" "segs ''/d/a'' = [''d'', ''a'']" by code_simp+
  have K: "K (kept_at ?f ''/d/a'') = Some ''old''"
    and now: "session_file small_server ann ''/d/a'' t = Some ''other''"
    using Kt clean by (auto simp: after_events_def occurs_def dir_session_simps small_canonical tracked_ReadFile_def
        shared_start_def small_read note_hash_def kept_at_def session_file_def other_writes_def file_at_def AList.update_conv')
  have other: "''other'' \<noteq> ''old''" by code_simp
  obtain r t' where w: "WriteFile shared_ctx (\<lambda>k t. t) ''/d'' ''a'' ''new'' False t = (r, t')" by force
  have "(\<exists>e. r = Inl e) \<and> (\<forall>q. session_file small_server ann q t' = session_file small_server ann q t)"
  proof (rule no_lost_update [where c = "''old''", OF shared_names_new _ _ _ Kt [unfolded shared_start_def] _ _ _ w])
    show "inj (df_sha shared_dir)" by (simp add: shared_dir_def sample_dir_def inj_on_def)
    show "\<exists>b. t = t\<lparr>tr_backend := b\<rparr>" for t :: "dir_state tracked" by (cases t) simp
  qed (simp_all add: shared_ctx_def WriteConflictPolicy_def DefaultWriteConflictPolicy_def small_path K now other)
  with w now Kt show ?thesis by auto
qed

end
