(* ===== verification/Jobs.thy ===== *)
theory Jobs
  imports Shell_Write
begin

text \<open>
  Asynchronous jobs (pkg/openlore/jobs.go, \<open>JobManager\<close>): each runs a command of the host on a
  bounded pool and commits its output to a file, through the filesystem of the session that
  submitted it. The runner of commands is an argument of the model: what it gives may differ from
  one job to another, even for the same command. A job has an address, since the identifiers are
  random and may collide; the registry holds addresses by identifier. Logging is left out.
\<close>

subsection \<open>Specifications and records\<close>

text \<open>
  \<open>frozenContext\<close> (pkg/shell/cmds/spawn.go) is a write context with a fixed directory: the policy is
  that of the target when the job was submitted.
\<close>

record job_attribution =
  ja_Principal :: string
  ja_Actor :: string
  ja_ClientAuth :: string

definition attribution_text :: "job_attribution \<Rightarrow> string" where
  "attribution_text a = (if ja_Actor a = [] then ja_Principal a else ja_Principal a @ ''/'' @ ja_Actor a)"

record 's job_spec =
  sp_Command :: string
  sp_Target :: string
  sp_Append :: bool
  sp_Attribution :: job_attribution
  sp_WriteCtx :: "'s write_ctx"
  sp_Cwd :: string

definition newFrozenContext :: "'s write_ctx \<Rightarrow> string \<Rightarrow> 's write_ctx" where
  "newFrozenContext C target = C\<lparr>cx_policy := Some (\<lambda>_. WriteConflictPolicy C target)\<rparr>"

datatype job_state = JobRunning | JobDone | JobFailed

fun state_text :: "job_state \<Rightarrow> string" where
  "state_text JobRunning = ''running''"
| "state_text JobDone = ''done''"
| "state_text JobFailed = ''failed''"

record job =
  jb_ID :: string
  jb_Command :: string
  jb_Target :: string
  jb_Attribution :: job_attribution
  jb_State :: job_state
  jb_Note :: string
  jb_StartedAt :: int
  jb_EndedAt :: "int option"

subsection \<open>What a job does\<close>

type_synonym runner = "nat \<Rightarrow> string \<Rightarrow> string list \<Rightarrow> string \<times> string option"

definition jobEnv :: "'s job_spec \<Rightarrow> string list" where
  "jobEnv spec =
     [''OPENLORE_IDENTITY='' @ ja_Principal (sp_Attribution spec),
      ''OPENLORE_ACTOR='' @ ja_Actor (sp_Attribution spec),
      ''OPENLORE_CLIENT_AUTH='' @ ja_ClientAuth (sp_Attribution spec),
      ''OPENLORE_JOB_TARGET='' @ sp_Target spec]"

text \<open>The three bytes are the ellipsis of the source.\<close>

definition truncateOutput :: "string \<Rightarrow> nat \<Rightarrow> string" where
  "truncateOutput b n =
     (let s = TrimSpace b
      in if length s \<le> n then s else take n s @ [CHR 0xE2, CHR 0x80, CHR 0xA6])"

definition run_command :: "runner \<Rightarrow> nat \<Rightarrow> 's job_spec \<Rightarrow> string \<times> string option" where
  "run_command R g spec = R g (sp_Command spec) (jobEnv spec)"

definition run_job :: "runner \<Rightarrow> nat \<Rightarrow> 's job_spec \<Rightarrow> 's env \<Rightarrow> 's \<Rightarrow> (job_state \<times> string) \<times> 's" where
  "run_job R g spec env s =
     (case run_command R g spec of
        (out, Some err) \<Rightarrow>
          ((JobFailed, ''command failed: '' @ err @ '' ('' @ truncateOutput out 256 @ '')''), s)
      | (out, None) \<Rightarrow>
          (case WriteFile (sp_WriteCtx spec) env (sp_Cwd spec) (sp_Target spec) out (sp_Append spec) s of
             (Inl e, s) \<Rightarrow> ((JobFailed, ''write-back failed: '' @ cx_error (sp_WriteCtx spec) e), s)
           | (Inr h, s) \<Rightarrow>
               ((JobDone, ''wrote '' @ decimal (int (length out)) @ '' bytes to '' @ sp_Target spec), s)))"

subsection \<open>The manager\<close>

text \<open>
  A goroutine is at one of these points: before \<open>wg.Add\<close>, before the semaphore, holding a slot,
  with its result, after \<open>finish\<close>, after the slot is given back, and after \<open>wg.Done\<close>.
\<close>

datatype phase = Registered | Waiting | Holding | Finishing job_state string | Finished | Released | Gone

record 's manager =
  jm_heap :: "job list"
  jm_tasks :: "('s job_spec \<times> phase) list"
  jm_jobs :: "string \<Rightarrow> nat option"
  jm_order :: "string list"
  jm_sem :: nat
  jm_cap :: nat
  jm_wg :: nat
  jm_store :: 's

definition NewJobManager :: "int \<Rightarrow> 's \<Rightarrow> 's manager" where
  "NewJobManager maxConcurrent s =
     \<lparr>jm_heap = [], jm_tasks = [], jm_jobs = Map.empty, jm_order = [], jm_sem = 0,
      jm_cap = nat (if maxConcurrent < 1 then 1 else maxConcurrent), jm_wg = 0, jm_store = s\<rparr>"

definition hex_digits :: string where
  "hex_digits = ''0123456789abcdef''"

definition hex_byte :: "char \<Rightarrow> string" where
  "hex_byte c = [hex_digits ! (byte c div 16), hex_digits ! (byte c mod 16)]"

text \<open>The random bytes, six where there are any.\<close>

definition newJobID :: "string option \<Rightarrow> string option" where
  "newJobID random = map_option (\<lambda>b. ''job_'' @ concat (map hex_byte b)) random"

definition new_job :: "string \<Rightarrow> int \<Rightarrow> 's job_spec \<Rightarrow> job" where
  "new_job i now spec =
     \<lparr>jb_ID = i, jb_Command = sp_Command spec, jb_Target = sp_Target spec, jb_Attribution = sp_Attribution spec,
      jb_State = JobRunning, jb_Note = [], jb_StartedAt = now, jb_EndedAt = None\<rparr>"

definition register_job :: "string \<Rightarrow> int \<Rightarrow> 's job_spec \<Rightarrow> 's manager \<Rightarrow> 's manager" where
  "register_job i now spec M =
     M\<lparr>jm_heap := jm_heap M @ [new_job i now spec], jm_tasks := jm_tasks M @ [(spec, Registered)],
       jm_jobs := (jm_jobs M)(i \<mapsto> length (jm_heap M)), jm_order := jm_order M @ [i]\<rparr>"

definition at_phase :: "nat \<Rightarrow> phase \<Rightarrow> 's manager \<Rightarrow> bool" where
  "at_phase g ph M \<longleftrightarrow> g < length (jm_tasks M) \<and> snd (jm_tasks M ! g) = ph"

definition set_phase :: "nat \<Rightarrow> phase \<Rightarrow> 's manager \<Rightarrow> 's manager" where
  "set_phase g ph M = M\<lparr>jm_tasks := (jm_tasks M)[g := (fst (jm_tasks M ! g), ph)]\<rparr>"

definition launch :: "nat \<Rightarrow> 's manager \<Rightarrow> 's manager" where
  "launch g M = (set_phase g Waiting M)\<lparr>jm_wg := Suc (jm_wg M)\<rparr>"

definition Submit :: "string option \<Rightarrow> int \<Rightarrow> 's job_spec \<Rightarrow> 's manager \<Rightarrow> string option \<times> 's manager" where
  "Submit random now spec M =
     (case newJobID random of
        None \<Rightarrow> (None, M)
      | Some i \<Rightarrow> (Some i, launch (length (jm_tasks M)) (register_job i now spec M)))"

definition finish :: "int \<Rightarrow> nat \<Rightarrow> job_state \<Rightarrow> string \<Rightarrow> 's manager \<Rightarrow> 's manager" where
  "finish now g st note M =
     M\<lparr>jm_heap := (jm_heap M)[g := (jm_heap M ! g)\<lparr>jb_State := st, jb_Note := note, jb_EndedAt := Some now\<rparr>]\<rparr>"

text \<open>The goroutine of a job, from one point to the next. It waits where there is no free slot.\<close>

definition job_turn :: "runner \<Rightarrow> 's env \<Rightarrow> int \<Rightarrow> nat \<Rightarrow> 's manager \<Rightarrow> 's manager option" where
  "job_turn R env now g M =
     (case snd (jm_tasks M ! g) of
        Registered \<Rightarrow> Some (launch g M)
      | Waiting \<Rightarrow> (if jm_sem M < jm_cap M then Some ((set_phase g Holding M)\<lparr>jm_sem := Suc (jm_sem M)\<rparr>) else None)
      | Holding \<Rightarrow>
          (case run_job R g (fst (jm_tasks M ! g)) env (jm_store M) of
             ((st, note), s) \<Rightarrow> Some ((set_phase g (Finishing st note) M)\<lparr>jm_store := s\<rparr>))
      | Finishing st note \<Rightarrow> Some (finish now g st note (set_phase g Finished M))
      | Finished \<Rightarrow> Some ((set_phase g Released M)\<lparr>jm_sem := jm_sem M - 1\<rparr>)
      | Released \<Rightarrow> Some ((set_phase g Gone M)\<lparr>jm_wg := jm_wg M - 1\<rparr>)
      | Gone \<Rightarrow> None)"

text \<open>\<open>Drain\<close> answers true where it has seen no goroutine left.\<close>

definition drained :: "'s manager \<Rightarrow> bool" where
  "drained M \<longleftrightarrow> jm_wg M = 0"

definition snapshot :: "string \<Rightarrow> 's manager \<Rightarrow> job option" where
  "snapshot i M = map_option (\<lambda>g. jm_heap M ! g) (jm_jobs M i)"

definition list_jobs :: "'s manager \<Rightarrow> job list" where
  "list_jobs M = List.map_filter (\<lambda>i. snapshot i M) (rev (jm_order M))"

subsection \<open>The filesystem at /jobs\<close>

text \<open>
  \<open>time.RFC3339\<close> of a time in UTC, given in seconds since 1970: the days are counted in eras of
  400 years that start in March.
\<close>

definition civil_date :: "int \<Rightarrow> int \<times> int \<times> int" where
  "civil_date days =
     (let z = days + 719468; era = z div 146097; doe = z mod 146097;
          yoe = (doe - doe div 1460 + doe div 36524 - doe div 146096) div 365;
          doy = doe - (365 * yoe + yoe div 4 - yoe div 100);
          mp = (5 * doy + 2) div 153;
          month = (if mp < 10 then mp + 3 else mp - 9)
      in (yoe + 400 * era + (if month \<le> 2 then 1 else 0), month, doy - (153 * mp + 2) div 5 + 1))"

definition padded :: "nat \<Rightarrow> int \<Rightarrow> string" where
  "padded w i = (let d = decimal i in replicate (w - length d) (CHR ''0'') @ d)"

definition RFC3339 :: "int \<Rightarrow> string" where
  "RFC3339 t =
     (let sec = t mod 86400
      in case civil_date (t div 86400) of
           (y, m, d) \<Rightarrow>
             padded 4 y @ ''-'' @ padded 2 m @ ''-'' @ padded 2 d @ ''T'' @ padded 2 (sec div 3600) @ '':''
             @ padded 2 (sec div 60 mod 60) @ '':'' @ padded 2 (sec mod 60) @ ''Z'')"

definition renderJob :: "job \<Rightarrow> string" where
  "renderJob j =
     Fprintln (''job:      '' @ jb_ID j)
     @ Fprintln (''state:    '' @ state_text (jb_State j))
     @ Fprintln (''identity: '' @ attribution_text (jb_Attribution j))
     @ Fprintln (''target:   '' @ jb_Target j)
     @ Fprintln (''command:  '' @ jb_Command j)
     @ Fprintln (''started:  '' @ RFC3339 (jb_StartedAt j))
     @ (case jb_EndedAt j of None \<Rightarrow> [] | Some t \<Rightarrow> Fprintln (''ended:    '' @ RFC3339 t))
     @ (if jb_Note j = [] then [] else Fprintln (''detail:   '' @ jb_Note j))"

definition job_time :: "job \<Rightarrow> int" where
  "job_time j = (case jb_EndedAt j of None \<Rightarrow> jb_StartedAt j | Some t \<Rightarrow> t)"

text \<open>\<open>TrimPrefix\<close> of a clean path's slash.\<close>

definition job_name :: "string \<Rightarrow> string" where
  "job_name p = (if prefix ''/'' p then tl p else p)"

definition job_entry :: "string \<Rightarrow> string \<Rightarrow> int \<Rightarrow> int \<Rightarrow> file_info" where
  "job_entry name p n t =
     \<lparr>FileName = name, FilePath = p, Content = [], Dir = False, FileModTime = t, FileSize = n, LinkTarget = []\<rparr>"

definition JobsFS_Stat :: "'s manager \<Rightarrow> string \<Rightarrow> file_info vres" where
  "JobsFS_Stat M p =
     (let clean = CleanPath p
      in if clean = ''/'' then Inr ((job_entry ''jobs'' ''/'' 0 0)\<lparr>Dir := True\<rparr>)
         else case snapshot (job_name clean) M of
                None \<Rightarrow> Inl (OtherError (''no such job: '' @ job_name clean))
              | Some j \<Rightarrow> Inr (job_entry (job_name clean) clean (int (length (renderJob j))) (job_time j)))"

definition JobsFS_ReadDir :: "'s manager \<Rightarrow> string \<Rightarrow> file_info list vres" where
  "JobsFS_ReadDir M p =
     (if CleanPath p \<noteq> ''/'' then Inl (OtherError (''not a directory: '' @ p))
      else Inr (map (\<lambda>j. job_entry (jb_ID j) (''/'' @ jb_ID j) 0 (job_time j)) (list_jobs M)))"

definition JobsFS_ReadFile :: "'s manager \<Rightarrow> string \<Rightarrow> string vres" where
  "JobsFS_ReadFile M p =
     (let clean = CleanPath p
      in if clean = ''/'' then Inl (OtherError ''cannot read directory'')
         else case snapshot (job_name clean) M of
                None \<Rightarrow> Inl (OtherError (''no such job: '' @ job_name clean))
              | Some j \<Rightarrow> Inr (renderJob j))"

definition JobsFS_ReadFileBounded :: "'s manager \<Rightarrow> string \<Rightarrow> int \<Rightarrow> string vres" where
  "JobsFS_ReadFileBounded M p maxBytes =
     (case JobsFS_ReadFile M p of
        Inl e \<Rightarrow> Inl e
      | Inr content \<Rightarrow> if int (length content) > maxBytes then Inl (OtherError ''file exceeds read limit'') else Inr content)"

definition NewJobsFS :: "'s manager \<Rightarrow> fs" where
  "NewJobsFS M = \<lparr>fs_Stat = JobsFS_Stat M, fs_ReadDir = JobsFS_ReadDir M, fs_ReadFile = JobsFS_ReadFile M\<rparr>"

end
