(* ===== verification/Job_Runs.thy ===== *)
theory Job_Runs
  imports Jobs
begin

text \<open>
  The pool of jobs as a state machine: submissions, turns of the jobs' goroutines in any order, and
  changes of the store by others. What is shown of every run: a job that is reported as done or
  failed has run once and ended so, the slots bound the jobs that run, and the pool drains.
\<close>

subsection \<open>Runs\<close>

datatype 's job_event = Submitted nat "'s job_spec" | Ran nat "'s env" 's 's | Quiet

definition event_of :: "nat \<Rightarrow> 's env \<Rightarrow> 's manager \<Rightarrow> 's manager \<Rightarrow> 's job_event" where
  "event_of g env M M' = (if snd (jm_tasks M ! g) = Holding then Ran g env (jm_store M) (jm_store M') else Quiet)"

inductive job_step :: "runner \<Rightarrow> 's job_event \<Rightarrow> 's manager \<Rightarrow> 's manager \<Rightarrow> bool" for R where
  submits: "newJobID random = Some i \<Longrightarrow>
    job_step R (Submitted (length (jm_tasks M)) spec) M (register_job i now spec M)"
| turns: "g < length (jm_tasks M) \<Longrightarrow> job_turn R env now g M = Some M' \<Longrightarrow> job_step R (event_of g env M M') M M'"
| others: "job_step R Quiet M (M\<lparr>jm_store := f (jm_store M)\<rparr>)"

inductive job_run :: "runner \<Rightarrow> int \<Rightarrow> 's \<Rightarrow> 's job_event list \<Rightarrow> 's manager \<Rightarrow> bool" for R n s where
  start: "job_run R n s [] (NewJobManager n s)"
| step: "job_run R n s evs M \<Longrightarrow> job_step R ev M M' \<Longrightarrow> job_run R n s (evs @ [ev]) M'"

text \<open>A submission is two steps of it: the registration and the start of the goroutine.\<close>

lemma Submit_steps:
  assumes "Submit random now spec M = (Some i, M')" "length (jm_heap M) = length (jm_tasks M)"
  shows "\<exists>M1. job_step R (Submitted (length (jm_tasks M)) spec) M M1 \<and> job_step R Quiet M1 M'"
proof -
  from assms(1) have i: "newJobID random = Some i" "M' = launch (length (jm_tasks M)) (register_job i now spec M)"
    by (auto simp: Submit_def split: option.splits)
  have "job_step R (event_of (length (jm_tasks M)) (\<lambda>_ s. s) (register_job i now spec M) M') (register_job i now spec M) M'"
    by (rule turns [where now = now]) (simp_all add: i(2) job_turn_def register_job_def)
  then show ?thesis
    using submits [OF i(1), of R M spec now] by (auto simp: event_of_def register_job_def)
qed

subsection \<open>The invariant\<close>

definition rans :: "nat \<Rightarrow> 's job_event list \<Rightarrow> 's job_event list" where
  "rans g evs = filter (\<lambda>ev. case ev of Ran g' _ _ _ \<Rightarrow> g' = g | _ \<Rightarrow> False) evs"

definition ran_once :: "runner \<Rightarrow> 's job_event list \<Rightarrow> nat \<Rightarrow> 's job_spec \<Rightarrow> job_state \<times> string \<Rightarrow> bool" where
  "ran_once R evs g spec res \<longleftrightarrow>
     (\<exists>env s. rans g evs = [Ran g env s (snd (run_job R g spec env s))] \<and> fst (run_job R g spec env s) = res)"

definition occupies :: "phase \<Rightarrow> bool" where
  "occupies ph \<longleftrightarrow> ph = Holding \<or> ph = Finished \<or> (\<exists>st note. ph = Finishing st note)"

definition counted :: "phase \<Rightarrow> bool" where
  "counted ph \<longleftrightarrow> ph \<noteq> Registered \<and> ph \<noteq> Gone"

lemma phase_simps [simp]:
  "occupies Holding" "occupies (Finishing st msg)" "occupies Finished"
  "\<not> occupies Registered" "\<not> occupies Waiting" "\<not> occupies Released" "\<not> occupies Gone"
  "counted Waiting" "counted Holding" "counted (Finishing st msg)" "counted Finished" "counted Released"
  "\<not> counted Registered" "\<not> counted Gone"
  by (simp_all add: occupies_def counted_def)

fun stage_ok :: "runner \<Rightarrow> 's job_event list \<Rightarrow> nat \<Rightarrow> job \<Rightarrow> 's job_spec \<Rightarrow> phase \<Rightarrow> bool" where
  "stage_ok R evs g j spec (Finishing st note) \<longleftrightarrow> jb_State j = JobRunning \<and> ran_once R evs g spec (st, note)"
| "stage_ok R evs g j spec ph \<longleftrightarrow>
     (if ph \<in> {Registered, Waiting, Holding} then jb_State j = JobRunning \<and> rans g evs = []
      else ran_once R evs g spec (jb_State j, jb_Note j))"

definition job_ok :: "runner \<Rightarrow> 's job_event list \<Rightarrow> nat \<Rightarrow> job \<Rightarrow> 's job_spec \<Rightarrow> phase \<Rightarrow> bool" where
  "job_ok R evs g j spec ph \<longleftrightarrow>
     jb_Command j = sp_Command spec \<and> jb_Target j = sp_Target spec \<and> jb_Attribution j = sp_Attribution spec
     \<and> Submitted g spec \<in> set evs \<and> stage_ok R evs g j spec ph"

definition jobs_ok :: "runner \<Rightarrow> 's job_event list \<Rightarrow> 's manager \<Rightarrow> bool" where
  "jobs_ok R evs M \<longleftrightarrow> length (jm_heap M) = length (jm_tasks M)
     \<and> (\<forall>g. if g < length (jm_tasks M)
            then job_ok R evs g (jm_heap M ! g) (fst (jm_tasks M ! g)) (snd (jm_tasks M ! g))
            else rans g evs = [])"

definition slots_ok :: "'s manager \<Rightarrow> bool" where
  "slots_ok M \<longleftrightarrow> jm_sem M = length (filter (\<lambda>t. occupies (snd t)) (jm_tasks M)) \<and> jm_sem M \<le> jm_cap M
     \<and> jm_wg M = length (filter (\<lambda>t. counted (snd t)) (jm_tasks M))"

definition registry_ok :: "'s manager \<Rightarrow> bool" where
  "registry_ok M \<longleftrightarrow> (\<forall>i g. jm_jobs M i = Some g \<longrightarrow> g < length (jm_heap M) \<and> jb_ID (jm_heap M ! g) = i)
     \<and> set (jm_order M) = dom (jm_jobs M)"

lemma rans_append [simp]:
  "rans g (evs @ [Quiet]) = rans g evs" "rans g (evs @ [Submitted g' spec]) = rans g evs"
  "rans g (evs @ [Ran g' env s s']) = rans g evs @ (if g' = g then [Ran g' env s s'] else [])"
  by (simp_all add: rans_def)

lemma ran_once_quiet [simp]:
  "rans g (evs @ [ev]) = rans g evs \<Longrightarrow> ran_once R (evs @ [ev]) g spec res = ran_once R evs g spec res"
  by (simp add: ran_once_def)

lemma stage_ok_quiet:
  "rans g (evs @ [ev]) = rans g evs \<Longrightarrow> stage_ok R (evs @ [ev]) g j spec ph = stage_ok R evs g j spec ph"
  by (cases ph) simp_all

lemma filter_update_count:
  "g < length xs \<Longrightarrow> length (filter P (xs[g := y])) + (if P (xs ! g) then 1 else 0)
     = length (filter P xs) + (if P y then 1 else 0)"
proof (induction xs arbitrary: g)
  case (Cons x xs)
  then show ?case by (cases g) auto
qed simp

lemma sum_update:
  "g < length xs \<Longrightarrow> sum_list (map f (xs[g := y])) + f (xs ! g) = sum_list (map f xs) + (f y :: nat)"
proof (induction xs arbitrary: g)
  case (Cons x xs)
  then show ?case by (cases g) auto
qed simp

text \<open>What a turn does to the manager, phase by phase.\<close>

lemma turn_cases:
  assumes "job_turn R env now g M = Some M'" "g < length (jm_tasks M)"
  obtains
    (launched) "snd (jm_tasks M ! g) = Registered" "M' = launch g M"
  | (taken) "snd (jm_tasks M ! g) = Waiting" "jm_sem M < jm_cap M" "M' = (set_phase g Holding M)\<lparr>jm_sem := Suc (jm_sem M)\<rparr>"
  | (ran) st msg s where "snd (jm_tasks M ! g) = Holding" "run_job R g (fst (jm_tasks M ! g)) env (jm_store M) = ((st, msg), s)"
      "M' = (set_phase g (Finishing st msg) M)\<lparr>jm_store := s\<rparr>"
  | (ended) st msg where "snd (jm_tasks M ! g) = Finishing st msg" "M' = finish now g st msg (set_phase g Finished M)"
  | (freed) "snd (jm_tasks M ! g) = Finished" "M' = (set_phase g Released M)\<lparr>jm_sem := jm_sem M - 1\<rparr>"
  | (gone) "snd (jm_tasks M ! g) = Released" "M' = (set_phase g Gone M)\<lparr>jm_wg := jm_wg M - 1\<rparr>"
proof (cases "snd (jm_tasks M ! g)")
  case Waiting
  with assms(1) show thesis by (auto simp: job_turn_def split: if_splits intro: taken)
qed (use assms(1) in \<open>auto simp: job_turn_def split: prod.splits intro: that\<close>)

lemmas manager_defs = set_phase_def launch_def finish_def

lemma job_ok_quiet:
  "job_ok R evs g j spec ph \<Longrightarrow> rans g (evs @ [ev]) = rans g evs \<Longrightarrow> job_ok R (evs @ [ev]) g j spec ph"
  by (auto simp: job_ok_def stage_ok_quiet)

lemma turn_jobs_ok:
  assumes ok: "jobs_ok R evs M" and g: "g < length (jm_tasks M)" and t: "job_turn R env now g M = Some M'"
  shows "jobs_ok R (evs @ [event_of g env M M']) M'"
proof -
  let ?ev = "event_of g env M M'"
  have at_g: "job_ok R evs g (jm_heap M ! g) (fst (jm_tasks M ! g)) (snd (jm_tasks M ! g))"
    using ok g unfolding jobs_ok_def by auto
  have len: "length (jm_heap M') = length (jm_tasks M')" "length (jm_tasks M') = length (jm_tasks M)"
    using t g ok by (cases rule: turn_cases; simp add: jobs_ok_def manager_defs)+
  have away: "jm_heap M' ! k = jm_heap M ! k" "jm_tasks M' ! k = jm_tasks M ! k" "rans k (evs @ [?ev]) = rans k evs"
    if "k \<noteq> g" for k
    using t g that by (cases rule: turn_cases; simp add: manager_defs event_of_def)+
  have "job_ok R (evs @ [?ev]) g (jm_heap M' ! g) (fst (jm_tasks M' ! g)) (snd (jm_tasks M' ! g))"
    using t g
  proof (cases rule: turn_cases)
    case (ran st msg s)
    then have "ran_once R (evs @ [?ev]) g (fst (jm_tasks M ! g)) (st, msg)"
      using at_g by (auto simp: event_of_def ran_once_def job_ok_def set_phase_def intro!: exI [of _ env] exI [of _ "jm_store M"])
    with ran at_g g show ?thesis by (simp add: job_ok_def set_phase_def)
  qed (use at_g g ok in \<open>simp_all add: job_ok_def manager_defs event_of_def jobs_ok_def\<close>)
  moreover have "if k < length (jm_tasks M')
      then job_ok R (evs @ [?ev]) k (jm_heap M' ! k) (fst (jm_tasks M' ! k)) (snd (jm_tasks M' ! k))
      else rans k (evs @ [?ev]) = []" if "k \<noteq> g" for k
    using ok away [OF that] job_ok_quiet [OF _ away(3) [OF that]] unfolding jobs_ok_def len by auto
  ultimately show ?thesis
    using g len unfolding jobs_ok_def by metis
qed

lemma turn_slots_ok:
  assumes "slots_ok M" "g < length (jm_tasks M)" "job_turn R env now g M = Some M'"
  shows "slots_ok M'"
proof -
  have upd: "length (filter (\<lambda>t. P (snd t)) ((jm_tasks M)[g := (spec, ph)])) =
      length (filter (\<lambda>t. P (snd t)) (jm_tasks M)) + (if P ph then 1 else 0) - (if P (snd (jm_tasks M ! g)) then 1 else 0)"
    for P spec ph
    using filter_update_count [OF assms(2), of "\<lambda>t. P (snd t)" "(spec, ph)"] by simp
  show ?thesis
    using assms(3,2)
    by (cases rule: turn_cases) (use assms(1) in \<open>auto simp: slots_ok_def manager_defs upd\<close>)
qed

lemma turn_registry_ok:
  assumes "registry_ok M" "g < length (jm_tasks M)" "job_turn R env now g M = Some M'"
  shows "registry_ok M'"
proof -
  have same: "jm_jobs M' = jm_jobs M" "jm_order M' = jm_order M" "length (jm_heap M') = length (jm_heap M)"
    using assms(3,2) by (cases rule: turn_cases; simp add: manager_defs)+
  have "k < length (jm_heap M) \<Longrightarrow> jb_ID (jm_heap M' ! k) = jb_ID (jm_heap M ! k)" for k
    using assms(3,2) by (cases rule: turn_cases; cases "k = g"; simp add: manager_defs)
  with assms(1) same show ?thesis by (simp add: registry_ok_def)
qed

lemma jobs_ok_step:
  assumes "job_step R ev M M'" "jobs_ok R evs M"
  shows "jobs_ok R (evs @ [ev]) M'"
  using assms(1)
proof cases
  case (submits random i spec now)
  have "jobs_ok R (evs @ [Submitted (length (jm_tasks M)) spec]) (register_job i now spec M)"
    unfolding jobs_ok_def
  proof (intro conjI allI)
    show "length (jm_heap (register_job i now spec M)) = length (jm_tasks (register_job i now spec M))"
      using assms(2) by (simp add: jobs_ok_def register_job_def)
    fix g
    let ?M = "register_job i now spec M" and ?evs = "evs @ [Submitted (length (jm_tasks M)) spec]"
    consider "g < length (jm_tasks M)" | "g = length (jm_tasks M)" | "g > length (jm_tasks M)" by linarith
    then show "if g < length (jm_tasks ?M) then job_ok R ?evs g (jm_heap ?M ! g) (fst (jm_tasks ?M ! g)) (snd (jm_tasks ?M ! g))
        else rans g ?evs = []"
    proof cases
      case 1
      then have "job_ok R ?evs g (jm_heap M ! g) (fst (jm_tasks M ! g)) (snd (jm_tasks M ! g))"
        using assms(2) by (auto simp: jobs_ok_def intro: job_ok_quiet)
      with 1 assms(2) show ?thesis by (simp add: register_job_def nth_append jobs_ok_def)
    next
      case 2
      with assms(2) show ?thesis
        by (auto simp: jobs_ok_def register_job_def nth_append job_ok_def new_job_def)
    next
      case 3
      with assms(2) show ?thesis by (auto simp: jobs_ok_def register_job_def)
    qed
  qed
  with submits show ?thesis by simp
next
  case (turns g env now)
  with assms(2) show ?thesis by (simp add: turn_jobs_ok)
next
  case (others f)
  then show ?thesis
    using assms(2) unfolding jobs_ok_def by (simp add: job_ok_quiet)
qed

lemma slots_ok_step: "job_step R ev M M' \<Longrightarrow> slots_ok M \<Longrightarrow> slots_ok M'"
proof (induction rule: job_step.induct)
  case (turns g M env now M')
  then show ?case by (simp add: turn_slots_ok)
qed (simp_all add: slots_ok_def register_job_def)

lemma registry_ok_step: "job_step R ev M M' \<Longrightarrow> registry_ok M \<Longrightarrow> registry_ok M'"
proof (induction rule: job_step.induct)
  case (turns g M env now M')
  then show ?case by (simp add: turn_registry_ok)
next
  case (submits random i M spec now)
  then show ?case by (auto simp: registry_ok_def register_job_def nth_append new_job_def intro: less_SucI)
qed (simp add: registry_ok_def)

lemma cap_step: "job_step R ev M M' \<Longrightarrow> jm_cap M' = jm_cap M"
proof (induction rule: job_step.induct)
  case (turns g M env now M')
  from turns(2,1) show ?case by (cases rule: turn_cases) (simp_all add: manager_defs)
qed (simp_all add: register_job_def)

lemma job_run_ok:
  "job_run R n s evs M \<Longrightarrow> jobs_ok R evs M \<and> slots_ok M \<and> registry_ok M \<and> jm_cap M = nat (max 1 n)"
proof (induction rule: job_run.induct)
  case start
  show ?case
    by (auto simp: jobs_ok_def slots_ok_def registry_ok_def NewJobManager_def rans_def max_def)
qed (simp add: jobs_ok_step slots_ok_step registry_ok_step cap_step)

subsection \<open>The end of a job is final\<close>

lemma ended_stays:
  assumes "job_step R ev M M'" "jobs_ok R evs M" "g < length (jm_tasks M)" "jb_State (jm_heap M ! g) \<noteq> JobRunning"
  shows "jm_heap M' ! g = jm_heap M ! g"
  using assms(1)
proof cases
  case (turns k env now)
  show ?thesis
    using turns(3,2)
  proof (cases rule: turn_cases)
    case (ended st msg)
    have "g \<noteq> k"
    proof
      assume "g = k"
      then have "job_ok R evs g (jm_heap M ! g) (fst (jm_tasks M ! g)) (Finishing st msg)"
        using assms(2,3) ended(1) unfolding jobs_ok_def by metis
      with assms(4) show False by (simp add: job_ok_def)
    qed
    with ended show ?thesis by (simp add: manager_defs)
  qed (simp_all add: manager_defs)
qed (use assms(2,3) in \<open>simp_all add: register_job_def nth_append jobs_ok_def\<close>)

subsection \<open>A pool of one slot\<close>

text \<open>One file in memory, a command that echoes its name, and one that fails.\<close>

definition memo_ctx :: "string write_ctx" where
  "memo_ctx =
     \<lparr>cx_fs = \<lparr>sf_view = (\<lambda>s. \<lparr>fs_Stat = (\<lambda>p. Inl ENOTSUP), fs_ReadDir = (\<lambda>p. Inl ENOTSUP), fs_ReadFile = (\<lambda>p. Inr s)\<rparr>),
              sf_ReadFile = (\<lambda>p s. (Inr s, s)),
              sf_mutate = Some (\<lambda>m s. case m of
                  MWrite p d opts \<Rightarrow>
                    (if IfMatch opts = Some s \<or> IfMatch opts = None \<and> \<not> IfNoneMatch opts then (Inr d, d)
                     else (Inl (PreconditionError p s), s))
                | _ \<Rightarrow> (Inl ENOTSUP, s)),
              sf_admitter = None, sf_LastReadHash = None\<rparr>,
      cx_policy = None, cx_sha = (\<lambda>b. b), cx_error = (\<lambda>e. ''error'')\<rparr>"

definition memo_spec :: "string \<Rightarrow> string job_spec" where
  "memo_spec c =
     \<lparr>sp_Command = c, sp_Target = ''/d/a'', sp_Append = True,
      sp_Attribution = \<lparr>ja_Principal = ''ann'', ja_Actor = [], ja_ClientAuth = []\<rparr>, sp_WriteCtx = memo_ctx, sp_Cwd = ''/''\<rparr>"

definition echo_runner :: runner where
  "echo_runner g c e = (if c = ''false'' then ([], Some ''exit status 1'') else (c, None))"

fun run_turns :: "runner \<Rightarrow> nat list \<Rightarrow> 's manager \<Rightarrow> 's manager option" where
  "run_turns R [] M = Some M"
| "run_turns R (g # gs) M =
     (if g < length (jm_tasks M)
      then (case job_turn R (\<lambda>_ s. s) 8 g M of None \<Rightarrow> None | Some M \<Rightarrow> run_turns R gs M)
      else None)"

lemma run_turns_run: "job_run R n s evs M \<Longrightarrow> run_turns R gs M = Some M' \<Longrightarrow> \<exists>evs'. job_run R n s evs' M'"
  by (induction gs arbitrary: evs M)
     (auto split: if_splits option.splits intro: job_run.step [OF _ turns])

definition two_jobs :: "string manager" where
  "two_jobs = register_job ''job_62'' 7 (memo_spec ''false'') (register_job ''job_61'' 6 (memo_spec ''+'') (NewJobManager 1 ''old''))"

lemma two_jobs_run: "\<exists>evs. job_run echo_runner 1 ''old'' evs two_jobs"
proof -
  have ids: "newJobID (Some ''a'') = Some ''job_61''" "newJobID (Some ''b'') = Some ''job_62''" by code_simp+
  show ?thesis
    unfolding two_jobs_def
    by (rule exI) (rule job_run.step [OF job_run.step [OF job_run.start submits [OF ids(1)]] submits [OF ids(2)]])
qed

lemma two_jobs_turns: "run_turns echo_runner gs two_jobs = Some M \<Longrightarrow> \<exists>evs. job_run echo_runner 1 ''old'' evs M"
  by (meson two_jobs_run run_turns_run)

subsection \<open>What a job's record says\<close>

lemma run_job_cases:
  assumes "run_job R g spec env s = ((st, msg), s')"
  obtains (refused) out err where "run_command R g spec = (out, Some err)" "st = JobFailed" "s' = s"
  | (kept) out e where "run_command R g spec = (out, None)" "st = JobFailed"
      "WriteFile (sp_WriteCtx spec) env (sp_Cwd spec) (sp_Target spec) out (sp_Append spec) s = (Inl e, s')"
  | (written) out h where "run_command R g spec = (out, None)" "st = JobDone"
      "WriteFile (sp_WriteCtx spec) env (sp_Cwd spec) (sp_Target spec) out (sp_Append spec) s = (Inr h, s')"
proof -
  obtain out err where c: "run_command R g spec = (out, err)" by force
  show thesis
  proof (cases err)
    case (Some e)
    with assms c show thesis by (auto simp: run_job_def intro: refused)
  next
    case None
    obtain r s1 where "WriteFile (sp_WriteCtx spec) env (sp_Cwd spec) (sp_Target spec) out (sp_Append spec) s = (r, s1)"
      by force
    with assms c None show thesis by (cases r) (auto simp: run_job_def intro: kept written)
  qed
qed

text \<open>What a registered job has done, whatever the state of the pool.\<close>

definition reported :: "runner \<Rightarrow> 's job_event list \<Rightarrow> nat \<Rightarrow> 's job_spec \<Rightarrow> job_state \<Rightarrow> bool" where
  "reported R evs g spec st \<longleftrightarrow>
     (case st of
        JobRunning \<Rightarrow> length (rans g evs) \<le> 1
      | JobDone \<Rightarrow>
          (\<exists>env s s' out h. rans g evs = [Ran g env s s'] \<and> run_command R g spec = (out, None)
             \<and> WriteFile (sp_WriteCtx spec) env (sp_Cwd spec) (sp_Target spec) out (sp_Append spec) s = (Inr h, s'))
      | JobFailed \<Rightarrow>
          (\<exists>env s s' out. rans g evs = [Ran g env s s']
             \<and> ((\<exists>err. run_command R g spec = (out, Some err)) \<and> s' = s
                \<or> (\<exists>e. run_command R g spec = (out, None)
                     \<and> WriteFile (sp_WriteCtx spec) env (sp_Cwd spec) (sp_Target spec) out (sp_Append spec) s = (Inl e, s')))))"

lemma ran_once_reported:
  assumes "ran_once R evs g spec (st, msg)"
  shows "reported R evs g spec st" "length (rans g evs) = 1" "st \<noteq> JobRunning"
proof -
  from assms obtain env s s' where r: "rans g evs = [Ran g env s s']" "run_job R g spec env s = ((st, msg), s')"
    by (metis ran_once_def prod.collapse)
  from r(2) have "reported R evs g spec st \<and> st \<noteq> JobRunning"
    by (cases rule: run_job_cases) (use r(1) in \<open>auto simp: reported_def\<close>)
  with r(1) show "reported R evs g spec st" "length (rans g evs) = 1" "st \<noteq> JobRunning" by auto
qed

lemma registered_job:
  assumes "job_run R n s evs M" "snapshot i M = Some j"
  obtains g spec ph where "jb_ID j = i" "job_ok R evs g j spec ph"
proof -
  from assms(2) obtain g where g: "jm_jobs M i = Some g" "j = jm_heap M ! g"
    by (auto simp: snapshot_def)
  from job_run_ok [OF assms(1)] g(1) have "g < length (jm_tasks M)" "jb_ID j = i"
    by (auto simp: registry_ok_def jobs_ok_def g(2))
  with job_run_ok [OF assms(1)] g(2) that show thesis unfolding jobs_ok_def by metis
qed



subsection \<open>The slots\<close>

text \<open>
  At most the configured number of jobs, and at least one, hold a slot at any time; and a job
  whose goroutine has to wait waits only while all of them are taken.
\<close>

theorem job_slots_bounded:
  assumes "job_run R n s evs M"
  shows "length (filter (\<lambda>t. occupies (snd t)) (jm_tasks M)) \<le> nat (max 1 n)
     \<and> (at_phase g Waiting M \<and> job_turn R env now g M = None \<longrightarrow>
          length (filter (\<lambda>t. occupies (snd t)) (jm_tasks M)) = nat (max 1 n))"
  using job_run_ok [OF assms] by (auto simp: slots_ok_def at_phase_def job_turn_def split: if_splits)

theorem job_slots_bounded_witness:
  "\<exists>M :: string manager. job_turn echo_runner (\<lambda>_ s. s) 8 1 M = None \<and> length (filter (\<lambda>t. occupies (snd t)) (jm_tasks M)) = nat (max 1 1)"
proof -
  have "map_option (\<lambda>M. (at_phase 1 Waiting M, job_turn echo_runner (\<lambda>_ s. s) 8 1 M = None)) (run_turns echo_runner [0, 0, 1] two_jobs)
      = Some (True, True)"
    by code_simp
  then obtain M where M: "run_turns echo_runner [0, 0, 1] two_jobs = Some M" "at_phase 1 Waiting M"
      "job_turn echo_runner (\<lambda>_ s. s) 8 1 M = None"
    by auto
  from two_jobs_turns [OF M(1)] obtain evs where "job_run echo_runner 1 ''old'' evs M" by blast
  from job_slots_bounded [OF this, of 1 "\<lambda>_ s. s" 8] M(2,3) show ?thesis by blast
qed

subsection \<open>Draining\<close>

fun turns_left :: "phase \<Rightarrow> nat" where
  "turns_left Registered = 6"
| "turns_left Waiting = 5"
| "turns_left Holding = 4"
| "turns_left (Finishing _ _) = 3"
| "turns_left Finished = 2"
| "turns_left Released = 1"
| "turns_left Gone = 0"

definition work_left :: "'s manager \<Rightarrow> nat" where
  "work_left M = sum_list (map (\<lambda>t. turns_left (snd t)) (jm_tasks M))"

definition takes_turn :: "runner \<Rightarrow> 's manager \<Rightarrow> 's manager \<Rightarrow> bool" where
  "takes_turn R M M' \<longleftrightarrow> (\<exists>g env now. g < length (jm_tasks M) \<and> job_turn R env now g M = Some M')"

lemma turn_work:
  assumes "takes_turn R M M'"
  shows "work_left M = Suc (work_left M')"
proof -
  from assms obtain g env now where t: "job_turn R env now g M = Some M'" "g < length (jm_tasks M)"
    by (auto simp: takes_turn_def)
  let ?ph = "snd (jm_tasks M' ! g)"
  have ph: "jm_tasks M' = (jm_tasks M)[g := (fst (jm_tasks M ! g), ?ph)]"
      "turns_left (snd (jm_tasks M ! g)) = Suc (turns_left ?ph)"
    using t by (cases rule: turn_cases; simp add: manager_defs)+
  have "sum_list (map (\<lambda>t. turns_left (snd t)) (jm_tasks M')) + turns_left (snd (jm_tasks M ! g))
      = sum_list (map (\<lambda>t. turns_left (snd t)) (jm_tasks M)) + turns_left ?ph"
    using sum_update [OF t(2), of "\<lambda>t. turns_left (snd t)" "(fst (jm_tasks M ! g), ?ph)"] ph(1) by simp
  with ph(2) show ?thesis by (simp add: work_left_def)
qed

lemma turns_work: "(takes_turn R ^^ k) M M' \<Longrightarrow> work_left M = k + work_left M'"
proof (induction k arbitrary: M')
  case (Suc k)
  then obtain M1 where "(takes_turn R ^^ k) M M1" "takes_turn R M1 M'" by auto
  with Suc.IH [of M1] turn_work [of R M1 M'] show ?case by simp
qed simp

lemma work_bound: "work_left M \<le> 6 * length (jm_tasks M)"
proof -
  have "sum_list (map (\<lambda>t. turns_left (snd t)) ts) \<le> 6 * length ts" for ts :: "('a job_spec \<times> phase) list"
  proof (induction ts)
    case (Cons t ts)
    then show ?case by (cases "snd t") auto
  qed simp
  then show ?thesis by (simp add: work_left_def)
qed

text \<open>Where no goroutine can take a turn, all have left: there is a free slot for one that waits.\<close>

lemma stuck_is_drained:
  assumes "job_run R n s evs M" "\<nexists>M'. takes_turn R M M'" "g < length (jm_tasks M)"
  shows "snd (jm_tasks M ! g) = Gone"
proof -
  have none: "job_turn R env now k M = None" if "k < length (jm_tasks M)" for env now k
    using assms(2) that by (cases "job_turn R env now k M") (auto simp: takes_turn_def)
  have here: "snd (jm_tasks M ! k) = Gone \<or> snd (jm_tasks M ! k) = Waiting" if "k < length (jm_tasks M)" for k
    using none [OF that, of "\<lambda>_ s. s" 0] by (cases "snd (jm_tasks M ! k)") (auto simp: job_turn_def split: prod.splits)
  then have "\<forall>t \<in> set (jm_tasks M). \<not> occupies (snd t)"
    by (auto simp: in_set_conv_nth) (metis phase_simps(5,7) snd_conv)
  then have "jm_sem M < jm_cap M"
    using job_run_ok [OF assms(1)] by (auto simp: slots_ok_def filter_empty_conv simp flip: length_0_conv)
  with none [OF assms(3)] here [OF assms(3)] show ?thesis by (auto simp: job_turn_def)
qed

text \<open>
  C27. The pool drains: when no more jobs are submitted, its goroutines take at most six turns for each
  job, whatever their order; and as long as one has not left, one of them can take a turn. Where
  none can, \<open>Drain\<close> sees no goroutine and every job has ended as done or failed.
\<close>

theorem jobs_drain:
  assumes "job_run R n s evs M"
  shows "(\<forall>k M'. (takes_turn R ^^ k) M M' \<longrightarrow> k \<le> 6 * length (jm_tasks M))
     \<and> ((\<exists>M'. takes_turn R M M')
        \<or> drained M \<and> (\<forall>g < length (jm_tasks M). jb_State (jm_heap M ! g) \<noteq> JobRunning))"
proof (intro conjI allI impI)
  show "k \<le> 6 * length (jm_tasks M)" if "(takes_turn R ^^ k) M M'" for k M'
    using turns_work [OF that] work_bound [of M] by simp
  show "(\<exists>M'. takes_turn R M M') \<or> drained M \<and> (\<forall>g < length (jm_tasks M). jb_State (jm_heap M ! g) \<noteq> JobRunning)"
  proof (subst disj_commute, rule disjCI)
    assume "\<nexists>M'. takes_turn R M M'"
    then have gone: "snd (jm_tasks M ! g) = Gone" if "g < length (jm_tasks M)" for g
      using stuck_is_drained [OF assms _ that] by simp
    then have "\<forall>t \<in> set (jm_tasks M). \<not> counted (snd t)"
      by (metis in_set_conv_nth phase_simps(14))
    moreover have "jb_State (jm_heap M ! g) \<noteq> JobRunning" if "g < length (jm_tasks M)" for g
    proof -
      have "job_ok R evs g (jm_heap M ! g) (fst (jm_tasks M ! g)) Gone"
        using job_run_ok [OF assms] that gone [OF that] unfolding jobs_ok_def by metis
      then show ?thesis by (auto simp: job_ok_def dest: ran_once_reported(3))
    qed
    ultimately show "drained M \<and> (\<forall>g < length (jm_tasks M). jb_State (jm_heap M ! g) \<noteq> JobRunning)"
      using job_run_ok [OF assms] by (auto simp: drained_def slots_ok_def filter_empty_conv)
  qed
qed


theorem jobs_drain_witness:
  "\<exists>M. run_turns echo_runner [0, 0, 0, 0, 0, 0, 1, 1, 1, 1, 1, 1] two_jobs = Some M \<and> drained M
     \<and> jb_State (jm_heap M ! 1) = JobFailed
     \<and> ((\<exists>M'. takes_turn echo_runner M M')
        \<or> drained M \<and> (\<forall>g < length (jm_tasks M). jb_State (jm_heap M ! g) \<noteq> JobRunning))"
proof -
  let ?gs = "[0, 0, 0, 0, 0, 0, 1, 1, 1, 1, 1, 1]"
  have "map_option (\<lambda>M. (drained M, jb_State (jm_heap M ! 1))) (run_turns echo_runner ?gs two_jobs) = Some (True, JobFailed)"
    by code_simp
  then obtain M where M: "run_turns echo_runner ?gs two_jobs = Some M" "drained M" "jb_State (jm_heap M ! 1) = JobFailed"
    by auto
  from two_jobs_turns [OF M(1)] obtain evs where "job_run echo_runner 1 ''old'' evs M" by blast
  from jobs_drain [OF this] M show ?thesis by blast
qed

end
