(* ===== verification/Spawn.thy ===== *)
theory Spawn
  imports Job_Runs Shell_Updates
begin

text \<open>
  The command that submits a job (pkg/shell/cmds/spawn.go), and what becomes of the output of a job
  that a session over a directory has spawned.
\<close>

subsection \<open>Quoted arguments\<close>

text \<open>
  The verb \<open>%q\<close> (\<open>strconv.Quote\<close>). Which runes can be printed is a table of the standard library
  and an argument here.
\<close>

fun hex_of :: "nat \<Rightarrow> nat \<Rightarrow> string" where
  "hex_of 0 r = []"
| "hex_of (Suc w) r = hex_of w (r div 16) @ [hex_digits ! (r mod 16)]"

definition quote_rune :: "(nat \<Rightarrow> bool) \<Rightarrow> nat \<Rightarrow> string" where
  "quote_rune isPrint r =
     (if r = 0x22 \<or> r = 0x5C then [CHR 0x5C, char_of r]
      else if isPrint r then encodeRune r
      else case map_of (zip [7, 8, 12, 10, 13, 9, 11] ''abfnrtv'') r of
             Some c \<Rightarrow> [CHR 0x5C, c]
           | None \<Rightarrow>
               (if r < 0x20 \<or> r = 0x7F then CHR 0x5C # CHR ''x'' # hex_of 2 r
                else if r < 0x10000 then CHR 0x5C # CHR ''u'' # hex_of 4 r
                else CHR 0x5C # CHR ''U'' # hex_of 8 r))"

function quote_runes :: "(nat \<Rightarrow> bool) \<Rightarrow> string \<Rightarrow> string" where
  "quote_runes isPrint [] = []"
| "quote_runes isPrint (c # s) =
     (case decodeRune (c # s) of
        (r, w) \<Rightarrow>
          (if r = 0xFFFD \<and> w = 1 then CHR 0x5C # CHR ''x'' # hex_of 2 (byte c) else quote_rune isPrint r)
          @ quote_runes isPrint (drop (w - 1) s))"
  by pat_completeness auto
termination
  by (relation "measure (\<lambda>(_, s). length s)") auto

definition Quote :: "(nat \<Rightarrow> bool) \<Rightarrow> string \<Rightarrow> string" where
  "Quote isPrint s = CHR 0x22 # quote_runes isPrint s @ [CHR 0x22]"

subsection \<open>The command\<close>

record 's spawn_ctx =
  sc_write :: "'s write_ctx"
  sc_cwd :: string
  sc_CanWrite :: "(string \<Rightarrow> bool) option"
  sc_attribution :: job_attribution
  sc_random :: "string option"
  sc_random_error :: string
  sc_now :: int
  sc_isPrint :: "nat \<Rightarrow> bool"

fun spawn_args :: "(nat \<Rightarrow> bool) \<Rightarrow> string list \<Rightarrow> string \<Rightarrow> bool \<Rightarrow> string + string \<times> bool \<times> string list" where
  "spawn_args isPrint [] target app = Inr (target, app, [])"
| "spawn_args isPrint (a # args) target app =
     (if a = ''--writes'' \<or> a = ''-w'' then
        (case args of
           [] \<Rightarrow> Inl ''--writes requires a path''
         | p # args \<Rightarrow> spawn_args isPrint args p app)
      else if a = ''--append'' \<or> a = ''-a'' then spawn_args isPrint args target True
      else if a = ''--'' then Inr (target, app, args)
      else Inl (''unexpected argument '' @ Quote isPrint a
                @ '' (usage: spawn --writes <path> [--append] -- <command...>)''))"

definition spawn_spec :: "'s spawn_ctx \<Rightarrow> string \<Rightarrow> bool \<Rightarrow> string list \<Rightarrow> 's job_spec" where
  "spawn_spec S target app cmd =
     (let resolved = resolvePath (sc_cwd S) target
      in \<lparr>sp_Command = join_with '' '' cmd, sp_Target = resolved, sp_Append = app,
          sp_Attribution = sc_attribution S, sp_WriteCtx = newFrozenContext (sc_write S) resolved,
          sp_Cwd = sc_cwd S\<rparr>)"

definition spawned_text :: "string \<Rightarrow> string \<Rightarrow> chunk list" where
  "spawned_text i resolved =
     [Out (Fprintln (''Spawned '' @ i @ '' '' @ [CHR 0xE2, CHR 0x80, CHR 0x94] @ '' writing to '' @ resolved @ '' when done'')),
      Out (Fprintln (''  track: /jobs/'' @ i))]"

text \<open>
  The backend is an interface value: none, or one that holds a manager or a nil pointer. A server in
  read-only mode makes no manager and gives its shells the nil pointer, on which \<open>Submit\<close> panics
  (it locks the manager's mutex) unless no identifier can be made.
\<close>

definition CmdSpawn ::
  "'s spawn_ctx \<Rightarrow> string list \<Rightarrow> 's manager option option \<Rightarrow> (int \<times> chunk list \<times> 's manager option option) outcome" where
  "CmdSpawn S args backend =
     (let refuse = (\<lambda>m. Returns (1, [Err (Fprintln (''spawn: '' @ m))], backend))
      in case backend of
           None \<Rightarrow> refuse ''async jobs are not enabled on this server''
         | Some mgr \<Rightarrow>
             (case spawn_args (sc_isPrint S) args [] False of
                Inl m \<Rightarrow> refuse m
              | Inr (target, app, cmd) \<Rightarrow>
                  (let resolved = resolvePath (sc_cwd S) target
                   in if target = [] then refuse ''--writes <path> is required''
                      else if cmd = [] then refuse ''a command is required after --''
                      else if (case sc_CanWrite S of None \<Rightarrow> False | Some can \<Rightarrow> \<not> can resolved)
                      then refuse (target @ '' is not writable in this session'')
                      else case newJobID (sc_random S) of
                             None \<Rightarrow> refuse (sc_random_error S)
                           | Some i \<Rightarrow>
                               (case mgr of
                                  None \<Rightarrow> Panics
                                | Some M \<Rightarrow>
                                    Returns (0, spawned_text i resolved,
                                      Some (Some (snd (Submit (sc_random S) (sc_now S) (spawn_spec S target app cmd) M))))))))"

lemma refused_spawn: "CmdSpawn S args backend = Returns (c, out, backend') \<Longrightarrow> c \<noteq> 0 \<Longrightarrow> backend' = backend"
  by (auto simp: CmdSpawn_def Let_def split: option.splits sum.splits prod.splits if_splits)

lemma accepted_spawn:
  assumes "CmdSpawn S args (Some (Some M)) = Returns (0, out, backend)"
  obtains target app cmd i where "spawn_args (sc_isPrint S) args [] False = Inr (target, app, cmd)"
    "cmd \<noteq> []" "pred_option (\<lambda>can. can (resolvePath (sc_cwd S) target)) (sc_CanWrite S)"
    "Submit (sc_random S) (sc_now S) (spawn_spec S target app cmd) M = (Some i, the (the backend))"
  using assms
  by (auto simp: CmdSpawn_def Let_def Submit_def split: option.splits sum.splits prod.splits if_splits)

text \<open>Where nothing says what may be written, a well-formed call on a read-only server panics.\<close>

lemma spawn_panics_read_only:
  assumes "spawn_args (sc_isPrint S) args [] False = Inr (target, app, cmd)" "target \<noteq> []" "cmd \<noteq> []"
    and "sc_CanWrite S = None" "sc_random S = Some b"
  shows "CmdSpawn S args (Some None) = Panics"
  using assms by (simp add: CmdSpawn_def Let_def newJobID_def)

lemma resolvePath_idem:
  assumes "prefix ''/'' cwd"
  shows "resolvePath cwd (resolvePath cwd p) = resolvePath cwd p"
proof -
  have rooted: "prefix ''/'' (of_segs ss)" for ss by (simp add: of_segs_def)
  have clean: "prefix ''/'' (path_clean q)" "path_clean (path_clean q) = path_clean q" if "prefix ''/'' q" for q
    using that rooted by (simp_all add: path_clean_rooted segs_of_segs segs_valid)
  have "\<exists>q. prefix ''/'' q \<and> path_join cwd p = path_clean q"
    using assms by (auto simp: path_join_def prefix_def)
  then have "prefix ''/'' (path_join cwd p)" using clean by metis
  then show ?thesis
    using clean by (simp add: resolvePath_def)
qed

subsection \<open>Where the output goes\<close>

text \<open>The pool counts what was submitted, so that its jobs keep their specifications.\<close>

lemma done_job_wrote:
  assumes "job_run R n s evs M" "g < length (jm_tasks M)" "jb_State (jm_heap M ! g) = JobDone"
  shows "reported R evs g (fst (jm_tasks M ! g)) JobDone"
proof -
  have ok: "job_ok R evs g (jm_heap M ! g) (fst (jm_tasks M ! g)) (snd (jm_tasks M ! g))"
    using job_run_ok [OF assms(1)] assms(2) unfolding jobs_ok_def by metis
  show ?thesis
    by (cases "snd (jm_tasks M ! g)") (use ok assms(3) in \<open>auto simp: job_ok_def dest: ran_once_reported(1)\<close>)
qed


text \<open>A session of the small server spawns a command that appends to a file.\<close>

definition ann_spawns :: "dir_state tracked spawn_ctx" where
  "ann_spawns =
     \<lparr>sc_write = shared_ctx, sc_cwd = ''/d'', sc_CanWrite = None,
      sc_attribution = \<lparr>ja_Principal = ''ann'', ja_Actor = [], ja_ClientAuth = []\<rparr>,
      sc_random = Some ''a'', sc_random_error = [], sc_now = 6, sc_isPrint = (\<lambda>r. 0x20 \<le> r \<and> r < 0x7F)\<rparr>"

definition ann_job :: "dir_state tracked manager" where
  "ann_job = register_job ''job_61'' 6 (spawn_spec ann_spawns ''a'' True [''+'']) (NewJobManager 1 shared_start)"

lemma ann_job_done:
  "\<exists>M. run_turns echo_runner [0, 0, 0, 0] ann_job = Some M \<and> length (jm_tasks M) = 1
     \<and> fst (jm_tasks M ! 0) = spawn_spec ann_spawns ''a'' True [''+''] \<and> jb_State (jm_heap M ! 0) = JobDone"
proof -
  have paths: "resolvePath ''/d'' ''a'' = ''/d/a''" "resolvePath ''/d'' ''/d/a'' = ''/d/a''" by code_simp+
  obtain t' where "WriteFile (newFrozenContext shared_ctx ''/d/a'') (\<lambda>k t. t) ''/d'' ''/d/a'' ''+'' True shared_start = (Inr ''old+'', t')"
    using small_append [of "newFrozenContext shared_ctx ''/d/a''" "''/d''" "''/d/a''"]
    by (auto simp: newFrozenContext_def shared_ctx_def paths)
  then have "fst (fst (run_job echo_runner 0 (spawn_spec ann_spawns ''a'' True [''+'']) (\<lambda>_ s. s) shared_start)) = JobDone"
    by (simp add: run_job_def run_command_def echo_runner_def spawn_spec_def ann_spawns_def paths Let_def)
  then obtain msg s where "run_job echo_runner 0 (spawn_spec ann_spawns ''a'' True [''+'']) (\<lambda>_ s. s) shared_start = ((JobDone, msg), s)"
    by (metis prod.collapse)
  then show ?thesis
    by (simp add: ann_job_def register_job_def NewJobManager_def job_turn_def manager_defs)
qed


end
