(* ===== verification/Auth_Config.thy ===== *)
theory Auth_Config
  imports Config Shell_Glob
begin

text \<open>
  The validation of the authorization file (internal/config/config.go, \<open>ValidateAuthConfig\<close>): it
  fills in what the file leaves out and accepts or rejects the rest. A Go range over a map may take
  any order; the checks here run in the order of the association lists, and which error comes first
  depends on it, but not whether there is one. The parser of SSH public keys, third-party code, is
  an argument: it gives the normal form of a key.
\<close>

subsection \<open>Errors\<close>

datatype names_of =
    RoleAllow string
  | RoleDeny string
  | IdentityRoles string
  | DelegateRoles string string
  | DelegateDocsets string string
  | DelegateCapabilities string string
  | EditRoles string
  | DenyRoles string

datatype auth_error =
    ConflictingOKF string
  | ReservedRole string
  | UntrimmedName names_of
  | DuplicateName names_of string
  | InvalidRoleName string
  | InvalidIdentityName string
  | ReservedCharacter string
  | UnsupportedCreatedBy string string
  | ReservedIdentity string
  | DuplicateIdentity string
  | InvalidPublicKey string
  | SharedPublicKey string string
  | AssignedGuest string
  | UnknownRole names_of string
  | InvalidDelegate string string
  | DuplicateDelegate string string
  | DeniesUnknownDocset string string string
  | UnknownHomeDocset string string
  | SharedHome string string string
  | UnknownDelegate string string
  | InvalidProjection string
  | ProjectionPaths string
  | ProjectionPath string string
  | ProjectionGlob string string
  | InvalidGrant string string
  | GrantsUnknownRole string string
  | DeniesUnknownRole string string
  | DeniedAtHome string string string

text \<open>Checks in order: the first that fails is the error.\<close>

definition ensure :: "bool \<Rightarrow> 'e \<Rightarrow> 'e option" where
  "ensure ok e = (if ok then None else Some e)"

fun checks :: "'e option list \<Rightarrow> 'e option" where
  "checks [] = None"
| "checks (None # cs) = checks cs"
| "checks (Some e # cs) = Some e"

lemma checks_None: "checks cs = None \<longleftrightarrow> (\<forall>c \<in> set cs. c = None)"
  by (induction cs rule: checks.induct) auto

lemma checks_simps [simp]:
  "checks (c # cs) = None \<longleftrightarrow> c = None \<and> checks cs = None"
  "checks (cs @ ds) = None \<longleftrightarrow> checks cs = None \<and> checks ds = None"
  "checks (map f xs) = None \<longleftrightarrow> (\<forall>x \<in> set xs. f x = None)"
  "checks (concat css) = None \<longleftrightarrow> (\<forall>cs \<in> set css. checks cs = None)"
  by (auto simp: checks_None)

lemma ensure_None [simp]: "ensure ok e = None \<longleftrightarrow> ok"
  by (simp add: ensure_def)

subsection \<open>Names\<close>

definition trimmed :: "string \<Rightarrow> bool" where
  "trimmed s \<longleftrightarrow> s \<noteq> [] \<and> TrimSpace s = s"

lemma trimmed_ascii:
  assumes "s \<noteq> []" "32 < byte (hd s)" "byte (hd s) < 0x80" "32 < byte (last s)" "byte (last s) < 0x80"
  shows "trimmed s"
proof -
  have "list_all (\<lambda>e. (byte (hd e) \<le> 32 \<or> 0x80 \<le> byte (hd e)) \<and> (byte (last e) \<le> 32 \<or> 0x80 \<le> byte (last e))) space_encodings"
    by code_simp
  then have "hd e \<noteq> hd s \<and> last e \<noteq> last s" if "e \<in> set space_encodings" for e
    using assms that unfolding list_all_iff by fastforce
  from TrimSpace_id [OF assms(1) this] assms(1) show ?thesis by (simp add: trimmed_def)
qed

fun names_from :: "names_of \<Rightarrow> string list \<Rightarrow> string list \<Rightarrow> auth_error option" where
  "names_from of_what seen [] = None"
| "names_from of_what seen (v # vs) =
     (if \<not> trimmed v then Some (UntrimmedName of_what)
      else if v \<in> set seen then Some (DuplicateName of_what v)
      else names_from of_what (v # seen) vs)"

definition validateNames :: "names_of \<Rightarrow> string list \<Rightarrow> auth_error option" where
  "validateNames of_what vs = names_from of_what [] vs"

definition good_names :: "string list \<Rightarrow> bool" where
  "good_names vs \<longleftrightarrow> distinct vs \<and> (\<forall>v \<in> set vs. trimmed v)"

lemma names_from_None:
  "names_from w seen vs = None \<longleftrightarrow> good_names vs \<and> set vs \<inter> set seen = {}"
  by (induction w seen vs rule: names_from.induct) (auto simp: good_names_def)

lemma validateNames_None [simp]: "validateNames w vs = None \<longleftrightarrow> good_names vs"
  by (simp add: validateNames_def names_from_None)

subsection \<open>OKF rules\<close>

definition normalizeStrings :: "string list \<Rightarrow> string list option" where
  "normalizeStrings v = (if v = [] then None else Some v)"

definition IsEnforcing :: "rule_spec \<Rightarrow> bool" where
  "IsEnforcing r \<longleftrightarrow> (case rl_Enforce r of None \<Rightarrow> True | Some b \<Rightarrow> b)"

definition DifferingKeys :: "rule_spec \<Rightarrow> rule_spec \<Rightarrow> string list" where
  "DifferingKeys a b =
     (if normalizeStrings (rl_Match a) \<noteq> normalizeStrings (rl_Match b) then [''match''] else [])
     @ (if normalizeStrings (rl_Exclude a) \<noteq> normalizeStrings (rl_Exclude b) then [''exclude''] else [])
     @ (if rl_Use a \<noteq> rl_Use b then [''use''] else [])
     @ (if rl_With a \<noteq> rl_With b then [''with''] else [])
     @ (if IsEnforcing a \<noteq> IsEnforcing b then [''enforce''] else [])
     @ (if rl_Default a \<noteq> rl_Default b then [''default''] else [])"

definition rule_Equal :: "rule_spec \<Rightarrow> rule_spec \<Rightarrow> bool" where
  "rule_Equal a b \<longleftrightarrow> DifferingKeys a b = []"

definition plain_rule :: "string list \<Rightarrow> string \<Rightarrow> bool option \<Rightarrow> rule_spec" where
  "plain_rule ms use enforce =
     \<lparr>rl_Match = ms, rl_Exclude = [], rl_Use = use, rl_With = None, rl_Enforce = enforce, rl_Default = False\<rparr>"

definition okf_expected :: "okf_config \<Rightarrow> rule_spec" where
  "okf_expected okf =
     plain_rule (map (\<lambda>p. ''**/'' @ p) (if okf_Patterns okf = [] then [''*.md''] else okf_Patterns okf)) ''okf'' (okf_Enforce okf)"

definition add_rule :: "string \<Rightarrow> rule_spec \<Rightarrow> rule_spec gomap \<Rightarrow> rule_spec gomap" where
  "add_rule name r rs = (if map_of rs name = None then rs @ [(name, r)] else rs)"

definition okf_rules :: "okf_config \<Rightarrow> rule_spec gomap \<Rightarrow> rule_spec gomap" where
  "okf_rules okf rs =
     add_rule ''link/alias'' (plain_rule [''**/*.md''] ''link/alias'' (Some False))
       (add_rule ''link/resolves'' (plain_rule [''**/*.md''] ''link/resolves'' (okf_Enforce okf))
         (add_rule ''okf/bundle'' (plain_rule [''**/*.md''] ''okf/bundle'' (okf_Enforce okf))
           (add_rule ''okf'' (okf_expected okf) rs)))"

definition okf_ok :: "docset_spec \<Rightarrow> bool" where
  "okf_ok ds \<longleftrightarrow>
     (case OKF ds of
        None \<Rightarrow> True
      | Some okf \<Rightarrow>
          (case map_of (ds_Rules ds) ''okf'' of None \<Rightarrow> True | Some r \<Rightarrow> rule_Equal r (okf_expected okf)))"

definition desugar :: "docset_spec \<Rightarrow> docset_spec" where
  "desugar ds = (case OKF ds of None \<Rightarrow> ds | Some okf \<Rightarrow> ds\<lparr>ds_Rules := okf_rules okf (ds_Rules ds)\<rparr>)"

definition on_docsets :: "(docset_spec \<Rightarrow> docset_spec) \<Rightarrow> auth_config \<Rightarrow> auth_config" where
  "on_docsets f auth = auth\<lparr>Docsets := map (apsnd f) (Docsets auth)\<rparr>"

definition desugarOKFRules :: "auth_config \<Rightarrow> auth_error + auth_config" where
  "desugarOKFRules auth =
     (case checks (map (\<lambda>(name, ds). ensure (okf_ok ds) (ConflictingOKF name)) (Docsets auth)) of
        Some e \<Rightarrow> Inl e
      | None \<Rightarrow> Inr (on_docsets desugar auth))"

subsection \<open>Roles and identities\<close>

definition check_role :: "string \<times> role_spec \<Rightarrow> auth_error option" where
  "check_role nr =
     (case nr of
        (name, role) \<Rightarrow>
          checks [ensure (trimmed name) (InvalidRoleName name),
            validateNames (RoleAllow name) (Capabilities (rs_Allow role)),
            validateNames (RoleDeny name) (Capabilities (rs_Deny role))])"

definition known_role :: "auth_config \<Rightarrow> string \<Rightarrow> bool" where
  "known_role auth r \<longleftrightarrow> map_of (ac_Roles auth) r \<noteq> None"

definition known_docset :: "auth_config \<Rightarrow> string \<Rightarrow> bool" where
  "known_docset auth d \<longleftrightarrow> map_of (Docsets auth) d \<noteq> None"

definition check_name :: "string list \<Rightarrow> auth_identity \<Rightarrow> auth_error option" where
  "check_name names i =
     (let name = ai_Name i
      in checks [ensure (trimmed name) (InvalidIdentityName name),
           ensure (CHR ''/'' \<notin> set name \<and> (CHR ''@'' \<notin> set name \<or> ai_CreatedBy i = ''oauth'')) (ReservedCharacter name),
           ensure (ai_CreatedBy i = [] \<or> ai_CreatedBy i = ''oauth'') (UnsupportedCreatedBy name (ai_CreatedBy i)),
           ensure (name \<noteq> ''guest'' \<and> name \<noteq> ''anonymous'') (ReservedIdentity name),
           ensure (name \<notin> set names) (DuplicateIdentity name)])"

type_synonym parse_key = "string \<Rightarrow> string option"

definition check_key :: "parse_key \<Rightarrow> string gomap \<Rightarrow> auth_identity \<Rightarrow> auth_error + string gomap" where
  "check_key parse keys i =
     (let key = TrimSpace (ai_PublicKey i)
      in if key = [] then Inr keys
         else case parse key of
                None \<Rightarrow> Inl (InvalidPublicKey (ai_Name i))
              | Some normal \<Rightarrow>
                  (case map_of keys normal of
                     Some other \<Rightarrow> Inl (SharedPublicKey other (ai_Name i))
                   | None \<Rightarrow> Inr ((normal, ai_Name i) # keys)))"

definition check_roles :: "auth_config \<Rightarrow> auth_identity \<Rightarrow> auth_error option" where
  "check_roles auth i =
     checks (validateNames (IdentityRoles (ai_Name i)) (ai_Roles i)
       # map (\<lambda>role. checks [ensure (role \<noteq> ''guest'') (AssignedGuest (ai_Name i)),
                 ensure (known_role auth role) (UnknownRole (IdentityRoles (ai_Name i)) role)]) (ai_Roles i))"

definition delegate_roles :: "delegate_entry \<Rightarrow> string list" where
  "delegate_roles d = (case de_Roles d of None \<Rightarrow> [] | Some rs \<Rightarrow> rs)"

definition check_delegate :: "auth_config \<Rightarrow> string \<Rightarrow> string list \<Rightarrow> delegate_entry \<Rightarrow> auth_error option" where
  "check_delegate auth name seen d =
     (let who = de_Identity d
      in checks
           ([ensure (trimmed who \<and> CHR ''/'' \<notin> set who) (InvalidDelegate name who),
             ensure (who \<notin> set seen) (DuplicateDelegate name who),
             validateNames (DelegateRoles name who) (delegate_roles d)]
            @ map (\<lambda>role. ensure (known_role auth role) (UnknownRole (DelegateRoles name who) role)) (delegate_roles d)
            @ [validateNames (DelegateDocsets name who) (de_DenyDocsets d)]
            @ map (\<lambda>ds. ensure (known_docset auth ds) (DeniesUnknownDocset name who ds)) (de_DenyDocsets d)
            @ [validateNames (DelegateCapabilities name who) (de_DenyCapabilities d)]))"

fun check_delegates :: "auth_config \<Rightarrow> string \<Rightarrow> string list \<Rightarrow> delegate_entry list \<Rightarrow> auth_error option" where
  "check_delegates auth name seen [] = None"
| "check_delegates auth name seen (d # ds) =
     (case check_delegate auth name seen d of
        Some e \<Rightarrow> Some e
      | None \<Rightarrow> check_delegates auth name (de_Identity d # seen) ds)"

definition check_home_docset :: "auth_config \<Rightarrow> string gomap \<Rightarrow> auth_identity \<Rightarrow> auth_error + string gomap" where
  "check_home_docset auth homes i =
     (if ai_Home i = [] then Inr homes
      else if \<not> known_docset auth (ai_Home i) then Inl (UnknownHomeDocset (ai_Name i) (ai_Home i))
      else case map_of homes (ai_Home i) of
             Some other \<Rightarrow> Inl (SharedHome other (ai_Name i) (ai_Home i))
           | None \<Rightarrow> Inr ((ai_Home i, ai_Name i) # homes))"

fun check_identities ::
  "parse_key \<Rightarrow> auth_config \<Rightarrow> string list \<Rightarrow> string gomap \<Rightarrow> string gomap \<Rightarrow> auth_identity list \<Rightarrow> auth_error option" where
  "check_identities parse auth names keys homes [] = None"
| "check_identities parse auth names keys homes (i # rest) =
     (case check_name names i of
        Some e \<Rightarrow> Some e
      | None \<Rightarrow>
          (case check_key parse keys i of
             Inl e \<Rightarrow> Some e
           | Inr keys \<Rightarrow>
               (case checks [check_roles auth i, check_delegates auth (ai_Name i) [] (ai_Delegates i)] of
                  Some e \<Rightarrow> Some e
                | None \<Rightarrow>
                    (case check_home_docset auth homes i of
                       Inl e \<Rightarrow> Some e
                     | Inr homes \<Rightarrow> check_identities parse auth (ai_Name i # names) keys homes rest))))"

definition check_known_delegates :: "auth_config \<Rightarrow> auth_error option" where
  "check_known_delegates auth =
     checks (concat (map (\<lambda>i. map (\<lambda>d. ensure (de_Identity d \<in> set (map ai_Name (Identities auth)))
       (UnknownDelegate (ai_Name i) (de_Identity d))) (ai_Delegates i)) (Identities auth)))"

definition check_denied_home :: "auth_config \<Rightarrow> auth_identity \<Rightarrow> auth_error option" where
  "check_denied_home auth i =
     (if ai_Home i = [] then None
      else case map_of (Docsets auth) (ai_Home i) of
             None \<Rightarrow> None
           | Some ds \<Rightarrow>
               checks (concat (map (\<lambda>denied. map (\<lambda>role. ensure (denied \<noteq> role) (DeniedAtHome (ai_Name i) role (ai_Home i)))
                 (ai_Roles i)) (da_Deny (Access ds)))))"

subsection \<open>Docsets\<close>

text \<open>\<open>utf8.ValidString\<close>, \<open>fs.ValidPath\<close>, and whether \<open>path.Match\<close> finds a pattern ill-formed.\<close>

function utf8_valid :: "string \<Rightarrow> bool" where
  "utf8_valid [] = True"
| "utf8_valid (c # s) =
     (case decodeRune (c # s) of (r, n) \<Rightarrow> \<not> (r = 0xFFFD \<and> n = 1) \<and> utf8_valid (drop (n - 1) s))"
  by pat_completeness auto
termination
  by (relation "measure length") auto

text \<open>ASCII needs no decoding.\<close>

lemma utf8_valid_code [code]:
  "utf8_valid [] = True"
  "utf8_valid (c # s) =
     (if byte c < 0x80 then utf8_valid s
      else case decodeRune (c # s) of (r, n) \<Rightarrow> \<not> (r = 0xFFFD \<and> n = 1) \<and> utf8_valid (drop (n - 1) s))"
  by (simp_all add: decodeRune_def byte_at_def Let_def)

definition fs_ValidPath :: "string \<Rightarrow> bool" where
  "fs_ValidPath p \<longleftrightarrow> utf8_valid p \<and> (p = ''.'' \<or> (\<forall>e \<in> set (split_char CHR ''/'' p). e \<noteq> [] \<and> e \<noteq> ''.'' \<and> e \<noteq> ''..''))"

definition validProjectionPath :: "string \<Rightarrow> bool" where
  "validProjectionPath p \<longleftrightarrow> fs_ValidPath p \<and> p \<noteq> ''.'' \<and> CHR 0x5C \<notin> set p \<and> CHR 0x00 \<notin> set p"

function bad_chunk :: "string \<Rightarrow> bool" where
  "bad_chunk [] = False"
| "bad_chunk (c # chunk) =
     (if c = CHR ''['' then
        (case ranges 0 False False (if negated chunk then tl chunk else chunk) of
           None \<Rightarrow> True
         | Some (_, rest) \<Rightarrow> bad_chunk rest)
      else if c = CHR 0x5C then chunk = [] \<or> bad_chunk (tl chunk)
      else bad_chunk chunk)"
  by pat_completeness auto
termination
proof (relation "measure length", goal_cases)
  case (2 c chunk x found rest)
  then have "length rest < length (if negated chunk then tl chunk else chunk)"
    using ranges_shorter by metis
  then show ?case by (auto split: if_splits)
qed auto

function bad_pattern :: "string \<Rightarrow> bool" where
  "bad_pattern p =
     (if p = [] then False
      else let (chunk, rest) = scanChunk False (stars p)
           in if hd p = CHR ''*'' \<and> chunk = [] then False else bad_chunk chunk \<or> bad_pattern rest)"
  by auto
termination
  by (relation "measure length") (auto dest!: sym [of "(_, _)"] dest: chunk_shorter)

declare bad_pattern.simps [simp del]

definition invalid_projection :: "string \<Rightarrow> projection_spec \<Rightarrow> bool" where
  "invalid_projection docset p \<longleftrightarrow>
     (let parts = split_char CHR ''/'' (Store p)
      in docset = [] \<or> CHR ''/'' \<in> set docset \<or> CHR 0x5C \<in> set docset \<or> \<not> validProjectionPath (Store p)
         \<or> length parts < 2 \<or> hd parts \<noteq> ''openlore'' \<and> length parts < 3 \<or> hd parts = ''git'' \<and> length parts < 4
         \<or> hd parts \<notin> {''claude'', ''git'', ''folder'', ''openlore''}
         \<or> Subpath p \<noteq> [] \<and> \<not> validProjectionPath (Subpath p))"

definition projection_mount :: "string \<Rightarrow> docset_spec \<Rightarrow> string" where
  "projection_mount docset ds = (case Paths ds of [] \<Rightarrow> CHR ''/'' # docset | pm # _ \<Rightarrow> Source pm)"

definition check_projection :: "string \<Rightarrow> docset_spec \<Rightarrow> projection_spec \<Rightarrow> auth_error option" where
  "check_projection docset ds p =
     checks
       ([ensure (\<not> invalid_projection docset p) (InvalidProjection docset)]
        @ (case Paths ds of
             [] \<Rightarrow> []
           | pm # pms \<Rightarrow>
               [ensure (pms = [] \<and> (Display pm = [] \<or> Display pm = Source pm)) (ProjectionPaths docset),
                ensure (prefix ''/'' (Source pm) \<and> Source pm \<noteq> ''/'' \<and> path_clean (Source pm) = Source pm)
                  (ProjectionPath docset (Source pm))])
        @ map (\<lambda>g. ensure (\<not> bad_pattern g) (ProjectionGlob docset g)) (Include p @ Exclude p))"

definition normal_docset :: "string \<Rightarrow> docset_spec \<Rightarrow> docset_spec" where
  "normal_docset docset ds =
     (case Projection ds of
        None \<Rightarrow> ds
      | Some p \<Rightarrow>
          (let mount = projection_mount docset ds
           in ds\<lparr>Paths := [\<lparr>Source = mount, Display = mount\<rparr>], ds_Readonly := Some True\<rparr>))"

definition edit_roles :: "docset_spec \<Rightarrow> string list" where
  "edit_roles ds = (case ds_Config ds of None \<Rightarrow> [] | Some c \<Rightarrow> Edit c)"

definition check_docset :: "auth_config \<Rightarrow> string \<Rightarrow> docset_spec \<Rightarrow> auth_error option" where
  "check_docset auth docset ds =
     checks
       ((case Projection ds of None \<Rightarrow> [] | Some p \<Rightarrow> [check_projection docset ds p])
        @ [validateNames (EditRoles docset) (edit_roles ds)]
        @ map (\<lambda>role. ensure (known_role auth role) (UnknownRole (EditRoles docset) role)) (edit_roles ds)
        @ map (\<lambda>(role, grant). checks [ensure (trimmed grant) (InvalidGrant docset role),
              ensure (role = ''guest'' \<or> known_role auth role) (GrantsUnknownRole docset role)]) (da_Allow (Access ds))
        @ [validateNames (DenyRoles docset) (da_Deny (Access ds))]
        @ map (\<lambda>role. ensure (role = ''guest'' \<or> known_role auth role) (DeniesUnknownRole docset role)) (da_Deny (Access ds)))"

definition normal_docsets :: "auth_config \<Rightarrow> auth_config" where
  "normal_docsets auth = auth\<lparr>Docsets := map (\<lambda>(name, ds). (name, normal_docset name ds)) (Docsets auth)\<rparr>"

subsection \<open>The whole\<close>

definition check_auth :: "parse_key \<Rightarrow> auth_config \<Rightarrow> auth_error option" where
  "check_auth parse auth =
     checks
       ([ensure (map_of (ac_Roles auth) ''guest'' = None) (ReservedRole ''guest'')]
        @ map check_role (ac_Roles auth)
        @ [check_identities parse auth [] [] [] (Identities auth), check_known_delegates auth]
        @ map (\<lambda>nds. check_docset auth (fst nds) (snd nds)) (Docsets auth)
        @ map (check_denied_home auth) (Identities auth))"

definition ValidateAuthConfig :: "parse_key \<Rightarrow> auth_config \<Rightarrow> auth_error + auth_config" where
  "ValidateAuthConfig parse auth =
     (case desugarOKFRules auth of
        Inl e \<Rightarrow> Inl e
      | Inr auth \<Rightarrow> (case check_auth parse auth of Some e \<Rightarrow> Inl e | None \<Rightarrow> Inr (normal_docsets auth)))"

end
