(* ===== verification/Auth_Valid.thy ===== *)
theory Auth_Valid
  imports Auth_Config
begin

text \<open>
  What the validation of the authorization file amounts to: a condition on the file that mentions
  no order, and a normal form of the file that validates to itself.
\<close>

subsection \<open>Valid files\<close>

definition good_delegate :: "auth_config \<Rightarrow> delegate_entry \<Rightarrow> bool" where
  "good_delegate auth d \<longleftrightarrow>
     trimmed (de_Identity d) \<and> CHR ''/'' \<notin> set (de_Identity d)
     \<and> good_names (delegate_roles d) \<and> (\<forall>r \<in> set (delegate_roles d). known_role auth r)
     \<and> good_names (de_DenyDocsets d) \<and> (\<forall>n \<in> set (de_DenyDocsets d). known_docset auth n)
     \<and> good_names (de_DenyCapabilities d)"

definition good_identity :: "auth_config \<Rightarrow> auth_identity \<Rightarrow> bool" where
  "good_identity auth i \<longleftrightarrow>
     trimmed (ai_Name i) \<and> CHR ''/'' \<notin> set (ai_Name i) \<and> (CHR ''@'' \<in> set (ai_Name i) \<longrightarrow> ai_CreatedBy i = ''oauth'')
     \<and> ai_CreatedBy i \<in> {[], ''oauth''} \<and> ai_Name i \<notin> {''guest'', ''anonymous''}
     \<and> good_names (ai_Roles i) \<and> (\<forall>r \<in> set (ai_Roles i). r \<noteq> ''guest'' \<and> known_role auth r)
     \<and> distinct (map de_Identity (ai_Delegates i)) \<and> (\<forall>d \<in> set (ai_Delegates i). good_delegate auth d)
     \<and> (ai_Home i \<noteq> [] \<longrightarrow> known_docset auth (ai_Home i))"

definition home_open :: "auth_config \<Rightarrow> auth_identity \<Rightarrow> bool" where
  "home_open auth i \<longleftrightarrow>
     (case map_of (Docsets auth) (ai_Home i) of
        None \<Rightarrow> True
      | Some ds \<Rightarrow> ai_Home i \<noteq> [] \<longrightarrow> set (da_Deny (Access ds)) \<inter> set (ai_Roles i) = {})"

definition key_text :: "auth_identity \<Rightarrow> string" where
  "key_text i = TrimSpace (ai_PublicKey i)"

definition normal_keys :: "parse_key \<Rightarrow> auth_identity list \<Rightarrow> string list" where
  "normal_keys parse is = List.map_filter (\<lambda>i. if key_text i = [] then None else parse (key_text i)) is"

definition homes :: "auth_identity list \<Rightarrow> string list" where
  "homes is = filter (\<lambda>h. h \<noteq> []) (map ai_Home is)"

definition good_identities :: "parse_key \<Rightarrow> auth_config \<Rightarrow> auth_identity list \<Rightarrow> bool" where
  "good_identities parse auth is \<longleftrightarrow>
     distinct (map ai_Name is) \<and> distinct (homes is) \<and> distinct (normal_keys parse is)
     \<and> (\<forall>i \<in> set is. good_identity auth i \<and> (key_text i \<noteq> [] \<longrightarrow> parse (key_text i) \<noteq> None))"

definition good_projection :: "string \<Rightarrow> docset_spec \<Rightarrow> projection_spec \<Rightarrow> bool" where
  "good_projection n ds p \<longleftrightarrow>
     \<not> invalid_projection n p \<and> (\<forall>g \<in> set (Include p @ Exclude p). \<not> bad_pattern g)
     \<and> (case Paths ds of
          [] \<Rightarrow> True
        | pm # pms \<Rightarrow> pms = [] \<and> Display pm \<in> {[], Source pm} \<and> prefix ''/'' (Source pm) \<and> Source pm \<noteq> ''/''
            \<and> path_clean (Source pm) = Source pm)"

definition good_docset :: "auth_config \<Rightarrow> string \<times> docset_spec \<Rightarrow> bool" where
  "good_docset auth nds \<longleftrightarrow>
     (case nds of
        (n, ds) \<Rightarrow>
          okf_ok ds \<and> pred_option (good_projection n ds) (Projection ds)
          \<and> good_names (edit_roles ds) \<and> (\<forall>r \<in> set (edit_roles ds). known_role auth r)
          \<and> (\<forall>(r, g) \<in> set (da_Allow (Access ds)). trimmed g \<and> (r = ''guest'' \<or> known_role auth r))
          \<and> good_names (da_Deny (Access ds)) \<and> (\<forall>r \<in> set (da_Deny (Access ds)). r = ''guest'' \<or> known_role auth r))"

definition good_role :: "string \<times> role_spec \<Rightarrow> bool" where
  "good_role nr \<longleftrightarrow>
     (case nr of
        (n, role) \<Rightarrow> trimmed n \<and> n \<noteq> ''guest'' \<and> good_names (Capabilities (rs_Allow role))
          \<and> good_names (Capabilities (rs_Deny role)))"

definition auth_valid :: "parse_key \<Rightarrow> auth_config \<Rightarrow> bool" where
  "auth_valid parse auth \<longleftrightarrow>
     (\<forall>nr \<in> set (ac_Roles auth). good_role nr) \<and> (\<forall>nds \<in> set (Docsets auth). good_docset auth nds)
     \<and> good_identities parse auth (Identities auth)
     \<and> (\<forall>i \<in> set (Identities auth). home_open auth i
          \<and> de_Identity ` set (ai_Delegates i) \<subseteq> ai_Name ` set (Identities auth))"

definition normal_auth :: "auth_config \<Rightarrow> auth_config" where
  "normal_auth auth = normal_docsets (on_docsets desugar auth)"

subsection \<open>The checks decide validity\<close>

lemma check_role_None: "check_role nr = None \<and> fst nr \<noteq> ''guest'' \<longleftrightarrow> good_role nr"
  by (cases nr) (auto simp: check_role_def good_role_def)

lemma check_delegates_None:
  "check_delegates auth name seen ds = None \<longleftrightarrow>
     distinct (map de_Identity ds) \<and> de_Identity ` set ds \<inter> set seen = {} \<and> (\<forall>d \<in> set ds. good_delegate auth d)"
proof (induction ds arbitrary: seen)
  case (Cons d ds)
  have "check_delegate auth name seen d = None \<longleftrightarrow> de_Identity d \<notin> set seen \<and> good_delegate auth d"
    by (auto simp: check_delegate_def good_delegate_def Let_def)
  with Cons.IH [of "de_Identity d # seen"] show ?case
    by (auto split: option.splits)
qed simp

lemma fst_image: "(a, b) \<in> S \<Longrightarrow> a \<in> fst ` S"
  by force

lemma check_identities_None:
  "check_identities parse auth names keys hs is = None \<longleftrightarrow>
     good_identities parse auth is \<and> ai_Name ` set is \<inter> set names = {}
     \<and> set (normal_keys parse is) \<inter> fst ` set keys = {} \<and> set (homes is) \<inter> fst ` set hs = {}"
proof (induction "is" arbitrary: names keys hs)
  case Nil
  then show ?case by (simp add: good_identities_def normal_keys_def homes_def map_filter_simps)
next
  case (Cons i rest)
  have name: "check_name names i = None \<longleftrightarrow> trimmed (ai_Name i) \<and> CHR ''/'' \<notin> set (ai_Name i)
      \<and> (CHR ''@'' \<in> set (ai_Name i) \<longrightarrow> ai_CreatedBy i = ''oauth'') \<and> ai_CreatedBy i \<in> {[], ''oauth''}
      \<and> ai_Name i \<notin> {''guest'', ''anonymous''} \<and> ai_Name i \<notin> set names"
    by (auto simp: check_name_def Let_def)
  have roles: "check_roles auth i = None \<longleftrightarrow> good_names (ai_Roles i) \<and> (\<forall>r \<in> set (ai_Roles i). r \<noteq> ''guest'' \<and> known_role auth r)"
    by (auto simp: check_roles_def)
  have key: "check_key parse keys i = Inr keys' \<longleftrightarrow>
      (key_text i \<noteq> [] \<longrightarrow> parse (key_text i) \<noteq> None) \<and> set (normal_keys parse [i]) \<inter> fst ` set keys = {}
      \<and> keys' = map (\<lambda>k. (k, ai_Name i)) (normal_keys parse [i]) @ keys" for keys'
    by (auto simp: check_key_def key_text_def normal_keys_def map_filter_simps map_of_eq_None_iff Let_def
        split: option.splits dest!: map_of_SomeD dest: fst_image)
  have home: "check_home_docset auth hs i = Inr hs' \<longleftrightarrow>
      (ai_Home i \<noteq> [] \<longrightarrow> known_docset auth (ai_Home i)) \<and> set (homes [i]) \<inter> fst ` set hs = {}
      \<and> hs' = map (\<lambda>h. (h, ai_Name i)) (homes [i]) @ hs" for hs'
    by (auto simp: check_home_docset_def homes_def map_of_eq_None_iff split: option.splits if_splits
        dest!: map_of_SomeD dest: fst_image)
  have parts: "normal_keys parse (i # rest) = normal_keys parse [i] @ normal_keys parse rest"
      "homes (i # rest) = homes [i] @ homes rest"
    by (simp_all add: normal_keys_def homes_def map_filter_def)
  have single: "distinct (normal_keys parse [i])" "distinct (homes [i])"
    by (simp_all add: normal_keys_def homes_def map_filter_simps split: option.split)
  have "check_identities parse auth names keys hs (i # rest) = None \<longleftrightarrow>
      check_name names i = None
      \<and> (\<exists>keys'. check_key parse keys i = Inr keys' \<and> check_roles auth i = None
           \<and> check_delegates auth (ai_Name i) [] (ai_Delegates i) = None
           \<and> (\<exists>hs'. check_home_docset auth hs i = Inr hs'
                \<and> check_identities parse auth (ai_Name i # names) keys' hs' rest = None))"
    by (cases "check_key parse keys i"; cases "check_home_docset auth hs i") (auto split: option.splits)
  also have "\<dots> \<longleftrightarrow> good_identity auth i \<and> (key_text i \<noteq> [] \<longrightarrow> parse (key_text i) \<noteq> None) \<and> ai_Name i \<notin> set names
      \<and> set (normal_keys parse [i]) \<inter> fst ` set keys = {} \<and> set (homes [i]) \<inter> fst ` set hs = {}
      \<and> check_identities parse auth (ai_Name i # names) (map (\<lambda>k. (k, ai_Name i)) (normal_keys parse [i]) @ keys)
           (map (\<lambda>h. (h, ai_Name i)) (homes [i]) @ hs) rest = None"
    unfolding name roles key home check_delegates_None good_identity_def by (simp del: Int_iff) blast
  finally have step: "check_identities parse auth names keys hs (i # rest) = None \<longleftrightarrow> \<dots>" .
  have cons: "good_identities parse auth (i # rest) \<longleftrightarrow>
      good_identity auth i \<and> (key_text i \<noteq> [] \<longrightarrow> parse (key_text i) \<noteq> None) \<and> ai_Name i \<notin> ai_Name ` set rest
      \<and> set (homes [i]) \<inter> set (homes rest) = {} \<and> set (normal_keys parse [i]) \<inter> set (normal_keys parse rest) = {}
      \<and> good_identities parse auth rest"
    unfolding good_identities_def parts using single by (simp del: Int_iff) blast
  have seen: "fst ` set (map (\<lambda>k. (k, x)) ks @ seen) = set ks \<union> fst ` set seen" for x :: string and ks seen
    by (simp add: image_Un image_image)
  show ?case
    unfolding step Cons.IH cons seen parts
    by (simp add: Int_Un_distrib Int_Un_distrib2 Int_commute conj_ac)
qed

lemma desugar_fields [simp]:
  "Projection (desugar ds) = Projection ds" "Paths (desugar ds) = Paths ds" "Access (desugar ds) = Access ds"
  "ds_Config (desugar ds) = ds_Config ds" "OKF (desugar ds) = OKF ds" "edit_roles (desugar ds) = edit_roles ds"
  "ds_Readonly (desugar ds) = ds_Readonly ds"
  by (simp_all add: desugar_def edit_roles_def split: option.split)

lemma on_docsets_fields [simp]:
  "ac_Roles (on_docsets f auth) = ac_Roles auth" "Identities (on_docsets f auth) = Identities auth"
  "Docsets (on_docsets f auth) = map (apsnd f) (Docsets auth)"
  by (simp_all add: on_docsets_def)

lemma map_of_apsnd: "map_of (map (apsnd f) xs) k = map_option f (map_of xs k)"
  by (induction xs) auto

lemma known_on_docsets [simp]:
  "known_role (on_docsets f auth) = known_role auth" "known_docset (on_docsets f auth) = known_docset auth"
  by (simp_all add: known_role_def known_docset_def map_of_apsnd fun_eq_iff)

lemma good_identities_on_docsets [simp]: "good_identities parse (on_docsets f auth) = good_identities parse auth"
  by (simp add: good_identities_def good_identity_def good_delegate_def fun_eq_iff)

lemma desugarOKFRules_eq:
  "desugarOKFRules auth = Inr auth' \<longleftrightarrow> (\<forall>(n, ds) \<in> set (Docsets auth). okf_ok ds) \<and> auth' = on_docsets desugar auth"
proof (cases "\<forall>(n, ds) \<in> set (Docsets auth). okf_ok ds")
  case True
  then have c: "checks (map (\<lambda>(name, ds). ensure (okf_ok ds) (ConflictingOKF name)) (Docsets auth)) = None" by auto
  show ?thesis unfolding desugarOKFRules_def c using True by auto
next
  case False
  then obtain e where c: "checks (map (\<lambda>(name, ds). ensure (okf_ok ds) (ConflictingOKF name)) (Docsets auth)) = Some e"
    by fastforce
  show ?thesis unfolding desugarOKFRules_def c using False by auto
qed

lemma check_projection_None: "check_projection n ds p = None \<longleftrightarrow> good_projection n ds p"
  by (auto simp: check_projection_def good_projection_def split: list.splits)

lemma good_projection_desugar [simp]: "good_projection n (desugar ds) p = good_projection n ds p"
  by (simp add: good_projection_def)

lemma check_docset_None:
  "check_docset (on_docsets desugar auth) n (desugar ds) = None \<and> okf_ok ds \<longleftrightarrow> good_docset auth (n, ds)"
  by (auto simp: check_docset_def good_docset_def check_projection_None split: option.splits prod.splits)

lemma check_denied_home_None: "check_denied_home (on_docsets desugar auth) i = None \<longleftrightarrow> home_open auth i"
  by (auto simp: check_denied_home_def home_open_def map_of_apsnd split: option.splits)

lemma check_known_delegates_None:
  "check_known_delegates auth = None \<longleftrightarrow>
     (\<forall>i \<in> set (Identities auth). de_Identity ` set (ai_Delegates i) \<subseteq> ai_Name ` set (Identities auth))"
  by (fastforce simp: check_known_delegates_def)

lemma ValidateAuthConfig_accepts_iff:
  "ValidateAuthConfig parse auth = Inr auth' \<longleftrightarrow> auth_valid parse auth \<and> auth' = normal_auth auth"
proof -
  let ?A = "on_docsets desugar auth"
  have roles: "map_of (ac_Roles auth) ''guest'' = None \<and> (\<forall>nr \<in> set (ac_Roles auth). check_role nr = None)
      \<longleftrightarrow> (\<forall>nr \<in> set (ac_Roles auth). good_role nr)"
    by (auto simp: map_of_eq_None_iff dest: fst_image simp flip: check_role_None)
  have docsets: "(\<forall>nds \<in> set (Docsets auth). okf_ok (snd nds) \<and> check_docset ?A (fst nds) (desugar (snd nds)) = None)
      \<longleftrightarrow> (\<forall>nds \<in> set (Docsets auth). good_docset auth nds)"
    using check_docset_None [of auth "fst nds" "snd nds" for nds] by auto
  have c: "check_auth parse ?A = None \<longleftrightarrow>
      (\<forall>nr \<in> set (ac_Roles auth). good_role nr)
      \<and> (\<forall>nds \<in> set (Docsets auth). check_docset ?A (fst nds) (desugar (snd nds)) = None)
      \<and> good_identities parse auth (Identities auth)
      \<and> (\<forall>i \<in> set (Identities auth). home_open auth i
           \<and> de_Identity ` set (ai_Delegates i) \<subseteq> ai_Name ` set (Identities auth))"
    unfolding roles [symmetric]
    by (simp add: check_auth_def check_identities_None check_known_delegates_None check_denied_home_None
        ball_conj_distrib conj_ac)
  have okf: "(\<forall>(n, ds) \<in> set (Docsets auth). okf_ok ds) \<longleftrightarrow> (\<forall>nds \<in> set (Docsets auth). okf_ok (snd nds))"
    by (simp add: split_beta)
  have "(\<forall>(n, ds) \<in> set (Docsets auth). okf_ok ds) \<and> check_auth parse ?A = None \<longleftrightarrow> auth_valid parse auth"
    unfolding auth_valid_def docsets [symmetric] c okf by (simp only: ball_conj_distrib conj_ac)
  moreover have "ValidateAuthConfig parse auth = Inr auth' \<longleftrightarrow>
      (\<forall>(n, ds) \<in> set (Docsets auth). okf_ok ds) \<and> check_auth parse ?A = None \<and> auth' = normal_docsets ?A"
  proof -
    have "ValidateAuthConfig parse auth = Inr auth' \<longleftrightarrow>
        (\<exists>A. desugarOKFRules auth = Inr A \<and> check_auth parse A = None \<and> auth' = normal_docsets A)"
      by (auto simp: ValidateAuthConfig_def split: sum.split option.split)
    then show ?thesis unfolding desugarOKFRules_eq by blast
  qed
  ultimately show ?thesis by (auto simp: normal_auth_def)
qed

text \<open>
  C17. The validation of the authorization file accepts exactly the files whose names are proper and
  unique and whose references all resolve: roles, home docsets, delegates and what they are denied,
  the grants and denials of docsets, the sources of projections. Nothing in this condition depends
  on the order of a map, so whether a file is accepted does not depend on the order in which the
  code visits it; and an accepted file is only completed by the rules of OKF docsets and by the
  mounts and the read-only flags of projections.
\<close>

theorem ValidateAuthConfig_accepts:
  "ValidateAuthConfig parse auth = Inr auth' \<longleftrightarrow> auth_valid parse auth \<and> auth' = normal_auth auth"
  by (rule ValidateAuthConfig_accepts_iff)

subsection \<open>The normal form\<close>

lemma rule_Equal_refl [simp]: "rule_Equal r r"
  by (simp add: rule_Equal_def DifferingKeys_def)

lemma map_of_add_rule:
  "map_of (add_rule n r rs) k = (if k = n \<and> map_of rs n = None then Some r else map_of rs k)"
  by (auto simp: add_rule_def map_add_def split: option.split)

lemma add_rule_known: "map_of rs n \<noteq> None \<Longrightarrow> add_rule n r rs = rs"
  by (simp add: add_rule_def)

lemma okf_rules_again: "okf_rules okf (okf_rules okf rs) = okf_rules okf rs"
proof -
  let ?out = "okf_rules okf rs"
  have "map_of ?out n \<noteq> None" if "n \<in> {''okf'', ''okf/bundle'', ''link/resolves'', ''link/alias''}" for n
    using that by (auto simp: okf_rules_def map_of_add_rule)
  then show ?thesis
    unfolding okf_rules_def [of okf ?out] by (simp add: add_rule_known)
qed

lemma desugar_again [simp]: "desugar (desugar ds) = desugar ds"
  by (cases "OKF ds") (simp_all add: desugar_def okf_rules_again)

lemma okf_ok_desugar: "okf_ok ds \<Longrightarrow> okf_ok (desugar ds)"
  by (auto simp: okf_ok_def desugar_def okf_rules_def map_of_add_rule split: option.splits)

lemma normal_fields [simp]:
  "Projection (normal_docset n ds) = Projection ds" "Access (normal_docset n ds) = Access ds"
  "ds_Config (normal_docset n ds) = ds_Config ds" "OKF (normal_docset n ds) = OKF ds"
  "ds_Rules (normal_docset n ds) = ds_Rules ds" "edit_roles (normal_docset n ds) = edit_roles ds"
  by (simp_all add: normal_docset_def edit_roles_def Let_def split: option.split)

lemma normal_again [simp]: "normal_docset n (normal_docset n ds) = normal_docset n ds"
  by (simp add: normal_docset_def projection_mount_def Let_def split: option.split)

lemma normal_desugar: "desugar (normal_docset n (desugar ds)) = normal_docset n (desugar ds)"
proof -
  have "desugar (normal_docset n ds') = normal_docset n (desugar ds')" for ds'
    by (simp add: desugar_def normal_docset_def projection_mount_def Let_def split: option.split)
  then show ?thesis by simp
qed

lemma normal_auth_again: "normal_auth (normal_auth auth) = normal_auth auth"
  by (simp add: normal_auth_def normal_docsets_def on_docsets_def o_def split_beta normal_desugar)

lemma clean_single:
  assumes "n \<noteq> []" "CHR ''/'' \<notin> set n" "n \<noteq> ''.''" "n \<noteq> ''..''"
  shows "path_clean (CHR ''/'' # n) = CHR ''/'' # n"
proof -
  have v: "list_all valid_seg [n]" using assms by (simp add: valid_seg_def)
  have "path_clean (of_segs [n]) = of_segs [n]"
    by (subst path_clean_rooted) (use segs_of_segs [OF v] in \<open>simp_all add: of_segs_def\<close>)
  then show ?thesis by (simp add: of_segs_def)
qed

lemma good_projection_normal:
  assumes "good_projection n ds p" "Projection ds = Some p" "n \<noteq> ''.''" "n \<noteq> ''..''"
  shows "good_projection n (normal_docset n ds) p"
proof -
  have n: "n \<noteq> []" "CHR ''/'' \<notin> set n"
    using assms(1) by (auto simp: good_projection_def invalid_projection_def Let_def)
  have "prefix ''/'' (projection_mount n ds) \<and> projection_mount n ds \<noteq> ''/''
      \<and> path_clean (projection_mount n ds) = projection_mount n ds"
    using assms n clean_single [OF n assms(3,4)]
    by (auto simp: good_projection_def projection_mount_def split: list.splits)
  with assms(1,2) show ?thesis
    by (simp add: good_projection_def normal_docset_def Let_def)
qed

lemma normal_docset_at:
  "map_of (Docsets (normal_auth auth)) k = map_option (\<lambda>ds. normal_docset k (desugar ds)) (map_of (Docsets auth) k)"
proof -
  have "map_of (map (\<lambda>(n, ds). (n, normal_docset n ds)) (map (apsnd desugar) xs)) k
      = map_option (\<lambda>ds. normal_docset k (desugar ds)) (map_of xs k)" for xs
    by (induction xs) auto
  then show ?thesis by (simp add: normal_auth_def normal_docsets_def del: map_map)
qed

lemma known_normal [simp]:
  "known_role (normal_auth auth) = known_role auth" "known_docset (normal_auth auth) = known_docset auth"
  by (simp_all add: known_docset_def normal_docset_at fun_eq_iff) (simp add: known_role_def normal_auth_def normal_docsets_def fun_eq_iff)

lemma home_open_normal [simp]: "home_open (normal_auth auth) = home_open auth"
  by (auto simp: home_open_def normal_docset_at fun_eq_iff split: option.split)

lemma okf_ok_normal [simp]: "okf_ok (normal_docset n ds) = okf_ok ds"
  by (simp add: okf_ok_def cong: option.case_cong)

lemma good_docset_normal:
  assumes "good_docset auth (n, ds)" "Projection ds \<noteq> None \<Longrightarrow> n \<noteq> ''.'' \<and> n \<noteq> ''..''"
  shows "good_docset (normal_auth auth) (n, normal_docset n (desugar ds))"
proof -
  have "okf_ok (normal_docset n (desugar ds))"
    using assms(1) by (simp add: good_docset_def okf_ok_desugar)
  moreover have "pred_option (good_projection n (normal_docset n (desugar ds))) (Projection ds)"
  proof (cases "Projection ds")
    case (Some p)
    with assms good_projection_normal [of n "desugar ds" p] show ?thesis by (simp add: good_docset_def)
  qed simp
  ultimately show ?thesis using assms(1) by (simp add: good_docset_def)
qed

lemma validated_again:
  assumes "ValidateAuthConfig parse auth = Inr auth'"
    and "\<And>n ds. (n, ds) \<in> set (Docsets auth) \<Longrightarrow> Projection ds \<noteq> None \<Longrightarrow> n \<noteq> ''.'' \<and> n \<noteq> ''..''"
  shows "ValidateAuthConfig parse auth' = Inr auth'"
proof -
  have valid: "auth_valid parse auth" and auth': "auth' = normal_auth auth"
    using assms(1) unfolding ValidateAuthConfig_accepts_iff by blast+
  have "\<forall>nds \<in> set (Docsets (normal_auth auth)). good_docset (normal_auth auth) nds"
    using valid assms(2) good_docset_normal
    by (fastforce simp: auth_valid_def normal_auth_def [of auth] normal_docsets_def)
  moreover have "Identities (normal_auth auth) = Identities auth" "ac_Roles (normal_auth auth) = ac_Roles auth"
    by (simp_all add: normal_auth_def normal_docsets_def)
  moreover have "good_identities parse (normal_auth auth) = good_identities parse auth"
    by (simp add: good_identities_def good_identity_def good_delegate_def fun_eq_iff)
  ultimately have "auth_valid parse (normal_auth auth)"
    using valid by (simp add: auth_valid_def)
  then show ?thesis
    by (simp add: auth' ValidateAuthConfig_accepts_iff normal_auth_again)
qed

text \<open>
  What the validation has accepted and completed, it accepts again and leaves as it is: the live
  configuration, which every later change starts from, stays valid. The exception is a projected
  docset named with one or two dots and no path: its mount is accepted once, but it is no
  normalized path.
\<close>

theorem validated_stays_valid:
  assumes "ValidateAuthConfig parse auth = Inr auth'"
    and "\<And>n ds. (n, ds) \<in> set (Docsets auth) \<Longrightarrow> Projection ds \<noteq> None \<Longrightarrow> n \<noteq> ''.'' \<and> n \<noteq> ''..''"
  shows "ValidateAuthConfig parse auth' = Inr auth'"
  by (rule validated_again [OF assms])

text \<open>A file with one projected docset, which is the home of its editor.\<close>

definition projected_file :: "string \<Rightarrow> auth_config" where
  "projected_file n =
     \<lparr>ac_AllowKeyless = None, ac_UnknownIdentity = ''deny'', ac_DefaultCwd = '''',
      Docsets = [(n, \<lparr>Paths = [], Projection = Some \<lparr>Store = ''openlore/handbook'', Subpath = '''', Include = [''*.md''], Exclude = []\<rparr>,
        Access = \<lparr>da_Allow = [(''guest'', ''ro'')], da_Deny = []\<rparr>, ds_Config = None, Aliases = [], Inbox = '''',
        MaxWriteSize = 0, ds_Readonly = None, ds_WriteConflictPolicy = '''',
        OKF = Some \<lparr>okf_Enforce = None, okf_Patterns = []\<rparr>, ds_Rules = []\<rparr>)],
      ac_Roles = [(''editor'', \<lparr>rs_Allow = \<lparr>Capabilities = []\<rparr>, rs_Deny = \<lparr>Capabilities = []\<rparr>\<rparr>)],
      Identities = [\<lparr>ai_Name = ''ann'', ai_CreatedBy = '''', ai_PublicKey = '''', ai_Roles = [''editor''], ai_Home = n,
        ai_Match = [], ai_Delegates = []\<rparr>]\<rparr>"

lemma projected_names: "trimmed ''ann''" "trimmed ''editor''" "trimmed ''ro''"
  by (rule trimmed_ascii; simp add: byte_def)+

lemma projected_pattern: "\<not> bad_pattern ''*.md''"
  by code_simp

lemma projected_store: "validProjectionPath ''openlore/handbook''"
  by (simp add: validProjectionPath_def fs_ValidPath_def utf8_valid_code byte_def del: utf8_valid.simps(2))

lemma projected_valid:
  assumes "n = ''kb'' \<or> n = ''.''"
  shows "auth_valid (\<lambda>k. None) (projected_file n)"
  using assms projected_names projected_pattern projected_store
  by (auto simp: auth_valid_def projected_file_def good_role_def good_names_def good_docset_def okf_ok_def
      good_projection_def invalid_projection_def Let_def edit_roles_def known_role_def known_docset_def
      good_identities_def good_identity_def homes_def normal_keys_def key_text_def map_filter_simps home_open_def)

lemma projected_file_accepted:
  "n = ''kb'' \<or> n = ''.'' \<Longrightarrow> ValidateAuthConfig (\<lambda>k. None) (projected_file n) = Inr (normal_auth (projected_file n))"
  by (simp only: ValidateAuthConfig_accepts_iff projected_valid simp_thms)

theorem validated_stays_valid_witness:
  "ValidateAuthConfig (\<lambda>k. None) (normal_auth (projected_file ''kb'')) = Inr (normal_auth (projected_file ''kb''))"
  by (rule validated_stays_valid [OF projected_file_accepted]) (simp_all add: projected_file_def)

text \<open>With a dot for its name, the mount of the projection is refused the second time.\<close>

lemma dot_projection:
  "ValidateAuthConfig (\<lambda>k. None) (projected_file ''.'') = Inr (normal_auth (projected_file ''.''))
   \<and> (\<forall>auth'. ValidateAuthConfig (\<lambda>k. None) (normal_auth (projected_file ''.'')) \<noteq> Inr auth')"
proof -
  have "path_clean ''/.'' \<noteq> ''/.''" by code_simp
  then have "\<not> good_docset (normal_auth (projected_file ''.'')) (hd (Docsets (normal_auth (projected_file ''.''))))"
    by (simp add: good_docset_def normal_auth_def normal_docsets_def projected_file_def good_projection_def
        normal_docset_def projection_mount_def desugar_def Let_def)
  moreover have "hd (Docsets (normal_auth (projected_file ''.''))) \<in> set (Docsets (normal_auth (projected_file ''.'')))"
    by (simp add: normal_auth_def normal_docsets_def projected_file_def)
  ultimately have "\<not> auth_valid (\<lambda>k. None) (normal_auth (projected_file ''.''))"
    unfolding auth_valid_def by blast
  then show ?thesis
    by (simp add: projected_file_accepted) (simp add: ValidateAuthConfig_accepts_iff)
qed

end
