(* ===== verification/Config_Edit.thy ===== *)
theory Config_Edit
  imports Auth_Valid Session_Fs
begin

text \<open>
  How the authorization configuration of a running server changes (pkg/openlore/config_management.go,
  live_config.go) and how its file is edited in a session (config_fs.go). The decoder and the
  encoder of JSON, the compilation of the rules and the knowledge scopes of the analytics are
  arguments; so are the failures of the host and of the write log. An error value's text is an
  argument too.
\<close>

subsection \<open>State and surroundings\<close>

datatype conf_error =
    EncodeFailed string
  | DecodeFailed string
  | MutateFailed string
  | InvalidConfig auth_error
  | RestartRequired
  | GrantsInvalid grants_error
  | ProjectionConflicts string string
  | ProjectionShadows string string
  | RulesInvalid string
  | ScopesInvalid string
  | NoAuthFile
  | FileUnreadable
  | HostFailed string

record live_config =
  lc_auth :: auth_config
  lc_projections :: "(string \<times> projection_spec) list"

record audit_event =
  au_Type :: string
  au_Attribution :: attribution
  au_Error :: "string option"

text \<open>
  The server's field \<open>sv_auth\<close> is the configuration in force. \<open>cs_base\<close> is the state of everything
  else a session reaches.
\<close>

record 's conf_state =
  cs_base :: 's
  cs_server :: server
  cs_projections :: "(string \<times> projection_spec) list"
  cs_file :: "string option"
  cs_audit :: "audit_event list"

record conf_env =
  ce_AuthFile :: string
  ce_ConfigFile :: string
  ce_ConfigText :: "string option"
  ce_ModTime :: int
  ce_decode :: "string \<Rightarrow> string + auth_config"
  ce_encode :: "auth_config \<Rightarrow> string + string"
  ce_indent :: "auth_config \<Rightarrow> string + string"
  ce_parse_key :: parse_key
  ce_rules :: "auth_config \<Rightarrow> string option"
  ce_scopes :: "auth_config \<Rightarrow> string option"
  ce_sha :: "string \<Rightarrow> string"
  ce_text :: "conf_error \<Rightarrow> string"

record host_faults =
  hf_mkdir :: "string option"
  hf_write :: "string option"
  hf_rename :: "string option"
  hf_log :: "string option"

definition record_event :: "string \<Rightarrow> attribution \<Rightarrow> string option \<Rightarrow> 's conf_state \<Rightarrow> 's conf_state" where
  "record_event ty at err st =
     st\<lparr>cs_audit := cs_audit st @ [\<lparr>au_Type = ty, au_Attribution = at, au_Error = err\<rparr>]\<rparr>"

subsection \<open>Preparing and installing\<close>

definition validateLiveAuthCandidate :: "server \<Rightarrow> auth_config \<Rightarrow> conf_error option" where
  "validateLiveAuthCandidate s auth =
     (let current = sv_auth s
      in if ac_AllowKeyless current \<noteq> ac_AllowKeyless auth \<or> ac_UnknownIdentity current \<noteq> ac_UnknownIdentity auth
            \<or> ac_DefaultCwd current \<noteq> ac_DefaultCwd auth
         then Some RestartRequired
         else map_option GrantsInvalid (validateGrantsFor s auth))"

definition projection_root :: "string \<Rightarrow> docset_spec \<Rightarrow> string" where
  "projection_root name ds = (if primaryDisplayPath ds = [] then CHR ''/'' # name else primaryDisplayPath ds)"

definition reserved_mounts :: "server \<Rightarrow> string list" where
  "reserved_mounts s = [''/jobs'', ''/requests'', ''/opt/openlore''] @ SystemMountPaths s"

definition projection_mounts_of :: "server \<Rightarrow> string \<times> docset_spec \<Rightarrow> conf_error + (string \<times> projection_spec) list" where
  "projection_mounts_of s nds =
     (case Projection (snd nds) of
        None \<Rightarrow> Inr []
      | Some spec \<Rightarrow>
          (let root = projection_root (fst nds) (snd nds)
           in case find (\<lambda>m. pathWithinRoot m root \<or> pathWithinRoot root m) (reserved_mounts s) of
                Some m \<Rightarrow> Inl (ProjectionConflicts (fst nds) m)
              | None \<Rightarrow>
                  (case find (\<lambda>m. pathWithinRoot root m) (mountPaths s) of
                     Some m \<Rightarrow> Inl (ProjectionShadows (fst nds) m)
                   | None \<Rightarrow> Inr [(if prefix ''/'' root then tl root else root, spec)])))"

fun gather :: "('e + 'a list) list \<Rightarrow> 'e + 'a list" where
  "gather [] = Inr []"
| "gather (Inl e # rs) = Inl e"
| "gather (Inr xs # rs) = map_sum id ((@) xs) (gather rs)"

definition projectionMounts :: "server \<Rightarrow> auth_config \<Rightarrow> conf_error + (string \<times> projection_spec) list" where
  "projectionMounts s auth = gather (map (projection_mounts_of s) (Docsets auth))"

definition prepareLiveConfig :: "conf_env \<Rightarrow> server \<Rightarrow> auth_config \<Rightarrow> conf_error + live_config" where
  "prepareLiveConfig E s auth =
     (case validateLiveAuthCandidate s auth of
        Some e \<Rightarrow> Inl e
      | None \<Rightarrow>
          (case projectionMounts s auth of
             Inl e \<Rightarrow> Inl e
           | Inr ps \<Rightarrow>
               (case ce_rules E auth of
                  Some e \<Rightarrow> Inl (RulesInvalid e)
                | None \<Rightarrow>
                    (case ce_scopes E auth of
                       Some e \<Rightarrow> Inl (ScopesInvalid e)
                     | None \<Rightarrow> Inr \<lparr>lc_auth = auth, lc_projections = ps\<rparr>))))"

definition publish :: "live_config \<Rightarrow> 's conf_state \<Rightarrow> 's conf_state" where
  "publish new st = st\<lparr>cs_server := (cs_server st)\<lparr>sv_auth := lc_auth new\<rparr>, cs_projections := lc_projections new\<rparr>"

text \<open>Persisting comes first; what fails before leaves the configuration in force alone.\<close>

definition installLiveConfig ::
  "host_faults \<Rightarrow> live_config \<Rightarrow> ('s conf_state \<Rightarrow> conf_error option \<times> 's conf_state) option \<Rightarrow> 's conf_state
     \<Rightarrow> conf_error option \<times> 's conf_state" where
  "installLiveConfig F new persist st =
     (case hf_log F of
        Some e \<Rightarrow> (Some (HostFailed e), st)
      | None \<Rightarrow>
          (case persist of
             None \<Rightarrow> (None, publish new st)
           | Some save \<Rightarrow>
               (case save st of
                  (Some e, st) \<Rightarrow> (Some e, st)
                | (None, st) \<Rightarrow> (None, publish new st))))"

subsection \<open>Changes by the server\<close>

definition rename_to :: "host_faults \<Rightarrow> string \<Rightarrow> 's conf_state \<Rightarrow> conf_error option \<times> 's conf_state" where
  "rename_to F content st =
     (case hf_rename F of
        Some e \<Rightarrow> (Some (HostFailed e), st)
      | None \<Rightarrow> (None, st\<lparr>cs_file := Some content\<rparr>))"

definition candidate :: "conf_env \<Rightarrow> server \<Rightarrow> (auth_config \<Rightarrow> string + auth_config) \<Rightarrow> conf_error + auth_config \<times> live_config" where
  "candidate E s change =
     (case ce_encode E (sv_auth s) of
        Inl e \<Rightarrow> Inl (EncodeFailed e)
      | Inr b \<Rightarrow>
          (case ce_decode E b of
             Inl e \<Rightarrow> Inl (DecodeFailed e)
           | Inr copy \<Rightarrow>
               (case change copy of
                  Inl e \<Rightarrow> Inl (MutateFailed e)
                | Inr next_auth \<Rightarrow>
                    (case ValidateAuthConfig (ce_parse_key E) next_auth of
                       Inl e \<Rightarrow> Inl (InvalidConfig e)
                     | Inr auth \<Rightarrow> map_sum id (Pair auth) (prepareLiveConfig E s auth)))))"

definition updateAuth ::
  "conf_env \<Rightarrow> host_faults \<Rightarrow> attribution \<Rightarrow> string \<Rightarrow> (auth_config \<Rightarrow> string + auth_config)
     \<Rightarrow> ('s \<Rightarrow> string option \<times> 's) option \<Rightarrow> 's conf_state \<Rightarrow> conf_error option \<times> 's conf_state" where
  "updateAuth E F at ty change later st =
     (case candidate E (cs_server st) change of
        Inl e \<Rightarrow> (Some e, st)
      | Inr (auth, new) \<Rightarrow>
          if ce_AuthFile E = [] then (Some NoAuthFile, st)
          else case ce_indent E auth of
                 Inl e \<Rightarrow> (Some (EncodeFailed e), st)
               | Inr b \<Rightarrow>
                   (case (hf_mkdir F, hf_write F) of
                      (Some e, _) \<Rightarrow> (Some (HostFailed e), st)
                    | (None, Some e) \<Rightarrow> (Some (HostFailed e), st)
                    | (None, None) \<Rightarrow>
                        (case installLiveConfig F new (Some (rename_to F (b @ [CHR 0x0A]))) st of
                           (Some e, st) \<Rightarrow> (Some e, st)
                         | (None, st) \<Rightarrow>
                             (case later of
                                None \<Rightarrow> (None, record_event ty at None st)
                              | Some f \<Rightarrow>
                                  (case f (cs_base st) of
                                     (err, s) \<Rightarrow> (None, record_event ty at err (st\<lparr>cs_base := s\<rparr>)))))))"

definition LoadAuthConfig :: "conf_env \<Rightarrow> string option \<Rightarrow> conf_error + auth_config" where
  "LoadAuthConfig E content =
     (case content of
        None \<Rightarrow> Inl FileUnreadable
      | Some data \<Rightarrow>
          (case ce_decode E data of
             Inl e \<Rightarrow> Inl (DecodeFailed e)
           | Inr auth \<Rightarrow> map_sum InvalidConfig id (ValidateAuthConfig (ce_parse_key E) auth)))"

definition reloadAuth :: "conf_env \<Rightarrow> host_faults \<Rightarrow> attribution \<Rightarrow> 's conf_state \<Rightarrow> conf_error option \<times> 's conf_state" where
  "reloadAuth E F at st =
     (let loaded = (case LoadAuthConfig E (cs_file st) of
                      Inl e \<Rightarrow> Inl e
                    | Inr auth \<Rightarrow> prepareLiveConfig E (cs_server st) auth)
      in case loaded of
           Inl e \<Rightarrow> (Some e, record_event ''config.reject'' at (Some (ce_text E e)) st)
         | Inr new \<Rightarrow>
             (case installLiveConfig F new None st of
                (Some e, st) \<Rightarrow> (Some e, st)
              | (None, st) \<Rightarrow> (None, record_event ''config.reload'' at None st)))"

fun promote :: "string \<Rightarrow> (auth_identity \<Rightarrow> auth_identity) \<Rightarrow> auth_identity list \<Rightarrow> auth_identity list option" where
  "promote name f [] = None"
| "promote name f (i # is) = (if ai_Name i = name then Some (f i # is) else map_option (Cons i) (promote name f is))"

definition PromoteIdentity ::
  "conf_env \<Rightarrow> host_faults \<Rightarrow> attribution \<Rightarrow> string \<Rightarrow> string list \<Rightarrow> string \<Rightarrow> string \<Rightarrow> identity_match list
     \<Rightarrow> 's conf_state \<Rightarrow> conf_error option \<times> 's conf_state" where
  "PromoteIdentity E F at name roles home key ms =
     updateAuth E F at ''identity.promote''
       (\<lambda>auth. case promote name (\<lambda>i. i\<lparr>ai_Roles := roles, ai_Home := home, ai_PublicKey := key, ai_Match := ms\<rparr>)
                 (Identities auth) of
                 None \<Rightarrow> Inl (''identity not found: '' @ name)
               | Some is \<Rightarrow> Inr (auth\<lparr>Identities := is\<rparr>))
       None"

subsection \<open>A promotion\<close>

text \<open>One identity without a role, and a codec for the two files it needs.\<close>

definition team :: "string list \<Rightarrow> auth_config" where
  "team rs =
     \<lparr>ac_AllowKeyless = None, ac_UnknownIdentity = ''deny'', ac_DefaultCwd = '''', Docsets = [],
      ac_Roles = [(''editor'', \<lparr>rs_Allow = no_rules, rs_Deny = no_rules\<rparr>)],
      Identities = [sample_identity ''ann'' rs []]\<rparr>"

definition encode_team :: "auth_config \<Rightarrow> string + string" where
  "encode_team auth = Inr (if ai_Roles (hd (Identities auth)) = [] then ''0'' else ''1'')"

definition team_env :: conf_env where
  "team_env =
     \<lparr>ce_AuthFile = ''lore.json'', ce_ConfigFile = '''', ce_ConfigText = None, ce_ModTime = 0,
      ce_decode = (\<lambda>b. Inr (team (if prefix ''0'' b then [] else [''editor'']))),
      ce_encode = encode_team, ce_indent = encode_team, ce_parse_key = (\<lambda>k. None), ce_rules = (\<lambda>a. None),
      ce_scopes = (\<lambda>a. None), ce_sha = (\<lambda>b. b), ce_text = (\<lambda>e. ''invalid'')\<rparr>"

definition no_faults :: host_faults where
  "no_faults = \<lparr>hf_mkdir = None, hf_write = None, hf_rename = None, hf_log = None\<rparr>"

definition operator :: attribution where
  "operator = \<lparr>at_Principal = ''root'', at_Actor = '''', at_ClientAuth = AuthLevelOther ''''\<rparr>"

definition team_state :: "unit conf_state" where
  "team_state =
     \<lparr>cs_base = (), cs_server = sample_server\<lparr>sv_auth := team []\<rparr>, cs_projections = [], cs_file = Some ''0'', cs_audit = []\<rparr>"

lemma team_fields:
  "Docsets (team rs) = []" "Identities (team rs) = [sample_identity ''ann'' rs []]"
  by (simp_all add: team_def)

lemma env_fields:
  "ce_AuthFile team_env = ''lore.json''" "ce_decode team_env b = Inr (team (if prefix ''0'' b then [] else [''editor'']))"
  "ce_encode team_env = encode_team" "ce_indent team_env = encode_team" "ce_parse_key team_env = (\<lambda>k. None)"
  "encode_team (team rs) = Inr (if rs = [] then ''0'' else ''1'')"
  by (simp_all add: team_env_def encode_team_def team_def sample_identity_def)

lemma team_valid:
  assumes "rs = [] \<or> rs = [''editor'']"
  shows "ValidateAuthConfig (\<lambda>k. None) (team rs) = Inr (team rs)"
proof -
  have names: "trimmed ''ann''" "trimmed ''editor''" by (rule trimmed_ascii; simp add: byte_def)+
  have "auth_valid (\<lambda>k. None) (team rs)"
    using assms names
    by (auto simp: auth_valid_def team_def sample_identity_def good_role_def good_names_def no_rules_def known_role_def
        good_identities_def good_identity_def homes_def normal_keys_def key_text_def map_filter_simps home_open_def)
  moreover have "normal_auth (team rs) = team rs"
    by (simp add: normal_auth_def normal_docsets_def on_docsets_def team_def)
  ultimately show ?thesis by (simp add: ValidateAuthConfig_accepts_iff)
qed

lemma team_prepared:
  "prepareLiveConfig team_env (sample_server\<lparr>sv_auth := team []\<rparr>) (team [''editor''])
     = Inr \<lparr>lc_auth = team [''editor''], lc_projections = []\<rparr>"
proof -
  have "validateLiveAuthCandidate (sample_server\<lparr>sv_auth := team []\<rparr>) (team [''editor'']) = None"
    by code_simp
  moreover have "projectionMounts (sample_server\<lparr>sv_auth := team []\<rparr>) (team [''editor'']) = Inr []"
    by (simp add: projectionMounts_def team_fields)
  moreover have "ce_rules team_env a = None" "ce_scopes team_env a = None" for a
    by (simp_all add: team_env_def)
  ultimately show ?thesis by (simp add: prepareLiveConfig_def)
qed

lemma promotion:
  "\<exists>st'. PromoteIdentity team_env no_faults operator ''ann'' [''editor''] '''' '''' [] team_state = (None, st')
     \<and> cs_file st' = Some (''1'' @ [CHR 0x0A]) \<and> cs_server st' = (cs_server team_state)\<lparr>sv_auth := team [''editor'']\<rparr>"
proof -
  let ?change = "\<lambda>auth. case promote ''ann'' (\<lambda>i. i\<lparr>ai_Roles := [''editor''], ai_Home := '''', ai_PublicKey := '''', ai_Match := []\<rparr>)
      (Identities auth) of None \<Rightarrow> Inl (''identity not found: '' @ ''ann'') | Some is \<Rightarrow> Inr (auth\<lparr>Identities := is\<rparr>)"
  have "?change (team []) = Inr (team [''editor''])"
    by (simp add: team_def sample_identity_def)
  moreover have "cs_server team_state = sample_server\<lparr>sv_auth := team []\<rparr>"
    by (simp add: team_state_def)
  ultimately have "candidate team_env (cs_server team_state) ?change = Inr (team [''editor''], \<lparr>lc_auth = team [''editor''], lc_projections = []\<rparr>)"
    using team_valid [of "[''editor'']"] team_prepared by (simp add: candidate_def env_fields)
  then show ?thesis
    by (simp add: PromoteIdentity_def updateAuth_def installLiveConfig_def rename_to_def publish_def record_event_def
        no_faults_def env_fields)
qed

subsection \<open>What an update leaves\<close>

lemma candidate_valid:
  assumes "candidate E s change = Inr (auth, new)"
  shows "\<exists>raw. ValidateAuthConfig (ce_parse_key E) raw = Inr auth" "prepareLiveConfig E s auth = Inr new" "lc_auth new = auth"
proof -
  from assms obtain raw where raw: "ValidateAuthConfig (ce_parse_key E) raw = Inr auth" "prepareLiveConfig E s auth = Inr new"
    by (auto simp: candidate_def split: sum.splits)
  then show "\<exists>raw. ValidateAuthConfig (ce_parse_key E) raw = Inr auth" "prepareLiveConfig E s auth = Inr new" by blast+
  from raw(2) show "lc_auth new = auth"
    by (auto simp: prepareLiveConfig_def split: option.splits sum.splits)
qed

lemma updateAuth_cases:
  assumes "updateAuth E F at ty change later st = (e, st')"
  obtains (failed) err where "e = Some err" "st' = st"
  | (done_) auth new b where "e = None" "candidate E (cs_server st) change = Inr (auth, new)" "ce_indent E auth = Inr b"
      "ce_AuthFile E \<noteq> []" "cs_file st' = Some (b @ [CHR 0x0A])" "cs_server st' = (cs_server st)\<lparr>sv_auth := auth\<rparr>"
      "cs_projections st' = lc_projections new" "\<exists>err. cs_audit st' = cs_audit st @ [\<lparr>au_Type = ty, au_Attribution = at, au_Error = err\<rparr>]"
      "later = None \<longrightarrow> cs_base st' = cs_base st"
proof -
  consider (bad) err where "updateAuth E F at ty change later st = (Some err, st)"
    | (good) auth new b where "candidate E (cs_server st) change = Inr (auth, new)" "ce_indent E auth = Inr b" "ce_AuthFile E \<noteq> []"
        "hf_mkdir F = None" "hf_write F = None" "hf_log F = None" "hf_rename F = None"
    by (cases "candidate E (cs_server st) change"; cases "ce_AuthFile E = []"; cases "hf_mkdir F"; cases "hf_write F";
        cases "hf_log F"; cases "hf_rename F"; cases "ce_indent E (fst (projr (candidate E (cs_server st) change)))")
       (force simp: updateAuth_def installLiveConfig_def rename_to_def)+
  then show thesis
  proof cases
    case (bad err)
    with assms show thesis by (auto intro: failed)
  next
    case (good auth new b)
    with assms candidate_valid(3) [OF good(1)] show thesis
      by (intro done_ [of auth new b])
         (auto simp: updateAuth_def installLiveConfig_def rename_to_def publish_def record_event_def split: option.splits prod.splits)
  qed
qed

text \<open>
  C15. A change of the configuration by the server is all or nothing: when it reports an error the
  file, the configuration in force, the projections, the audit log and everything else are as they were;
  otherwise the file holds the encoding of the configuration that is now in force, which has passed
  the validation, keeps the settings that need a restart, and has sound grants; the rest of the
  server is as it was, and one event is recorded.
\<close>

theorem update_is_atomic:
  assumes "updateAuth E F at ty change later st = (e, st')"
  shows "(\<exists>err. e = Some err) \<and> st' = st
    \<or> e = None \<and> (\<exists>auth raw b. ValidateAuthConfig (ce_parse_key E) raw = Inr auth
         \<and> ce_indent E auth = Inr b \<and> cs_file st' = Some (b @ [CHR 0x0A])
         \<and> cs_server st' = (cs_server st)\<lparr>sv_auth := auth\<rparr> \<and> validateGrantsFor (cs_server st) auth = None
         \<and> ac_UnknownIdentity auth = ac_UnknownIdentity (sv_auth (cs_server st))
         \<and> length (cs_audit st') = Suc (length (cs_audit st)))"
  using assms
proof (cases rule: updateAuth_cases)
  case (done_ auth new b)
  from candidate_valid(2) [OF done_(2)] have "validateLiveAuthCandidate (cs_server st) auth = None"
    by (auto simp: prepareLiveConfig_def split: option.splits)
  then have "validateGrantsFor (cs_server st) auth = None" "ac_UnknownIdentity auth = ac_UnknownIdentity (sv_auth (cs_server st))"
    by (auto simp: validateLiveAuthCandidate_def Let_def split: if_splits)
  with done_ candidate_valid(1) [OF done_(2)] show ?thesis by auto
qed simp

theorem update_is_atomic_witness:
  "\<exists>st'. PromoteIdentity team_env no_faults operator ''ann'' [''editor''] '''' '''' [] team_state = (None, st')
     \<and> (\<exists>auth raw. ValidateAuthConfig (\<lambda>k. None) raw = Inr auth \<and> cs_server st' = (cs_server team_state)\<lparr>sv_auth := auth\<rparr>)"
proof -
  obtain st' where p: "PromoteIdentity team_env no_faults operator ''ann'' [''editor''] '''' '''' [] team_state = (None, st')"
    using promotion by blast
  from update_is_atomic [OF this [unfolded PromoteIdentity_def]] have
    "\<exists>auth raw. ValidateAuthConfig (ce_parse_key team_env) raw = Inr auth \<and> cs_server st' = (cs_server team_state)\<lparr>sv_auth := auth\<rparr>"
    by blast
  with p show ?thesis by (simp add: team_env_def)
qed

text \<open>
  The file's own content has no part in an update: what was written to it since the last reload is
  lost.
\<close>

lemma update_ignores_file:
  assumes "updateAuth E F at ty change later st = (None, st')"
  shows "\<exists>st''. updateAuth E F at ty change later (st\<lparr>cs_file := f\<rparr>) = (None, st'') \<and> cs_file st'' = cs_file st'"
  using assms
  by (auto simp: updateAuth_def installLiveConfig_def rename_to_def publish_def record_event_def
      split: sum.splits option.splits prod.splits if_splits)

subsection \<open>Reloading\<close>

lemma prepare_again:
  assumes "prepareLiveConfig E s auth = Inr new"
  shows "prepareLiveConfig E (s\<lparr>sv_auth := auth\<rparr>) auth = Inr new"
proof -
  have "validateGrantsFor (s\<lparr>sv_auth := auth\<rparr>) auth = validateGrantsFor s auth"
    by (simp add: validateGrantsFor_def cong: option.case_cong sum.case_cong)
  moreover have "reserved_mounts (s\<lparr>sv_auth := auth\<rparr>) = reserved_mounts s"
    by (simp add: reserved_mounts_def)
  then have "projection_mounts_of (s\<lparr>sv_auth := auth\<rparr>) = projection_mounts_of s"
    by (simp add: projection_mounts_of_def fun_eq_iff Let_def cong: option.case_cong)
  then have "projectionMounts (s\<lparr>sv_auth := auth\<rparr>) auth = projectionMounts s auth"
    by (simp add: projectionMounts_def)
  ultimately show ?thesis
    using assms
    by (auto simp: prepareLiveConfig_def validateLiveAuthCandidate_def Let_def split: option.splits if_splits)
qed

text \<open>
  C16. What an update has written can be loaded again: a reload of the file, later and as long as
  nothing else has changed it or the configuration, succeeds and leaves the configuration and the projections as the
  update left them. The decoding of what the encoder made of the configuration is the
  configuration, and no projected docset is named with dots.
\<close>

theorem update_survives_reload:
  assumes "updateAuth E F at ty change later st = (None, st1)"
    and "\<And>b. ce_indent E (sv_auth (cs_server st1)) = Inr b \<Longrightarrow> ce_decode E (b @ [CHR 0x0A]) = Inr (sv_auth (cs_server st1))"
    and "\<And>n ds. (n, ds) \<in> set (Docsets (sv_auth (cs_server st1))) \<Longrightarrow> Projection ds \<noteq> None \<Longrightarrow> n \<noteq> ''.'' \<and> n \<noteq> ''..''"
    and "cs_file st2 = cs_file st1" "cs_server st2 = cs_server st1" "hf_log F' = None"
  shows "\<exists>st3. reloadAuth E F' at' st2 = (None, st3) \<and> cs_server st3 = cs_server st1
     \<and> cs_projections st3 = cs_projections st1 \<and> cs_file st3 = cs_file st1 \<and> cs_base st3 = cs_base st2"
  using assms(1)
proof (cases rule: updateAuth_cases)
  case (done_ auth new b)
  have auth: "sv_auth (cs_server st1) = auth" by (simp add: done_)
  obtain raw where raw: "ValidateAuthConfig (ce_parse_key E) raw = Inr auth"
    using candidate_valid(1) [OF done_(2)] by blast
  then have n: "auth = normal_auth raw" by (simp add: ValidateAuthConfig_accepts_iff)
  have "n \<noteq> ''.'' \<and> n \<noteq> ''..''" if "(n, ds) \<in> set (Docsets raw)" "Projection ds \<noteq> None" for n ds
  proof -
    from that(1) have "(n, normal_docset n (desugar ds)) \<in> set (Docsets auth)"
      unfolding n by (force simp: normal_auth_def normal_docsets_def)
    with assms(3) [unfolded auth] that(2) show ?thesis by (metis normal_fields(1) desugar_fields(1))
  qed
  then have "ValidateAuthConfig (ce_parse_key E) auth = Inr auth"
    by (rule validated_again [OF raw])
  then have load: "LoadAuthConfig E (cs_file st2) = Inr auth"
    using assms(2) done_ auth by (simp add: LoadAuthConfig_def assms(4))
  have "prepareLiveConfig E (cs_server st2) auth = Inr new"
    using prepare_again [OF candidate_valid(2) [OF done_(2)]] by (simp add: assms(5) done_)
  with load show ?thesis
    using candidate_valid(3) [OF done_(2)] done_ assms(4-6)
    by (auto simp: reloadAuth_def installLiveConfig_def publish_def record_event_def)
qed simp

theorem update_survives_reload_witness:
  "\<exists>st1 st3. PromoteIdentity team_env no_faults operator ''ann'' [''editor''] '''' '''' [] team_state = (None, st1)
     \<and> reloadAuth team_env no_faults operator st1 = (None, st3) \<and> sv_auth (cs_server st3) = team [''editor'']"
proof -
  obtain st1 where p: "PromoteIdentity team_env no_faults operator ''ann'' [''editor''] '''' '''' [] team_state = (None, st1)"
      "cs_server st1 = (cs_server team_state)\<lparr>sv_auth := team [''editor'']\<rparr>"
    using promotion by blast
  have auth: "sv_auth (cs_server st1) = team [''editor'']" by (simp add: p(2))
  from update_survives_reload [OF p(1) [unfolded PromoteIdentity_def], of st1 no_faults operator]
  obtain st3 where "reloadAuth team_env no_faults operator st1 = (None, st3)" "cs_server st3 = cs_server st1"
    unfolding auth by (auto simp: env_fields team_fields no_faults_def)
  with p auth show ?thesis by auto
qed

end
