(* ===== verification/Config_View.thy ===== *)
theory Config_View
  imports Config_Edit
begin

text \<open>
  The view of the configuration files that a session of an administrator has at \<open>/opt/openlore\<close>
  (pkg/openlore/config_fs.go): it wraps the session's filesystem, serves the two files from the
  host and takes a new authorization file through the validation. The reads with a limit on their size are left out.
\<close>

subsection \<open>The wrapper\<close>

definition authConfigVFSPath :: string where
  "authConfigVFSPath = ''/opt/openlore/lore.json''"

definition serverConfigVFSPath :: string where
  "serverConfigVFSPath = ''/opt/openlore/openlore.yml''"

definition in_opt :: "string \<Rightarrow> bool" where
  "in_opt p \<longleftrightarrow> pathWithinRoot ''/opt'' (CleanPath p)"

definition authorized :: "identity \<Rightarrow> 's conf_state \<Rightarrow> bool" where
  "authorized i st \<longleftrightarrow> scopeGrantsWrite (Scopes i) \<and> hasCurrentCapability (cs_server st) i ''lore:config:edit''"

text \<open>The content of the host's file, if it can be read, where the path is one of the two.\<close>

definition hostFile :: "conf_env \<Rightarrow> 's conf_state \<Rightarrow> string \<Rightarrow> string option option" where
  "hostFile E st clean =
     (if clean = authConfigVFSPath then Some (cs_file st)
      else if clean = serverConfigVFSPath \<and> ce_ConfigFile E \<noteq> [] then Some (ce_ConfigText E)
      else None)"

definition opt_entry :: "string \<Rightarrow> string \<Rightarrow> bool \<Rightarrow> int \<Rightarrow> int \<Rightarrow> file_info" where
  "opt_entry name p dir n t =
     \<lparr>FileName = name, FilePath = p, Content = [], Dir = dir, FileModTime = t, FileSize = n, LinkTarget = []\<rparr>"

definition unreadable :: vfs_error where
  "unreadable = ErrNotExist []"

definition view_Stat :: "conf_env \<Rightarrow> identity \<Rightarrow> 's wfs \<Rightarrow> 's conf_state \<Rightarrow> string \<Rightarrow> file_info vres" where
  "view_Stat E i w st name =
     (let clean = CleanPath name
      in if in_opt name \<and> \<not> authorized i st then Inl (ErrPermission [])
         else if clean = ''/opt'' \<or> clean = ''/opt/openlore'' then Inr (opt_entry (path_base clean) clean True 0 0)
         else case hostFile E st clean of
                None \<Rightarrow> fs_Stat (w_fs w (cs_base st)) name
              | Some None \<Rightarrow> Inl unreadable
              | Some (Some b) \<Rightarrow> Inr (opt_entry (path_base clean) clean False (int (length b)) (ce_ModTime E)))"

definition view_ReadDir :: "conf_env \<Rightarrow> identity \<Rightarrow> 's wfs \<Rightarrow> 's conf_state \<Rightarrow> string \<Rightarrow> file_info list vres" where
  "view_ReadDir E i w st name =
     (let clean = CleanPath name; below = fs_ReadDir (w_fs w (cs_base st)) name
      in if in_opt name \<and> \<not> authorized i st then Inl (ErrPermission [])
         else if clean = ''/'' then
           (case below of
              Inl e \<Rightarrow> Inl e
            | Inr es \<Rightarrow>
                Inr (if ''opt'' \<notin> FileName ` set es \<and> authorized i st then es @ [opt_entry ''opt'' ''/opt'' True 0 0] else es))
         else if clean = ''/opt'' then Inr [opt_entry ''openlore'' ''/opt/openlore'' True 0 0]
         else if clean = ''/opt/openlore'' then
           Inr (opt_entry ''lore.json'' authConfigVFSPath False 0 0
                # (if ce_ConfigFile E = [] then [] else [opt_entry ''openlore.yml'' serverConfigVFSPath False 0 0]))
         else below)"

definition view_ReadFile :: "conf_env \<Rightarrow> identity \<Rightarrow> 's wfs \<Rightarrow> 's conf_state \<Rightarrow> string \<Rightarrow> string vres" where
  "view_ReadFile E i w st name =
     (case hostFile E st (CleanPath name) of
        None \<Rightarrow> fs_ReadFile (w_fs w (cs_base st)) name
      | Some content \<Rightarrow>
          if \<not> authorized i st then Inl (ErrPermission [])
          else case content of None \<Rightarrow> Inl unreadable | Some b \<Rightarrow> Inr b)"

text \<open>The new content of the authorization file: decoded, validated and prepared, but not installed.\<close>

definition edit_candidate :: "conf_env \<Rightarrow> server \<Rightarrow> string \<Rightarrow> conf_error option" where
  "edit_candidate E s data =
     (case ce_decode E data of
        Inl e \<Rightarrow> Some (DecodeFailed e)
      | Inr raw \<Rightarrow>
          (case ValidateAuthConfig (ce_parse_key E) raw of
             Inl e \<Rightarrow> Some (InvalidConfig e)
           | Inr auth \<Rightarrow> (case prepareLiveConfig E s auth of Inl e \<Rightarrow> Some e | Inr _ \<Rightarrow> None)))"

definition edit_auth_file ::
  "conf_env \<Rightarrow> host_faults \<Rightarrow> identity \<Rightarrow> attribution \<Rightarrow> string \<Rightarrow> string \<Rightarrow> write_opts \<Rightarrow> 's conf_state
     \<Rightarrow> string vres \<times> 's conf_state" where
  "edit_auth_file E F i at name data opts st =
     (if \<not> authorized i st then (Inl (ErrPermission []), st)
      else case cs_file st of
             None \<Rightarrow> (Inl unreadable, st)
           | Some current \<Rightarrow>
               if IfNoneMatch opts \<or> (\<exists>h. IfMatch opts = Some h \<and> h \<noteq> ce_sha E current)
               then (Inl (PreconditionError name (ce_sha E current)), st)
               else case edit_candidate E (cs_server st) data of
                      Some e \<Rightarrow> (Inl (OtherError (ce_text E e)), record_event ''config.reject'' at (Some (ce_text E e)) st)
                    | None \<Rightarrow>
                        (case (hf_write F, hf_rename F) of
                           (Some e, _) \<Rightarrow> (Inl (OtherError e), st)
                         | (None, Some e) \<Rightarrow> (Inl (OtherError e), st)
                         | (None, None) \<Rightarrow>
                             (Inr (ce_sha E data), record_event ''config.edit'' at None (st\<lparr>cs_file := Some data\<rparr>))))"

definition on_base :: "('s \<Rightarrow> 'r \<times> 's) \<Rightarrow> 's conf_state \<Rightarrow> 'r \<times> 's conf_state" where
  "on_base f st = apsnd (\<lambda>s. st\<lparr>cs_base := s\<rparr>) (f (cs_base st))"

definition outside_opt :: "string \<Rightarrow> 's op \<Rightarrow> 's conf_state op" where
  "outside_opt p f st = (if in_opt p then (Some (ErrReadOnly []), st) else on_base f st)"

definition view_WriteFileAtomic ::
  "conf_env \<Rightarrow> host_faults \<Rightarrow> identity \<Rightarrow> attribution \<Rightarrow> 's wfs \<Rightarrow> string \<Rightarrow> string \<Rightarrow> write_opts \<Rightarrow> 's conf_state
     \<Rightarrow> string vres \<times> 's conf_state" where
  "view_WriteFileAtomic E F i at w name data opts st =
     (if CleanPath name = authConfigVFSPath then edit_auth_file E F i at name data opts st
      else if in_opt name then (Inl (ErrReadOnly []), st)
      else on_base (w_WriteFileAtomic w name data opts) st)"

definition view_CanWrite :: "identity \<Rightarrow> (string \<Rightarrow> bool) option \<Rightarrow> 's conf_state \<Rightarrow> string \<Rightarrow> bool" where
  "view_CanWrite i scope st name \<longleftrightarrow>
     (if CleanPath name = authConfigVFSPath then authorized i st
      else \<not> in_opt name \<and> (case scope of None \<Rightarrow> True | Some can \<Rightarrow> can name))"

definition view_AdmitChangeSet :: "'s wfs \<Rightarrow> changeset \<Rightarrow> 's conf_state op" where
  "view_AdmitChangeSet w cs st =
     (case w_admitter w of
        None \<Rightarrow> (Some ENOTSUP, st)
      | Some admit \<Rightarrow>
          if \<exists>c \<in> set (Leaves cs). in_opt (Target c) then (Some (ErrReadOnly []), st) else on_base (admit cs) st)"

definition configViewFS :: "conf_env \<Rightarrow> host_faults \<Rightarrow> identity \<Rightarrow> attribution \<Rightarrow> 's wfs \<Rightarrow> 's conf_state wfs" where
  "configViewFS E F i at w =
     \<lparr>w_fs = (\<lambda>st. \<lparr>fs_Stat = view_Stat E i w st, fs_ReadDir = view_ReadDir E i w st, fs_ReadFile = view_ReadFile E i w st\<rparr>),
      w_WriteFileAtomic = view_WriteFileAtomic E F i at w,
      w_Mkdir = (\<lambda>p. outside_opt p (w_Mkdir w p)),
      w_MkdirAll = (\<lambda>p. outside_opt p (w_MkdirAll w p)),
      w_Remove = (\<lambda>p. outside_opt p (w_Remove w p)),
      w_RemoveAll = (\<lambda>p opts. outside_opt p (w_RemoveAll w p opts)),
      w_xattr_reader = Some
        \<lparr>x_GetXattr = (\<lambda>p n st. if in_opt p then Inl ENOTSUP
           else case w_xattr_reader w of None \<Rightarrow> Inl ENOTSUP | Some x \<Rightarrow> x_GetXattr x p n (cs_base st)),
         x_ListXattrs = (\<lambda>p st. if in_opt p then Inl ENOTSUP
           else case w_xattr_reader w of None \<Rightarrow> Inl ENOTSUP | Some x \<Rightarrow> x_ListXattrs x p (cs_base st))\<rparr>,
      w_xattr_writer = Some
        \<lparr>x_SetXattr = (\<lambda>p n v f. outside_opt p
           (\<lambda>s. case w_xattr_writer w of None \<Rightarrow> unsupported s | Some x \<Rightarrow> x_SetXattr x p n v f s)),
         x_RemoveXattr = (\<lambda>p n. outside_opt p
           (\<lambda>s. case w_xattr_writer w of None \<Rightarrow> unsupported s | Some x \<Rightarrow> x_RemoveXattr x p n s))\<rparr>,
      w_xattr_maintenance = Some
        \<lparr>x_PreserveAndRecreateXattrs = (\<lambda>p a. outside_opt p
           (\<lambda>s. case w_xattr_maintenance w of None \<Rightarrow> unsupported s | Some x \<Rightarrow> x_PreserveAndRecreateXattrs x p a s)),
         x_MigrateXattrs = (\<lambda>p m. outside_opt p
           (\<lambda>s. case w_xattr_maintenance w of None \<Rightarrow> unsupported s | Some x \<Rightarrow> x_MigrateXattrs x p m s))\<rparr>,
      w_admitter = Some (view_AdmitChangeSet w),
      w_preflight = None\<rparr>"

subsection \<open>What can happen to the configuration\<close>

lemma view_mutate:
  "mutate (configViewFS E F i at w) m st =
     (case m of
        MWrite p d opts \<Rightarrow> view_WriteFileAtomic E F i at w p d opts st
      | _ \<Rightarrow> if in_opt (m_target m) then (Inl (ErrReadOnly []), st) else on_base (mutate w m) st)"
  by (cases m)
     (auto simp: configViewFS_def outside_opt_def on_base_def no_hash_def unsupported_def split: option.splits prod.splits)

lemma mutate_write [simp]: "mutate w (MWrite p d opts) = w_WriteFileAtomic w p d opts"
  by (simp add: fun_eq_iff)

lemma auth_path_in_opt: "CleanPath p = authConfigVFSPath \<Longrightarrow> in_opt p"
proof -
  assume "CleanPath p = authConfigVFSPath"
  then have "in_opt p \<longleftrightarrow> pathWithinRoot ''/opt'' authConfigVFSPath" by (simp add: in_opt_def)
  moreover have "pathWithinRoot ''/opt'' authConfigVFSPath" by code_simp
  ultimately show ?thesis by simp
qed

lemma edit_cases:
  assumes "edit_auth_file E F i at name data opts st = (r, st')"
  obtains (refused) e where "r = Inl e" "st' = st" | (rejected) e err where "r = Inl e" "st' = record_event ''config.reject'' at (Some err) st"
  | (edited) current where "r = Inr (ce_sha E data)" "authorized i st" "cs_file st = Some current" "\<not> IfNoneMatch opts"
      "\<And>h. IfMatch opts = Some h \<Longrightarrow> h = ce_sha E current" "edit_candidate E (cs_server st) data = None"
      "st' = record_event ''config.edit'' at None (st\<lparr>cs_file := Some data\<rparr>)"
proof -
  have "(\<exists>e. r = Inl e) \<and> st' = st \<or> (\<exists>e err. r = Inl e \<and> st' = record_event ''config.reject'' at (Some err) st)
    \<or> (\<exists>current. r = Inr (ce_sha E data) \<and> authorized i st \<and> cs_file st = Some current \<and> \<not> IfNoneMatch opts
         \<and> (\<forall>h. IfMatch opts = Some h \<longrightarrow> h = ce_sha E current) \<and> edit_candidate E (cs_server st) data = None
         \<and> st' = record_event ''config.edit'' at None (st\<lparr>cs_file := Some data\<rparr>))"
    using assms by (simp add: edit_auth_file_def split: if_splits option.splits) blast+
  then show thesis using refused rejected edited by blast
qed

text \<open>
  C14. Whatever an administrator's session does through the view, the configuration in force stays as it is,
  and the authorization file changes only by a write to its own path, by an identity that holds the
  capability at that moment, over the content the write names if it names one, with content that decodes, validates and
  is fit to be installed; the rest of the filesystem changes only by mutations outside of \<open>/opt\<close>,
  which are those of the session's own filesystem.
\<close>

theorem config_view_guards:
  assumes "mutate (configViewFS E F i at w) m st = (r, st')"
  shows "cs_server st' = cs_server st \<and> cs_projections st' = cs_projections st
    \<and> (cs_file st' = cs_file st
       \<or> (\<exists>p data opts current. m = MWrite p data opts \<and> CleanPath p = authConfigVFSPath \<and> authorized i st
            \<and> cs_file st = Some current \<and> \<not> IfNoneMatch opts \<and> IfMatch opts \<in> {None, Some (ce_sha E current)}
            \<and> edit_candidate E (cs_server st) data = None \<and> cs_file st' = Some data \<and> r = Inr (ce_sha E data)
            \<and> cs_base st' = cs_base st))
    \<and> (cs_base st' = cs_base st \<or> \<not> in_opt (m_target m) \<and> mutate w m (cs_base st) = (r, cs_base st'))"
proof (cases "\<exists>p data opts. m = MWrite p data opts \<and> CleanPath p = authConfigVFSPath")
  case True
  then obtain p data opts where m: "m = MWrite p data opts" "CleanPath p = authConfigVFSPath" by blast
  have "edit_auth_file E F i at p data opts st = (r, st')"
    using assms unfolding view_mutate by (simp add: m view_WriteFileAtomic_def)
  then show ?thesis
  proof (cases rule: edit_cases)
    case (edited current)
    then have "IfMatch opts \<in> {None, Some (ce_sha E current)}" by (cases "IfMatch opts") auto
    with edited m show ?thesis by (simp add: record_event_def)
  qed (simp_all add: record_event_def)
next
  case False
  have "(if in_opt (m_target m) then (Inl (ErrReadOnly []), st) else on_base (mutate w m) st) = (r, st')"
    using assms False unfolding view_mutate
    by (cases m) (auto simp: view_WriteFileAtomic_def)
  then show ?thesis
    by (cases "mutate w m (cs_base st)") (auto simp: on_base_def split: if_splits)
qed

text \<open>A batch that touches \<open>/opt\<close> changes nothing.\<close>

lemma config_view_batch:
  assumes "view_AdmitChangeSet w cs st = (e, st')"
  shows "cs_server st' = cs_server st \<and> cs_file st' = cs_file st
    \<and> (cs_base st' = cs_base st \<or> (\<forall>c \<in> set (Leaves cs). \<not> in_opt (Target c)))"
  using assms by (auto simp: view_AdmitChangeSet_def on_base_def apsnd_def map_prod_def split: option.splits if_splits prod.splits)

text \<open>An edit that is accepted can be loaded: the next reload puts it in force.\<close>

lemma edit_then_reload:
  assumes "edit_candidate E (cs_server st) data = None" "cs_file st = Some data" "hf_log F = None"
  shows "\<exists>raw auth st'. ce_decode E data = Inr raw \<and> ValidateAuthConfig (ce_parse_key E) raw = Inr auth
    \<and> reloadAuth E F at st = (None, st') \<and> cs_server st' = (cs_server st)\<lparr>sv_auth := auth\<rparr>"
proof -
  from assms(1) obtain raw auth new where "ce_decode E data = Inr raw" "ValidateAuthConfig (ce_parse_key E) raw = Inr auth"
      "prepareLiveConfig E (cs_server st) auth = Inr new"
    by (auto simp: edit_candidate_def split: sum.splits)
  moreover from this(3) have "lc_auth new = auth"
    by (auto simp: prepareLiveConfig_def split: option.splits sum.splits)
  ultimately show ?thesis
    using assms(2,3)
    by (auto simp: reloadAuth_def LoadAuthConfig_def installLiveConfig_def publish_def record_event_def)
qed

subsection \<open>An administrator's edit\<close>

definition admin_policy :: policy where
  "admin_policy = \<lparr>po_IdentityName = ''ann'', po_Roles = [''editor''], po_HomeDocset = '''', po_DenyDocsets = [],
     po_DenyCapabilities = []\<rparr>"

definition admin :: identity where
  "admin = (anonymousIdentity False)\<lparr>IdentityName := ''ann'', Scopes := [ScopeFull]\<rparr>"

definition admin_state :: "unit conf_state" where
  "admin_state = team_state\<lparr>cs_server := sample_server\<lparr>
     sv_auth := (team [])\<lparr>ac_Roles := [(''editor'', \<lparr>rs_Allow = \<lparr>Capabilities = [''lore:config:edit'']\<rparr>, rs_Deny = no_rules\<rparr>)]\<rparr>,
     store := CustomStore (\<lambda>p. Inr admin_policy)\<rparr>\<rparr>"

lemma admin_authorized: "authorized admin admin_state"
  by code_simp

lemma admin_candidate: "edit_candidate team_env (cs_server admin_state) ''1'' = None"
proof -
  have "validateLiveAuthCandidate (cs_server admin_state) (team [''editor'']) = None"
    by code_simp
  moreover have "projectionMounts (cs_server admin_state) (team [''editor'']) = Inr []"
    by (simp add: projectionMounts_def team_fields)
  moreover have "ce_rules team_env a = None" "ce_scopes team_env a = None" for a
    by (simp_all add: team_env_def)
  ultimately show ?thesis
    using team_valid [of "[''editor'']"] by (simp add: edit_candidate_def env_fields prepareLiveConfig_def)
qed

theorem config_view_guards_witness:
  "\<forall>w. \<exists>st'. mutate (configViewFS team_env no_faults admin operator w)
        (MWrite ''/opt/openlore/lore.json'' ''1'' \<lparr>IfMatch = Some ''0'', IfNoneMatch = False, ContentPolicyValidated = False\<rparr>) admin_state = (Inr ''1'', st')
     \<and> cs_file st' = Some ''1'' \<and> sv_auth (cs_server st') = sv_auth (cs_server admin_state)"
proof
  fix w
  let ?m = "MWrite ''/opt/openlore/lore.json'' ''1'' \<lparr>IfMatch = Some ''0'', IfNoneMatch = False, ContentPolicyValidated = False\<rparr>"
  have "CleanPath ''/opt/openlore/lore.json'' = authConfigVFSPath" by code_simp
  moreover have "cs_file admin_state = Some ''0''" "ce_sha team_env = (\<lambda>b. b)" "hf_write no_faults = None" "hf_rename no_faults = None"
    by (simp_all add: admin_state_def team_state_def team_env_def no_faults_def)
  ultimately obtain st' where st': "mutate (configViewFS team_env no_faults admin operator w) ?m admin_state = (Inr ''1'', st')"
      "cs_file st' = Some ''1''"
    unfolding view_mutate
    by (simp add: view_WriteFileAtomic_def edit_auth_file_def admin_authorized admin_candidate record_event_def)
  with config_view_guards [OF st'(1)] show "\<exists>st'. mutate (configViewFS team_env no_faults admin operator w) ?m admin_state = (Inr ''1'', st')
     \<and> cs_file st' = Some ''1'' \<and> sv_auth (cs_server st') = sv_auth (cs_server admin_state)"
    by auto
qed

end
