(* ===== verification/Spec2Isabelle.thy ===== *)
theory Spec2Isabelle
  imports Session_Fs Tree_Delete Delegation Oauth_Tokens Write_Log History_Index Merge_Fs Overlay_Fs
    Shell_Depth Shell_Lines Shell_Updates Spawn Config_View
begin

text \<open>
  OpenLore is a Go server that publishes \<^emph>\<open>docsets\<close> of documents to people and agents through a
  filesystem interface. This development models the code that decides what a session may read
  and write, how a write reaches the disk, and what is kept of it.

  \<^bold>\<open>How the parts fit.\<close> A request authenticates to an \<^emph>\<open>identity\<close> (Identity, Oauth). From the
  configuration (Config) the authorizer computes the identity's policy and the grants it holds
  on each docset (Grants, Authz), finds the docset that governs a path (Governance), and
  decides each operation (Write_Authz). A session sees the filesystem through a stack
  (Session_Fs): aliases are resolved, reads are confined to the readable roots (Scoped_Read),
  every mutation becomes a \<^emph>\<open>change set\<close> (Changeset) that is authorized as a whole. The change
  set enters the ordered \<^emph>\<open>write log\<close> (Write_Log), whose single applier captures pre-images
  (Pre_Images), commits it (Commit) to the backend and records it (History). The backend is
  the \<^emph>\<open>merge filesystem\<close> (Merge_Fs), which routes each path to a mounted backend, such as a
  directory of the host (Dir_Fs), or a directory over a read-only layer (Overlay_Fs). What a
  session types is a line of the server's own \<^emph>\<open>shell\<close>, parsed (Shell_Parser) and executed
  (Shell_Exec) over that stack; a command may be sent to the background as a \<^emph>\<open>job\<close> (Jobs) whose
  output comes back through the same stack. An administrator changes the configuration while the
  server runs (Config_Edit), or edits its file through a view of it at \<open>/opt\<close> (Config_View); both go
  through the validation (Auth_Config).

  \<^bold>\<open>Conventions.\<close> A Go string is a list of bytes, Isabelle's \<open>string\<close>. An error is a value: a
  fallible result is a sum whose left side is the error (\<open>vfs_error\<close> of Vfs, or a component's
  own datatype); an operation that changes state takes it and returns it. An interface is a
  record of its methods; an optional interface, which the code finds by a type assertion, is an
  optional field. A Go map is a map, or an association list where the code ranges over it; a
  result that could depend on the order of iteration takes the list as an argument and the
  lemmas say whether it matters. A 64-bit version is a word.

  \<^bold>\<open>The theories, and the code they model.\<close>

  \<^item> Prelude: strings, association lists, the locale \<open>best_choice\<close> of loops that keep the best
    element seen so far, with its lemmas.
  \<^item> Vfs_Path, Vfs (pkg/vfs/vfs.go): \<open>CleanPath\<close>, comparisons with a root, file information,
    errors, the read interface \<open>fs\<close>, the walk.
  \<^item> Writable_Fs: the interface \<open>WritableFS\<close> with its optional interfaces, a record \<open>wfs\<close> over
    the backend's state.
  \<^item> Changeset, Commit (pkg/vfs/changeset.go): changes and their validation; the commit of one
    change, of a batch with snapshots, and the rollback.
  \<^item> Config, Grants, Identity, Authz, Governance, Write_Authz, Scoped_Read (internal/config,
    pkg/openlore/grants.go, identity.go, identitystore.go, authorization_store.go, authz.go,
    live_config.go): the authorizer. The record \<open>server\<close> holds the fields it reads.
  \<^item> Tree_Delete, Delegation: what holds of a tree's removal and of delegated authority.
  \<^item> Session_Fs (middleware_fs.go, scoped_write_fs.go, alias_fs.go and
    \<open>buildCanonicalRawSessionFS\<close> of server.go): the session's stack.
  \<^item> Refresh_Store (refreshstore.go), Oauth_Clients (clientstore.go, registration.go, cimd.go,
    client_auth.go), Oauth (tokenendpoint.go, authorize.go): the OAuth server. Oauth_Codes and
    Oauth_Tokens follow codes and refresh tokens over all sequences of requests.
  \<^item> Pre_Images (history_blobs.go, writelog.go), Write_Log (writelog.go), History and
    History_Index (history.go): the write log, its records, and the history's queries.
  \<^item> Merge_Fs (vfs.go): mounting and routing.
  \<^item> Host: the calls of Go's \<open>os\<close> package that \<open>DirFS\<close> makes, over a tree of paths. Dir_Fs,
    Dir_Writes, Dir_Removal (vfs.go): \<open>DirFS\<close>, its writes and its removals.
  \<^item> Overlay_Fs (overlay_fs.go): the overlay.
  \<^item> Go_Strings: white space, decimal numbers and UTF-8, as Go's standard library has them.
  \<^item> Shell_Ast, Shell_Lexer, Shell_Words, Shell_Parser (pkg/shell/parser): trees, tokens, words and
    the grammar. A result is an \<open>outcome\<close>: a value, an error, a run-time panic, or unfinished.
    The parser's recursion through substitutions and lists is tied at a depth; Shell_Totality,
    Shell_Depth and Shell_Panics show that the source's length is deep enough and which sources
    panic, Shell_Wellformed what the trees look like.
  \<^item> Shell_Actions (cmds/actions.go, the options of cmds/sed.go), Shell_Glob and Shell_Exec
    (shell.go): the gate on classes of commands, globbing, expansion and the execution of every
    tree. The registered commands are functions on the session's state, an argument. Shell_Quoting
    (completion.go) is the quoting of completions; Shell_Runs, Shell_Gate and Shell_Lines hold what
    is shown of executions.
  \<^item> Session_Reads (read_chain_fs.go, read_tracking_fs.go, read_transform_fs.go, and the construction
    of a session in server.go): the read side of a session and its whole stack, \<open>session_sfs\<close>.
    Shell_Write (cmds/write.go): the writes of the shell's commands over it; \<open>env\<close> is what other
    sessions do between the calls of a command. Shell_Updates: what concurrent sessions may rely on.
  \<^item> Auth_Config (internal/config/config.go, sources.go, pkg/rules): the validation of the
    authorization file; Auth_Valid holds what it accepts. Config_Edit (config_management.go,
    live_config.go): changes of the configuration in force and the reload of its file. Config_View
    (config_fs.go): the view of the files in a session.
  \<^item> Jobs (jobs.go): the pool of background jobs, whose goroutines are explicit, and the listing at
    \<open>/jobs\<close>. Job_Runs follows it over all interleavings. Spawn (cmds/spawn.go): the command that
    submits a job, and what becomes of its output.

  \<^bold>\<open>What the lemmas show.\<close>

  \<^item> Authorization: which conditions together let a write through, as an equivalence over every
    gate; the guest writes nothing; a delegate never exceeds the roles and docsets of its
    entry; the choice of the governing docset is that of the longest root.
  \<^item> Confinement: a mutation through a session's stack reaches the backend only at the canonical
    path and only when all of it is authorized; a read outside the readable roots does not
    depend on what is stored there; a batch is admitted whole or not at all.
  \<^item> Commit: a batch that fails is rolled back from a snapshot that covers every changed path.
  \<^item> Log: the applier applies the submissions in their order whatever the interleaving
    (a refinement of a sequential run), a closed log drains; every overwritten content is kept
    as a blob and can be recovered.
  \<^item> History: a query returns exactly the matching records of the session's scope, a page at a
    time, and a path's shard answers what a scan of the journal would.
  \<^item> OAuth: codes are used once and only by whom they were issued to, refresh tokens rotate with
    one live token to a chain and keep their authority, assertions are not replayed.
  \<^item> Storage: the merge filesystem routes by the longest mount and a mutation stays in it; a write
    to a directory is atomic; a removed tree is gone, and held nothing hidden; the overlay
    compares with, reads back and removes what a reader sees.
  \<^item> Shell: every source is parsed to an end, into a well-formed tree; a line ends if its commands
    do, a loop after ten thousand turns; what the session may not run or write has no part in a
    line's outcome; a line of quoted values is one call of exactly those values.
  \<^item> Concurrent sessions: an overwrite replaces only what its session has seen, and an append
    extends the content of the moment it is committed.
  \<^item> Configuration: the validation accepts exactly the files whose names are proper and whose
    references resolve, whatever the order of its maps; a change is made in the file and in force
    or in neither, and what it wrote can be loaded again; in a session only an edit of the file by
    an identity with the capability, over the content it names, has any effect.
  \<^item> Jobs: the report of a job is what happened to it, the output of a job shown as done has reached
    its target whole, no more than the configured number run at once, and the pool drains.

  \<^bold>\<open>Interfaces.\<close> Contracts between components are locales, each interpreted on the model's own
  definitions: \<open>best_choice\<close> (the loops of Governance, Scoped_Read and Merge_Fs),
  \<open>grant_registry\<close> (the built-in registry and the one with the inbox's grant),
  \<open>refresh_token_store\<close> (the token endpoint rests on its laws, the file store satisfies them),
  \<open>paged_store\<close> (the pages of a query over the journal's file), \<open>parse_run\<close> (a predicate on the
  parser's states that every step keeps; for ending and for not panicking), \<open>cas_store\<close> (a store
  that compares and swaps: the shell's writes rest on it, a directory satisfies it and every layer
  of a session keeps it).

  \<^bold>\<open>Loops and bounds.\<close> A walk over a backend may never end if the backend keeps inventing
  entries; \<open>walk_list\<close>, \<open>climb\<close>, \<open>capture_list\<close> and \<open>follow\<close> are partial functions into options,
  \<open>None\<close> being a walk that does not return. \<open>followMoves_ends\<close> shows that following moves
  through the recorded shards returns. The collection of pages in History takes the number of
  records as fuel, and each page but the last shrinks what is left, so that is enough.

  \<^bold>\<open>Not modelled.\<close> Cryptography (hashes, signatures, random tokens), URL, JSON and YAML parsing,
  HTTP, DNS and the clock are parameters; a hypothesis on them (that a digest is injective, that
  a token is fresh) is stated where it is used. The host's files are a tree without symbolic
  links on which only the server acts. Locks are taken to give the atomicity they are there for;
  the write log is the one part whose interleavings are explicit. Attribute storage, the
  journal's rotation, migration and garbage collection, and the exact text of most error
  messages are left out. What a job's command does on the host is an argument, and so are its
  deadline and the deadline of its write-back, which the code does not enforce. The network front
  ends, the dashboard, analytics, the shell's text utilities and the command-line programs are not
  modelled: they are glue over third-party libraries or independent of the server's state. The
  document store and its projections, the inbox's intake, the consent pages and the rules' checks
  of documents' content are not modelled either.
\<close>

end
